(* ===== verification/Prelude.thy ===== *)
theory Prelude
  imports Main "HOL-Library.Word"
begin

text \<open>
  Shared vocabulary of the development.

  \<^item> bytes are 8-bit words, a \<open>signal_buffer\<close> or \<open>uint8_t *\<close> plus length is a byte list;
  \<^item> a C function that returns an \<open>int\<close> status and fills an out parameter is a function
    \<open>world \<Rightarrow> 'a res \<times> world\<close>: \<open>Ok x\<close> for a non-negative status with the out parameter, \<open>Err e\<close> for
    the negative status \<open>e\<close>, and \<open>Fault\<close> for what C leaves undefined or what an \<open>assert\<close> stops
    (null dereference, out-of-bounds read, use of an unset pointer) and for a loop that never ends;
  \<^item> the world holds the outcomes of the coming \<open>malloc\<close> calls and the two \<open>user_data\<close> objects
    of the embedding application, the one of the crypto provider and the one of the stores.

  A weakest-precondition reading \<open>wp\<close> of such functions and three compositional predicates
  (\<open>yields\<close>, \<open>keeps_store\<close>, \<open>no_fault\<close>) carry the proofs of all components.
\<close>

named_theorems wp_rules \<open>weakest preconditions of the building blocks\<close>
named_theorems yields_rules \<open>results of operations when every allocation succeeds\<close>
named_theorems keeps_rules \<open>operations that leave the stores alone\<close>
named_theorems fault_rules \<open>operations that never reach undefined behaviour\<close>

type_synonym byte = "8 word"
type_synonym bytes = "byte list"

datatype 'a res = Ok 'a | Err int | Fault

record ('c, 's) world =
  allocs :: "bool list"
  crypto_data :: 'c
  store_data :: 's

type_synonym ('c, 's, 'a) M = "('c, 's) world \<Rightarrow> 'a res \<times> ('c, 's) world"

section \<open>Status codes of signal\_protocol.h\<close>

definition SG_ERR_NOMEM :: int where "SG_ERR_NOMEM = -12"
definition SG_ERR_INVAL :: int where "SG_ERR_INVAL = -22"
definition SG_ERR_UNKNOWN :: int where "SG_ERR_UNKNOWN = -1000"
definition SG_ERR_DUPLICATE_MESSAGE :: int where "SG_ERR_DUPLICATE_MESSAGE = -1001"
definition SG_ERR_INVALID_KEY :: int where "SG_ERR_INVALID_KEY = -1002"
definition SG_ERR_INVALID_KEY_ID :: int where "SG_ERR_INVALID_KEY_ID = -1003"
definition SG_ERR_INVALID_MAC :: int where "SG_ERR_INVALID_MAC = -1004"
definition SG_ERR_INVALID_MESSAGE :: int where "SG_ERR_INVALID_MESSAGE = -1005"
definition SG_ERR_INVALID_VERSION :: int where "SG_ERR_INVALID_VERSION = -1006"
definition SG_ERR_LEGACY_MESSAGE :: int where "SG_ERR_LEGACY_MESSAGE = -1007"
definition SG_ERR_NO_SESSION :: int where "SG_ERR_NO_SESSION = -1008"
definition SG_ERR_STALE_KEY_EXCHANGE :: int where "SG_ERR_STALE_KEY_EXCHANGE = -1009"
definition SG_ERR_UNTRUSTED_IDENTITY :: int where "SG_ERR_UNTRUSTED_IDENTITY = -1010"
definition SG_ERR_VRF_SIG_VERIF_FAILED :: int where "SG_ERR_VRF_SIG_VERIF_FAILED = -1011"
definition SG_ERR_INVALID_PROTO_BUF :: int where "SG_ERR_INVALID_PROTO_BUF = -1100"
definition SG_ERR_FP_VERSION_MISMATCH :: int where "SG_ERR_FP_VERSION_MISMATCH = -1200"
definition SG_ERR_FP_IDENT_MISMATCH :: int where "SG_ERR_FP_IDENT_MISMATCH = -1201"

lemmas sg_err_defs =
  SG_ERR_NOMEM_def SG_ERR_INVAL_def SG_ERR_UNKNOWN_def SG_ERR_DUPLICATE_MESSAGE_def
  SG_ERR_INVALID_KEY_def SG_ERR_INVALID_KEY_ID_def SG_ERR_INVALID_MAC_def
  SG_ERR_INVALID_MESSAGE_def SG_ERR_INVALID_VERSION_def SG_ERR_LEGACY_MESSAGE_def
  SG_ERR_NO_SESSION_def SG_ERR_STALE_KEY_EXCHANGE_def SG_ERR_UNTRUSTED_IDENTITY_def
  SG_ERR_VRF_SIG_VERIF_FAILED_def SG_ERR_INVALID_PROTO_BUF_def
  SG_ERR_FP_VERSION_MISMATCH_def SG_ERR_FP_IDENT_MISMATCH_def

section \<open>Sizes of nested lists\<close>

lemma size_in_slot [termination_simp]:
  assumes "(f, vs) \<in> set (zip fs slots)" and "v \<in> set vs"
  shows "s v < Suc (size_list (size_list s) slots)"
proof -
  have "vs \<in> set slots" using assms(1) by (rule set_zip_rightD)
  then have "size_list s vs \<le> size_list (size_list s) slots"
    by (rule size_list_estimation') simp
  moreover have "s v \<le> size_list s vs"
    using assms(2) by (rule size_list_estimation') simp
  ultimately show ?thesis by simp
qed

lemma size_in_zip [termination_simp]: "(f, x) \<in> set (zip fs ys) \<Longrightarrow> s f < Suc (size_list s fs)"
  by (meson le_imp_less_Suc order_refl set_zip_leftD size_list_estimation')

section \<open>Sequencing of fallible operations\<close>

definition returnE :: "'a \<Rightarrow> 'w \<Rightarrow> 'a res \<times> 'w" where
  "returnE x w = (Ok x, w)"

definition failE :: "int \<Rightarrow> 'w \<Rightarrow> 'a res \<times> 'w" where
  "failE e w = (Err e, w)"

definition faultE :: "'w \<Rightarrow> 'a res \<times> 'w" where
  "faultE w = (Fault, w)"

definition bindE :: "('w \<Rightarrow> 'a res \<times> 'w) \<Rightarrow> ('a \<Rightarrow> 'w \<Rightarrow> 'b res \<times> 'w) \<Rightarrow> 'w \<Rightarrow> 'b res \<times> 'w" where
  "bindE m f w = (case m w of
      (Ok x, w') \<Rightarrow> f x w'
    | (Err e, w') \<Rightarrow> (Err e, w')
    | (Fault, w') \<Rightarrow> (Fault, w'))"

definition thenE :: "('w \<Rightarrow> 'a res \<times> 'w) \<Rightarrow> ('w \<Rightarrow> 'b res \<times> 'w) \<Rightarrow> 'w \<Rightarrow> 'b res \<times> 'w" where
  "thenE m k = bindE m (\<lambda>_. k)"

text \<open>A check of the source: \<open>if(!b) { result = e; goto complete; }\<close>, and an \<open>assert\<close>.\<close>

definition guardE :: "bool \<Rightarrow> int \<Rightarrow> 'w \<Rightarrow> unit res \<times> 'w" where
  "guardE b e = (if b then returnE () else failE e)"

definition assertE :: "bool \<Rightarrow> 'w \<Rightarrow> unit res \<times> 'w" where
  "assertE b = (if b then returnE () else faultE)"

text \<open>Reading a pointer that the source does not check: null is undefined behaviour.\<close>

definition derefE :: "'a option \<Rightarrow> 'w \<Rightarrow> 'a res \<times> 'w" where
  "derefE p = (case p of None \<Rightarrow> faultE | Some x \<Rightarrow> returnE x)"

text \<open>The code after the label \<open>complete:\<close> runs after success and after every error.\<close>

definition finallyE :: "('w \<Rightarrow> 'a res \<times> 'w) \<Rightarrow> ('w \<Rightarrow> unit res \<times> 'w) \<Rightarrow> 'w \<Rightarrow> 'a res \<times> 'w" where
  "finallyE m c w = (case m w of
      (Fault, w') \<Rightarrow> (Fault, w')
    | (r, w') \<Rightarrow> (case c w' of
          (Ok _, w'') \<Rightarrow> (r, w'')
        | (_, w'') \<Rightarrow> (Fault, w'')))"

text \<open>Running an operation and looking at its status instead of passing an error on.\<close>

definition tryE :: "('w \<Rightarrow> 'a res \<times> 'w) \<Rightarrow> (int \<Rightarrow> 'w \<Rightarrow> 'b res \<times> 'w) \<Rightarrow> ('a \<Rightarrow> 'w \<Rightarrow> 'b res \<times> 'w)
    \<Rightarrow> 'w \<Rightarrow> 'b res \<times> 'w" where
  "tryE m h f w = (case m w of
      (Ok x, w') \<Rightarrow> f x w'
    | (Err e, w') \<Rightarrow> h e w'
    | (Fault, w') \<Rightarrow> (Fault, w'))"

primrec mapE :: "('a \<Rightarrow> 'w \<Rightarrow> 'b res \<times> 'w) \<Rightarrow> 'a list \<Rightarrow> 'w \<Rightarrow> 'b list res \<times> 'w" where
  "mapE f [] = returnE []"
| "mapE f (x # xs) = bindE (f x) (\<lambda>y. bindE (mapE f xs) (\<lambda>ys. returnE (y # ys)))"

primrec foldE :: "('a \<Rightarrow> 'b \<Rightarrow> 'w \<Rightarrow> 'b res \<times> 'w) \<Rightarrow> 'a list \<Rightarrow> 'b \<Rightarrow> 'w \<Rightarrow> 'b res \<times> 'w" where
  "foldE f [] acc = returnE acc"
| "foldE f (x # xs) acc = bindE (f x acc) (\<lambda>acc'. foldE f xs acc')"

text \<open>One \<open>malloc\<close>: the next recorded outcome, success once the record is used up.\<close>

definition try_alloc :: "('c, 's, bool) M" where
  "try_alloc w = (case allocs w of
      [] \<Rightarrow> (Ok True, w)
    | b # bs \<Rightarrow> (Ok b, w\<lparr>allocs := bs\<rparr>))"

definition alloc :: "('c, 's, unit) M" where
  "alloc = bindE try_alloc (\<lambda>b. guardE b SG_ERR_NOMEM)"

text \<open>An optional member: nothing happens when it is absent.\<close>

definition optE :: "('a \<Rightarrow> 'w \<Rightarrow> 'b res \<times> 'w) \<Rightarrow> 'a option \<Rightarrow> 'w \<Rightarrow> 'b option res \<times> 'w" where
  "optE f x = (case x of None \<Rightarrow> returnE None | Some v \<Rightarrow> bindE (f v) (\<lambda>y. returnE (Some y)))"

text \<open>The doubly linked lists of utlist.h are lists.  A search loop stops at the first match; a pointer
  to a node is its position.  A bounded list drops its head while it is too long.\<close>

fun dl_search :: "('a \<Rightarrow> bool) \<Rightarrow> 'a list \<Rightarrow> nat option" where
  "dl_search P [] = None"
| "dl_search P (x # xs) = (if P x then Some 0 else map_option Suc (dl_search P xs))"

fun dl_trim :: "nat \<Rightarrow> 'a list \<Rightarrow> 'a list" where
  "dl_trim bound xs = (if length xs > bound then dl_trim bound (tl xs) else xs)"

definition dl_delete :: "nat \<Rightarrow> 'a list \<Rightarrow> 'a list" where
  "dl_delete i xs = take i xs @ drop (Suc i) xs"

declare dl_trim.simps [simp del]

section \<open>Weakest preconditions\<close>

definition wp :: "('w \<Rightarrow> 'a res \<times> 'w) \<Rightarrow> ('a \<Rightarrow> 'w \<Rightarrow> bool) \<Rightarrow> 'w \<Rightarrow> bool" where
  "wp m Q w = (case m w of (Ok x, w') \<Rightarrow> Q x w' | (Err e, w') \<Rightarrow> False | (Fault, w') \<Rightarrow> False)"

lemma wp_returnE [wp_rules, simp]: "wp (returnE x) Q w = Q x w"
  by (simp add: wp_def returnE_def)

lemma wp_failE [wp_rules, simp]: "\<not> wp (failE e) Q w"
  by (simp add: wp_def failE_def)

lemma wp_faultE [wp_rules, simp]: "\<not> wp faultE Q w"
  by (simp add: wp_def faultE_def)

lemma wp_bindE [wp_rules, simp]: "wp (bindE m f) Q w = wp m (\<lambda>x. wp (f x) Q) w"
  by (auto simp: wp_def bindE_def split: prod.splits res.splits)

lemma wp_thenE [wp_rules, simp]: "wp (thenE m k) Q w = wp m (\<lambda>_. wp k Q) w"
  by (simp add: thenE_def)

lemma wp_guardE [wp_rules, simp]: "wp (guardE b e) Q w = (b \<and> Q () w)"
  by (simp add: guardE_def)

lemma wp_assertE [wp_rules, simp]: "wp (assertE b) Q w = (b \<and> Q () w)"
  by (simp add: assertE_def)

lemma wp_derefE [wp_rules, simp]: "wp (derefE p) Q w = (\<exists>x. p = Some x \<and> Q x w)"
  by (cases p) (simp_all add: derefE_def)

lemma wp_finallyE [wp_rules, simp]:
  "wp (finallyE m c) Q w = wp m (\<lambda>x. wp c (\<lambda>_. Q x)) w"
  by (auto simp: wp_def finallyE_def split: prod.splits res.splits)

lemma wp_tryE_ok:
  "wp m (\<lambda>x. wp (f x) Q) w \<Longrightarrow> wp (tryE m h f) Q w"
  by (auto simp: wp_def tryE_def split: prod.splits res.splits)

lemma wp_mono:
  "wp m P w \<Longrightarrow> (\<And>x w'. P x w' \<Longrightarrow> Q x w') \<Longrightarrow> wp m Q w"
  by (auto simp: wp_def split: prod.splits res.splits)

lemma wp_conj: "wp m P w \<Longrightarrow> wp m Q w \<Longrightarrow> wp m (\<lambda>x w'. P x w' \<and> Q x w') w"
  by (auto simp: wp_def split: prod.splits res.splits)

lemma wpE:
  assumes "wp m Q w"
  obtains x w' where "m w = (Ok x, w')" and "Q x w'"
  using assms by (auto simp: wp_def split: prod.splits res.splits)

lemma wpI: "m w = (Ok x, w') \<Longrightarrow> Q x w' \<Longrightarrow> wp m Q w"
  by (simp add: wp_def)

lemma wp_try_alloc [wp_rules, simp]: "allocs w = [] \<Longrightarrow> wp try_alloc Q w = Q True w"
  by (simp add: wp_def try_alloc_def)

lemma wp_alloc [wp_rules, simp]: "allocs w = [] \<Longrightarrow> wp alloc Q w = Q () w"
  by (simp add: alloc_def)

section \<open>Operations that succeed when every allocation does\<close>

text \<open>\<open>ensures m P\<close>: in every world without failing allocations, \<open>m\<close> succeeds with a result that
  satisfies \<open>P\<close>, uses up no recorded outcome and leaves the stores alone; only the provider's memory
  may change.  \<open>yields m x\<close> fixes the result.\<close>

definition ensures :: "('c, 's, 'a) M \<Rightarrow> ('a \<Rightarrow> bool) \<Rightarrow> bool" where
  "ensures m P = (\<forall>w. allocs w = [] \<longrightarrow>
     wp m (\<lambda>y w'. P y \<and> allocs w' = [] \<and> store_data w' = store_data w) w)"

definition yields :: "('c, 's, 'a) M \<Rightarrow> 'a \<Rightarrow> bool" where
  "yields m x = ensures m (\<lambda>y. y = x)"

lemma ensures_wp:
  assumes "ensures m P" and "allocs w = []"
    and "\<And>y w'. P y \<Longrightarrow> allocs w' = [] \<Longrightarrow> store_data w' = store_data w \<Longrightarrow> Q y w'"
  shows "wp m Q w"
  using assms(1,2) unfolding ensures_def by (blast intro: wp_mono assms(3))

lemma wp_chain:
  assumes "wp m (\<lambda>y w'. P y \<and> allocs w' = [] \<and> store_data w' = store_data w) w"
    and "\<And>y w'. P y \<Longrightarrow> allocs w' = [] \<Longrightarrow>
      wp (f y) (\<lambda>z w''. Q y z \<and> allocs w'' = [] \<and> store_data w'' = store_data w') w'"
  shows "wp m (\<lambda>y. wp (f y) (\<lambda>z w''. Q y z \<and> allocs w'' = [] \<and> store_data w'' = store_data w)) w"
  using assms(1) by (rule wp_mono) (use assms(2) in fastforce)

lemma ensures_mono: "ensures m P \<Longrightarrow> (\<And>x. P x \<Longrightarrow> Q x) \<Longrightarrow> ensures m Q"
  unfolding ensures_def by (blast intro: wp_mono)

lemma ensures_returnE [yields_rules]: "P x \<Longrightarrow> ensures (returnE x) P"
  by (simp add: ensures_def)

lemma ensures_bindE:
  "ensures m P \<Longrightarrow> (\<And>x. P x \<Longrightarrow> ensures (f x) Q) \<Longrightarrow> ensures (bindE m f) Q"
  unfolding ensures_def wp_bindE
  by (intro allI impI, rule wp_chain [where P = P]) auto

lemma ensures_tryE: "ensures m P \<Longrightarrow> (\<And>x. P x \<Longrightarrow> ensures (f x) Q) \<Longrightarrow> ensures (tryE m h f) Q"
  unfolding ensures_def by (intro allI impI, rule wp_tryE_ok, rule wp_chain [where P = P]) auto

lemma wp_all:
  assumes "\<And>n. wp m (P n) w"
  shows "wp m (\<lambda>x w'. \<forall>n. P n x w') w"
  using assms by (cases "m w"; cases "fst (m w)") (simp_all add: wp_def)

lemma ensures_all:
  fixes m :: "('c, 's, 'a) M"
  assumes "\<And>n. ensures m (P n)"
  shows "ensures m (\<lambda>x. \<forall>n. P n x)"
  unfolding ensures_def
proof (intro allI impI)
  fix w :: "('c, 's) world"
  assume "allocs w = []"
  then have "wp m (\<lambda>y w'. P n y \<and> allocs w' = [] \<and> store_data w' = store_data w) w" for n
    using assms by (simp add: ensures_def)
  from wp_all [of m, OF this] show "wp m (\<lambda>y w'. (\<forall>n. P n y) \<and> allocs w' = [] \<and> store_data w' = store_data w) w"
    by (rule wp_mono) auto
qed

lemma ensures_conj: "ensures m P \<Longrightarrow> ensures m Q \<Longrightarrow> ensures m (\<lambda>x. P x \<and> Q x)"
  using ensures_all [of m "\<lambda>b. if b then P else Q"] by (simp add: all_bool_eq)

lemma ensures_imp: "ensures m (\<lambda>_. True) \<Longrightarrow> (A \<Longrightarrow> ensures m P) \<Longrightarrow> ensures m (\<lambda>x. A \<longrightarrow> P x)"
  by (cases A) simp_all

lemma yields_returnE [yields_rules]: "yields (returnE x) x"
  by (simp add: yields_def ensures_def)

lemma yields_bindE [yields_rules]:
  "yields m y \<Longrightarrow> yields (f y) x \<Longrightarrow> yields (bindE m f) x"
  unfolding yields_def by (rule ensures_bindE [where P = "\<lambda>z. z = y"]) auto

lemma ensures_bind_yields:
  "yields m y \<Longrightarrow> ensures (f y) P \<Longrightarrow> ensures (bindE m f) P"
  unfolding yields_def by (rule ensures_bindE [where P = "\<lambda>z. z = y"]) auto

lemma ensures_yields: "yields m x \<Longrightarrow> P x \<Longrightarrow> ensures m P"
  unfolding yields_def by (erule ensures_mono) simp

lemma yields_thenE [yields_rules]: "yields m y \<Longrightarrow> yields k x \<Longrightarrow> yields (thenE m k) x"
  unfolding thenE_def by (rule yields_bindE)

lemma ensures_thenE: "yields m y \<Longrightarrow> ensures k P \<Longrightarrow> ensures (thenE m k) P"
  unfolding thenE_def by (rule ensures_bind_yields)

lemma yields_guardE [yields_rules]: "b \<Longrightarrow> yields (guardE b e) ()"
  by (simp add: guardE_def yields_returnE)

lemma yields_assertE [yields_rules]: "b \<Longrightarrow> yields (assertE b) ()"
  by (simp add: assertE_def yields_returnE)

lemma yields_derefE [yields_rules]: "yields (derefE (Some x)) x"
  by (simp add: derefE_def yields_returnE)

lemma yields_finallyE [yields_rules]: "yields m x \<Longrightarrow> yields c () \<Longrightarrow> yields (finallyE m c) x"
  unfolding yields_def ensures_def wp_finallyE
  by (intro allI impI, rule wp_chain [where P = "\<lambda>y. y = x"]) (auto elim: wp_mono)

lemma yields_tryE [yields_rules]: "yields m y \<Longrightarrow> yields (f y) x \<Longrightarrow> yields (tryE m h f) x"
  unfolding yields_def ensures_def
  by (intro allI impI, rule wp_tryE_ok, rule wp_chain [where P = "\<lambda>z. z = y"]) auto

lemma yields_try_alloc [yields_rules]: "yields try_alloc True"
  by (simp add: yields_def ensures_def)

lemma yields_alloc [yields_rules]: "yields alloc ()"
  by (simp add: yields_def ensures_def)

lemma yields_if [yields_rules]:
  "(b \<Longrightarrow> yields m x) \<Longrightarrow> (\<not> b \<Longrightarrow> yields k x) \<Longrightarrow> yields (if b then m else k) x"
  by simp

lemma yields_mapE: "(\<And>x. x \<in> set xs \<Longrightarrow> yields (f x) (g x)) \<Longrightarrow> yields (mapE f xs) (map g xs)"
  by (induction xs) (auto intro!: yields_rules)

lemma yields_mapE_inverse:
  "(\<And>x. x \<in> set xs \<Longrightarrow> yields (f (g x)) x) \<Longrightarrow> yields (mapE f (map g xs)) xs"
  by (induction xs) (auto intro!: yields_rules)

lemma yields_foldE_unit:
  "(\<And>x. x \<in> set xs \<Longrightarrow> yields (f x ()) ()) \<Longrightarrow> yields (foldE f xs ()) ()"
  by (induction xs) (auto intro!: yields_rules)

lemma yields_unique:
  assumes "yields (m :: ('c, 's, 'a) M) x" and "yields m y"
  shows "x = y"
proof -
  define w :: "('c, 's) world" where "w = \<lparr>allocs = [], crypto_data = undefined, store_data = undefined\<rparr>"
  have "wp m (\<lambda>z _. z = x) w" "wp m (\<lambda>z _. z = y) w"
    using assms by (auto simp: yields_def w_def intro: ensures_wp)
  then show ?thesis by (auto elim!: wpE)
qed

lemma yields_cong: "yields m y \<Longrightarrow> y = x \<Longrightarrow> yields m x"
  by simp

section \<open>Operations that report an error\<close>

text \<open>In every world without failing allocations, \<open>m\<close> ends with the error \<open>e\<close> and leaves the stores alone.\<close>

definition fails :: "('c, 's, 'a) M \<Rightarrow> int \<Rightarrow> bool" where
  "fails m e = (\<forall>w. allocs w = [] \<longrightarrow>
     (\<exists>w'. m w = (Err e, w') \<and> allocs w' = [] \<and> store_data w' = store_data w))"

lemma yieldsE:
  assumes "yields m x" and "allocs w = []"
  obtains w' where "m w = (Ok x, w')" and "allocs w' = []" and "store_data w' = store_data w"
proof -
  have "wp m (\<lambda>y w'. y = x \<and> allocs w' = [] \<and> store_data w' = store_data w) w"
    using assms by (simp add: yields_def ensures_def)
  then show thesis by (rule wpE) (use that in auto)
qed

lemma ensuresE:
  assumes "ensures m P" and "allocs w = []"
  obtains x w' where "m w = (Ok x, w')" and "P x" and "allocs w' = []" and "store_data w' = store_data w"
proof -
  have "wp m (\<lambda>y w'. P y \<and> allocs w' = [] \<and> store_data w' = store_data w) w"
    using assms by (simp add: ensures_def)
  then show thesis by (rule wpE) (use that in auto)
qed

lemma failsE:
  assumes "fails m e" and "allocs w = []"
  obtains w' where "m w = (Err e, w')" and "allocs w' = []" and "store_data w' = store_data w"
  using assms unfolding fails_def by blast

lemma fails_failE: "fails (failE e) e"
  by (simp add: fails_def failE_def)

lemma fails_guardE: "\<not> b \<Longrightarrow> fails (guardE b e) e"
  by (simp add: guardE_def fails_failE)

lemma fails_bindE: "fails m e \<Longrightarrow> fails (bindE m f) e"
  unfolding fails_def bindE_def by fastforce

lemma fails_thenE: "fails m e \<Longrightarrow> fails (thenE m k) e"
  unfolding thenE_def by (rule fails_bindE)

lemma fails_bind_ensures:
  assumes "ensures m P" and "\<And>x. P x \<Longrightarrow> fails (f x) e"
  shows "fails (bindE m f) e"
  unfolding fails_def
proof (intro allI impI)
  fix w :: "('a, 'b) world"
  assume "allocs w = []"
  with assms(1) obtain x w' where w': "m w = (Ok x, w')" "P x" "allocs w' = []" "store_data w' = store_data w"
    by (rule ensuresE)
  from assms(2) [OF w'(2)] w'(3) obtain w'' where "f x w' = (Err e, w'')" "allocs w'' = []" "store_data w'' = store_data w'"
    by (rule failsE)
  with w' show "\<exists>w'. bindE m f w = (Err e, w') \<and> allocs w' = [] \<and> store_data w' = store_data w"
    by (simp add: bindE_def)
qed

lemma fails_bind_yields: "yields m y \<Longrightarrow> fails (f y) e \<Longrightarrow> fails (bindE m f) e"
  unfolding yields_def by (erule fails_bind_ensures) simp

lemma fails_then_yields: "yields m y \<Longrightarrow> fails k e \<Longrightarrow> fails (thenE m k) e"
  unfolding thenE_def by (rule fails_bind_yields)

lemma yields_tryE_fails:
  assumes "fails m e" and "yields (h e) x"
  shows "yields (tryE m h f) x"
  unfolding yields_def ensures_def
proof (intro allI impI)
  fix w :: "('a, 'b) world"
  assume "allocs w = []"
  with assms(1) obtain w' where w': "m w = (Err e, w')" "allocs w' = []" "store_data w' = store_data w"
    by (rule failsE)
  from assms(2) w'(2) obtain w'' where "h e w' = (Ok x, w'')" "allocs w'' = []" "store_data w'' = store_data w'"
    by (rule yieldsE)
  with w' show "wp (tryE m h f) (\<lambda>y w'. y = x \<and> allocs w' = [] \<and> store_data w' = store_data w) w"
    by (simp add: wp_def tryE_def)
qed

lemma fails_tryE:
  assumes "fails m e" and "fails (h e) e'"
  shows "fails (tryE m h f) e'"
  unfolding fails_def
proof (intro allI impI)
  fix w :: "('a, 'b) world"
  assume "allocs w = []"
  with assms(1) obtain w' where w': "m w = (Err e, w')" "allocs w' = []" "store_data w' = store_data w"
    by (rule failsE)
  from assms(2) w'(2) obtain w'' where "h e w' = (Err e', w'')" "allocs w'' = []" "store_data w'' = store_data w'"
    by (rule failsE)
  with w' show "\<exists>w'. tryE m h f w = (Err e', w') \<and> allocs w' = [] \<and> store_data w' = store_data w"
    by (simp add: tryE_def)
qed

lemma fails_try_yields:
  assumes "yields m y" and "fails (f y) e"
  shows "fails (tryE m h f) e"
  unfolding fails_def
proof (intro allI impI)
  fix w :: "('a, 'b) world"
  assume "allocs w = []"
  with assms(1) obtain w' where w': "m w = (Ok y, w')" "allocs w' = []" "store_data w' = store_data w"
    by (rule yieldsE)
  from assms(2) w'(2) obtain w'' where "f y w' = (Err e, w'')" "allocs w'' = []" "store_data w'' = store_data w'"
    by (rule failsE)
  with w' show "\<exists>w'. tryE m h f w = (Err e, w') \<and> allocs w' = [] \<and> store_data w' = store_data w"
    by (simp add: tryE_def)
qed

section \<open>Operations that leave the stores alone\<close>

definition keeps_store :: "('c, 's, 'a) M \<Rightarrow> bool" where
  "keeps_store m = (\<forall>w. store_data (snd (m w)) = store_data w)"

lemma keeps_storeD: "keeps_store m \<Longrightarrow> m w = (r, w') \<Longrightarrow> store_data w' = store_data w"
  by (metis keeps_store_def snd_conv)

lemma keeps_snd:
  "\<forall>w. store_data (snd (m w)) = store_data w \<Longrightarrow> m w = (r, w') \<Longrightarrow> store_data w' = store_data w"
  by (metis snd_conv)

lemma keeps_returnE [keeps_rules, intro!]: "keeps_store (returnE x)"
  and keeps_failE [keeps_rules, intro!]: "keeps_store (failE e)"
  and keeps_faultE [keeps_rules, intro!]: "keeps_store faultE"
  by (simp_all add: keeps_store_def returnE_def failE_def faultE_def)

lemma keeps_bindE [keeps_rules, intro!]:
  "keeps_store m \<Longrightarrow> (\<And>x. keeps_store (f x)) \<Longrightarrow> keeps_store (bindE m f)"
  by (auto simp: keeps_store_def bindE_def split: prod.splits res.splits dest: keeps_snd)

lemma keeps_thenE [keeps_rules, intro!]:
  "keeps_store m \<Longrightarrow> keeps_store k \<Longrightarrow> keeps_store (thenE m k)"
  by (auto simp: thenE_def)

lemma keeps_guardE [keeps_rules, intro!]: "keeps_store (guardE b e)"
  and keeps_assertE [keeps_rules, intro!]: "keeps_store (assertE b)"
  by (auto simp: guardE_def assertE_def)

lemma keeps_derefE [keeps_rules, intro!]: "keeps_store (derefE p)"
  by (cases p) (auto simp: derefE_def)

lemma keeps_finallyE [keeps_rules, intro!]:
  "keeps_store m \<Longrightarrow> keeps_store c \<Longrightarrow> keeps_store (finallyE m c)"
  by (auto simp: keeps_store_def finallyE_def split: prod.splits res.splits) (metis snd_conv)+

lemma keeps_tryE [keeps_rules, intro!]:
  "keeps_store m \<Longrightarrow> (\<And>e. keeps_store (h e)) \<Longrightarrow> (\<And>x. keeps_store (f x)) \<Longrightarrow> keeps_store (tryE m h f)"
  by (auto simp: keeps_store_def tryE_def split: prod.splits res.splits dest: keeps_snd)

lemma keeps_mapE [keeps_rules, intro!]: "(\<And>x. keeps_store (f x)) \<Longrightarrow> keeps_store (mapE f xs)"
  by (induction xs) auto

lemma keeps_foldE [keeps_rules, intro!]:
  "(\<And>x acc. keeps_store (f x acc)) \<Longrightarrow> keeps_store (foldE f xs acc)"
  by (induction xs arbitrary: acc) auto

lemma keeps_try_alloc [keeps_rules, intro!]: "keeps_store try_alloc"
  by (auto simp: keeps_store_def try_alloc_def split: list.splits)

lemma keeps_alloc [keeps_rules, intro!]: "keeps_store alloc"
  by (auto simp: alloc_def)

section \<open>Operations without undefined behaviour\<close>

definition no_fault :: "('w \<Rightarrow> 'a res \<times> 'w) \<Rightarrow> bool" where
  "no_fault m = (\<forall>w. fst (m w) \<noteq> Fault)"

lemma no_fault_fst: "\<forall>w. fst (m w) \<noteq> Fault \<Longrightarrow> m w = (Fault, w') \<Longrightarrow> False"
  by (metis fst_conv)

lemma no_fault_returnE [fault_rules, intro!]: "no_fault (returnE x)"
  and no_fault_failE [fault_rules, intro!]: "no_fault (failE e)"
  by (simp_all add: no_fault_def returnE_def failE_def)

lemma no_fault_bindE [fault_rules, intro!]:
  "no_fault m \<Longrightarrow> (\<And>x. no_fault (f x)) \<Longrightarrow> no_fault (bindE m f)"
  by (auto simp: no_fault_def bindE_def split: prod.splits res.splits dest: no_fault_fst)

lemma no_fault_thenE [fault_rules, intro!]:
  "no_fault m \<Longrightarrow> no_fault k \<Longrightarrow> no_fault (thenE m k)"
  by (auto simp: thenE_def)

lemma no_fault_guardE [fault_rules, intro!]: "no_fault (guardE b e)"
  by (auto simp: guardE_def)

lemma no_fault_try_alloc [fault_rules, intro!]: "no_fault try_alloc"
  by (auto simp: no_fault_def try_alloc_def split: list.splits)

lemma no_fault_alloc [fault_rules, intro!]: "no_fault alloc"
  by (auto simp: alloc_def)

section \<open>Optional members and linked lists\<close>

lemma optE_simps [simp]:
  "optE f None = returnE None"
  "optE f (Some v) = bindE (f v) (\<lambda>y. returnE (Some y))"
  by (simp_all add: optE_def)

lemma yields_optE: "(\<And>v. x = Some v \<Longrightarrow> yields (f v) (g v)) \<Longrightarrow> yields (optE f x) (map_option g x)"
  by (cases x) (auto intro!: yields_rules)

lemma yields_optE_inverse:
  "(\<And>v. x = Some v \<Longrightarrow> yields (f (g v)) v) \<Longrightarrow> yields (optE f (map_option g x)) x"
  by (cases x) (auto intro!: yields_rules)

lemma keeps_optE [keeps_rules, intro!]: "(\<And>v. keeps_store (f v)) \<Longrightarrow> keeps_store (optE f x)"
  by (cases x) auto

lemma dl_search_Some:
  "dl_search P xs = Some i \<Longrightarrow> i < length xs \<and> P (xs ! i) \<and> (\<forall>j < i. \<not> P (xs ! j))"
proof (induction xs arbitrary: i)
  case (Cons x xs)
  then show ?case by (cases i) (auto simp: less_Suc_eq_0_disj split: if_splits)
qed simp

lemma dl_search_None: "(dl_search P xs = None) = (\<forall>x \<in> set xs. \<not> P x)"
  by (induction xs) auto

lemma dl_search_append:
  "dl_search P (xs @ ys) =
     (case dl_search P xs of Some i \<Rightarrow> Some i | None \<Rightarrow> map_option (\<lambda>i. length xs + i) (dl_search P ys))"
  by (induction xs; cases "dl_search P ys") (auto split: option.splits)

lemma dl_search_update:
  assumes "dl_search P xs = Some i" and "P y = P (xs ! i)"
  shows "dl_search P (xs[i := y]) = Some i"
  using assms
proof (induction xs arbitrary: i)
  case (Cons x xs)
  then show ?case by (cases i) (auto split: if_splits)
qed simp

lemma dl_trim_drop: "dl_trim bound xs = drop (length xs - bound) xs"
proof (induction bound xs rule: dl_trim.induct)
  case (1 bound xs)
  show ?case
  proof (cases "length xs > bound")
    case True
    then have "dl_trim bound xs = drop (length (tl xs) - bound) (tl xs)"
      using 1 by (simp add: dl_trim.simps [of bound xs])
    also have "\<dots> = drop (length xs - bound) xs"
      using True by (cases xs) (auto simp: Suc_diff_le)
    finally show ?thesis .
  qed (simp add: dl_trim.simps [of bound xs])
qed

lemma length_dl_trim [simp]: "length (dl_trim bound xs) = min (length xs) bound"
  by (simp add: dl_trim_drop)

lemma set_dl_trim: "x \<in> set (dl_trim bound xs) \<Longrightarrow> x \<in> set xs"
  by (auto simp: dl_trim_drop dest: in_set_dropD)

lemma dl_trim_short: "length xs \<le> bound \<Longrightarrow> dl_trim bound xs = xs"
  by (simp add: dl_trim_drop)

lemma dl_trim_append: "dl_trim n (dl_trim n xs @ ys) = dl_trim n (xs @ ys)"
proof (cases "length xs \<le> n")
  case False
  then have "length ys + length xs - n = (length xs - n) + length ys" by simp
  then show ?thesis using False by (simp add: dl_trim_drop add.commute)
qed (simp add: dl_trim_short)

lemma length_dl_delete: "i < length xs \<Longrightarrow> length (dl_delete i xs) = length xs - 1"
  by (simp add: dl_delete_def)

lemma set_dl_delete: "x \<in> set (dl_delete i xs) \<Longrightarrow> x \<in> set xs"
  by (auto simp: dl_delete_def dest: in_set_takeD in_set_dropD)

lemma dl_search_unique:
  assumes "distinct (map f xs)" and "x \<in> set xs"
  shows "\<exists>j. dl_search (\<lambda>y. f y = f x) xs = Some j \<and> xs ! j = x"
proof -
  have "dl_search (\<lambda>y. f y = f x) xs \<noteq> None" using assms(2) by (auto simp: dl_search_None)
  then obtain j where j: "dl_search (\<lambda>y. f y = f x) xs = Some j" by blast
  then have "j < length xs" "f (xs ! j) = f x" by (auto dest: dl_search_Some)
  then have "xs ! j = x" using assms by (metis (mono_tags) distinct_map in_set_conv_nth inj_onD)
  with j show ?thesis by blast
qed

lemma set_dl_delete_distinct:
  assumes "distinct xs" and "i < length xs"
  shows "set (dl_delete i xs) = set xs - {xs ! i}"
proof -
  have xs: "xs = take i xs @ xs ! i # drop (Suc i) xs" by (rule id_take_nth_drop [OF assms(2)])
  have "distinct (take i xs @ xs ! i # drop (Suc i) xs)" using assms(1) xs by simp
  moreover have "set xs = set (take i xs @ xs ! i # drop (Suc i) xs)" using xs by simp
  ultimately show ?thesis by (auto simp: dl_delete_def)
qed

section \<open>Counters\<close>

lemma unat_index_add: "unat (i :: 32 word) + j < 2 ^ 32 \<Longrightarrow> unat (i + of_nat j) = unat i + j"
  by (simp add: unat_word_ariths unsigned_of_nat take_bit_eq_mod)

lemma index_add_inject:
  assumes "unat (i :: 32 word) + d < 2 ^ 32" and "j \<le> d" and "k \<le> d" and "i + of_nat j = i + of_nat k"
  shows "j = k"
proof -
  have "unat (i + of_nat j) = unat i + j" by (rule unat_index_add) (use assms(1,2) in simp)
  moreover have "unat (i + of_nat k) = unat i + k" by (rule unat_index_add) (use assms(1,3) in simp)
  ultimately show ?thesis unfolding assms(4) by linarith
qed

section \<open>Windows of keys\<close>

text \<open>The stored keys of a chain of which the first \<open>n\<close> keys were made and those with position in \<open>S\<close> used.\<close>

definition key_window :: "(nat \<Rightarrow> 'k) \<Rightarrow> nat \<Rightarrow> nat set \<Rightarrow> 'k list \<Rightarrow> bool" where
  "key_window key n S ks = (distinct ks \<and> set ks = key ` ({..<n} - S))"

lemma key_window_start: "key_window key 0 S []"
  by (simp add: key_window_def)

lemma key_window_length: "key_window key n S ks \<Longrightarrow> length ks \<le> n"
  unfolding key_window_def
  by (metis card_image_le card_lessThan card_mono distinct_card finite_Diff finite_lessThan Diff_subset le_trans)

lemma key_window_append:
  assumes "key_window key n S ks" and "n \<le> j" and "S \<subseteq> {..<n}" and "inj_on key {..j}"
  shows "key_window key (Suc j) (insert j S) (ks @ map key [n..<j])"
proof -
  have "{..<n} - S \<union> {n..<j} = {..<Suc j} - insert j S" using assms(2,3) by auto
  moreover have "key x \<noteq> key y" if "x < n" "n \<le> y" "y < j" for x y
    using inj_onD [OF assms(4), of x y] that by auto
  then have "distinct (ks @ map key [n..<j])"
    using assms by (auto simp: key_window_def distinct_map inj_on_def)
  ultimately show ?thesis
    using assms(1) by (auto simp: key_window_def image_Un [symmetric] simp del: image_Un)
qed

lemma key_window_used:
  assumes "key_window key n S ks" and "j \<in> S" and "j < n" and "inj_on (\<lambda>i. number (key i)) {..<n}"
  shows "dl_search (\<lambda>k. number k = number (key j)) ks = None"
  using assms by (auto simp: dl_search_None key_window_def inj_on_def)

lemma key_window_take:
  assumes kw: "key_window key n S ks" and j: "j < n" "j \<notin> S" and inj: "inj_on (\<lambda>i. number (key i)) {..<n}"
  obtains i where "dl_search (\<lambda>k. number k = number (key j)) ks = Some i" and "ks ! i = key j"
    and "key_window key n (insert j S) (dl_delete i ks)"
proof -
  have "inj_on number (set ks)" using kw inj by (auto simp: key_window_def inj_on_def)
  then have d: "distinct (map number ks)" using kw by (simp add: key_window_def distinct_map)
  have "key j \<in> set ks" using kw j by (auto simp: key_window_def)
  then obtain i where i: "dl_search (\<lambda>k. number k = number (key j)) ks = Some i" "ks ! i = key j"
    using dl_search_unique [OF d] by blast
  have il: "i < length ks" using dl_search_Some [OF i(1)] by simp
  have "key ` ({..<n} - S) - {key j} = key ` ({..<n} - insert j S)"
    using inj j(1) by (auto simp: inj_on_def)
  moreover have "distinct (dl_delete i ks)"
    using kw set_take_disj_set_drop_if_distinct [of ks i "Suc i"] by (auto simp: dl_delete_def key_window_def)
  ultimately have "key_window key n (insert j S) (dl_delete i ks)"
    using kw il i(2) by (auto simp: key_window_def set_dl_delete_distinct)
  with i that show ?thesis by blast
qed

end
