(* ===== verification/Signal_Base.thy ===== *)
theory Signal_Base
  imports Prelude
begin

text \<open>
  The base layer of the library: signal\_protocol.c and signal\_protocol\_internal.h (reference
  counts, buffers, buffer and int lists over utarray.h, the global context, the calls into the
  crypto provider, constant-time comparison).  The stores of signal\_protocol.c are in the theory
  of the stores.

  The crypto provider is code of the embedding application.  It is a record of callbacks on the
  provider's own memory of type \<open>'c\<close>; a digest context is an address into that memory.  What the
  callbacks are documented to do (signal\_protocol.h) is stated by \<open>hmac_laws\<close> and \<open>cipher_laws\<close>.
\<close>

unbundle bit_operations_syntax

section \<open>Reference counts\<close>

record signal_type_base =
  ref_count :: nat
  destroyed :: bool

definition signal_type_init :: "signal_type_base" where
  "signal_type_init = \<lparr>ref_count = 1, destroyed = False\<rparr>"

text \<open>Counts are kept as natural numbers: an \<open>unsigned int\<close> that never reaches its maximum.\<close>

definition signal_type_ref :: "signal_type_base \<Rightarrow> 'w \<Rightarrow> signal_type_base res \<times> 'w" where
  "signal_type_ref x =
     thenE (assertE (\<not> destroyed x \<and> ref_count x > 0))
       (returnE (x\<lparr>ref_count := ref_count x + 1\<rparr>))"

definition signal_type_unref :: "signal_type_base \<Rightarrow> 'w \<Rightarrow> signal_type_base res \<times> 'w" where
  "signal_type_unref x =
     thenE (assertE (\<not> destroyed x \<and> ref_count x > 0))
       (if ref_count x > 1 then returnE (x\<lparr>ref_count := ref_count x - 1\<rparr>)
        else returnE (x\<lparr>destroyed := True\<rparr>))"

section \<open>Buffers\<close>

definition SIZE_MAX :: nat where "SIZE_MAX = 2 ^ 64 - 1"
definition sizeof_signal_buffer :: nat where "sizeof_signal_buffer = 8"

definition signal_buffer_alloc :: "nat \<Rightarrow> ('c, 's, bool) M" where
  "signal_buffer_alloc len =
     (if len > SIZE_MAX - sizeof_signal_buffer then returnE False else try_alloc)"

definition signal_buffer_create :: "bytes \<Rightarrow> ('c, 's, bytes option) M" where
  "signal_buffer_create data =
     bindE (signal_buffer_alloc (length data)) (\<lambda>b.
     if b then returnE (Some data) else returnE None)"

definition signal_buffer_copy :: "bytes \<Rightarrow> ('c, 's, bytes option) M" where
  "signal_buffer_copy buffer = signal_buffer_create buffer"

definition signal_buffer_n_copy :: "bytes \<Rightarrow> nat \<Rightarrow> ('c, 's, bytes option) M" where
  "signal_buffer_n_copy buffer n = signal_buffer_create (take (min (length buffer) n) buffer)"

definition signal_buffer_append :: "bytes \<Rightarrow> bytes \<Rightarrow> ('c, 's, bytes option) M" where
  "signal_buffer_append buffer data =
     (let previous_alloc = sizeof_signal_buffer + length buffer in
      if length data > SIZE_MAX - previous_alloc then returnE None
      else bindE try_alloc (\<lambda>b. if b then returnE (Some (buffer @ data)) else returnE None))"

function signal_constant_memcmp_loop :: "bytes \<Rightarrow> bytes \<Rightarrow> nat \<Rightarrow> nat \<Rightarrow> byte \<Rightarrow> byte" where
  "signal_constant_memcmp_loop c1 c2 i n result =
     (if i < n then signal_constant_memcmp_loop c1 c2 (i + 1) n (result OR (c1 ! i XOR c2 ! i))
      else result)"
  by auto
termination
  by (relation "measure (\<lambda>(c1, c2, i, n, result). n - i)") auto

definition signal_constant_memcmp :: "bytes \<Rightarrow> bytes \<Rightarrow> nat \<Rightarrow> int" where
  "signal_constant_memcmp s1 s2 n = uint (signal_constant_memcmp_loop s1 s2 0 n 0)"

text \<open>The null pointer is \<open>None\<close>; two distinct buffers with the same bytes compare like one buffer
  with itself, since the comparison of equal bytes gives 0 too.\<close>

definition signal_buffer_compare :: "bytes option \<Rightarrow> bytes option \<Rightarrow> int" where
  "signal_buffer_compare buffer1 buffer2 =
     (case (buffer1, buffer2) of
        (None, None) \<Rightarrow> 0
      | (None, Some _) \<Rightarrow> -1
      | (Some _, None) \<Rightarrow> 1
      | (Some b1, Some b2) \<Rightarrow>
          if length b1 < length b2 then -1
          else if length b1 > length b2 then 1
          else signal_constant_memcmp b1 b2 (length b1))"

text \<open>The pattern of every caller: no buffer means \<open>SG_ERR_NOMEM\<close>.\<close>

definition new_buffer :: "bytes \<Rightarrow> ('c, 's, bytes) M" where
  "new_buffer data =
     bindE (signal_buffer_create data) (\<lambda>b.
     case b of None \<Rightarrow> failE SG_ERR_NOMEM | Some x \<Rightarrow> returnE x)"

section \<open>Growable arrays (utarray.h) and the lists on them\<close>

text \<open>\<open>ut_n\<close> is the capacity the array believes it has, \<open>ut_cap\<close> the size of its allocation;
  \<open>signal_utarray.h\<close> makes a failed \<open>realloc\<close> jump to \<open>complete\<close> after \<open>n\<close> has been raised.\<close>

record 'a ut_array =
  ut_n :: nat
  ut_cap :: nat
  ut_elems :: "'a list"

definition utarray_new :: "('c, 's, 'a ut_array) M" where
  "utarray_new = thenE alloc (returnE \<lparr>ut_n = 0, ut_cap = 0, ut_elems = []\<rparr>)"

function utarray_grow :: "nat \<Rightarrow> nat \<Rightarrow> nat" where
  "utarray_grow need n =
     (if need > n then utarray_grow need (if n = 0 then 8 else 2 * n) else n)"
  by auto
termination
  by (relation "measure (\<lambda>(need, n). need - n)") auto

definition utarray_reserve :: "nat \<Rightarrow> 'a ut_array \<Rightarrow> ('c, 's, bool \<times> 'a ut_array) M" where
  "utarray_reserve by_n a =
     (if length (ut_elems a) + by_n > ut_n a then
        (let n' = utarray_grow (length (ut_elems a) + by_n) (ut_n a) in
         bindE try_alloc (\<lambda>b.
         if b then returnE (True, a\<lparr>ut_n := n', ut_cap := n'\<rparr>)
         else returnE (False, a\<lparr>ut_n := n'\<rparr>)))
      else returnE (True, a))"

definition utarray_push_back :: "'a ut_array \<Rightarrow> 'a \<Rightarrow> ('c, 's, bool \<times> 'a ut_array) M" where
  "utarray_push_back a x =
     bindE (utarray_reserve 1 a) (\<lambda>(ok, a').
     if ok then
       thenE (assertE (length (ut_elems a') < ut_cap a'))
         (returnE (True, a'\<lparr>ut_elems := ut_elems a' @ [x]\<rparr>))
     else returnE (False, a'))"

definition signal_buffer_list_alloc :: "('c, 's, bytes option ut_array) M" where
  "signal_buffer_list_alloc = thenE alloc utarray_new"

text \<open>\<open>signal_buffer_list_push_back\<close> returns its status and the list as it is left.\<close>

definition signal_buffer_list_push_back ::
    "bytes option ut_array \<Rightarrow> bytes option \<Rightarrow> ('c, 's, int \<times> bytes option ut_array) M" where
  "signal_buffer_list_push_back l buffer =
     bindE (utarray_push_back l buffer) (\<lambda>(ok, l').
     returnE (if ok then 0 else SG_ERR_NOMEM, l'))"

definition signal_buffer_list_size :: "'a ut_array \<Rightarrow> nat" where
  "signal_buffer_list_size l = length (ut_elems l)"

definition signal_buffer_list_at :: "bytes option ut_array \<Rightarrow> nat \<Rightarrow> 'w \<Rightarrow> bytes res \<times> 'w" where
  "signal_buffer_list_at l index =
     thenE (assertE (index < length (ut_elems l))) (derefE (ut_elems l ! index))"

text \<open>The copy loop of \<open>signal_buffer_list_copy\<close> as written: each copy is pushed onto \<open>list->values\<close>.\<close>

fun signal_buffer_list_copy_loop ::
    "nat list \<Rightarrow> bytes option ut_array \<Rightarrow> ('c, 's, bool \<times> bytes option ut_array) M" where
  "signal_buffer_list_copy_loop [] l = returnE (True, l)"
| "signal_buffer_list_copy_loop (i # is) l =
     bindE (derefE (ut_elems l ! i)) (\<lambda>buffer.
     bindE (signal_buffer_copy buffer) (\<lambda>buffer_copy.
     bindE (utarray_push_back l buffer_copy) (\<lambda>(ok, l').
     if ok then signal_buffer_list_copy_loop is l' else returnE (False, l'))))"

text \<open>Result: the returned list (\<open>None\<close> for the null pointer) and the source list as it is left.\<close>

definition signal_buffer_list_copy ::
    "bytes option ut_array \<Rightarrow> ('c, 's, bytes option ut_array option \<times> bytes option ut_array) M" where
  "signal_buffer_list_copy l =
     tryE signal_buffer_list_alloc (\<lambda>_. returnE (None, l)) (\<lambda>result_list.
     bindE (utarray_reserve (length (ut_elems l)) result_list) (\<lambda>(ok, result_list').
     if \<not> ok then returnE (None, l)
     else
       bindE (signal_buffer_list_copy_loop [0..<length (ut_elems l)] l) (\<lambda>(ok', l').
       returnE (if ok' then Some result_list' else None, l'))))"

definition signal_int_list_alloc :: "('c, 's, int ut_array) M" where
  "signal_int_list_alloc = thenE alloc utarray_new"

definition signal_int_list_push_back :: "int ut_array \<Rightarrow> int \<Rightarrow> ('c, 's, int \<times> int ut_array) M" where
  "signal_int_list_push_back l v =
     bindE (utarray_push_back l v) (\<lambda>(ok, l').
     returnE (if ok then 0 else SG_ERR_NOMEM, l'))"

definition signal_int_list_at :: "int ut_array \<Rightarrow> nat \<Rightarrow> 'w \<Rightarrow> int res \<times> 'w" where
  "signal_int_list_at l index =
     thenE (assertE (index < length (ut_elems l))) (returnE (ut_elems l ! index))"

section \<open>Crypto provider and global context\<close>

text \<open>A callback gets the provider's memory and returns its status, its out parameter and the
  memory.  A null function pointer is \<open>None\<close>.  \<open>random_func\<close> fills every index of the buffer.\<close>

type_synonym ptr = nat

record 'c signal_crypto_provider =
  random_func :: "(nat \<Rightarrow> 'c \<Rightarrow> (int \<times> (nat \<Rightarrow> byte)) \<times> 'c) option"
  hmac_sha256_init_func :: "(bytes \<Rightarrow> 'c \<Rightarrow> (int \<times> ptr option) \<times> 'c) option"
  hmac_sha256_update_func :: "(ptr \<Rightarrow> bytes \<Rightarrow> 'c \<Rightarrow> int \<times> 'c) option"
  hmac_sha256_final_func :: "(ptr \<Rightarrow> 'c \<Rightarrow> (int \<times> bytes option) \<times> 'c) option"
  hmac_sha256_cleanup_func :: "(ptr \<Rightarrow> 'c \<Rightarrow> 'c) option"
  sha512_digest_init_func :: "('c \<Rightarrow> (int \<times> ptr option) \<times> 'c) option"
  sha512_digest_update_func :: "(ptr \<Rightarrow> bytes \<Rightarrow> 'c \<Rightarrow> int \<times> 'c) option"
  sha512_digest_final_func :: "(ptr \<Rightarrow> 'c \<Rightarrow> (int \<times> bytes option) \<times> 'c) option"
  sha512_digest_cleanup_func :: "(ptr \<Rightarrow> 'c \<Rightarrow> 'c) option"
  encrypt_func :: "(int \<Rightarrow> bytes \<Rightarrow> bytes \<Rightarrow> bytes \<Rightarrow> 'c \<Rightarrow> (int \<times> bytes option) \<times> 'c) option"
  decrypt_func :: "(int \<Rightarrow> bytes \<Rightarrow> bytes \<Rightarrow> bytes \<Rightarrow> 'c \<Rightarrow> (int \<times> bytes option) \<times> 'c) option"

text \<open>The curve25519 routines linked into the library (src/libsignal-protocol-c/src/curve25519) are
  members of the model's context: scalar multiplication (curve25519-donna.c, modelled in theory \<open>Donna\<close>), XEdDSA
  signing and verification, and the VRF variants, which are parameters, each with its C status.\<close>

record curve25519_code =
  curve25519_donna :: "bytes \<Rightarrow> bytes \<Rightarrow> int \<times> bytes"
  curve25519_sign :: "bytes \<Rightarrow> bytes \<Rightarrow> bytes \<Rightarrow> int \<times> bytes"
  curve25519_verify :: "bytes \<Rightarrow> bytes \<Rightarrow> bytes \<Rightarrow> int"
  generalized_xveddsa_25519_sign :: "bytes \<Rightarrow> bytes \<Rightarrow> bytes \<Rightarrow> int \<times> bytes"
  generalized_xveddsa_25519_verify :: "bytes \<Rightarrow> bytes \<Rightarrow> bytes \<Rightarrow> int \<times> bytes"

record 'c signal_context =
  crypto_provider :: "'c signal_crypto_provider"
  curve25519 :: curve25519_code
  locking :: bool

definition no_crypto_provider :: "'c signal_crypto_provider" where
  "no_crypto_provider = \<lparr>random_func = None, hmac_sha256_init_func = None,
     hmac_sha256_update_func = None, hmac_sha256_final_func = None,
     hmac_sha256_cleanup_func = None, sha512_digest_init_func = None,
     sha512_digest_update_func = None, sha512_digest_final_func = None,
     sha512_digest_cleanup_func = None, encrypt_func = None, decrypt_func = None\<rparr>"

definition signal_context_create :: "curve25519_code \<Rightarrow> ('c, 's, 'c signal_context) M" where
  "signal_context_create code =
     thenE alloc
      (returnE \<lparr>crypto_provider = no_crypto_provider, curve25519 = code, locking = False\<rparr>)"

definition signal_context_set_crypto_provider ::
    "'c signal_context \<Rightarrow> 'c signal_crypto_provider option \<Rightarrow> 'w \<Rightarrow> 'c signal_context res \<times> 'w" where
  "signal_context_set_crypto_provider ctx p =
     (case p of None \<Rightarrow> failE SG_ERR_INVAL
      | Some cp \<Rightarrow>
          if hmac_sha256_init_func cp = None \<or> hmac_sha256_update_func cp = None
             \<or> hmac_sha256_final_func cp = None \<or> hmac_sha256_cleanup_func cp = None
          then failE SG_ERR_INVAL
          else returnE (ctx\<lparr>crypto_provider := cp\<rparr>))"

definition signal_context_set_locking_functions ::
    "'c signal_context \<Rightarrow> bool \<Rightarrow> bool \<Rightarrow> 'w \<Rightarrow> 'c signal_context res \<times> 'w" where
  "signal_context_set_locking_functions ctx lock unlock =
     (if (lock \<and> \<not> unlock) \<or> (\<not> lock \<and> unlock) then failE SG_ERR_INVAL
      else returnE (ctx\<lparr>locking := lock\<rparr>))"

text \<open>Running a callback on the provider's memory.\<close>

definition crypto_call :: "('c \<Rightarrow> 'a \<times> 'c) \<Rightarrow> ('c, 's, 'a) M" where
  "crypto_call f w = (case f (crypto_data w) of (x, c) \<Rightarrow> (Ok x, w\<lparr>crypto_data := c\<rparr>))"

definition statusE :: "int \<Rightarrow> 'w \<Rightarrow> unit res \<times> 'w" where
  "statusE r = (if r < 0 then failE r else returnE ())"

definition signal_crypto_random :: "'c signal_context \<Rightarrow> nat \<Rightarrow> ('c, 's, bytes) M" where
  "signal_crypto_random ctx len =
     bindE (derefE (random_func (crypto_provider ctx))) (\<lambda>f.
     bindE (crypto_call (f len)) (\<lambda>(r, data).
     thenE (statusE r) (returnE (map data [0..<len]))))"

text \<open>\<open>hmac_sha256_init_func\<close> may leave the context pointer unset when it fails, so the wrapper
  gives both its status and the pointer.\<close>

definition signal_hmac_sha256_init :: "'c signal_context \<Rightarrow> bytes \<Rightarrow> ('c, 's, int \<times> ptr option) M" where
  "signal_hmac_sha256_init ctx key =
     bindE (derefE (hmac_sha256_init_func (crypto_provider ctx))) (\<lambda>f. crypto_call (f key))"

definition signal_hmac_sha256_update :: "'c signal_context \<Rightarrow> ptr \<Rightarrow> bytes \<Rightarrow> ('c, 's, unit) M" where
  "signal_hmac_sha256_update ctx h data =
     bindE (derefE (hmac_sha256_update_func (crypto_provider ctx))) (\<lambda>f.
     bindE (crypto_call (f h data)) statusE)"

definition signal_hmac_sha256_final :: "'c signal_context \<Rightarrow> ptr \<Rightarrow> ('c, 's, bytes option) M" where
  "signal_hmac_sha256_final ctx h =
     bindE (derefE (hmac_sha256_final_func (crypto_provider ctx))) (\<lambda>f.
     bindE (crypto_call (f h)) (\<lambda>(r, out). thenE (statusE r) (returnE out)))"

definition signal_hmac_sha256_cleanup :: "'c signal_context \<Rightarrow> ptr \<Rightarrow> ('c, 's, unit) M" where
  "signal_hmac_sha256_cleanup ctx h =
     bindE (derefE (hmac_sha256_cleanup_func (crypto_provider ctx))) (\<lambda>f.
     crypto_call (\<lambda>c. ((), f h c)))"

definition signal_sha512_digest_init :: "'c signal_context \<Rightarrow> ('c, 's, int \<times> ptr option) M" where
  "signal_sha512_digest_init ctx =
     bindE (derefE (sha512_digest_init_func (crypto_provider ctx))) (\<lambda>f. crypto_call f)"

definition signal_sha512_digest_update :: "'c signal_context \<Rightarrow> ptr \<Rightarrow> bytes \<Rightarrow> ('c, 's, unit) M" where
  "signal_sha512_digest_update ctx h data =
     bindE (derefE (sha512_digest_update_func (crypto_provider ctx))) (\<lambda>f.
     bindE (crypto_call (f h data)) statusE)"

definition signal_sha512_digest_final :: "'c signal_context \<Rightarrow> ptr \<Rightarrow> ('c, 's, bytes option) M" where
  "signal_sha512_digest_final ctx h =
     bindE (derefE (sha512_digest_final_func (crypto_provider ctx))) (\<lambda>f.
     bindE (crypto_call (f h)) (\<lambda>(r, out). thenE (statusE r) (returnE out)))"

definition signal_sha512_digest_cleanup :: "'c signal_context \<Rightarrow> ptr \<Rightarrow> ('c, 's, unit) M" where
  "signal_sha512_digest_cleanup ctx h =
     bindE (derefE (sha512_digest_cleanup_func (crypto_provider ctx))) (\<lambda>f.
     crypto_call (\<lambda>c. ((), f h c)))"

definition SG_CIPHER_AES_CTR_NOPADDING :: int where "SG_CIPHER_AES_CTR_NOPADDING = 1"
definition SG_CIPHER_AES_CBC_PKCS5 :: int where "SG_CIPHER_AES_CBC_PKCS5 = 2"

definition signal_encrypt ::
    "'c signal_context \<Rightarrow> int \<Rightarrow> bytes \<Rightarrow> bytes \<Rightarrow> bytes \<Rightarrow> ('c, 's, bytes option) M" where
  "signal_encrypt ctx cipher key iv plaintext =
     bindE (derefE (encrypt_func (crypto_provider ctx))) (\<lambda>f.
     bindE (crypto_call (f cipher key iv plaintext)) (\<lambda>(r, out). thenE (statusE r) (returnE out)))"

definition signal_decrypt ::
    "'c signal_context \<Rightarrow> int \<Rightarrow> bytes \<Rightarrow> bytes \<Rightarrow> bytes \<Rightarrow> ('c, 's, bytes option) M" where
  "signal_decrypt ctx cipher key iv ciphertext =
     bindE (derefE (decrypt_func (crypto_provider ctx))) (\<lambda>f.
     bindE (crypto_call (f cipher key iv ciphertext)) (\<lambda>(r, out). thenE (statusE r) (returnE out)))"

text \<open>The shape of every HMAC computation of the library: init, a sequence of updates, final, the
  use of the result, and the cleanup that follows every outcome.  The callers differ in the context
  variable they start from: left uninitialised (cleaning up a pointer that was never set is undefined),
  null and passed to the cleanup callback as it is, or null and tested first.\<close>

datatype context_var = Uninitialised | Null_unguarded | Null_guarded

text \<open>Each update gets the bytes that a step of the caller produces.\<close>

definition hmac_updates :: "'c signal_context \<Rightarrow> ptr \<Rightarrow> ('c, 's, bytes) M list \<Rightarrow> ('c, 's, unit) M" where
  "hmac_updates ctx h inputs =
     foldE (\<lambda>p _. bindE p (\<lambda>d. signal_hmac_sha256_update ctx h d)) inputs ()"

definition hmac_cleanup :: "'c signal_context \<Rightarrow> context_var \<Rightarrow> ptr option \<Rightarrow> ('c, 's, unit) M" where
  "hmac_cleanup ctx var h =
     (case h of
        None \<Rightarrow>
         (case var of
            Uninitialised \<Rightarrow> faultE
          | Null_unguarded \<Rightarrow> signal_hmac_sha256_cleanup ctx 0
          | Null_guarded \<Rightarrow> returnE ())
      | Some h' \<Rightarrow> signal_hmac_sha256_cleanup ctx h')"

definition hmac_sha256_steps ::
    "'c signal_context \<Rightarrow> context_var \<Rightarrow> bytes \<Rightarrow> ('c, 's, bytes) M list \<Rightarrow> (bytes option \<Rightarrow> ('c, 's, 'a) M)
      \<Rightarrow> ('c, 's, 'a) M"
  where
  "hmac_sha256_steps ctx var key inputs use_mac =
     bindE (signal_hmac_sha256_init ctx key) (\<lambda>(r, h).
     finallyE
       (thenE (statusE r)
       (bindE (derefE h) (\<lambda>h'.
        thenE (hmac_updates ctx h' inputs)
       (bindE (signal_hmac_sha256_final ctx h') use_mac))))
       (hmac_cleanup ctx var h))"

definition hmac_sha256_run ::
    "'c signal_context \<Rightarrow> context_var \<Rightarrow> bytes \<Rightarrow> bytes list \<Rightarrow> (bytes option \<Rightarrow> ('c, 's, 'a) M) \<Rightarrow> ('c, 's, 'a) M"
  where
  "hmac_sha256_run ctx var key chunks use_mac = hmac_sha256_steps ctx var key (map returnE chunks) use_mac"

text \<open>The documented behaviour of the provider, for an HMAC function \<open>H\<close>, a digest \<open>D\<close> and a
  cipher \<open>E\<close>.  \<open>R c h k d\<close> reads: in memory \<open>c\<close>, context \<open>h\<close> has key \<open>k\<close> and was fed \<open>d\<close>.\<close>

definition hmac_laws :: "'c signal_context \<Rightarrow> (bytes \<Rightarrow> bytes \<Rightarrow> bytes) \<Rightarrow> bool" where
  "hmac_laws ctx H = (\<exists>ini upd fin cln R.
     hmac_sha256_init_func (crypto_provider ctx) = Some ini \<and>
     hmac_sha256_update_func (crypto_provider ctx) = Some upd \<and>
     hmac_sha256_final_func (crypto_provider ctx) = Some fin \<and>
     hmac_sha256_cleanup_func (crypto_provider ctx) = Some cln \<and>
     (\<forall>k c. \<exists>h c'. ini k c = ((0, Some h), c') \<and> R c' h k []) \<and>
     (\<forall>c h k d x. R c h k d \<longrightarrow> (\<exists>c'. upd h x c = (0, c') \<and> R c' h k (d @ x))) \<and>
     (\<forall>c h k d. R c h k d \<longrightarrow> (\<exists>c'. fin h c = ((0, Some (H k d)), c'))) \<and>
     (\<forall>k d. length (H k d) = 32))"

definition cipher_laws ::
    "'c signal_context \<Rightarrow> (int \<Rightarrow> bytes \<Rightarrow> bytes \<Rightarrow> bytes \<Rightarrow> bytes) \<Rightarrow> bool" where
  "cipher_laws ctx E = (\<exists>enc dec.
     encrypt_func (crypto_provider ctx) = Some enc \<and>
     decrypt_func (crypto_provider ctx) = Some dec \<and>
     (\<forall>m k iv p c. length k = 32 \<longrightarrow> length iv = 16 \<longrightarrow>
        (\<exists>c'. enc m k iv p c = ((0, Some (E m k iv p)), c')) \<and>
        (\<exists>c'. dec m k iv (E m k iv p) c = ((0, Some p), c')) \<and>
        length (E m k iv p) \<le> length p + 16))"

declare signal_constant_memcmp_loop.simps [simp del]
declare utarray_grow.simps [simp del]

section \<open>Comparison\<close>

lemma or_eq_0_iff: "(a OR b = 0) = (a = 0 \<and> b = (0 :: 'a :: len word))"
  by (auto simp: bit_eq_iff bit_or_iff)

lemma xor_eq_0_iff: "(a XOR b = 0) = (a = (b :: 'a :: len word))"
  by (auto simp: bit_eq_iff bit_xor_iff)

lemma memcmp_loop_eq_0:
  "(signal_constant_memcmp_loop c1 c2 i n r = 0) = (r = 0 \<and> (\<forall>j. i \<le> j \<longrightarrow> j < n \<longrightarrow> c1 ! j = c2 ! j))"
proof (induction c1 c2 i n r rule: signal_constant_memcmp_loop.induct)
  case (1 c1 c2 i n r)
  show ?case
  proof (cases "i < n")
    case True
    have "(\<forall>j. i \<le> j \<longrightarrow> j < n \<longrightarrow> c1 ! j = c2 ! j) =
          (c1 ! i = c2 ! i \<and> (\<forall>j. i + 1 \<le> j \<longrightarrow> j < n \<longrightarrow> c1 ! j = c2 ! j))"
      using True by (metis Suc_eq_plus1 Suc_leD le_antisym le_refl not_less_eq_eq)
    then show ?thesis
      using 1 True
      by (subst signal_constant_memcmp_loop.simps) (auto simp: or_eq_0_iff xor_eq_0_iff)
  qed (subst signal_constant_memcmp_loop.simps, simp)
qed

lemma signal_constant_memcmp_eq_0:
  "n \<le> length s1 \<Longrightarrow> n \<le> length s2 \<Longrightarrow> (signal_constant_memcmp s1 s2 n = 0) = (take n s1 = take n s2)"
  by (simp add: signal_constant_memcmp_def uint_0_iff memcmp_loop_eq_0 list_eq_iff_nth_eq)

lemma signal_buffer_compare_eq_0: "(signal_buffer_compare b1 b2 = 0) = (b1 = b2)"
  by (auto simp: signal_buffer_compare_def signal_constant_memcmp_eq_0 split: option.splits)

section \<open>Buffers and provider calls when nothing fails\<close>

lemma SIZE_MAX_bound: "n < 2 ^ 63 \<Longrightarrow> \<not> SIZE_MAX - sizeof_signal_buffer < n"
  by (simp add: SIZE_MAX_def sizeof_signal_buffer_def)

lemma yields_signal_buffer_create [yields_rules]:
  "length d < 2 ^ 63 \<Longrightarrow> yields (signal_buffer_create d) (Some d)"
  unfolding signal_buffer_create_def signal_buffer_alloc_def
  by (simp only: SIZE_MAX_bound if_False) (rule yields_bindE, rule yields_try_alloc, simp add: yields_rules)

lemma yields_new_buffer [yields_rules]: "length d < 2 ^ 63 \<Longrightarrow> yields (new_buffer d) d"
  unfolding new_buffer_def
  by (rule yields_bindE, rule yields_signal_buffer_create) (simp_all add: yields_rules)

lemma keeps_statusE [keeps_rules, intro!]: "keeps_store (statusE r)"
  by (auto simp: statusE_def)

lemma keeps_crypto_call [keeps_rules, intro!]: "keeps_store (crypto_call f)"
  by (auto simp: keeps_store_def crypto_call_def split: prod.splits)

lemma keeps_new_buffer [keeps_rules, intro!]:
  "keeps_store (signal_buffer_create d)" "keeps_store (new_buffer d)"
  by (auto simp: signal_buffer_create_def signal_buffer_alloc_def new_buffer_def split: option.splits)

lemma keeps_provider_calls [keeps_rules, intro!]:
  "keeps_store (signal_crypto_random ctx n)"
  "keeps_store (signal_hmac_sha256_init ctx k)"
  "keeps_store (signal_hmac_sha256_update ctx h d)"
  "keeps_store (signal_hmac_sha256_final ctx h)"
  "keeps_store (signal_hmac_sha256_cleanup ctx h)"
  "keeps_store (signal_encrypt ctx m k iv p)"
  "keeps_store (signal_decrypt ctx m k iv p)"
  by (auto simp: signal_crypto_random_def signal_hmac_sha256_init_def signal_hmac_sha256_update_def
      signal_hmac_sha256_final_def signal_hmac_sha256_cleanup_def signal_encrypt_def
      signal_decrypt_def split: prod.splits)

lemma keeps_hmac_updates: "(\<And>p. p \<in> set inputs \<Longrightarrow> keeps_store p) \<Longrightarrow> keeps_store (hmac_updates ctx h inputs)"
proof (induction inputs)
  case (Cons p inputs)
  then have "keeps_store p" "keeps_store (hmac_updates ctx h inputs)" by simp_all
  moreover have "hmac_updates ctx h (p # inputs) =
      bindE (bindE p (signal_hmac_sha256_update ctx h)) (\<lambda>_. hmac_updates ctx h inputs)"
    by (simp add: hmac_updates_def)
  ultimately show ?case by auto
qed (auto simp: hmac_updates_def)

lemma keeps_hmac_sha256_steps [keeps_rules]:
  assumes "\<And>p. p \<in> set inputs \<Longrightarrow> keeps_store p" and "\<And>m. keeps_store (f m)"
  shows "keeps_store (hmac_sha256_steps ctx g k inputs f)"
  using assms keeps_hmac_updates [OF assms(1)]
  by (auto simp: hmac_sha256_steps_def hmac_cleanup_def split: prod.splits option.splits context_var.splits)

lemma keeps_hmac_sha256_run [keeps_rules, intro!]:
  "(\<And>m. keeps_store (f m)) \<Longrightarrow> keeps_store (hmac_sha256_run ctx g k chunks f)"
  unfolding hmac_sha256_run_def by (rule keeps_hmac_sha256_steps) auto

lemma yields_crypto_call: "(\<And>c. fst (f c) = x) \<Longrightarrow> yields (crypto_call f) x"
  by (auto simp: yields_def ensures_def wp_def crypto_call_def split: prod.splits) (metis fst_conv)

lemma yields_statusE [yields_rules]: "0 \<le> r \<Longrightarrow> yields (statusE r) ()"
  by (simp add: statusE_def yields_returnE)

lemma wp_crypto_call [wp_rules, simp]:
  "wp (crypto_call f) Q w = (case f (crypto_data w) of (x, c) \<Rightarrow> Q x (w\<lparr>crypto_data := c\<rparr>))"
  by (auto simp: wp_def crypto_call_def split: prod.splits)

lemma wp_statusE [wp_rules, simp]: "wp (statusE r) Q w = (0 \<le> r \<and> Q () w)"
  by (auto simp: statusE_def)

text \<open>A step that only allocates and leaves the provider alone.\<close>

definition quiet :: "('c, 's, 'a) M \<Rightarrow> 'a \<Rightarrow> bool" where
  "quiet m x = (\<forall>w. allocs w = [] \<longrightarrow> m w = (Ok x, w))"

lemma quiet_returnE [simp]: "quiet (returnE x) x"
  by (simp add: quiet_def returnE_def)

lemma wp_hmac_updates:
  assumes "hmac_sha256_update_func (crypto_provider ctx) = Some upd"
    and "\<forall>c h k d x. R c h k d \<longrightarrow> (\<exists>c'. upd h x c = (0, c') \<and> R c' h k (d @ x))"
    and "list_all2 quiet inputs chunks" and "R (crypto_data w) h k d" and "allocs w = []"
  shows "wp (hmac_updates ctx h inputs) (\<lambda>_ w'. R (crypto_data w') h k (d @ concat chunks)
    \<and> allocs w' = [] \<and> store_data w' = store_data w) w"
  using assms(3-)
proof (induction inputs chunks arbitrary: d w rule: list_all2_induct)
  case (Cons p inputs x chunks)
  obtain c' where c': "upd h x (crypto_data w) = (0, c')" "R c' h k (d @ x)"
    using assms(2) Cons.prems by blast
  have "wp p Q w = Q x w" for Q
    using Cons.hyps(1) Cons.prems(2) by (simp add: quiet_def wp_def)
  then show ?case
    using Cons.IH [of "w\<lparr>crypto_data := c'\<rparr>" "d @ x"] c' assms(1) Cons.prems(2)
    by (simp add: hmac_updates_def signal_hmac_sha256_update_def)
qed (simp add: hmac_updates_def)

lemma yields_hmac_sha256_steps:
  assumes laws: "hmac_laws ctx H" and inputs: "list_all2 quiet inputs chunks"
    and f: "yields (f (Some (H k (concat chunks)))) x"
  shows "yields (hmac_sha256_steps ctx g k inputs f) x"
  unfolding yields_def ensures_def
proof (intro allI impI)
  fix w :: "('a, 'b) world"
  assume w: "allocs w = []"
  obtain ini upd fin cln R where fs:
      "hmac_sha256_init_func (crypto_provider ctx) = Some ini"
      "hmac_sha256_update_func (crypto_provider ctx) = Some upd"
      "hmac_sha256_final_func (crypto_provider ctx) = Some fin"
      "hmac_sha256_cleanup_func (crypto_provider ctx) = Some cln"
    and ini: "\<forall>k c. \<exists>h c'. ini k c = ((0, Some h), c') \<and> R c' h k []"
    and upd: "\<forall>c h k d x. R c h k d \<longrightarrow> (\<exists>c'. upd h x c = (0, c') \<and> R c' h k (d @ x))"
    and fin: "\<forall>c h k d. R c h k d \<longrightarrow> (\<exists>c'. fin h c = ((0, Some (H k d)), c'))"
    using laws unfolding hmac_laws_def by auto
  obtain h c' where h: "ini k (crypto_data w) = ((0, Some h), c')" "R c' h k []"
    using ini by blast
  have f': "wp (f (Some (H k (concat chunks)))) (\<lambda>y w'. y = x \<and> allocs w' = [] \<and>
      store_data w' = store_data w) v" if "allocs v = []" "store_data v = store_data w" for v
    by (rule ensures_wp [OF f [unfolded yields_def]]) (simp_all add: that)
  have last: "wp (bindE (signal_hmac_sha256_final ctx h) f)
      (\<lambda>y. wp (hmac_cleanup ctx g (Some h)) (\<lambda>_ w'. y = x \<and> allocs w' = [] \<and> store_data w' = store_data w)) v"
    if "R (crypto_data v) h k (concat chunks)" "allocs v = []" "store_data v = store_data w" for v
  proof -
    obtain c'' where "fin h (crypto_data v) = ((0, Some (H k (concat chunks))), c'')"
      using fin \<open>R (crypto_data v) h k (concat chunks)\<close> by blast
    then show ?thesis
      using f' [of "v\<lparr>crypto_data := c''\<rparr>"] that
      by (auto simp: signal_hmac_sha256_final_def hmac_cleanup_def signal_hmac_sha256_cleanup_def fs
          elim: wp_mono)
  qed
  have "wp (hmac_updates ctx h inputs) (\<lambda>_. wp (bindE (signal_hmac_sha256_final ctx h) f)
      (\<lambda>y. wp (hmac_cleanup ctx g (Some h)) (\<lambda>_ w'. y = x \<and> allocs w' = [] \<and> store_data w' = store_data w)))
      (w\<lparr>crypto_data := c'\<rparr>)"
    by (rule wp_mono [OF wp_hmac_updates [OF fs(2) upd inputs, where k = k and d = "[]"]])
       (use h w last in auto)
  then show "wp (hmac_sha256_steps ctx g k inputs f)
      (\<lambda>y w'. y = x \<and> allocs w' = [] \<and> store_data w' = store_data w) w"
    by (simp add: hmac_sha256_steps_def signal_hmac_sha256_init_def fs h)
qed

lemma yields_hmac_sha256_run:
  "hmac_laws ctx H \<Longrightarrow> yields (f (Some (H k (concat chunks)))) x \<Longrightarrow> yields (hmac_sha256_run ctx g k chunks f) x"
  unfolding hmac_sha256_run_def
  by (rule yields_hmac_sha256_steps) (simp_all add: list_all2_map1 list.rel_refl)

lemma hmac_laws_length: "hmac_laws ctx H \<Longrightarrow> length (H k d) = 32"
  by (auto simp: hmac_laws_def)

lemma yields_signal_encrypt [yields_rules]:
  assumes "cipher_laws ctx E" "length k = 32" "length iv = 16"
  shows "yields (signal_encrypt ctx m k iv p) (Some (E m k iv p))"
proof -
  obtain f where f: "encrypt_func (crypto_provider ctx) = Some f"
    and run: "\<exists>c'. f m k iv p c = ((0, Some (E m k iv p)), c')" for c
    using assms unfolding cipher_laws_def by blast
  have "fst (f m k iv p c) = (0, Some (E m k iv p))" for c
    using run [of c] by auto
  then show ?thesis
    unfolding signal_encrypt_def f
    by (auto intro!: yields_bindE yields_derefE yields_crypto_call yields_thenE yields_rules)
qed

lemma yields_signal_decrypt [yields_rules]:
  assumes "cipher_laws ctx E" "length k = 32" "length iv = 16"
  shows "yields (signal_decrypt ctx m k iv (E m k iv p)) (Some p)"
proof -
  obtain f where f: "decrypt_func (crypto_provider ctx) = Some f"
    and run: "\<exists>c'. f m k iv (E m k iv p) c = ((0, Some p), c')" for c
    using assms unfolding cipher_laws_def by blast
  have "fst (f m k iv (E m k iv p) c) = (0, Some p)" for c
    using run [of c] by auto
  then show ?thesis
    unfolding signal_decrypt_def f
    by (auto intro!: yields_bindE yields_derefE yields_crypto_call yields_thenE yields_rules)
qed

lemma cipher_laws_length:
  "cipher_laws ctx E \<Longrightarrow> length k = 32 \<Longrightarrow> length iv = 16 \<Longrightarrow> length (E m k iv p) \<le> length p + 16"
  by (auto simp: cipher_laws_def)

section \<open>Growing an array\<close>

definition ut_ok :: "'a ut_array \<Rightarrow> bool" where
  "ut_ok a = (length (ut_elems a) \<le> ut_n a \<and> ut_n a \<le> ut_cap a)"

lemma utarray_grow_ge: "need \<le> utarray_grow need n"
  by (induction need n rule: utarray_grow.induct) (subst utarray_grow.simps, simp)

lemma ensures_utarray_reserve:
  assumes "ut_ok a"
  shows "ensures (utarray_reserve n a) (\<lambda>(ok, a'). ok \<and> ut_ok a' \<and> ut_elems a' = ut_elems a \<and> length (ut_elems a) + n \<le> ut_cap a')"
  using assms utarray_grow_ge [of "length (ut_elems a) + n" "ut_n a"] unfolding utarray_reserve_def Let_def
  by (auto simp: ut_ok_def intro!: ensures_returnE ensures_bind_yields [OF yields_try_alloc])

lemma ensures_utarray_push_back:
  assumes "ut_ok a"
  shows "ensures (utarray_push_back a x) (\<lambda>(ok, a'). ok \<and> ut_ok a' \<and> ut_elems a' = ut_elems a @ [x])"
proof -
  have "ensures (utarray_reserve 1 a) (\<lambda>(ok, a'). (ok \<and> length (ut_elems a') < ut_cap a') \<and>
      length (ut_elems a) + 1 \<le> ut_n a' \<and> ut_ok a' \<and> ut_elems a' = ut_elems a)"
    using assms utarray_grow_ge [of "length (ut_elems a) + 1" "ut_n a"] unfolding utarray_reserve_def Let_def
    by (auto simp: ut_ok_def intro!: ensures_returnE ensures_bind_yields [OF yields_try_alloc])
  then show ?thesis
    unfolding utarray_push_back_def
    by (rule ensures_bindE) (auto simp: ut_ok_def intro!: ensures_thenE [OF yields_assertE] ensures_returnE)
qed

text \<open>Copying an array element by element into a fresh one.\<close>

lemma ensures_utarray_new: "ensures utarray_new (\<lambda>a. ut_ok a \<and> ut_elems a = [])"
  unfolding utarray_new_def by (rule ensures_thenE [OF yields_alloc], rule ensures_returnE) (simp add: ut_ok_def)

lemma ensures_copy_elements:
  assumes "\<And>acc x. ut_ok acc \<Longrightarrow> ensures (push acc x) (\<lambda>a. ut_ok a \<and> ut_elems a = ut_elems acc @ [x])" and "ut_ok acc"
  shows "ensures (foldE (\<lambda>x acc. push acc x) xs acc) (\<lambda>a. ut_ok a \<and> ut_elems a = ut_elems acc @ xs)"
  using assms(2)
proof (induction xs arbitrary: acc)
  case (Cons x xs)
  show ?case
    unfolding foldE.simps
  proof (rule ensures_bindE [OF assms(1) [OF Cons.prems]])
    fix a
    assume "ut_ok a \<and> ut_elems a = ut_elems acc @ [x]"
    then show "ensures (foldE (\<lambda>x acc. push acc x) xs a) (\<lambda>a. ut_ok a \<and> ut_elems a = ut_elems acc @ x # xs)"
      using Cons.IH [of a] by simp
  qed
qed (simp add: ensures_returnE)

lemma ensures_copy_array:
  assumes "\<And>acc x. ut_ok acc \<Longrightarrow> ensures (push acc x) (\<lambda>a. ut_ok a \<and> ut_elems a = ut_elems acc @ [x])"
  shows "ensures (bindE (thenE alloc utarray_new) (\<lambda>r.
      bindE (utarray_reserve (length xs) r) (\<lambda>(ok, r').
      if \<not> ok then failE SG_ERR_NOMEM else foldE (\<lambda>x acc. push acc x) xs r')))
    (\<lambda>a. ut_ok a \<and> ut_elems a = xs)"
proof (rule ensures_bindE [OF ensures_thenE [OF yields_alloc ensures_utarray_new]])
  fix r :: "'a ut_array"
  assume r: "ut_ok r \<and> ut_elems r = []"
  show "ensures (bindE (utarray_reserve (length xs) r) (\<lambda>(ok, r').
      if \<not> ok then failE SG_ERR_NOMEM else foldE (\<lambda>x acc. push acc x) xs r')) (\<lambda>a. ut_ok a \<and> ut_elems a = xs)"
  proof (rule ensures_bindE [OF ensures_utarray_reserve])
    fix y
    assume "case y of (ok, a') \<Rightarrow> ok \<and> ut_ok a' \<and> ut_elems a' = ut_elems r \<and> length (ut_elems r) + length xs \<le> ut_cap a'"
    then show "ensures (case y of (ok, r') \<Rightarrow>
        if \<not> ok then failE SG_ERR_NOMEM else foldE (\<lambda>x acc. push acc x) xs r') (\<lambda>a. ut_ok a \<and> ut_elems a = xs)"
      using ensures_copy_elements [OF assms, of "snd y" xs] r by (cases y) simp
  qed (use r in simp)
qed

end
