(* ===== verification/Hkdf.thy ===== *)
theory Hkdf
  imports Signal_Base
begin

text \<open>
  hkdf.c: the HMAC-based key derivation of both protocol versions.  The model keeps the 8-bit loop
  counter of \<open>hkdf_expand\<close>.  The reference is the definition of RFC 5869, generalised to the first
  counter value (1 in the RFC and for message version 3, 0 for version 2).
\<close>

section \<open>Model\<close>

record hkdf_context =
  iteration_start_offset :: int

definition HASH_OUTPUT_SIZE :: nat where "HASH_OUTPUT_SIZE = 32"

definition hkdf_create :: "nat \<Rightarrow> ('c, 's, hkdf_context) M" where
  "hkdf_create message_version =
     thenE alloc
      (if message_version = 2 then returnE \<lparr>iteration_start_offset = 0\<rparr>
       else if message_version = 3 then returnE \<lparr>iteration_start_offset = 1\<rparr>
       else failE SG_ERR_INVAL)"

definition hkdf_extract :: "'c signal_context \<Rightarrow> bytes \<Rightarrow> bytes \<Rightarrow> ('c, 's, bytes) M" where
  "hkdf_extract ctx salt input_key_material =
     hmac_sha256_run ctx Uninitialised salt [input_key_material] (\<lambda>mac_buffer.
     bindE (derefE mac_buffer) (\<lambda>mac. thenE alloc (returnE mac)))"

text \<open>One pass of the loop body: the HMAC of the previous step, the info and the counter byte.\<close>

definition hkdf_expand_step ::
    "'c signal_context \<Rightarrow> bytes \<Rightarrow> bytes option \<Rightarrow> byte \<Rightarrow> bytes option \<Rightarrow> ('c, 's, bytes) M" where
  "hkdf_expand_step ctx prk info i step_buffer =
     bindE (hmac_sha256_run ctx Null_guarded prk
       ((case step_buffer of None \<Rightarrow> [] | Some b \<Rightarrow> [b]) @
        (case info of None \<Rightarrow> [] | Some b \<Rightarrow> [b]) @ [[i]]) returnE) derefE"

text \<open>The counter \<open>i\<close> is a \<open>uint8_t\<close> compared with an \<open>int\<close>.  The test depends on nothing else, so
  after 256 passes every counter value has passed it and the loop never ends.\<close>

fun hkdf_expand_loop ::
    "nat \<Rightarrow> 'c signal_context \<Rightarrow> int \<Rightarrow> bytes \<Rightarrow> bytes option \<Rightarrow> byte \<Rightarrow> bytes option \<Rightarrow> nat \<Rightarrow> bytes
      \<Rightarrow> ('c, 's, bytes) M" where
  "hkdf_expand_loop fuel ctx bound prk info i step_buffer remaining_len result_buf =
     (if uint i < bound then
        (case fuel of
           0 \<Rightarrow> faultE
         | Suc fuel' \<Rightarrow>
             bindE (hkdf_expand_step ctx prk info i step_buffer) (\<lambda>step.
             (let step_size = min remaining_len (length step) in
              thenE alloc
               (hkdf_expand_loop fuel' ctx bound prk info (i + 1) (Some step)
                  (remaining_len - step_size) (result_buf @ take step_size step)))))
      else returnE result_buf)"

definition hkdf_iterations :: "nat \<Rightarrow> int" where
  "hkdf_iterations output_len = int ((output_len + HASH_OUTPUT_SIZE - 1) div HASH_OUTPUT_SIZE)"

definition hkdf_expand ::
    "'c signal_context \<Rightarrow> hkdf_context \<Rightarrow> bytes \<Rightarrow> bytes option \<Rightarrow> nat \<Rightarrow> ('c, 's, bytes) M" where
  "hkdf_expand ctx kdf prk info output_len =
     hkdf_expand_loop 256 ctx (hkdf_iterations output_len + iteration_start_offset kdf) prk info
       (word_of_int (iteration_start_offset kdf)) None output_len []"

definition hkdf_derive_secrets ::
    "'c signal_context \<Rightarrow> hkdf_context \<Rightarrow> bytes \<Rightarrow> bytes \<Rightarrow> bytes option \<Rightarrow> nat \<Rightarrow> ('c, 's, bytes) M" where
  "hkdf_derive_secrets ctx kdf input_key_material salt info output_len =
     bindE (hkdf_extract ctx salt input_key_material) (\<lambda>prk.
     hkdf_expand ctx kdf prk info output_len)"

definition hkdf_compare :: "hkdf_context option \<Rightarrow> hkdf_context option \<Rightarrow> int" where
  "hkdf_compare context1 context2 =
     (case (context1, context2) of
        (None, None) \<Rightarrow> 0
      | (None, Some _) \<Rightarrow> -1
      | (Some _, None) \<Rightarrow> 1
      | (Some c1, Some c2) \<Rightarrow>
          if iteration_start_offset c1 < iteration_start_offset c2 then -1
          else if iteration_start_offset c1 > iteration_start_offset c2 then 1
          else 0)"

section \<open>Reference: RFC 5869\<close>

text \<open>\<open>rfc5869_T H prk info n0 n\<close> is the block with counter \<open>n0 + n\<close>; the block before the first is
  empty.\<close>

fun rfc5869_T :: "(bytes \<Rightarrow> bytes \<Rightarrow> bytes) \<Rightarrow> bytes \<Rightarrow> bytes \<Rightarrow> nat \<Rightarrow> nat \<Rightarrow> bytes" where
  "rfc5869_T H prk info n0 0 = H prk (info @ [of_nat n0])"
| "rfc5869_T H prk info n0 (Suc n) = H prk (rfc5869_T H prk info n0 n @ info @ [of_nat (n0 + Suc n)])"

definition rfc5869_expand :: "(bytes \<Rightarrow> bytes \<Rightarrow> bytes) \<Rightarrow> nat \<Rightarrow> bytes \<Rightarrow> bytes \<Rightarrow> nat \<Rightarrow> bytes" where
  "rfc5869_expand H n0 prk info L =
     take L (concat (map (rfc5869_T H prk info n0) [0..<(L + 31) div 32]))"

definition rfc5869 :: "(bytes \<Rightarrow> bytes \<Rightarrow> bytes) \<Rightarrow> nat \<Rightarrow> bytes \<Rightarrow> bytes \<Rightarrow> bytes \<Rightarrow> nat \<Rightarrow> bytes" where
  "rfc5869 H n0 salt ikm info L = rfc5869_expand H n0 (H salt ikm) info L"

declare hkdf_expand_loop.simps [simp del]

section \<open>Lemmas\<close>

lemma keeps_hkdf_expand_loop [keeps_rules, intro!]:
  "keeps_store (hkdf_expand_loop fuel ctx b prk info i st r res)"
proof (induction fuel arbitrary: i st r res)
  case 0
  show ?case by (subst hkdf_expand_loop.simps) auto
next
  case (Suc fuel)
  show ?case
    by (subst hkdf_expand_loop.simps) (auto simp: Let_def hkdf_expand_step_def intro!: Suc.IH)
qed

lemma keeps_hkdf [keeps_rules, intro!]:
  "keeps_store (hkdf_create v)"
  "keeps_store (hkdf_extract ctx salt ikm)"
  "keeps_store (hkdf_derive_secrets ctx kdf ikm salt info n)"
  by (auto simp: hkdf_create_def hkdf_extract_def hkdf_derive_secrets_def hkdf_expand_def)

lemma yields_hkdf_create [yields_rules]:
  "v = 2 \<or> v = 3 \<Longrightarrow> yields (hkdf_create v) \<lparr>iteration_start_offset = int v - 2\<rparr>"
  unfolding hkdf_create_def by (auto intro!: yields_rules)

lemma yields_hkdf_extract:
  "hmac_laws ctx H \<Longrightarrow> yields (hkdf_extract ctx salt ikm) (H salt ikm)"
  unfolding hkdf_extract_def
  by (rule yields_hmac_sha256_run, assumption) (auto intro!: yields_rules)

lemma yields_hkdf_expand_step:
  assumes "hmac_laws ctx H"
  shows "yields (hkdf_expand_step ctx prk (Some info) i st)
    (H prk ((case st of None \<Rightarrow> [] | Some b \<Rightarrow> b) @ info @ [i]))"
  unfolding hkdf_expand_step_def
  by (rule yields_bindE, rule yields_hmac_sha256_run [OF assms], rule yields_returnE)
     (auto intro!: yields_rules simp: derefE_def split: option.splits)

lemma rfc5869_T_length: "hmac_laws ctx H \<Longrightarrow> length (rfc5869_T H prk info n0 n) = 32"
  by (cases n) (simp_all add: hmac_laws_length)

lemma rfc5869_concat_length:
  "hmac_laws ctx H \<Longrightarrow> length (concat (map (rfc5869_T H prk info n0) [0..<n])) = 32 * n"
  by (induction n) (simp_all add: rfc5869_T_length)

lemma uint_byte_of_nat: "k \<le> 255 \<Longrightarrow> uint (of_nat k :: byte) = int k"
  by (simp add: unsigned_of_nat take_bit_eq_mod)

text \<open>Before pass \<open>n\<close> the loop holds the blocks \<open>0..<n\<close>, cut to the requested length.\<close>

lemma yields_hkdf_expand_loop:
  assumes laws: "hmac_laws ctx H" and bound: "n0 + N \<le> 255"
  shows "n \<le> N \<Longrightarrow> N - n \<le> fuel \<Longrightarrow>
    yields (hkdf_expand_loop fuel ctx (int N + int n0) prk (Some info) (of_nat (n0 + n))
        (if n = 0 then None else Some (rfc5869_T H prk info n0 (n - 1)))
        (L - 32 * n) (take L (concat (map (rfc5869_T H prk info n0) [0..<n])))
        :: ('c, 's, bytes) M)
      (take L (concat (map (rfc5869_T H prk info n0) [0..<N])))"
proof (induction "N - n" arbitrary: n fuel)
  case 0
  then have "n = N" by simp
  moreover have "uint (of_nat (n0 + N) :: byte) = int (n0 + N)"
    using bound by (rule uint_byte_of_nat)
  ultimately show ?case
    by (subst hkdf_expand_loop.simps) (simp add: yields_rules del: of_nat_add)
next
  case (Suc d)
  then obtain fuel' where fuel: "fuel = Suc fuel'" by (cases fuel) auto
  have i: "uint (of_nat (n0 + n) :: byte) = int (n0 + n)"
    by (rule uint_byte_of_nat) (use bound Suc in simp)
  let ?T = "rfc5869_T H prk info n0"
  let ?st = "if n = 0 then None else Some (?T (n - 1))"
  have T: "H prk ((case ?st of None \<Rightarrow> [] | Some b \<Rightarrow> b) @ info @ [of_nat (n0 + n)]) = ?T n"
    by (cases n) auto
  have len: "length (?T n) = 32" by (rule rfc5869_T_length [OF laws])
  have clen: "length (concat (map ?T [0..<n])) = 32 * n" by (rule rfc5869_concat_length [OF laws])
  have "yields (hkdf_expand_step ctx prk (Some info) (of_nat (n0 + n)) ?st :: ('c, 's, bytes) M) (?T n)"
    using yields_hkdf_expand_step [OF laws, of prk info "of_nat (n0 + n)" ?st] T by simp
  moreover have "yields (hkdf_expand_loop fuel' ctx (int N + int n0) prk (Some info)
      (of_nat (n0 + n) + 1) (Some (?T n)) (L - 32 * n - min (L - 32 * n) (length (?T n)))
      (take L (concat (map ?T [0..<n])) @ take (min (L - 32 * n) (length (?T n))) (?T n)) :: ('c, 's, bytes) M)
      (take L (concat (map ?T [0..<N])))"
  proof -
    have "L - 32 * n - min (L - 32 * n) (length (?T n)) = L - 32 * Suc n"
      and "take (min (L - 32 * n) (length (?T n))) (?T n) = take (L - 32 * n) (?T n)"
      and "of_nat (n0 + n) + 1 = (of_nat (n0 + Suc n) :: byte)"
      by (auto simp: len min_def)
    moreover have "d = N - Suc n" "Suc n \<le> N" "N - Suc n \<le> fuel'"
      using Suc.hyps(2) Suc.prems fuel by auto
    ultimately show ?thesis
      using Suc.hyps(1) [of "Suc n" fuel']
      by (simp add: clen del: of_nat_add of_nat_Suc)
  qed
  ultimately show ?case
    using i Suc.hyps(2) bound fuel
    by (subst hkdf_expand_loop.simps) (auto simp: Let_def simp del: of_nat_add intro!: yields_rules)
qed

lemma yields_hkdf_expand:
  assumes "hmac_laws ctx H" and "iteration_start_offset kdf = int n0" and "n0 + (L + 31) div 32 \<le> 255"
  shows "yields (hkdf_expand ctx kdf prk (Some info) L) (rfc5869_expand H n0 prk info L)"
  using yields_hkdf_expand_loop [OF assms(1,3), of 0 256 prk info L] assms(2,3)
  by (simp add: hkdf_expand_def hkdf_iterations_def HASH_OUTPUT_SIZE_def rfc5869_expand_def add.commute)

lemma yields_hkdf_derive_secrets:
  assumes "hmac_laws ctx H" and "iteration_start_offset kdf = int n0" and "n0 + (L + 31) div 32 \<le> 255"
  shows "yields (hkdf_derive_secrets ctx kdf ikm salt (Some info) L) (rfc5869 H n0 salt ikm info L)"
  unfolding hkdf_derive_secrets_def rfc5869_def
  by (rule yields_bindE [OF yields_hkdf_extract yields_hkdf_expand]) (use assms in auto)

lemma rfc5869_length: "hmac_laws ctx H \<Longrightarrow> length (rfc5869 H n0 salt ikm info L) = L"
  by (simp add: rfc5869_def rfc5869_expand_def rfc5869_concat_length)

end
