(* ===== verification/Curve.thy ===== *)
theory Curve
  imports Signal_Base "HOL-Library.Multiset"
begin

text \<open>
  curve.c: Curve25519 keys, their encoding, key generation, agreement and signatures, and lists of
  public keys.  A key is its 32-byte array; the arithmetic of the curve is the linked code, whose
  documented behaviour is \<open>curve_laws\<close>; that of curve25519-donna.c is proved in \<open>Donna_Contract\<close>.
\<close>

section \<open>Model\<close>

type_synonym ec_public_key = bytes
type_synonym ec_private_key = bytes

record ec_key_pair =
  public_key :: ec_public_key
  private_key :: ec_private_key

definition DJB_TYPE :: byte where "DJB_TYPE = 5"
definition DJB_KEY_LEN :: nat where "DJB_KEY_LEN = 32"
definition CURVE_SIGNATURE_LEN :: nat where "CURVE_SIGNATURE_LEN = 64"
definition VRF_SIGNATURE_LEN :: nat where "VRF_SIGNATURE_LEN = 96"

definition curve_decode_point :: "bytes \<Rightarrow> ('c, 's, ec_public_key) M" where
  "curve_decode_point key_data =
     (if length key_data > 0 \<and> key_data ! 0 \<noteq> DJB_TYPE then failE SG_ERR_INVALID_KEY
      else if length key_data \<noteq> DJB_KEY_LEN + 1 then failE SG_ERR_INVALID_KEY
      else thenE alloc (returnE (take DJB_KEY_LEN (drop 1 key_data))))"

definition ec_public_key_compare :: "ec_public_key option \<Rightarrow> ec_public_key option \<Rightarrow> int" where
  "ec_public_key_compare key1 key2 =
     (case (key1, key2) of
        (None, None) \<Rightarrow> 0
      | (None, Some _) \<Rightarrow> -1
      | (Some _, None) \<Rightarrow> 1
      | (Some k1, Some k2) \<Rightarrow> signal_constant_memcmp k1 k2 DJB_KEY_LEN)"

text \<open>\<open>memcmp\<close> of the C library: the first differing byte decides.\<close>

fun memcmp :: "bytes \<Rightarrow> bytes \<Rightarrow> int" where
  "memcmp (x # xs) (y # ys) = (if x = y then memcmp xs ys else if x < y then -1 else 1)"
| "memcmp _ _ = 0"

definition ec_public_key_memcmp :: "ec_public_key option \<Rightarrow> ec_public_key option \<Rightarrow> int" where
  "ec_public_key_memcmp key1 key2 =
     (case (key1, key2) of
        (None, None) \<Rightarrow> 0
      | (None, Some _) \<Rightarrow> -1
      | (Some _, None) \<Rightarrow> 1
      | (Some k1, Some k2) \<Rightarrow> memcmp k1 k2)"

definition ec_public_key_serialize :: "ec_public_key option \<Rightarrow> ('c, 's, bytes) M" where
  "ec_public_key_serialize key =
     (case key of None \<Rightarrow> failE SG_ERR_INVAL
      | Some k \<Rightarrow>
          bindE (signal_buffer_alloc (DJB_KEY_LEN + 1)) (\<lambda>b.
          if b then returnE (DJB_TYPE # k) else failE SG_ERR_NOMEM))"

definition ec_public_key_serialize_protobuf :: "ec_public_key option \<Rightarrow> ('c, 's, bytes) M" where
  "ec_public_key_serialize_protobuf key =
     bindE (derefE key) (\<lambda>k. thenE alloc (returnE (DJB_TYPE # k)))"

definition curve_decode_private_point :: "bytes \<Rightarrow> ('c, 's, ec_private_key) M" where
  "curve_decode_private_point key_data =
     (if length key_data \<noteq> DJB_KEY_LEN then failE SG_ERR_INVALID_KEY
      else thenE alloc (returnE key_data))"

definition ec_private_key_compare :: "ec_private_key option \<Rightarrow> ec_private_key option \<Rightarrow> int" where
  "ec_private_key_compare key1 key2 =
     (case (key1, key2) of
        (None, None) \<Rightarrow> 0
      | (None, Some _) \<Rightarrow> -1
      | (Some _, None) \<Rightarrow> 1
      | (Some k1, Some k2) \<Rightarrow> signal_constant_memcmp k1 k2 DJB_KEY_LEN)"

definition ec_private_key_serialize :: "ec_private_key option \<Rightarrow> ('c, 's, bytes) M" where
  "ec_private_key_serialize key =
     bindE (signal_buffer_alloc DJB_KEY_LEN) (\<lambda>b.
     if b then derefE key else failE SG_ERR_NOMEM)"

definition ec_private_key_serialize_protobuf :: "ec_private_key option \<Rightarrow> ('c, 's, bytes) M" where
  "ec_private_key_serialize_protobuf key =
     bindE (derefE key) (\<lambda>k. thenE alloc (returnE k))"

definition ec_key_pair_create :: "ec_public_key \<Rightarrow> ec_private_key \<Rightarrow> ('c, 's, ec_key_pair) M" where
  "ec_key_pair_create pub priv =
     thenE alloc (returnE \<lparr>public_key = pub, private_key = priv\<rparr>)"

definition clamp_private_key :: "bytes \<Rightarrow> bytes" where
  "clamp_private_key data =
     (let d0 = data[0 := data ! 0 AND 248];
          d1 = d0[31 := d0 ! 31 AND 127]
      in d1[31 := d1 ! 31 OR 64])"

definition curve_generate_private_key :: "'c signal_context \<Rightarrow> ('c, 's, ec_private_key) M" where
  "curve_generate_private_key ctx =
     thenE alloc
      (bindE (signal_crypto_random ctx DJB_KEY_LEN) (\<lambda>data. returnE (clamp_private_key data)))"

definition basepoint :: bytes where "basepoint = 9 # replicate 31 0"

definition curve_generate_public_key ::
    "'c signal_context \<Rightarrow> ec_private_key \<Rightarrow> ('c, 's, ec_public_key) M" where
  "curve_generate_public_key ctx priv =
     thenE alloc
      (case curve25519_donna (curve25519 ctx) priv basepoint of
         (r, key) \<Rightarrow> if r = 0 then returnE key else failE SG_ERR_UNKNOWN)"

definition curve_generate_key_pair :: "'c signal_context \<Rightarrow> ('c, 's, ec_key_pair) M" where
  "curve_generate_key_pair ctx =
     bindE (curve_generate_private_key ctx) (\<lambda>key_private.
     bindE (curve_generate_public_key ctx key_private) (\<lambda>key_public.
     ec_key_pair_create key_public key_private))"

definition curve_calculate_agreement ::
    "'c signal_context \<Rightarrow> ec_public_key option \<Rightarrow> ec_private_key option \<Rightarrow> ('c, 's, bytes) M" where
  "curve_calculate_agreement ctx pub priv =
     (case (pub, priv) of
        (Some p, Some k) \<Rightarrow>
          thenE alloc
           (case curve25519_donna (curve25519 ctx) k p of
              (r, key) \<Rightarrow> if r = 0 then returnE key else failE SG_ERR_UNKNOWN)
      | _ \<Rightarrow> failE SG_ERR_INVALID_KEY)"

text \<open>Returns 1 for a valid signature, 0 for an invalid one.\<close>

definition curve_verify_signature ::
    "'c signal_context \<Rightarrow> ec_public_key option \<Rightarrow> bytes \<Rightarrow> bytes \<Rightarrow> ('c, 's, bool) M" where
  "curve_verify_signature ctx signing_key message_data signature_data =
     (if length signature_data \<noteq> CURVE_SIGNATURE_LEN then failE SG_ERR_INVAL
      else bindE (derefE signing_key) (\<lambda>k.
           returnE (curve25519_verify (curve25519 ctx) signature_data k message_data = 0)))"

definition curve_calculate_signature ::
    "'c signal_context \<Rightarrow> ec_private_key option \<Rightarrow> bytes \<Rightarrow> ('c, 's, bytes) M" where
  "curve_calculate_signature ctx signing_key message_data =
     bindE (signal_crypto_random ctx CURVE_SIGNATURE_LEN) (\<lambda>random_data.
     bindE (signal_buffer_alloc CURVE_SIGNATURE_LEN) (\<lambda>b.
     if \<not> b then failE SG_ERR_NOMEM
     else bindE (derefE signing_key) (\<lambda>k.
       (case curve25519_sign (curve25519 ctx) k message_data random_data of
          (r, sig) \<Rightarrow> thenE (statusE r) (returnE sig)))))"

definition curve_verify_vrf_signature ::
    "'c signal_context \<Rightarrow> ec_public_key option \<Rightarrow> bytes option \<Rightarrow> bytes option \<Rightarrow> ('c, 's, bytes) M" where
  "curve_verify_vrf_signature ctx signing_key message_data signature_data =
     (case signing_key of None \<Rightarrow> failE SG_ERR_INVAL
      | Some k \<Rightarrow>
         (case (message_data, signature_data) of
            (Some msg, Some sig) \<Rightarrow>
              if length sig \<noteq> VRF_SIGNATURE_LEN then failE SG_ERR_VRF_SIG_VERIF_FAILED
              else bindE (signal_buffer_alloc 32) (\<lambda>b.
                if \<not> b then failE SG_ERR_NOMEM
                else (case generalized_xveddsa_25519_verify (curve25519 ctx) sig k msg of
                        (r, vrf) \<Rightarrow> if r \<noteq> 0 then failE SG_ERR_VRF_SIG_VERIF_FAILED else returnE vrf))
          | _ \<Rightarrow> failE SG_ERR_VRF_SIG_VERIF_FAILED))"

definition curve_calculate_vrf_signature ::
    "'c signal_context \<Rightarrow> ec_private_key option \<Rightarrow> bytes \<Rightarrow> ('c, 's, bytes) M" where
  "curve_calculate_vrf_signature ctx signing_key message_data =
     bindE (signal_crypto_random ctx 64) (\<lambda>random_data.
     bindE (signal_buffer_alloc VRF_SIGNATURE_LEN) (\<lambda>b.
     if \<not> b then failE SG_ERR_NOMEM
     else bindE (derefE signing_key) (\<lambda>k.
       (case generalized_xveddsa_25519_sign (curve25519 ctx) k message_data random_data of
          (r, sig) \<Rightarrow> if r \<noteq> 0 then failE SG_ERR_UNKNOWN else returnE sig))))"

definition ec_public_key_list_alloc :: "('c, 's, ec_public_key ut_array) M" where
  "ec_public_key_list_alloc = thenE alloc utarray_new"

definition ec_public_key_list_push_back ::
    "ec_public_key ut_array \<Rightarrow> ec_public_key \<Rightarrow> ('c, 's, ec_public_key ut_array) M" where
  "ec_public_key_list_push_back l key =
     bindE (utarray_push_back l key) (\<lambda>(ok, l').
     if ok then returnE l' else failE SG_ERR_NOMEM)"

definition ec_public_key_list_copy :: "ec_public_key ut_array \<Rightarrow> ('c, 's, ec_public_key ut_array) M" where
  "ec_public_key_list_copy l =
     bindE ec_public_key_list_alloc (\<lambda>result_list.
     bindE (utarray_reserve (length (ut_elems l)) result_list) (\<lambda>(ok, result_list').
     if \<not> ok then failE SG_ERR_NOMEM
     else foldE (\<lambda>p acc. ec_public_key_list_push_back acc p) (ut_elems l) result_list'))"

definition ec_public_key_list_at :: "ec_public_key ut_array \<Rightarrow> nat \<Rightarrow> 'w \<Rightarrow> ec_public_key res \<times> 'w" where
  "ec_public_key_list_at l index =
     thenE (assertE (index < length (ut_elems l))) (returnE (ut_elems l ! index))"

text \<open>\<open>utarray_sort\<close> is the C library's \<open>qsort\<close>; keys that compare equal are the same bytes, so every
  sorting procedure gives the same list.\<close>

fun insert_by_memcmp :: "ec_public_key \<Rightarrow> ec_public_key list \<Rightarrow> ec_public_key list" where
  "insert_by_memcmp k [] = [k]"
| "insert_by_memcmp k (x # xs) =
     (if ec_public_key_memcmp (Some k) (Some x) \<le> 0 then k # x # xs else x # insert_by_memcmp k xs)"

definition sort_by_memcmp :: "ec_public_key list \<Rightarrow> ec_public_key list" where
  "sort_by_memcmp ks = foldr insert_by_memcmp ks []"

definition ec_public_key_list_sort :: "ec_public_key ut_array \<Rightarrow> ec_public_key ut_array" where
  "ec_public_key_list_sort l = l\<lparr>ut_elems := sort_by_memcmp (ut_elems l)\<rparr>"

section \<open>What the linked curve code is documented to do\<close>

definition wf_key :: "bytes \<Rightarrow> bool" where
  "wf_key k = (length k = DJB_KEY_LEN)"

definition clamped :: "bytes \<Rightarrow> bool" where
  "clamped k = (wf_key k \<and> k ! 0 AND 7 = 0 \<and> k ! 31 AND 192 = 64)"

text \<open>Diffie-Hellman on the Montgomery curve commutes; XEdDSA accepts what it signs, for the clamped
  private keys of this library.\<close>

definition donna_computes :: "'c signal_context \<Rightarrow> (bytes \<Rightarrow> bytes \<Rightarrow> bytes) \<Rightarrow> bool" where
  "donna_computes ctx DH =
     (\<forall>k p. wf_key k \<longrightarrow> wf_key p \<longrightarrow>
        curve25519_donna (curve25519 ctx) k p = (0, DH k p) \<and> wf_key (DH k p))"

definition curve_laws :: "'c signal_context \<Rightarrow> (bytes \<Rightarrow> bytes \<Rightarrow> bytes) \<Rightarrow> bool" where
  "curve_laws ctx DH =
     (donna_computes ctx DH \<and>
      (\<forall>a b. wf_key a \<longrightarrow> wf_key b \<longrightarrow> DH a (DH b basepoint) = DH b (DH a basepoint)))"

definition signature_laws :: "'c signal_context \<Rightarrow> (bytes \<Rightarrow> bytes \<Rightarrow> bytes) \<Rightarrow> bool" where
  "signature_laws ctx DH =
     (\<forall>k msg rnd. clamped k \<longrightarrow> length rnd = CURVE_SIGNATURE_LEN \<longrightarrow>
        (\<exists>sig. curve25519_sign (curve25519 ctx) k msg rnd = (0, sig) \<and> length sig = CURVE_SIGNATURE_LEN \<and>
           curve25519_verify (curve25519 ctx) sig (DH k basepoint) msg = 0))"

definition random_laws :: "'c signal_context \<Rightarrow> bool" where
  "random_laws ctx = (\<exists>f. random_func (crypto_provider ctx) = Some f \<and> (\<forall>n c. fst (fst (f n c)) = 0))"

section \<open>Lemmas\<close>

lemma keeps_signal_buffer_alloc [keeps_rules, intro!]: "keeps_store (signal_buffer_alloc n)"
  by (auto simp: signal_buffer_alloc_def)

lemma keeps_curve [keeps_rules, intro!]:
  "keeps_store (curve_decode_point d)"
  "keeps_store (ec_public_key_serialize k)"
  "keeps_store (ec_public_key_serialize_protobuf k)"
  "keeps_store (curve_decode_private_point d)"
  "keeps_store (ec_private_key_serialize k)"
  "keeps_store (ec_private_key_serialize_protobuf k)"
  "keeps_store (ec_key_pair_create pub priv)"
  "keeps_store (curve_generate_private_key ctx)"
  "keeps_store (curve_generate_public_key ctx priv)"
  "keeps_store (curve_generate_key_pair ctx)"
  "keeps_store (curve_calculate_agreement ctx p q)"
  "keeps_store (curve_verify_signature ctx p m sig)"
  "keeps_store (curve_calculate_signature ctx p m)"
  by (auto simp: curve_decode_point_def ec_public_key_serialize_def
      ec_public_key_serialize_protobuf_def curve_decode_private_point_def
      ec_private_key_serialize_def ec_private_key_serialize_protobuf_def ec_key_pair_create_def
      curve_generate_private_key_def curve_generate_public_key_def curve_generate_key_pair_def
      curve_calculate_agreement_def curve_verify_signature_def curve_calculate_signature_def
      split: prod.splits option.splits)

lemma yields_signal_buffer_alloc [yields_rules]: "n < 2 ^ 63 \<Longrightarrow> yields (signal_buffer_alloc n) True"
  unfolding signal_buffer_alloc_def by (simp only: SIZE_MAX_bound if_False) (rule yields_try_alloc)

lemma length_DJB [simp]: "wf_key k \<Longrightarrow> length k = 32"
  by (simp add: wf_key_def DJB_KEY_LEN_def)

lemma yields_ec_public_key_serialize [yields_rules]:
  "yields (ec_public_key_serialize (Some k)) (DJB_TYPE # k)"
  unfolding ec_public_key_serialize_def
  by (auto simp: DJB_KEY_LEN_def intro!: yields_rules)

lemma yields_ec_public_key_serialize_protobuf [yields_rules]:
  "yields (ec_public_key_serialize_protobuf (Some k)) (DJB_TYPE # k)"
  unfolding ec_public_key_serialize_protobuf_def by (auto intro!: yields_rules)

lemma yields_curve_decode_point [yields_rules]:
  "wf_key k \<Longrightarrow> yields (curve_decode_point (DJB_TYPE # k)) k"
  unfolding curve_decode_point_def by (auto simp: DJB_KEY_LEN_def intro!: yields_rules)

lemma yields_ec_private_key_serialize_protobuf [yields_rules]:
  "yields (ec_private_key_serialize_protobuf (Some k)) k"
  unfolding ec_private_key_serialize_protobuf_def by (auto intro!: yields_rules)

lemma yields_ec_private_key_serialize [yields_rules]: "yields (ec_private_key_serialize (Some k)) k"
  unfolding ec_private_key_serialize_def by (auto simp: DJB_KEY_LEN_def intro!: yields_rules)

lemma yields_curve_decode_private_point [yields_rules]:
  "wf_key k \<Longrightarrow> yields (curve_decode_private_point k) k"
  unfolding curve_decode_private_point_def by (auto simp: DJB_KEY_LEN_def intro!: yields_rules)

lemma yields_ec_key_pair_create [yields_rules]:
  "yields (ec_key_pair_create pub priv) \<lparr>public_key = pub, private_key = priv\<rparr>"
  unfolding ec_key_pair_create_def by (auto intro!: yields_rules)

lemma curve_laws_DH_commute:
  "curve_laws ctx DH \<Longrightarrow> wf_key a \<Longrightarrow> wf_key b \<Longrightarrow> DH a (DH b basepoint) = DH b (DH a basepoint)"
  by (simp add: curve_laws_def)

lemma wf_key_basepoint [simp]: "wf_key basepoint"
  by (simp add: wf_key_def basepoint_def DJB_KEY_LEN_def)

lemma curve_laws_computes: "curve_laws ctx DH \<Longrightarrow> donna_computes ctx DH"
  by (simp add: curve_laws_def)

lemma curve_laws_wf: "curve_laws ctx DH \<Longrightarrow> wf_key k \<Longrightarrow> wf_key p \<Longrightarrow> wf_key (DH k p)"
  by (simp add: curve_laws_def donna_computes_def)

lemma donna_calculate_agreement:
  "donna_computes ctx DH \<Longrightarrow> wf_key k \<Longrightarrow> wf_key p \<Longrightarrow>
   yields (curve_calculate_agreement ctx (Some p) (Some k)) (DH k p)"
  unfolding curve_calculate_agreement_def donna_computes_def
  by (auto intro!: yields_rules)

lemma donna_generate_public_key:
  "donna_computes ctx DH \<Longrightarrow> wf_key k \<Longrightarrow> yields (curve_generate_public_key ctx k) (DH k basepoint)"
  unfolding curve_generate_public_key_def donna_computes_def
  by (auto intro!: yields_rules)

lemmas yields_curve_calculate_agreement = donna_calculate_agreement [OF curve_laws_computes]
lemmas yields_curve_generate_public_key = donna_generate_public_key [OF curve_laws_computes]

text \<open>Clamping: the low three bits are cleared, bit 254 is set and bit 255 cleared.\<close>

lemma clamp_low_bits: "((b :: byte) AND 248) AND 7 = 0"
  by (simp only: and.assoc) simp

lemma clamp_high_bits: "((b :: byte) AND 127 OR 64) AND 192 = 64"
proof -
  have "(b AND 127 OR 64) AND 192 = (b AND (127 AND 192)) OR (64 AND 192)"
    by (simp only: bit.conj_disj_distrib2 and.assoc)
  also have "\<dots> = (b AND 64) OR 64" by simp
  also have "\<dots> = 64" by (rule bit_word_eqI) (auto simp: bit_or_iff bit_and_iff)
  finally show ?thesis .
qed

lemma clamp_private_key_clamped: "length d = 32 \<Longrightarrow> clamped (clamp_private_key d)"
  by (simp add: clamped_def clamp_private_key_def wf_key_def DJB_KEY_LEN_def clamp_low_bits clamp_high_bits Let_def)

lemma ensures_signal_crypto_random:
  assumes "random_laws ctx"
  shows "ensures (signal_crypto_random ctx n) (\<lambda>d. length d = n)"
  unfolding ensures_def
proof (intro allI impI)
  fix w :: "('a, 'b) world"
  assume "allocs w = []"
  moreover obtain f where "random_func (crypto_provider ctx) = Some f" "fst (fst (f n (crypto_data w))) = 0"
    using assms unfolding random_laws_def by blast
  ultimately show "wp (signal_crypto_random ctx n)
      (\<lambda>y w'. length y = n \<and> allocs w' = [] \<and> store_data w' = store_data w) w"
    by (cases "f n (crypto_data w)") (auto simp: signal_crypto_random_def)
qed

definition key_pair_of :: "(bytes \<Rightarrow> bytes \<Rightarrow> bytes) \<Rightarrow> ec_key_pair \<Rightarrow> bool" where
  "key_pair_of DH kp = (clamped (private_key kp) \<and> public_key kp = DH (private_key kp) basepoint)"

lemma key_pair_of_wf:
  "curve_laws ctx DH \<Longrightarrow> key_pair_of DH kp \<Longrightarrow> wf_key (private_key kp) \<and> wf_key (public_key kp)"
  by (auto simp: key_pair_of_def clamped_def curve_laws_wf)

lemma donna_generate_key_pair:
  assumes "donna_computes ctx DH" and "random_laws ctx"
  shows "ensures (curve_generate_key_pair ctx) (key_pair_of DH)"
proof -
  have "ensures (curve_generate_private_key ctx) clamped"
    unfolding curve_generate_private_key_def
    by (rule ensures_thenE [OF yields_alloc], rule ensures_bindE,
        rule ensures_signal_crypto_random [OF assms(2)])
       (simp add: ensures_returnE clamp_private_key_clamped DJB_KEY_LEN_def)
  then show ?thesis
    unfolding curve_generate_key_pair_def
  proof (rule ensures_bindE)
    fix k
    assume k: "clamped k"
    show "ensures (bindE (curve_generate_public_key ctx k) (\<lambda>key_public. ec_key_pair_create key_public k))
            (key_pair_of DH)"
      by (rule ensures_bind_yields [OF donna_generate_public_key [OF assms(1)]])
         (use k in \<open>auto simp: clamped_def key_pair_of_def ec_key_pair_create_def
           intro!: ensures_thenE ensures_returnE yields_alloc\<close>)
  qed
qed

lemmas ensures_curve_generate_key_pair = donna_generate_key_pair [OF curve_laws_computes]

lemma agreement_symmetric:
  "curve_laws ctx DH \<Longrightarrow> key_pair_of DH a \<Longrightarrow> key_pair_of DH b \<Longrightarrow>
   DH (private_key a) (public_key b) = DH (private_key b) (public_key a)"
  by (simp add: key_pair_of_def clamped_def curve_laws_DH_commute)

lemma ensures_curve_calculate_signature:
  assumes "signature_laws ctx DH" and "random_laws ctx" and "clamped k"
  shows "ensures (curve_calculate_signature ctx (Some k) msg)
    (\<lambda>sig. length sig = 64 \<and> curve25519_verify (curve25519 ctx) sig (DH k basepoint) msg = 0)"
  unfolding curve_calculate_signature_def
proof (rule ensures_bindE [OF ensures_signal_crypto_random [OF assms(2)]])
  fix rnd :: bytes
  assume "length rnd = CURVE_SIGNATURE_LEN"
  then obtain sig where "curve25519_sign (curve25519 ctx) k msg rnd = (0, sig)" "length sig = 64"
      "curve25519_verify (curve25519 ctx) sig (DH k basepoint) msg = 0"
    using assms unfolding signature_laws_def CURVE_SIGNATURE_LEN_def by blast
  then show "ensures (bindE (signal_buffer_alloc CURVE_SIGNATURE_LEN) (\<lambda>b.
       if \<not> b then failE SG_ERR_NOMEM
       else bindE (derefE (Some k)) (\<lambda>k.
         case curve25519_sign (curve25519 ctx) k msg rnd of
           (r, sig) \<Rightarrow> thenE (statusE r) (returnE sig))))
     (\<lambda>sig. length sig = 64 \<and> curve25519_verify (curve25519 ctx) sig (DH k basepoint) msg = 0)"
    by (auto simp: CURVE_SIGNATURE_LEN_def intro!: ensures_bind_yields [OF yields_signal_buffer_alloc]
        ensures_bind_yields [OF yields_derefE] ensures_thenE [OF yields_statusE] ensures_returnE)
qed

lemma yields_curve_verify_signature:
  "length sig = 64 \<Longrightarrow>
   yields (curve_verify_signature ctx (Some k) msg sig) (curve25519_verify (curve25519 ctx) sig k msg = 0)"
  unfolding curve_verify_signature_def by (auto simp: CURVE_SIGNATURE_LEN_def intro!: yields_rules)

lemma ec_public_key_compare_eq_0:
  "(\<And>k. p = Some k \<Longrightarrow> wf_key k) \<Longrightarrow> (\<And>k. q = Some k \<Longrightarrow> wf_key k) \<Longrightarrow>
   (ec_public_key_compare p q = 0) = (p = q)"
  by (auto simp: ec_public_key_compare_def signal_constant_memcmp_eq_0 DJB_KEY_LEN_def
      split: option.splits)

end
