(* ===== verification/Ratchet.thy ===== *)
theory Ratchet
  imports Hkdf Curve
begin

text \<open>
  The keys of ratchet.c: chain keys with their message keys and successors, root keys with the
  Diffie-Hellman step, and the keys derived from an agreed secret.  Each operation is proved to
  compute a pure function of the provider's HMAC and of the curve's scalar multiplication.
\<close>

section \<open>Model\<close>

text \<open>A string constant of the source as the bytes that are hashed (without its terminator).\<close>

definition ascii :: "string \<Rightarrow> bytes" where
  "ascii s = map of_char s"

record ratchet_chain_key =
  ck_kdf :: hkdf_context
  ck_key :: bytes
  ck_index :: "32 word"

record ratchet_root_key =
  rk_kdf :: hkdf_context
  rk_key :: bytes

record ratchet_message_keys =
  cipher_key :: bytes
  mac_key :: bytes
  iv :: bytes
  counter :: "32 word"

record ratchet_identity_key_pair =
  id_public_key :: ec_public_key
  id_private_key :: ec_private_key

definition RATCHET_CIPHER_KEY_LENGTH :: nat where "RATCHET_CIPHER_KEY_LENGTH = 32"
definition RATCHET_MAC_KEY_LENGTH :: nat where "RATCHET_MAC_KEY_LENGTH = 32"
definition RATCHET_IV_LENGTH :: nat where "RATCHET_IV_LENGTH = 16"
definition DERIVED_MESSAGE_SECRETS_SIZE :: nat where "DERIVED_MESSAGE_SECRETS_SIZE = 80"
definition DERIVED_ROOT_SECRETS_SIZE :: nat where "DERIVED_ROOT_SECRETS_SIZE = 64"

definition ratchet_chain_key_create ::
    "hkdf_context option \<Rightarrow> bytes option \<Rightarrow> 32 word \<Rightarrow> ('c, 's, ratchet_chain_key) M" where
  "ratchet_chain_key_create kdf key index =
     (case (kdf, key) of
        (Some kd, Some k) \<Rightarrow>
          thenE alloc (thenE alloc (returnE \<lparr>ck_kdf = kd, ck_key = k, ck_index = index\<rparr>))
      | _ \<Rightarrow> failE SG_ERR_INVAL)"

definition ratchet_chain_key_get_key :: "ratchet_chain_key \<Rightarrow> ('c, 's, bytes) M" where
  "ratchet_chain_key_get_key chain_key =
     bindE (signal_buffer_alloc (length (ck_key chain_key))) (\<lambda>b.
     if b then returnE (ck_key chain_key) else failE SG_ERR_NOMEM)"

definition ratchet_chain_key_get_key_protobuf :: "ratchet_chain_key option \<Rightarrow> ('c, 's, bytes) M" where
  "ratchet_chain_key_get_key_protobuf chain_key =
     bindE (derefE chain_key) (\<lambda>ck. thenE alloc (returnE (ck_key ck)))"

definition ratchet_chain_key_get_base_material ::
    "'c signal_context \<Rightarrow> ratchet_chain_key \<Rightarrow> bytes \<Rightarrow> ('c, 's, bytes) M" where
  "ratchet_chain_key_get_base_material ctx chain_key seed =
     hmac_sha256_run ctx Null_unguarded (ck_key chain_key) [seed] (\<lambda>output_buffer.
     bindE (derefE output_buffer) (\<lambda>output. thenE alloc (returnE output)))"

definition ratchet_chain_key_get_message_keys ::
    "'c signal_context \<Rightarrow> ratchet_chain_key \<Rightarrow> ('c, 's, ratchet_message_keys) M" where
  "ratchet_chain_key_get_message_keys ctx chain_key =
     bindE (ratchet_chain_key_get_base_material ctx chain_key [1]) (\<lambda>input_key_material.
     bindE (hkdf_derive_secrets ctx (ck_kdf chain_key) input_key_material (replicate 32 0)
              (Some (ascii ''WhisperMessageKeys'')) DERIVED_MESSAGE_SECRETS_SIZE) (\<lambda>key_material_data.
     thenE (guardE (length key_material_data =
              RATCHET_CIPHER_KEY_LENGTH + RATCHET_MAC_KEY_LENGTH + RATCHET_IV_LENGTH) SG_ERR_UNKNOWN)
     (returnE \<lparr>cipher_key = take 32 key_material_data,
               mac_key = take 32 (drop 32 key_material_data),
               iv = take 16 (drop 64 key_material_data),
               counter = ck_index chain_key\<rparr>)))"

definition ratchet_chain_key_create_next ::
    "'c signal_context \<Rightarrow> ratchet_chain_key \<Rightarrow> ('c, 's, ratchet_chain_key) M" where
  "ratchet_chain_key_create_next ctx chain_key =
     bindE (ratchet_chain_key_get_base_material ctx chain_key [2]) (\<lambda>next_key.
     ratchet_chain_key_create (Some (ck_kdf chain_key)) (Some next_key) (ck_index chain_key + 1))"

definition ratchet_root_key_create ::
    "hkdf_context option \<Rightarrow> bytes option \<Rightarrow> ('c, 's, ratchet_root_key) M" where
  "ratchet_root_key_create kdf key =
     (case (kdf, key) of
        (Some kd, Some k) \<Rightarrow> thenE alloc (thenE alloc (returnE \<lparr>rk_kdf = kd, rk_key = k\<rparr>))
      | _ \<Rightarrow> failE SG_ERR_INVAL)"

definition ratchet_root_key_create_chain ::
    "'c signal_context \<Rightarrow> ratchet_root_key \<Rightarrow> ec_public_key option \<Rightarrow> ec_private_key option
      \<Rightarrow> ('c, 's, ratchet_root_key \<times> ratchet_chain_key) M" where
  "ratchet_root_key_create_chain ctx root_key their_ratchet_key our_ratchet_key_private =
     (if their_ratchet_key = None \<or> our_ratchet_key_private = None then failE SG_ERR_INVAL
      else
        bindE (curve_calculate_agreement ctx their_ratchet_key our_ratchet_key_private) (\<lambda>shared_secret.
        bindE (hkdf_derive_secrets ctx (rk_kdf root_key) shared_secret (rk_key root_key)
                 (Some (ascii ''WhisperRatchet'')) DERIVED_ROOT_SECRETS_SIZE) (\<lambda>derived_secret.
        thenE (guardE (length derived_secret = DERIVED_ROOT_SECRETS_SIZE) SG_ERR_UNKNOWN)
        (bindE (ratchet_root_key_create (Some (rk_kdf root_key)) (Some (take 32 derived_secret)))
           (\<lambda>new_root_key.
         bindE (ratchet_chain_key_create (Some (rk_kdf root_key))
                  (Some (take 32 (drop 32 derived_secret))) 0) (\<lambda>new_chain_key.
         returnE (new_root_key, new_chain_key)))))))"

definition ratchet_root_key_get_key :: "ratchet_root_key option \<Rightarrow> ('c, 's, bytes) M" where
  "ratchet_root_key_get_key root_key =
     bindE (derefE root_key) (\<lambda>rk.
     bindE (signal_buffer_alloc (length (rk_key rk))) (\<lambda>b.
     if b then returnE (rk_key rk) else failE SG_ERR_NOMEM))"

definition ratchet_root_key_get_key_protobuf :: "ratchet_root_key option \<Rightarrow> ('c, 's, bytes) M" where
  "ratchet_root_key_get_key_protobuf root_key =
     bindE (derefE root_key) (\<lambda>rk. thenE alloc (returnE (rk_key rk)))"

definition ratchet_root_key_compare :: "ratchet_root_key option \<Rightarrow> ratchet_root_key option \<Rightarrow> int" where
  "ratchet_root_key_compare key1 key2 =
     (case (key1, key2) of
        (None, None) \<Rightarrow> 0
      | (None, Some _) \<Rightarrow> -1
      | (Some _, None) \<Rightarrow> 1
      | (Some k1, Some k2) \<Rightarrow>
          (let kdf_compare = hkdf_compare (Some (rk_kdf k1)) (Some (rk_kdf k2)) in
           if kdf_compare \<noteq> 0 then kdf_compare
           else if length (rk_key k1) < length (rk_key k2) then -1
           else if length (rk_key k1) > length (rk_key k2) then 1
           else signal_constant_memcmp (rk_key k1) (rk_key k2) (length (rk_key k1))))"

definition ratchet_identity_key_pair_create ::
    "ec_public_key \<Rightarrow> ec_private_key \<Rightarrow> ('c, 's, ratchet_identity_key_pair) M" where
  "ratchet_identity_key_pair_create pub priv =
     thenE alloc (returnE \<lparr>id_public_key = pub, id_private_key = priv\<rparr>)"

definition ratcheting_session_calculate_derived_keys ::
    "'c signal_context \<Rightarrow> bytes \<Rightarrow> ('c, 's, ratchet_root_key \<times> ratchet_chain_key) M" where
  "ratcheting_session_calculate_derived_keys ctx secret =
     bindE (hkdf_create 3) (\<lambda>kdf.
     tryE (hkdf_derive_secrets ctx kdf secret (replicate 32 0) (Some (ascii ''WhisperText'')) 64)
       (\<lambda>_. failE SG_ERR_UNKNOWN)
       (\<lambda>output.
        thenE (guardE (length output = 64) SG_ERR_UNKNOWN)
        (bindE (ratchet_root_key_create (Some kdf) (Some (take 32 output))) (\<lambda>root_key.
         bindE (ratchet_chain_key_create (Some kdf) (Some (take 32 (drop 32 output))) 0) (\<lambda>chain_key.
         returnE (root_key, chain_key))))))"

section \<open>What the keys are, as functions of the HMAC and the curve\<close>

definition kdf_offset :: "hkdf_context \<Rightarrow> nat" where
  "kdf_offset kdf = nat (iteration_start_offset kdf)"

definition wf_kdf :: "hkdf_context \<Rightarrow> bool" where
  "wf_kdf kdf = (iteration_start_offset kdf \<in> {0, 1})"

definition chain_message_keys ::
    "(bytes \<Rightarrow> bytes \<Rightarrow> bytes) \<Rightarrow> ratchet_chain_key \<Rightarrow> ratchet_message_keys" where
  "chain_message_keys H ck =
     (let km = rfc5869 H (kdf_offset (ck_kdf ck)) (replicate 32 0) (H (ck_key ck) [1])
                 (ascii ''WhisperMessageKeys'') 80
      in \<lparr>cipher_key = take 32 km, mac_key = take 32 (drop 32 km), iv = take 16 (drop 64 km),
          counter = ck_index ck\<rparr>)"

definition chain_next :: "(bytes \<Rightarrow> bytes \<Rightarrow> bytes) \<Rightarrow> ratchet_chain_key \<Rightarrow> ratchet_chain_key" where
  "chain_next H ck = ck\<lparr>ck_key := H (ck_key ck) [2], ck_index := ck_index ck + 1\<rparr>"

definition root_chain ::
    "(bytes \<Rightarrow> bytes \<Rightarrow> bytes) \<Rightarrow> ratchet_root_key \<Rightarrow> bytes \<Rightarrow> ratchet_root_key \<times> ratchet_chain_key" where
  "root_chain H rk shared =
     (let d = rfc5869 H (kdf_offset (rk_kdf rk)) (rk_key rk) shared (ascii ''WhisperRatchet'') 64
      in (\<lparr>rk_kdf = rk_kdf rk, rk_key = take 32 d\<rparr>,
          \<lparr>ck_kdf = rk_kdf rk, ck_key = drop 32 d, ck_index = 0\<rparr>))"

definition derived_keys ::
    "(bytes \<Rightarrow> bytes \<Rightarrow> bytes) \<Rightarrow> bytes \<Rightarrow> ratchet_root_key \<times> ratchet_chain_key" where
  "derived_keys H secret =
     (let d = rfc5869 H 1 (replicate 32 0) secret (ascii ''WhisperText'') 64;
          kdf = \<lparr>iteration_start_offset = 1\<rparr>
      in (\<lparr>rk_kdf = kdf, rk_key = take 32 d\<rparr>, \<lparr>ck_kdf = kdf, ck_key = drop 32 d, ck_index = 0\<rparr>))"

definition wf_message_keys :: "ratchet_message_keys \<Rightarrow> bool" where
  "wf_message_keys mk = (length (cipher_key mk) = 32 \<and> length (mac_key mk) = 32 \<and> length (iv mk) = 16)"

section \<open>Lemmas\<close>

lemma keeps_ratchet [keeps_rules, intro!]:
  "keeps_store (ratchet_chain_key_create kdf key i)"
  "keeps_store (ratchet_chain_key_get_key ck)"
  "keeps_store (ratchet_chain_key_get_key_protobuf ck')"
  "keeps_store (ratchet_chain_key_get_base_material ctx ck seed)"
  "keeps_store (ratchet_chain_key_get_message_keys ctx ck)"
  "keeps_store (ratchet_chain_key_create_next ctx ck)"
  "keeps_store (ratchet_root_key_create kdf key)"
  "keeps_store (ratchet_root_key_create_chain ctx rk their ours)"
  "keeps_store (ratchet_root_key_get_key rk')"
  "keeps_store (ratchet_root_key_get_key_protobuf rk')"
  "keeps_store (ratchet_identity_key_pair_create pub priv)"
  "keeps_store (ratcheting_session_calculate_derived_keys ctx secret)"
  by (auto simp: ratchet_chain_key_create_def ratchet_chain_key_get_key_def
      ratchet_chain_key_get_key_protobuf_def ratchet_chain_key_get_base_material_def
      ratchet_chain_key_get_message_keys_def ratchet_chain_key_create_next_def
      ratchet_root_key_create_def ratchet_root_key_create_chain_def ratchet_root_key_get_key_def
      ratchet_root_key_get_key_protobuf_def ratchet_identity_key_pair_create_def
      ratcheting_session_calculate_derived_keys_def split: option.splits)

lemma yields_ratchet_creates [yields_rules]:
  "yields (ratchet_chain_key_create (Some kdf) (Some k) i) \<lparr>ck_kdf = kdf, ck_key = k, ck_index = i\<rparr>"
  "yields (ratchet_root_key_create (Some kdf) (Some k)) \<lparr>rk_kdf = kdf, rk_key = k\<rparr>"
  "yields (ratchet_identity_key_pair_create pub priv) \<lparr>id_public_key = pub, id_private_key = priv\<rparr>"
  by (auto simp: ratchet_chain_key_create_def ratchet_root_key_create_def
      ratchet_identity_key_pair_create_def intro!: yields_rules)

lemma yields_ratchet_protobuf [yields_rules]:
  "yields (ratchet_chain_key_get_key_protobuf (Some ck)) (ck_key ck)"
  "yields (ratchet_root_key_get_key_protobuf (Some rk)) (rk_key rk)"
  by (auto simp: ratchet_chain_key_get_key_protobuf_def ratchet_root_key_get_key_protobuf_def
      intro!: yields_rules)

lemma yields_base_material:
  "hmac_laws ctx H \<Longrightarrow> yields (ratchet_chain_key_get_base_material ctx ck seed) (H (ck_key ck) seed)"
  unfolding ratchet_chain_key_get_base_material_def
  by (rule yields_hmac_sha256_run, assumption) (auto intro!: yields_rules)

lemma kdf_offset: "wf_kdf kdf \<Longrightarrow> iteration_start_offset kdf = int (kdf_offset kdf) \<and> kdf_offset kdf \<le> 1"
  by (auto simp: wf_kdf_def kdf_offset_def)

lemma yields_derive_secrets:
  assumes "hmac_laws ctx H" and "wf_kdf kdf" and "L \<le> 80"
  shows "yields (hkdf_derive_secrets ctx kdf ikm salt (Some info) L)
    (rfc5869 H (kdf_offset kdf) salt ikm info L)"
  by (rule yields_hkdf_derive_secrets [OF assms(1)]) (use kdf_offset [OF assms(2)] assms(3) in auto)

lemma yields_get_message_keys:
  assumes "hmac_laws ctx H" and "wf_kdf (ck_kdf ck)"
  shows "yields (ratchet_chain_key_get_message_keys ctx ck) (chain_message_keys H ck)"
  unfolding ratchet_chain_key_get_message_keys_def chain_message_keys_def Let_def
    DERIVED_MESSAGE_SECRETS_SIZE_def
  by (rule yields_bindE [OF yields_base_material [OF assms(1)]],
      rule yields_bindE [OF yields_derive_secrets [OF assms]], simp,
      rule yields_thenE [OF yields_guardE])
     (simp_all add: rfc5869_length [OF assms(1)] RATCHET_CIPHER_KEY_LENGTH_def
       RATCHET_MAC_KEY_LENGTH_def RATCHET_IV_LENGTH_def yields_returnE)

lemma yields_create_next:
  assumes "hmac_laws ctx H"
  shows "yields (ratchet_chain_key_create_next ctx ck) (chain_next H ck)"
  unfolding ratchet_chain_key_create_next_def
  by (rule yields_bindE [OF yields_base_material [OF assms]])
     (rule yields_cong [OF yields_ratchet_creates(1)], simp add: chain_next_def)

lemma yields_create_chain:
  assumes "hmac_laws ctx H" and "curve_laws ctx DH" and "wf_kdf (rk_kdf rk)" and "wf_key their" and "wf_key ours"
  shows "yields (ratchet_root_key_create_chain ctx rk (Some their) (Some ours))
    (root_chain H rk (DH ours their))"
  unfolding ratchet_root_key_create_chain_def root_chain_def Let_def DERIVED_ROOT_SECRETS_SIZE_def
  by (simp, rule yields_bindE [OF yields_curve_calculate_agreement [OF assms(2,5,4)]],
      rule yields_bindE [OF yields_derive_secrets [OF assms(1,3)]], simp,
      rule yields_thenE [OF yields_guardE], simp add: rfc5869_length [OF assms(1)],
      rule yields_bindE [OF yields_ratchet_creates(2)], rule yields_bindE [OF yields_ratchet_creates(1)])
     (simp add: rfc5869_length [OF assms(1)] yields_returnE)

lemma yields_calculate_derived_keys:
  assumes "hmac_laws ctx H"
  shows "yields (ratcheting_session_calculate_derived_keys ctx secret) (derived_keys H secret)"
  unfolding ratcheting_session_calculate_derived_keys_def derived_keys_def Let_def
  by (rule yields_bindE [OF yields_hkdf_create], simp,
      rule yields_tryE [OF yields_hkdf_derive_secrets [OF assms, where ?n0.0 = 1]], simp, simp)
     (rule yields_thenE [OF yields_guardE], simp add: rfc5869_length [OF assms],
      rule yields_bindE [OF yields_ratchet_creates(2)], rule yields_bindE [OF yields_ratchet_creates(1)],
      simp add: rfc5869_length [OF assms] yields_returnE)

lemma wf_chain_message_keys: "hmac_laws ctx H \<Longrightarrow> wf_message_keys (chain_message_keys H ck)"
  by (simp add: wf_message_keys_def chain_message_keys_def Let_def rfc5869_length)

lemma chain_next_simps [simp]:
  "ck_kdf (chain_next H ck) = ck_kdf ck"
  "ck_index (chain_next H ck) = ck_index ck + 1"
  by (simp_all add: chain_next_def)

lemma counter_chain_message_keys [simp]: "counter (chain_message_keys H ck) = ck_index ck"
  by (simp add: chain_message_keys_def Let_def)

end
