(* ===== verification/Vpool.thy ===== *)
theory Vpool
  imports Prelude
begin

text \<open>
  vpool.c: the growable byte pool in which the secrets of a key agreement are collected.  The pool
  keeps its allocation and a start offset, so that removing a prefix only moves a pointer.  The
  model works on the allocation itself (bytes never written are \<open>None\<close>); the abstract view is the
  list of bytes between the start and the end of the data.  Sizes are natural numbers below
  \<open>2 ^ 64\<close>, with the wrap-around of \<open>size_t\<close> written out.
\<close>

section \<open>Model\<close>

definition add64 :: "nat \<Rightarrow> nat \<Rightarrow> nat" where "add64 a b = (a + b) mod 2 ^ 64"
definition sub64 :: "nat \<Rightarrow> nat \<Rightarrow> nat" where "sub64 a b = nat ((int a - int b) mod 2 ^ 64)"

definition EFBIG :: int where "EFBIG = 27"
definition ENOMEM :: int where "ENOMEM = 12"
definition ERANGE :: int where "ERANGE = 34"

text \<open>\<open>v_basebuf\<close> is the content of the allocation (empty for the null pointer) and \<open>v_buf\<close> the
  distance of the pointer \<open>v_buf\<close> from it.\<close>

record vpool =
  v_basebuf :: "byte option list"
  v_buf :: nat
  v_off :: nat
  v_size :: nat
  v_blksize :: nat
  v_limit :: nat
  v_lasterr :: int

datatype vpool_trunc = VPOOL_EXCLUDE | VPOOL_INCLUDE

text \<open>\<open>memcpy\<close> and \<open>memmove\<close> into an allocation: writing past its end is undefined.\<close>

definition mem_write :: "nat \<Rightarrow> 'a list \<Rightarrow> 'a list \<Rightarrow> 'w \<Rightarrow> 'a list res \<times> 'w" where
  "mem_write pos data mem =
     (if pos + length data \<le> length mem
      then returnE (take pos mem @ data @ drop (pos + length data) mem)
      else faultE)"

definition vpool_shift :: "vpool \<Rightarrow> 'w \<Rightarrow> vpool res \<times> 'w" where
  "vpool_shift pool =
     (if v_buf pool \<noteq> 0 then
        bindE (mem_write 0 (take (v_off pool) (drop (v_buf pool) (v_basebuf pool))) (v_basebuf pool))
          (\<lambda>mem. returnE (pool\<lparr>v_basebuf := mem, v_buf := 0\<rparr>))
      else returnE pool)"

definition vpool_new_size :: "vpool \<Rightarrow> nat \<Rightarrow> int \<times> nat" where
  "vpool_new_size pool datsize =
     (if datsize \<le> sub64 (v_size pool) (v_off pool) then (0, v_size pool)
      else if sub64 (v_limit pool) (v_off pool) < datsize then (EFBIG, 0)
      else
        (let need = add64 (v_off pool) datsize;
             rem = need mod v_blksize pool
         in if rem \<noteq> 0 then
              if sub64 (v_limit pool) (v_off pool) \<ge> add64 datsize (sub64 (v_blksize pool) rem)
              then (0, add64 need (sub64 (v_blksize pool) rem))
              else (0, v_limit pool)
            else (0, need)))"

definition vpool_resize :: "vpool \<Rightarrow> nat \<Rightarrow> ('c, 's, int \<times> vpool) M" where
  "vpool_resize pool datsize =
     (case vpool_new_size pool datsize of (error, new_size) \<Rightarrow>
      if error \<noteq> 0 then returnE (error, pool)
      else if new_size > v_size pool then
        bindE try_alloc (\<lambda>b.
        if \<not> b then returnE (ENOMEM, pool)
        else
          bindE (mem_write 0 (take (v_off pool) (drop (v_buf pool) (v_basebuf pool))) (replicate new_size None))
           (\<lambda>mem. returnE (0, pool\<lparr>v_basebuf := mem, v_buf := 0, v_size := new_size\<rparr>)))
      else if sub64 (sub64 (v_size pool) (v_off pool)) (v_buf pool) < datsize then
        bindE (vpool_shift pool) (\<lambda>pool'. returnE (0, pool'))
      else returnE (0, pool))"

definition vpool_init :: "nat \<Rightarrow> nat \<Rightarrow> vpool" where
  "vpool_init blksize limit =
     \<lparr>v_basebuf = [], v_buf = 0, v_off = 0, v_size = 0,
      v_blksize = (if blksize = 0 then 4096 else blksize),
      v_limit = (if limit = 0 then 2 ^ 64 - 1 else limit), v_lasterr = 0\<rparr>"

definition vpool_reset :: "vpool \<Rightarrow> vpool" where
  "vpool_reset pool = pool\<lparr>v_basebuf := [], v_buf := 0, v_off := 0, v_size := 0, v_lasterr := 0\<rparr>"

definition vpool_wipe :: "vpool \<Rightarrow> vpool" where
  "vpool_wipe pool = pool\<lparr>v_off := 0, v_lasterr := 0\<rparr>"

text \<open>\<open>vpool_insert\<close> and \<open>vpool_expand\<close> open a gap at \<open>where\<close>; the first fills it.  The result is
  whether a pointer was returned, and the pool.\<close>

definition vpool_gap :: "vpool \<Rightarrow> nat \<Rightarrow> nat \<Rightarrow> 'w \<Rightarrow> byte option list res \<times> 'w" where
  "vpool_gap pool position datsize =
     (if v_off pool - position > 0 then
        mem_write (v_buf pool + position + datsize)
          (take (v_off pool - position) (drop (v_buf pool + position) (v_basebuf pool))) (v_basebuf pool)
      else returnE (v_basebuf pool))"

definition vpool_insert :: "vpool \<Rightarrow> nat \<Rightarrow> bytes \<Rightarrow> ('c, 's, bool \<times> vpool) M" where
  "vpool_insert pool where_pos data =
     bindE (vpool_resize pool (length data)) (\<lambda>(error, p).
     if error \<noteq> 0 then returnE (False, p\<lparr>v_lasterr := error\<rparr>)
     else
       (let position = (if where_pos > v_off p then v_off p else where_pos) in
        bindE (vpool_gap p position (length data)) (\<lambda>mem.
        bindE (mem_write (v_buf p + position) (map Some data) mem) (\<lambda>mem'.
        returnE (True, p\<lparr>v_basebuf := mem', v_off := add64 (v_off p) (length data), v_lasterr := 0\<rparr>)))))"

definition vpool_expand :: "vpool \<Rightarrow> nat \<Rightarrow> nat \<Rightarrow> ('c, 's, bool \<times> vpool) M" where
  "vpool_expand pool where_pos sz =
     bindE (vpool_resize pool sz) (\<lambda>(error, p).
     if error \<noteq> 0 then returnE (False, p\<lparr>v_lasterr := error\<rparr>)
     else
       (let position = (if where_pos > v_off p then v_off p else where_pos) in
        bindE (vpool_gap p position sz) (\<lambda>mem.
        returnE (True, p\<lparr>v_basebuf := mem, v_off := add64 (v_off p) sz, v_lasterr := 0\<rparr>))))"

definition vpool_truncate :: "vpool \<Rightarrow> nat \<Rightarrow> nat \<Rightarrow> vpool_trunc \<Rightarrow> 'w \<Rightarrow> (int \<times> vpool) res \<times> 'w" where
  "vpool_truncate pool where_pos sz how =
     (if where_pos \<ge> v_off pool \<or> sz > v_off pool \<or> v_off pool - sz < where_pos
      then returnE (ERANGE, pool\<lparr>v_lasterr := ERANGE\<rparr>)
      else if how = VPOOL_EXCLUDE then
        bindE (if where_pos = 0 then returnE (pool\<lparr>v_buf := v_buf pool + sz\<rparr>)
               else bindE (mem_write (v_buf pool + where_pos)
                      (take (v_off pool - sz - where_pos)
                        (drop (v_buf pool + where_pos + sz) (v_basebuf pool))) (v_basebuf pool))
                    (\<lambda>mem. returnE (pool\<lparr>v_basebuf := mem\<rparr>)))
          (\<lambda>p. returnE (0, p\<lparr>v_off := v_off pool - sz, v_lasterr := 0\<rparr>))
      else returnE (0, pool\<lparr>v_buf := v_buf pool + where_pos, v_off := sz, v_lasterr := 0\<rparr>))"

definition vpool_contents :: "vpool \<Rightarrow> byte option list" where
  "vpool_contents pool = take (v_off pool) (drop (v_buf pool) (v_basebuf pool))"

definition vpool_export :: "vpool \<Rightarrow> 'w \<Rightarrow> (byte option list \<times> nat \<times> vpool) res \<times> 'w" where
  "vpool_export pool =
     bindE (vpool_shift pool) (\<lambda>p.
     returnE (v_basebuf p, v_off p,
       p\<lparr>v_basebuf := [], v_buf := 0, v_off := 0, v_size := 0, v_lasterr := 0\<rparr>))"

section \<open>Invariant and abstract view\<close>

definition vpool_inv :: "vpool \<Rightarrow> bool" where
  "vpool_inv pool =
     (length (v_basebuf pool) = v_size pool \<and> v_buf pool + v_off pool \<le> v_size pool \<and>
      v_size pool \<le> v_limit pool \<and> v_limit pool < 2 ^ 64 \<and> 0 < v_blksize pool \<and> v_blksize pool < 2 ^ 64)"

text \<open>No size computation of the pool wraps for requests this far below the limit of \<open>size_t\<close>.\<close>

definition vpool_fits :: "vpool \<Rightarrow> nat \<Rightarrow> bool" where
  "vpool_fits pool n = (v_off pool + n + v_blksize pool < 2 ^ 64)"

lemma add64_small: "a + b < 2 ^ 64 \<Longrightarrow> add64 a b = a + b"
  by (simp add: add64_def)

lemma sub64_le: "b \<le> a \<Longrightarrow> a < 2 ^ 64 \<Longrightarrow> sub64 a b = a - b"
  by (simp add: sub64_def nat_diff_distrib)

lemma vpool_contents_length: "vpool_inv pool \<Longrightarrow> length (vpool_contents pool) = v_off pool"
  by (auto simp: vpool_inv_def vpool_contents_def)

lemma vpool_init_inv: "blksize < 2 ^ 64 \<Longrightarrow> limit < 2 ^ 64 \<Longrightarrow> vpool_inv (vpool_init blksize limit)"
  by (simp add: vpool_inv_def vpool_init_def)

lemma vpool_init_contents: "vpool_contents (vpool_init blksize limit) = []"
  by (simp add: vpool_contents_def vpool_init_def)

lemma vpool_new_size_ok:
  assumes inv: "vpool_inv pool" and fits: "vpool_fits pool n" and new: "vpool_new_size pool n = (0, s)"
  shows "v_off pool + n \<le> s" "v_size pool \<le> s" "s \<le> v_limit pool"
    "s = v_size pool \<or> v_size pool < v_off pool + n"
proof -
  have sz: "sub64 (v_size pool) (v_off pool) = v_size pool - v_off pool"
    and li: "sub64 (v_limit pool) (v_off pool) = v_limit pool - v_off pool"
    and off: "v_off pool \<le> v_size pool" "v_size pool \<le> v_limit pool"
    using inv by (auto simp: vpool_inv_def sub64_le)
  have need: "add64 (v_off pool) n = v_off pool + n"
    using fits by (auto simp: vpool_fits_def add64_small)
  let ?rem = "(v_off pool + n) mod v_blksize pool"
  have rem: "?rem < v_blksize pool" and blk: "v_blksize pool < 2 ^ 64"
    using inv by (simp_all add: vpool_inv_def)
  have rnd: "sub64 (v_blksize pool) ?rem = v_blksize pool - ?rem"
    and "add64 n (v_blksize pool - ?rem) = n + (v_blksize pool - ?rem)"
    and "add64 (v_off pool + n) (v_blksize pool - ?rem) = v_off pool + n + (v_blksize pool - ?rem)"
    using fits rem blk by (auto simp: vpool_fits_def add64_small sub64_le)
  then show "v_off pool + n \<le> s" "v_size pool \<le> s" "s \<le> v_limit pool"
      "s = v_size pool \<or> v_size pool < v_off pool + n"
    using new off unfolding vpool_new_size_def sz li need
    by (auto simp: Let_def EFBIG_def split: if_splits)
qed

lemma vpool_new_size_error:
  "vpool_inv pool \<Longrightarrow> vpool_new_size pool n = (e, s) \<Longrightarrow> e \<noteq> 0 \<Longrightarrow>
   e = EFBIG \<and> v_limit pool - v_off pool < n"
  by (auto simp: vpool_new_size_def vpool_inv_def sub64_le Let_def split: if_splits)

lemma mem_write_ok:
  "pos + length data \<le> length mem \<Longrightarrow>
   mem_write pos data mem = returnE (take pos mem @ data @ drop (pos + length data) mem)"
  by (simp add: mem_write_def)

lemma take_drop_write:
  "pos + length data \<le> length mem \<Longrightarrow>
   take (length data) (drop pos (take pos mem @ data @ drop (pos + length data) mem)) = data"
  by simp

text \<open>A resized pool shows the same bytes and has room for the request.\<close>

definition vpool_room :: "vpool \<Rightarrow> vpool \<Rightarrow> nat \<Rightarrow> bool" where
  "vpool_room pool p n =
     (vpool_inv p \<and> vpool_contents p = vpool_contents pool \<and> v_off p = v_off pool \<and>
      v_buf p + v_off p + n \<le> v_size p \<and> v_limit p = v_limit pool \<and> v_blksize p = v_blksize pool)"

lemma vpool_shift_room:
  assumes inv: "vpool_inv pool" and n: "v_off pool + n \<le> v_size pool"
  shows "\<exists>p. vpool_shift pool = returnE p \<and> vpool_room pool p n"
proof (cases "v_buf pool = 0")
  case True
  then show ?thesis
    using assms by (intro exI [of _ pool]) (simp add: vpool_shift_def vpool_room_def)
next
  case False
  have len: "length (vpool_contents pool) = v_off pool"
    by (rule vpool_contents_length [OF inv])
  have "vpool_shift pool = returnE (pool\<lparr>v_basebuf := vpool_contents pool @ drop (v_off pool) (v_basebuf pool),
      v_buf := 0\<rparr>)"
    using inv False len
    by (auto simp: vpool_shift_def mem_write_def vpool_inv_def vpool_contents_def returnE_def bindE_def)
  then show ?thesis
    using assms len by (auto simp: vpool_room_def vpool_inv_def vpool_contents_def)
qed

lemma vpool_resize_spec:
  fixes w :: "('c, 's) world"
  assumes inv: "vpool_inv pool" and fits: "vpool_fits pool n"
  shows "\<exists>e p w'. vpool_resize pool n w = (Ok (e, p), w') \<and>
     (if e = 0 then vpool_room pool p n else p = pool \<and> (e = EFBIG \<or> e = ENOMEM)) \<and>
     (v_off pool + n \<le> v_limit pool \<longrightarrow> allocs w = [] \<longrightarrow> e = 0 \<and> w' = w) \<and> store_data w' = store_data w"
proof -
  obtain e s where new: "vpool_new_size pool n = (e, s)" by fastforce
  show ?thesis
  proof (cases "e = 0")
    case False
    then show ?thesis
      using new vpool_new_size_error [OF inv new] inv
      by (auto simp: vpool_resize_def returnE_def vpool_inv_def)
  next
    case True
    note ok = vpool_new_size_ok [OF inv fits new [unfolded True]]
    show ?thesis
    proof (cases "s > v_size pool")
      case True
      have len: "length (vpool_contents pool) = v_off pool"
        by (rule vpool_contents_length [OF inv])
      let ?p = "pool\<lparr>v_basebuf := vpool_contents pool @ replicate (s - v_off pool) None, v_buf := 0, v_size := s\<rparr>"
      have "mem_write 0 (vpool_contents pool) (replicate s None) =
          (returnE (v_basebuf ?p) :: ('c, 's) world \<Rightarrow> _)"
        using ok(1) len by (simp add: mem_write_def)
      moreover have "vpool_room pool ?p n"
        using inv ok len by (auto simp: vpool_room_def vpool_inv_def vpool_contents_def)
      ultimately show ?thesis
        using new \<open>e = 0\<close> True
        by (cases "allocs w")
           (auto simp: vpool_resize_def vpool_contents_def bindE_def try_alloc_def returnE_def ENOMEM_def)
    next
      case False
      then have s: "s = v_size pool" using ok(2) by simp
      obtain p where p: "vpool_shift pool = (returnE p :: ('c, 's) world \<Rightarrow> _)" "vpool_room pool p n"
        using vpool_shift_room [OF inv] ok(1) s by blast
      have "sub64 (sub64 (v_size pool) (v_off pool)) (v_buf pool) = v_size pool - v_off pool - v_buf pool"
        using inv by (auto simp: vpool_inv_def sub64_le)
      then have "vpool_room pool pool n" if "\<not> sub64 (sub64 (v_size pool) (v_off pool)) (v_buf pool) < n"
        using that inv ok(1) s by (auto simp: vpool_room_def vpool_inv_def)
      then show ?thesis
        using new \<open>e = 0\<close> False p
        by (auto simp: vpool_resize_def bindE_def returnE_def)
    qed
  qed
qed

section \<open>Operations on the abstract view\<close>

text \<open>Opening a gap and filling it, on the allocation and on the bytes it shows.\<close>

lemma gap_insert_list:
  assumes "b + f + n \<le> length mem" and "pos \<le> f" and "length d = n"
    and "mem' = take (b + pos + n) mem @ take (f - pos) (drop (b + pos) mem) @ drop (b + n + f) mem"
  shows "take (f + n) (drop b (take (b + pos) mem' @ d @ drop (b + pos + n) mem')) =
     take pos (take f (drop b mem)) @ d @ drop pos (take f (drop b mem))"
proof -
  let ?B = "take pos (drop b mem)" and ?C = "take (f - pos) (drop (b + pos) mem)"
  have "take (b + pos) mem' = take (b + pos) mem"
    using assms(1,2) unfolding assms(4) by simp
  then have "take (b + pos) mem' = take b mem @ ?B"
    by (simp add: take_add)
  moreover have "drop (b + pos + n) mem' = ?C @ drop (b + n + f) mem"
    using assms by simp
  moreover have "take f (drop b mem) = ?B @ ?C"
    using assms(2) by (metis add.commute drop_drop le_add_diff_inverse take_add)
  moreover have "length ?B = pos" "length ?C = f - pos" "length (take b mem) = b"
    using assms by simp_all
  ultimately show ?thesis
    using assms(2,3) by simp
qed

lemma vpool_gap_ok:
  assumes "v_buf p + v_off p + n \<le> length (v_basebuf p)" and "pos \<le> v_off p"
  shows "vpool_gap p pos n = returnE (take (v_buf p + pos + n) (v_basebuf p) @
     take (v_off p - pos) (drop (v_buf p + pos) (v_basebuf p)) @ drop (v_buf p + n + v_off p) (v_basebuf p))"
proof (cases "pos = v_off p")
  case True
  then show ?thesis
    by (simp add: vpool_gap_def add.assoc add.commute [of n])
next
  case False
  have "length (take (v_off p - pos) (drop (v_buf p + pos) (v_basebuf p))) = v_off p - pos"
    using assms by simp
  moreover have "v_buf p + pos + n + (v_off p - pos) = v_buf p + n + v_off p"
    using assms by simp
  ultimately show ?thesis
    using assms False unfolding vpool_gap_def mem_write_def by (simp add: add.assoc del: length_take)
qed

lemma vpool_insert_spec:
  fixes w :: "('c, 's) world"
  assumes inv: "vpool_inv pool" and fits: "vpool_fits pool (length data)"
  shows "\<exists>ok p w'. vpool_insert pool pos data w = (Ok (ok, p), w') \<and> vpool_inv p \<and>
     (if ok then vpool_contents p = take pos (vpool_contents pool) @ map Some data @ drop pos (vpool_contents pool)
        \<and> v_lasterr p = 0
      else p = pool\<lparr>v_lasterr := v_lasterr p\<rparr> \<and> v_lasterr p \<in> {EFBIG, ENOMEM}) \<and>
     v_limit p = v_limit pool \<and> v_blksize p = v_blksize pool \<and>
     (v_off pool + length data \<le> v_limit pool \<longrightarrow> allocs w = [] \<longrightarrow> ok \<and> w' = w) \<and> store_data w' = store_data w"
proof -
  obtain e p w' where r: "vpool_resize pool (length data) w = (Ok (e, p), w')"
    and p: "if e = 0 then vpool_room pool p (length data) else p = pool \<and> (e = EFBIG \<or> e = ENOMEM)"
    and e: "v_off pool + length data \<le> v_limit pool \<longrightarrow> allocs w = [] \<longrightarrow> e = 0 \<and> w' = w"
    and st: "store_data w' = store_data w"
    using vpool_resize_spec [OF inv fits, of w] by blast
  show ?thesis
  proof (cases "e = 0")
    case False
    then show ?thesis
      using r p e st inv by (auto simp: vpool_insert_def bindE_def returnE_def vpool_inv_def)
  next
    case True
    then have room: "vpool_room pool p (length data)" using p by simp
    let ?pos = "min pos (v_off p)" and ?n = "length data" and ?b = "v_buf p" and ?f = "v_off p" and ?m = "v_basebuf p"
    have len: "?b + ?f + ?n \<le> length ?m" and invp: "vpool_inv p"
      using room by (auto simp: vpool_room_def vpool_inv_def)
    define m1 where "m1 = take (?b + ?pos + ?n) ?m @ take (?f - ?pos) (drop (?b + ?pos) ?m) @ drop (?b + ?n + ?f) ?m"
    have gap: "vpool_gap p ?pos ?n = (returnE m1 :: ('c, 's) world \<Rightarrow> _)"
      unfolding m1_def by (rule vpool_gap_ok [OF len]) simp
    define m2 where "m2 = take (?b + ?pos) m1 @ map Some data @ drop (?b + ?pos + ?n) m1"
    have lenm1: "length m1 = length ?m" using len by (auto simp: m1_def min_def)
    have wr: "mem_write (?b + ?pos) (map Some data) m1 = (returnE m2 :: ('c, 's) world \<Rightarrow> _)"
      using len lenm1 by (auto simp: mem_write_def m2_def min_def)
    have add: "add64 ?f ?n = ?f + ?n"
      using room fits by (simp add: vpool_room_def vpool_fits_def add64_small)
    have "take (?f + ?n) (drop ?b m2) =
        take ?pos (vpool_contents p) @ map Some data @ drop ?pos (vpool_contents p)"
      unfolding m2_def vpool_contents_def
      by (rule gap_insert_list [OF len _ _ m1_def]) simp_all
    also have "\<dots> = take pos (vpool_contents p) @ map Some data @ drop pos (vpool_contents p)"
      using vpool_contents_length [OF invp] by (auto simp: min_def)
    finally have con: "take (?f + ?n) (drop ?b m2) = \<dots>" .
    have "length m2 = length ?m" using len lenm1 by (auto simp: m2_def min_def)
    let ?p' = "p\<lparr>v_basebuf := m2, v_off := ?f + ?n, v_lasterr := 0\<rparr>"
    have "vpool_inv ?p'"
      using invp len \<open>length m2 = length ?m\<close> by (simp add: vpool_inv_def)
    moreover have "vpool_contents ?p' = take pos (vpool_contents pool) @ map Some data @ drop pos (vpool_contents pool)"
    proof -
      have "vpool_contents ?p' = take (?f + ?n) (drop ?b m2)" by (simp add: vpool_contents_def)
      moreover have "vpool_contents p = vpool_contents pool" using room by (simp add: vpool_room_def)
      ultimately show ?thesis using con by (simp only:)
    qed
    moreover have "(if pos > ?f then ?f else pos) = ?pos" by auto
    then have "vpool_insert pool pos data w = (Ok (True, ?p'), w')"
      unfolding vpool_insert_def bindE_def [of "vpool_resize pool ?n"] r
      by (simp add: True gap wr add Let_def) (simp add: bindE_def returnE_def gap wr add)
    ultimately show ?thesis
      using room e st True by (auto simp: vpool_room_def)
  qed
qed

text \<open>A pool as the key agreement uses it: block size 1024, no limit, far from the end of memory.\<close>

definition vpool_holds :: "vpool \<Rightarrow> bytes \<Rightarrow> bool" where
  "vpool_holds pool bs =
     (vpool_inv pool \<and> vpool_contents pool = map Some bs \<and> v_blksize pool = 1024 \<and>
      v_limit pool = 2 ^ 64 - 1)"

lemma vpool_holds_init: "vpool_holds (vpool_init 1024 0) []"
  by (simp add: vpool_holds_def vpool_inv_def vpool_init_def vpool_contents_def)

lemma vpool_holds_length: "vpool_holds pool bs \<Longrightarrow> v_off pool = length bs"
  by (metis length_map vpool_contents_length vpool_holds_def)

lemma vpool_append_spec:
  fixes w :: "('c, 's) world"
  assumes "vpool_holds pool bs" and "length bs + length data < 2 ^ 63"
  shows "\<exists>ok p w'. vpool_insert pool (v_off pool) data w = (Ok (ok, p), w') \<and>
     vpool_holds p (if ok then bs @ data else bs) \<and> (allocs w = [] \<longrightarrow> ok \<and> w' = w) \<and>
     store_data w' = store_data w"
proof -
  have off: "v_off pool = length bs" by (rule vpool_holds_length [OF assms(1)])
  have "vpool_inv pool" "vpool_fits pool (length data)"
    using assms off by (auto simp: vpool_holds_def vpool_fits_def)
  from vpool_insert_spec [OF this, of "v_off pool" w] obtain ok p w' where
    "vpool_insert pool (v_off pool) data w = (Ok (ok, p), w')" "vpool_inv p"
    "if ok then vpool_contents p = take (v_off pool) (vpool_contents pool) @ map Some data @
        drop (v_off pool) (vpool_contents pool) \<and> v_lasterr p = 0
      else p = pool\<lparr>v_lasterr := v_lasterr p\<rparr> \<and> v_lasterr p \<in> {EFBIG, ENOMEM}"
    "v_limit p = v_limit pool" "v_blksize p = v_blksize pool"
    "v_off pool + length data \<le> v_limit pool \<longrightarrow> allocs w = [] \<longrightarrow> ok \<and> w' = w"
    "store_data w' = store_data w"
    by auto
  moreover have "vpool_contents p = vpool_contents pool" if "p = pool\<lparr>v_lasterr := e\<rparr>" for e
    using that by (simp add: vpool_contents_def)
  moreover have "length (vpool_contents pool) = v_off pool"
    using vpool_contents_length \<open>vpool_inv pool\<close> by blast
  ultimately show ?thesis
    using assms off by (intro exI [of _ ok] exI [of _ p] exI [of _ w']) (auto simp: vpool_holds_def)
qed

lemma ensures_vpool_append:
  assumes "vpool_holds pool bs" and "length bs + length data < 2 ^ 63"
  shows "ensures (vpool_insert pool (v_off pool) data) (\<lambda>(ok, p). ok \<and> vpool_holds p (bs @ data))"
  unfolding ensures_def
proof (intro allI impI)
  fix w :: "('a, 'b) world"
  assume w: "allocs w = []"
  show "wp (vpool_insert pool (v_off pool) data)
      (\<lambda>y w'. (case y of (ok, p) \<Rightarrow> ok \<and> vpool_holds p (bs @ data)) \<and> allocs w' = [] \<and>
        store_data w' = store_data w) w"
    using vpool_append_spec [OF assms, of w] w by (auto simp: wp_def)
qed

text \<open>How the callers append to a pool and read all of it.\<close>

definition vpool_append :: "vpool \<Rightarrow> bytes \<Rightarrow> ('c, 's, vpool) M" where
  "vpool_append vp data =
     bindE (vpool_insert vp (v_off vp) data) (\<lambda>(ok, vp').
     if ok then returnE vp' else failE SG_ERR_NOMEM)"

text \<open>Reading the whole pool; a byte that was never written has no value.\<close>

definition vpool_get_data :: "vpool \<Rightarrow> 'w \<Rightarrow> bytes res \<times> 'w" where
  "vpool_get_data vp =
     (if list_all (\<lambda>b. b \<noteq> None) (vpool_contents vp) then returnE (map the (vpool_contents vp)) else faultE)"

lemma ensures_vpool_append_E:
  assumes "vpool_holds vp bs" and "length bs + length data < 2 ^ 63"
  shows "ensures (vpool_append vp data) (\<lambda>vp'. vpool_holds vp' (bs @ data))"
  unfolding vpool_append_def
  by (rule ensures_bindE [OF ensures_vpool_append [OF assms]]) (auto intro: ensures_returnE)

lemma yields_vpool_get_data: "vpool_holds vp bs \<Longrightarrow> yields (vpool_get_data vp) bs"
  by (simp add: vpool_get_data_def vpool_holds_def list_all_iff comp_def yields_returnE)

lemma keeps_mem_write [keeps_rules, intro!]: "keeps_store (mem_write pos d mem)"
  by (auto simp: mem_write_def)

lemma keeps_vpool_insert [keeps_rules, intro!]: "keeps_store (vpool_insert pool pos d)"
  by (auto simp: vpool_insert_def vpool_resize_def vpool_shift_def vpool_gap_def Let_def
      split: prod.splits)

end
