(* ===== verification/Sample_Provider.thy ===== *)
theory Sample_Provider
  imports Curve
begin

text \<open>
  A small crypto provider and curve for which the documented behaviour of \<open>Signal_Base\<close> and \<open>Curve\<close>
  holds, so that properties with these hypotheses can be applied at concrete inputs.  The provider keeps
  its digest contexts in a list of key and data; a pointer is a position.  The scalar multiplication
  is byte-wise addition, which commutes.
\<close>

section \<open>Definitions\<close>

type_synonym sample_memory = "(bytes \<times> bytes) list"

definition sample_hmac :: "bytes \<Rightarrow> bytes \<Rightarrow> bytes" where
  "sample_hmac key data = take 32 (data @ key @ replicate 32 0)"

definition sample_donna :: "bytes \<Rightarrow> bytes \<Rightarrow> bytes" where
  "sample_donna k p = map2 (+) k p"

definition sample_cipher :: "int \<Rightarrow> bytes \<Rightarrow> bytes \<Rightarrow> bytes \<Rightarrow> bytes" where
  "sample_cipher mode key iv plaintext = map (\<lambda>b. b + hd key) plaintext"

definition sample_signature :: bytes where
  "sample_signature = replicate 64 1"

definition sample_init :: "bytes \<Rightarrow> sample_memory \<Rightarrow> (int \<times> ptr option) \<times> sample_memory" where
  "sample_init key c = ((0, Some (length c)), c @ [(key, [])])"

definition sample_update :: "ptr \<Rightarrow> bytes \<Rightarrow> sample_memory \<Rightarrow> int \<times> sample_memory" where
  "sample_update h d c = (0, c[h := (fst (c ! h), snd (c ! h) @ d)])"

definition sample_final :: "(bytes \<Rightarrow> bytes \<Rightarrow> bytes) \<Rightarrow> ptr \<Rightarrow> sample_memory \<Rightarrow> (int \<times> bytes option) \<times> sample_memory" where
  "sample_final H h c = ((0, Some (H (fst (c ! h)) (snd (c ! h)))), c)"

text \<open>The final call of a digest context also prepares it for reuse.\<close>

definition sample_sha512_final :: "(bytes \<Rightarrow> bytes) \<Rightarrow> ptr \<Rightarrow> sample_memory \<Rightarrow> (int \<times> bytes option) \<times> sample_memory" where
  "sample_sha512_final D h c = ((0, Some (D (snd (c ! h)))), c[h := (fst (c ! h), [])])"

definition sample_sha512 :: "bytes \<Rightarrow> bytes" where
  "sample_sha512 data = take 64 (data @ replicate 64 0)"

definition sample_vrf :: "bytes \<Rightarrow> bytes \<Rightarrow> bytes" where
  "sample_vrf k msg = take 32 (k @ msg @ replicate 32 0)"

definition sample_provider :: "sample_memory signal_crypto_provider" where
  "sample_provider =
     \<lparr>random_func = Some (\<lambda>n c. ((0, of_nat), c)),
      hmac_sha256_init_func = Some sample_init,
      hmac_sha256_update_func = Some sample_update,
      hmac_sha256_final_func = Some (sample_final sample_hmac),
      hmac_sha256_cleanup_func = Some (\<lambda>h c. c),
      sha512_digest_init_func = Some (sample_init []),
      sha512_digest_update_func = Some sample_update,
      sha512_digest_final_func = Some (sample_sha512_final sample_sha512),
      sha512_digest_cleanup_func = Some (\<lambda>h c. c),
      encrypt_func = Some (\<lambda>m k iv p c. ((0, Some (sample_cipher m k iv p)), c)),
      decrypt_func = Some (\<lambda>m k iv p c. ((0, Some (map (\<lambda>b. b - hd k) p)), c))\<rparr>"

definition sample_curve :: curve25519_code where
  "sample_curve =
     \<lparr>curve25519_donna = (\<lambda>k p. (0, sample_donna k p)),
      curve25519_sign = (\<lambda>k msg rnd. (0, sample_signature)),
      curve25519_verify = (\<lambda>sig k msg. if sig = sample_signature then 0 else -1),
      generalized_xveddsa_25519_sign = (\<lambda>k msg rnd. (0, replicate 96 1)),
      generalized_xveddsa_25519_verify = (\<lambda>sig k msg. (0, sample_vrf k msg))\<rparr>"

definition sample_context :: "sample_memory signal_context" where
  "sample_context = \<lparr>crypto_provider = sample_provider, curve25519 = sample_curve, locking = False\<rparr>"

definition sample_world :: "'s \<Rightarrow> (sample_memory, 's) world" where
  "sample_world s = \<lparr>allocs = [], crypto_data = [], store_data = s\<rparr>"

section \<open>The documented behaviour holds\<close>

lemma sample_hmac_laws: "hmac_laws sample_context sample_hmac"
  unfolding hmac_laws_def
  by (intro exI [of _ sample_init] exI [of _ sample_update] exI [of _ "sample_final sample_hmac"]
        exI [of _ "\<lambda>h c. c"] exI [of _ "\<lambda>c h k d. h < length c \<and> c ! h = (k, d)"])
     (auto simp: sample_context_def sample_provider_def sample_init_def sample_update_def
       sample_final_def sample_hmac_def)

lemma sample_cipher_laws: "cipher_laws sample_context sample_cipher"
  by (auto simp: cipher_laws_def sample_context_def sample_provider_def sample_cipher_def o_def)

lemma sample_curve_laws: "curve_laws sample_context sample_donna"
proof -
  have "sample_donna a (sample_donna b basepoint) = sample_donna b (sample_donna a basepoint)"
    if "wf_key a" "wf_key b" for a b
    using that by (intro nth_equalityI) (auto simp: sample_donna_def algebra_simps)
  then show ?thesis
    by (auto simp: curve_laws_def donna_computes_def sample_context_def sample_curve_def sample_donna_def wf_key_def
        DJB_KEY_LEN_def)
qed

lemma sample_signature_laws: "signature_laws sample_context DH"
  by (auto simp: signature_laws_def sample_context_def sample_curve_def sample_signature_def
      CURVE_SIGNATURE_LEN_def)

lemma sample_random_laws: "random_laws sample_context"
  by (simp add: random_laws_def sample_context_def sample_provider_def)

lemmas sample_laws = sample_hmac_laws sample_cipher_laws sample_curve_laws sample_signature_laws
  sample_random_laws

text \<open>A key pair of the sample curve: the private key with every byte zero but the clamped top bit.\<close>

definition sample_private :: "byte \<Rightarrow> bytes" where
  "sample_private b = 8 # b # replicate 29 0 @ [64]"

definition sample_pair :: "byte \<Rightarrow> ec_key_pair" where
  "sample_pair b = \<lparr>public_key = sample_donna (sample_private b) basepoint, private_key = sample_private b\<rparr>"

lemma sample_private_clamped: "clamped (sample_private b)"
  by (simp add: clamped_def wf_key_def DJB_KEY_LEN_def sample_private_def nth_Cons' nth_append)

lemma sample_key_pair: "key_pair_of sample_donna (sample_pair b)"
  by (simp add: key_pair_of_def sample_pair_def sample_private_clamped)

lemma sample_pair_wf [simp]: "wf_key (public_key (sample_pair b))" "wf_key (private_key (sample_pair b))"
  using key_pair_of_wf [OF sample_curve_laws sample_key_pair] by auto

end
