(* ===== verification/Base_Properties.thy ===== *)
theory Base_Properties
  imports Ratchet Vpool Sample_Provider "HOL-Library.Multiset"
begin

text \<open>
  Properties of the lower layers: comparison of buffers and keys, the growable pool, key derivation,
  key pairs and signatures, and the wire format.
\<close>

section \<open>Key derivation\<close>



text \<open>The loop of \<open>hkdf_expand\<close> with a counter that can never reach the bound.\<close>

lemma hkdf_expand_loop_endless:
  assumes "hmac_laws ctx H" and "256 \<le> bound" and "allocs w = []"
  shows "fst (hkdf_expand_loop fuel ctx bound prk (Some info) i st r res w) = Fault"
  using assms(3)
proof (induction fuel arbitrary: i st r res w)
  case 0
  have "uint i < bound" using uint_bounded [of i] assms(2) by simp
  then show ?case by (subst hkdf_expand_loop.simps) (simp add: faultE_def)
next
  case (Suc fuel)
  have i: "uint i < bound" using uint_bounded [of i] assms(2) by simp
  have "wp (hkdf_expand_step ctx prk (Some info) i st) (\<lambda>_ w'. allocs w' = []) w"
    by (rule ensures_wp [OF yields_hkdf_expand_step [OF assms(1), unfolded yields_def]]) (use Suc.prems in auto)
  then obtain s w' where "hkdf_expand_step ctx prk (Some info) i st w = (Ok s, w')" "allocs w' = []"
    by (rule wpE)
  then show ?case
    using i Suc.IH [of w']
    by (subst hkdf_expand_loop.simps)
       (simp add: bindE_def thenE_def alloc_def try_alloc_def guardE_def returnE_def Let_def)
qed

text \<open>C37: asking \<open>hkdf_expand\<close> for so many bytes that the number of blocks and the first counter exceed
  255 never returns: the counter is an 8-bit number and wraps below the bound, whatever number of
  passes is allowed.\<close>

theorem hkdf_expand_never_returns:
  assumes "hmac_laws ctx H" and "256 \<le> hkdf_iterations L + iteration_start_offset kdf" and "allocs w = []"
  shows "fst (hkdf_expand_loop fuel ctx (hkdf_iterations L + iteration_start_offset kdf) prk (Some info) i st r res w) = Fault
    \<and> fst (hkdf_expand ctx kdf prk (Some info) L w) = Fault"
  unfolding hkdf_expand_def using hkdf_expand_loop_endless [OF assms] by simp

theorem hkdf_expand_never_returns_witness:
  "fst (hkdf_expand sample_context \<lparr>iteration_start_offset = 1\<rparr> [] (Some []) 8129 (sample_world ())) = Fault"
  using hkdf_expand_never_returns [OF sample_hmac_laws, of 8129 "\<lparr>iteration_start_offset = 1\<rparr>" "sample_world ()"]
  by (simp add: hkdf_iterations_def HASH_OUTPUT_SIZE_def sample_world_def)

section \<open>Comparison\<close>

text \<open>The constant-time comparisons return 0 exactly for equal data: \<open>signal_buffer_compare\<close> on
  every pair of buffers or null pointers, and \<open>signal_constant_memcmp\<close> on the compared prefix.\<close>

theorem constant_time_compare:
  "(signal_buffer_compare b1 b2 = 0) = (b1 = b2) \<and>
   (signal_constant_memcmp (s1 @ t1) (s2 @ t2) (min (length s1) (length s2)) = 0) =
     (take (min (length s1) (length s2)) s1 = take (min (length s1) (length s2)) s2)"
  by (simp add: signal_buffer_compare_eq_0 signal_constant_memcmp_eq_0)

section \<open>Lists of buffers\<close>

lemma ensures_list_copy_loop:
  assumes "ut_ok l" and "\<forall>i \<in> set is. i < length (ut_elems l) \<and> (\<exists>b. ut_elems l ! i = Some b \<and> length b < 2 ^ 62)"
  shows "ensures (signal_buffer_list_copy_loop is l :: ('c, 's, _) M)
    (\<lambda>(ok, l'). ok \<and> ut_elems l' = ut_elems l @ map ((!) (ut_elems l)) is)"
  using assms
proof (induction "is" arbitrary: l)
  case (Cons i "is")
  obtain b where b: "ut_elems l ! i = Some b" "length b < 2 ^ 62" "i < length (ut_elems l)" using Cons.prems(2) by auto
  have copy: "yields (signal_buffer_copy b) (Some b)"
    unfolding signal_buffer_copy_def signal_buffer_create_def
    by (rule yields_bindE [OF yields_signal_buffer_alloc]) (use b(2) in \<open>auto intro: yields_returnE\<close>)
  have rest: "ensures (signal_buffer_list_copy_loop is l' :: ('c, 's, _) M) (\<lambda>(ok, l''). ok \<and>
      ut_elems l'' = ut_elems l @ map ((!) (ut_elems l)) (i # is))"
    if l': "ut_ok l'" "ut_elems l' = ut_elems l @ [Some b]" for l'
  proof -
    have same: "map ((!) (ut_elems l')) is = map ((!) (ut_elems l)) is"
      using Cons.prems(2) by (auto simp: l'(2) nth_append)
    have "ensures (signal_buffer_list_copy_loop is l' :: ('c, 's, _) M) (\<lambda>(ok, l''). ok \<and> ut_elems l'' = ut_elems l' @ map ((!) (ut_elems l')) is)"
      by (rule Cons.IH [OF l'(1)]) (use Cons.prems(2) in \<open>auto simp: l'(2) nth_append\<close>)
    then show ?thesis unfolding same by (simp add: l'(2) b(1))
  qed
  show ?case
    unfolding signal_buffer_list_copy_loop.simps b(1)
    by (rule ensures_bind_yields [OF yields_derefE], rule ensures_bind_yields [OF copy],
        rule ensures_bindE [OF ensures_utarray_push_back [OF Cons.prems(1)]]) (use rest in auto)
qed (auto intro: ensures_returnE)

text \<open>C39: \<open>signal_buffer_list_copy\<close> does not copy: on a list of buffers it returns an empty list, and the list
  it was given has every buffer twice afterwards.\<close>

theorem buffer_list_copy_is_wrong:
  assumes "ut_ok l" and "\<forall>x \<in> set (ut_elems l). \<exists>b. x = Some b \<and> length b < 2 ^ 62"
  shows "ensures (signal_buffer_list_copy l :: ('c, 's, _) M)
    (\<lambda>(r, l'). (\<exists>c. r = Some c \<and> ut_elems c = []) \<and> ut_elems l' = ut_elems l @ ut_elems l)"
proof -
  have loop: "ensures (signal_buffer_list_copy_loop [0..<length (ut_elems l)] l :: ('c, 's, _) M)
      (\<lambda>(ok, l'). ok \<and> ut_elems l' = ut_elems l @ ut_elems l)"
    using ensures_list_copy_loop [OF assms(1), of "[0..<length (ut_elems l)]"] assms(2) by (simp add: map_nth)
  have new: "yields (signal_buffer_list_alloc :: ('c, 's, _) M) \<lparr>ut_n = 0, ut_cap = 0, ut_elems = []\<rparr>"
    unfolding signal_buffer_list_alloc_def utarray_new_def
    by (intro yields_thenE [OF yields_alloc] yields_returnE)
  have ok: "ut_ok \<lparr>ut_n = 0, ut_cap = 0, ut_elems = [] :: bytes option list\<rparr>" by (simp add: ut_ok_def)
  show ?thesis
    unfolding signal_buffer_list_copy_def
    by (rule ensures_tryE [OF new [unfolded yields_def]], simp, rule ensures_bindE [OF ensures_utarray_reserve [OF ok]], clarsimp,
        rule ensures_bindE [OF loop]) (auto intro!: ensures_returnE)
qed

theorem buffer_list_copy_is_wrong_witness:
  "ensures (signal_buffer_list_copy \<lparr>ut_n = 8, ut_cap = 8, ut_elems = [Some [1], Some [2]]\<rparr> :: (unit, unit, _) M)
    (\<lambda>(r, l'). (\<exists>c. r = Some c \<and> ut_elems c = []) \<and> ut_elems l' = [Some [1], Some [2], Some [1], Some [2]])"
  using buffer_list_copy_is_wrong [of "\<lparr>ut_n = 8, ut_cap = 8, ut_elems = [Some [1], Some [2]]\<rparr>", where 'c = unit and 's = unit]
  by (simp add: ut_ok_def)

text \<open>C40: after \<open>utarray_push_back\<close> has reported that the array could not grow, the next one writes outside the
  memory of the array, because the array already believes to be larger.\<close>

theorem failed_growth_breaks_array:
  assumes "length (ut_elems a) = ut_n a" "ut_cap a = ut_n a" and "allocs w = [False]"
  shows "\<exists>a' w'. utarray_push_back a x w = (Ok (False, a'), w') \<and> fst (utarray_push_back a' y w') = Fault"
proof -
  let ?n = "utarray_grow (length (ut_elems a) + 1) (ut_n a)"
  have n: "length (ut_elems a) + 1 \<le> ?n" by (rule utarray_grow_ge)
  have "utarray_push_back a x w = (Ok (False, a\<lparr>ut_n := ?n\<rparr>), w\<lparr>allocs := []\<rparr>)"
    using assms by (simp add: utarray_push_back_def utarray_reserve_def bindE_def try_alloc_def returnE_def Let_def)
  moreover have "fst (utarray_push_back (a\<lparr>ut_n := ?n\<rparr>) y (w\<lparr>allocs := []\<rparr>)) = Fault"
    using assms(1,2) n by (simp add: utarray_push_back_def utarray_reserve_def bindE_def thenE_def returnE_def assertE_def faultE_def)
  ultimately show ?thesis by blast
qed

theorem failed_growth_breaks_array_witness:
  "\<exists>a' w'. utarray_push_back \<lparr>ut_n = 0, ut_cap = 0, ut_elems = []\<rparr> (1 :: int)
      ((sample_world ())\<lparr>allocs := [False]\<rparr>) = (Ok (False, a'), w') \<and> fst (utarray_push_back a' 2 w') = Fault"
  by (rule failed_growth_breaks_array) simp_all

section \<open>The growable pool\<close>

text \<open>C32: inserting data into the pool at any position either does what insertion into a list does, or reports that
  the limit is exceeded or memory is short and leaves the pool as it was; it never fails below the limit while
  memory is available, and the invariant of the pool (its window lies in its allocation, which respects the
  limit) is kept.\<close>

theorem vpool_insert_refines_list:
  fixes w :: "('c, 's) world"
  assumes "vpool_inv pool" and "vpool_fits pool (length data)"
  shows "\<exists>ok p w'. vpool_insert pool pos data w = (Ok (ok, p), w') \<and> vpool_inv p \<and>
     (if ok then vpool_contents p = take pos (vpool_contents pool) @ map Some data @ drop pos (vpool_contents pool)
      else vpool_contents p = vpool_contents pool \<and> v_lasterr p \<in> {EFBIG, ENOMEM}) \<and>
     (v_off pool + length data \<le> v_limit pool \<longrightarrow> allocs w = [] \<longrightarrow> ok)"
proof -
  obtain ok p w' where p: "vpool_insert pool pos data w = (Ok (ok, p), w')" "vpool_inv p"
     "if ok then vpool_contents p = take pos (vpool_contents pool) @ map Some data @ drop pos (vpool_contents pool)
        \<and> v_lasterr p = 0
      else p = pool\<lparr>v_lasterr := v_lasterr p\<rparr> \<and> v_lasterr p \<in> {EFBIG, ENOMEM}"
     "v_off pool + length data \<le> v_limit pool \<longrightarrow> allocs w = [] \<longrightarrow> ok \<and> w' = w"
    using vpool_insert_spec [OF assms] by blast
  have "vpool_contents (pool\<lparr>v_lasterr := e\<rparr>) = vpool_contents pool" for e by (simp add: vpool_contents_def)
  with p(3) have "if ok then vpool_contents p = take pos (vpool_contents pool) @ map Some data @ drop pos (vpool_contents pool)
      else vpool_contents p = vpool_contents pool \<and> v_lasterr p \<in> {EFBIG, ENOMEM}" by (metis (full_types))
  with p show ?thesis by blast
qed

theorem vpool_insert_refines_list_witness:
  "\<exists>p w'. vpool_insert (vpool_init 16 0) 0 [1, 2] (sample_world ()) = (Ok (True, p), w') \<and>
     vpool_contents p = [Some 1, Some 2]"
proof -
  have "vpool_inv (vpool_init 16 0)" "vpool_fits (vpool_init 16 0) (length [1, 2 :: byte])"
    by (simp_all add: vpool_inv_def vpool_fits_def vpool_init_def)
  from vpool_insert_refines_list [OF this, of 0 "sample_world ()"] show ?thesis
    unfolding vpool_init_contents by (auto simp: sample_world_def vpool_init_def split: if_splits)
qed

section \<open>Keys and signatures\<close>



text \<open>A signature made with the private key of a generated pair verifies with its public key.\<close>

theorem signature_verifies:
  fixes ctx :: "'c signal_context"
  assumes "signature_laws ctx DH" and "curve_laws ctx DH" and "random_laws ctx"
  shows "ensures (bindE (curve_generate_key_pair ctx) (\<lambda>kp.
      bindE (curve_calculate_signature ctx (Some (private_key kp)) msg) (\<lambda>sig.
      curve_verify_signature ctx (Some (public_key kp)) msg sig)) :: ('c, 's, _) M) (\<lambda>ok. ok)"
proof (rule ensures_bindE [OF ensures_curve_generate_key_pair [OF assms(2,3)]])
  fix kp
  assume kp: "key_pair_of DH kp"
  then have "clamped (private_key kp)" by (simp add: key_pair_of_def)
  then show "ensures (bindE (curve_calculate_signature ctx (Some (private_key kp)) msg) (\<lambda>sig.
      curve_verify_signature ctx (Some (public_key kp)) msg sig) :: ('c, 's, _) M) (\<lambda>ok. ok)"
    by (rule ensures_bindE [OF ensures_curve_calculate_signature [OF assms(1,3)]])
       (use kp in \<open>auto simp: key_pair_of_def intro!: ensures_yields [OF yields_curve_verify_signature]\<close>)
qed

theorem signature_verifies_witness:
  "ensures (bindE (curve_generate_key_pair sample_context) (\<lambda>kp.
      bindE (curve_calculate_signature sample_context (Some (private_key kp)) [1, 2]) (\<lambda>sig.
      curve_verify_signature sample_context (Some (public_key kp)) [1, 2] sig)) :: (sample_memory, unit, _) M) (\<lambda>ok. ok)"
  by (rule signature_verifies [OF sample_signature_laws sample_curve_laws sample_random_laws])

text \<open>C34: decoding accepts exactly the strings of 33 bytes that begin with the type byte 5, and gives back the key
  that was serialised.\<close>

theorem point_codec_exact:
  "(case curve_decode_point data w of
      (Ok k, _) \<Rightarrow> length data = 33 \<and> data = 5 # k
    | (Err e, _) \<Rightarrow> (e = SG_ERR_INVALID_KEY \<and> \<not> (length data = 33 \<and> hd data = 5)) \<or> (e = SG_ERR_NOMEM \<and> allocs w \<noteq> [])
    | (Fault, _) \<Rightarrow> False)"
proof (cases data)
  case Nil
  then show ?thesis by (simp add: curve_decode_point_def DJB_KEY_LEN_def failE_def)
next
  case (Cons x xs)
  then show ?thesis
    by (auto simp: curve_decode_point_def DJB_KEY_LEN_def DJB_TYPE_def failE_def thenE_def bindE_def alloc_def
        try_alloc_def guardE_def returnE_def split: list.splits)
qed

text \<open>The order of \<open>memcmp\<close> on strings of one length is the order of the numbers they write in base 256.\<close>

definition be_value :: "bytes \<Rightarrow> nat" where
  "be_value = foldl (\<lambda>n b. 256 * n + unat b) 0"

lemma be_value_Cons: "be_value (x # xs) = unat x * 256 ^ length xs + be_value xs"
proof -
  have "foldl (\<lambda>n b. 256 * n + unat b) n xs = n * 256 ^ length xs + foldl (\<lambda>n b. 256 * n + unat b) 0 xs" for n
  proof (induction xs arbitrary: n)
    case (Cons x xs)
    show ?case using Cons [of "256 * n + unat x"] Cons [of "unat x"] by (simp add: algebra_simps)
  qed simp
  from this [of "unat x"] show ?thesis by (simp add: be_value_def)
qed

lemma be_value_less: "be_value xs < 256 ^ length xs"
proof (induction xs)
  case (Cons x xs)
  have "unat x < 256" using unsigned_less [of x] by simp
  then have "unat x \<le> 255" by simp
  then have "unat x * 256 ^ length xs \<le> 255 * 256 ^ length xs" by (intro mult_right_mono) auto
  then have "unat x * 256 ^ length xs + be_value xs < 255 * 256 ^ length xs + 256 ^ length xs"
    using Cons by (rule add_le_less_mono)
  then show ?case by (simp add: be_value_Cons)
qed (simp add: be_value_def)

lemma be_value_Cons_less:
  assumes "length xs = length ys" and "x < (y :: byte)"
  shows "be_value (x # xs) < be_value (y # ys)"
proof -
  have "(unat x + 1) * 256 ^ length xs \<le> unat y * 256 ^ length ys"
    using assms by (simp add: word_less_nat_alt Suc_le_eq mult_le_mono1 del: mult_Suc)
  then show ?thesis using be_value_less [of xs] assms(1) by (simp add: be_value_Cons)
qed

lemma memcmp_be_value: "length xs = length ys \<Longrightarrow> (memcmp xs ys \<le> 0) = (be_value xs \<le> be_value ys)"
proof (induction xs ys rule: list_induct2)
  case (Cons x xs y ys)
  have "x < y \<or> x = y \<or> y < x" by auto
  with Cons show ?case
    using be_value_Cons_less [of xs ys x y] be_value_Cons_less [of ys xs y x] by (auto simp: be_value_Cons)
qed simp

lemma be_value_inject: "length xs = length ys \<Longrightarrow> be_value xs = be_value ys \<Longrightarrow> xs = ys"
proof (induction xs ys rule: list_induct2)
  case (Cons x xs y ys)
  then have "x = y"
    using be_value_Cons_less [of xs ys x y] be_value_Cons_less [of ys xs y x] by (metis less_irrefl linorder_neqE)
  with Cons show ?case by (simp add: be_value_Cons)
qed simp

lemma sort_by_memcmp_sort_key: "list_all wf_key ks \<Longrightarrow> sort_by_memcmp ks = sort_key be_value ks"
proof -
  have ins: "insert_by_memcmp k xs = insort_key be_value k xs" if "wf_key k" "list_all wf_key xs" for k xs
    using that by (induction xs) (auto simp: ec_public_key_memcmp_def memcmp_be_value)
  show "sort_by_memcmp ks = sort_key be_value ks" if "list_all wf_key ks"
    using that unfolding sort_by_memcmp_def
  proof (induction ks)
    case (Cons k ks)
    then have "list_all wf_key (sort_key be_value ks)" by (simp add: list_all_iff)
    with Cons ins show ?case by simp
  qed simp
qed

text \<open>Sorting a list of public keys gives an increasing list of the same keys that does not depend on the order
  in which the keys were given.\<close>

theorem key_list_sort_canonical:
  assumes "list_all wf_key (ut_elems l)" and "mset (ut_elems l) = mset (ut_elems l')"
  shows "ut_elems (ec_public_key_list_sort l) = ut_elems (ec_public_key_list_sort l') \<and>
    mset (ut_elems (ec_public_key_list_sort l)) = mset (ut_elems l) \<and>
    sorted_wrt (\<lambda>x y. ec_public_key_memcmp (Some x) (Some y) \<le> 0) (ut_elems (ec_public_key_list_sort l))"
proof -
  let ?ks = "ut_elems l" and ?ks' = "ut_elems l'"
  have set: "set ?ks = set ?ks'" using assms(2) by (rule mset_eq_setD)
  then have wf: "list_all wf_key ?ks'" using assms(1) by (simp add: list_all_iff)
  have inj: "inj_on be_value (set ?ks)"
    using assms(1) by (auto simp: list_all_iff intro!: inj_onI be_value_inject)
  have eq: "sort_key be_value ?ks = sort_key be_value ?ks'"
    by (rule sort_key_inj_key_eq [OF _ inj]) (simp_all add: assms(2))
  have "sorted_wrt (\<lambda>x y. be_value x \<le> be_value y) (sort_key be_value ?ks)"
    using sorted_sort_key [of be_value ?ks] by (simp add: sorted_map)
  then have "sorted_wrt (\<lambda>x y. ec_public_key_memcmp (Some x) (Some y) \<le> 0) (sort_key be_value ?ks)"
    by (rule sorted_wrt_mono_rel [rotated]) (use assms(1) in \<open>auto simp: list_all_iff ec_public_key_memcmp_def memcmp_be_value\<close>)
  then show ?thesis
    using eq assms(2) by (simp add: ec_public_key_list_sort_def sort_by_memcmp_sort_key assms(1) wf)
qed

theorem key_list_sort_canonical_witness:
  "ut_elems (ec_public_key_list_sort \<lparr>ut_n = 8, ut_cap = 8, ut_elems = [replicate 32 2, replicate 32 1]\<rparr>) =
   ut_elems (ec_public_key_list_sort \<lparr>ut_n = 8, ut_cap = 8, ut_elems = [replicate 32 1, replicate 32 2]\<rparr>)"
  by (rule key_list_sort_canonical [THEN conjunct1]) (simp_all add: wf_key_def DJB_KEY_LEN_def)

end
