(* ===== verification/Protobuf.thy ===== *)
theory Protobuf
  imports Prelude
begin

text \<open>
  The part of the protobuf-c runtime (src/protobuf-c/protobuf-c.c) that the library's messages use:
  varints, tags, sizes, packing and unpacking of messages driven by their descriptors.

  A descriptor lists the fields (number, label, type) and the number ranges of the generated code.
  A message is one slot per field, the list of the values present: an optional field has at most
  one, an absent or null member is the empty slot.  The messages of the library use optional fields
  of types uint32, int32, bool, fixed64, bytes and message, and repeated message fields.
\<close>

unbundle bit_operations_syntax

section \<open>Descriptors and messages\<close>

datatype pb_label = LABEL_OPTIONAL | LABEL_REPEATED

datatype pb_type =
    TYPE_UINT32 | TYPE_INT32 | TYPE_BOOL | TYPE_FIXED64 | TYPE_BYTES | TYPE_MESSAGE pb_desc
and pb_desc = PBDesc (desc_fields: "pb_field list") (desc_ranges: "(int \<times> nat) list")
and pb_field = PBField (field_id: nat) (field_label: pb_label) (field_type: pb_type)

datatype pb_value =
    V_UINT32 "32 word" | V_INT32 "32 word" | V_BOOL bool | V_FIXED64 "64 word" | V_BYTES bytes
  | V_MESSAGE pb_message
and pb_message = PBMsg (msg_slots: "pb_value list list") (msg_unknown: "(32 word \<times> byte \<times> bytes) list")

section \<open>Packing\<close>

definition WIRE_VARINT :: byte where "WIRE_VARINT = 0"
definition WIRE_64BIT :: byte where "WIRE_64BIT = 1"
definition WIRE_LENGTH_PREFIXED :: byte where "WIRE_LENGTH_PREFIXED = 2"
definition WIRE_32BIT :: byte where "WIRE_32BIT = 5"

text \<open>The nested tests of \<open>uint32_pack\<close>: at most four continuation bytes.\<close>

fun uint32_pack_bytes :: "nat \<Rightarrow> 32 word \<Rightarrow> bytes" where
  "uint32_pack_bytes 0 v = [ucast v]"
| "uint32_pack_bytes (Suc n) v =
     (if v \<ge> 0x80 then ucast (v OR 0x80) # uint32_pack_bytes n (drop_bit 7 v) else [ucast v])"

definition uint32_pack :: "32 word \<Rightarrow> bytes" where
  "uint32_pack v = uint32_pack_bytes 4 v"

definition int32_pack :: "32 word \<Rightarrow> bytes" where
  "int32_pack v =
     (if v <s 0 then
        [ucast (v OR 0x80), ucast (signed_drop_bit 7 v OR 0x80), ucast (signed_drop_bit 14 v OR 0x80),
         ucast (signed_drop_bit 21 v OR 0x80), ucast (signed_drop_bit 28 v OR 0x80),
         0xff, 0xff, 0xff, 0xff, 0x01]
      else uint32_pack v)"

text \<open>The loop of \<open>uint64_pack\<close> on the high part; five passes cover 32 bits.\<close>

fun uint64_pack_high :: "nat \<Rightarrow> 32 word \<Rightarrow> bytes" where
  "uint64_pack_high 0 hi = [ucast hi]"
| "uint64_pack_high (Suc n) hi =
     (if hi \<ge> 128 then ucast (hi OR 0x80) # uint64_pack_high n (drop_bit 7 hi) else [ucast hi])"

definition uint64_pack :: "64 word \<Rightarrow> bytes" where
  "uint64_pack v =
     (let hi = ucast (drop_bit 32 v) :: 32 word; lo = ucast v :: 32 word in
      if hi = 0 then uint32_pack lo
      else
        [ucast (lo OR 0x80), ucast (drop_bit 7 lo OR 0x80), ucast (drop_bit 14 lo OR 0x80),
         ucast (drop_bit 21 lo OR 0x80)] @
        (if hi < 8 then [ucast (push_bit 4 hi OR drop_bit 28 lo)]
         else ucast (push_bit 4 (hi AND 7) OR drop_bit 28 lo OR 0x80) # uint64_pack_high 5 (drop_bit 3 hi)))"

definition fixed64_pack :: "64 word \<Rightarrow> bytes" where
  "fixed64_pack v = map (\<lambda>i. ucast (drop_bit (8 * i) v)) [0..<8]"

definition boolean_pack :: "bool \<Rightarrow> bytes" where
  "boolean_pack v = [if v then 1 else 0]"

definition binary_data_pack :: "bytes \<Rightarrow> bytes" where
  "binary_data_pack bd = uint32_pack (of_nat (length bd)) @ bd"

definition tag_pack :: "32 word \<Rightarrow> bytes" where
  "tag_pack tag =
     (if tag < 2 ^ 29 then uint32_pack (push_bit 3 tag) else uint64_pack (push_bit 3 (ucast tag)))"

text \<open>\<open>out[0] |= wire_type\<close> after the tag has been written.\<close>

definition tag_with_wire_type :: "32 word \<Rightarrow> byte \<Rightarrow> bytes" where
  "tag_with_wire_type tag wt =
     (case tag_pack tag of [] \<Rightarrow> [] | b # bs \<Rightarrow> (b OR wt) # bs)"

definition unknown_field_pack :: "32 word \<times> byte \<times> bytes \<Rightarrow> bytes" where
  "unknown_field_pack u = (case u of (tag, wt, data) \<Rightarrow> tag_with_wire_type tag wt @ data)"

fun sub_desc :: "pb_type \<Rightarrow> pb_desc" where
  "sub_desc (TYPE_MESSAGE d) = d"
| "sub_desc _ = PBDesc [] []"

text \<open>\<open>required_field_pack\<close>, \<open>optional_field_pack\<close> and \<open>repeated_field_pack\<close> all write the values of
  the slot one after the other, each with its tag.  In the source the length of a nested message is
  known after it has been packed, and the bytes are moved if the length needs more than one byte.\<close>

function (sequential) required_field_pack :: "pb_field \<Rightarrow> pb_value \<Rightarrow> bytes"
  and protobuf_c_message_pack :: "pb_desc \<Rightarrow> pb_message \<Rightarrow> bytes" where
  "required_field_pack f (V_UINT32 v) = tag_with_wire_type (of_nat (field_id f)) WIRE_VARINT @ uint32_pack v"
| "required_field_pack f (V_INT32 v) = tag_with_wire_type (of_nat (field_id f)) WIRE_VARINT @ int32_pack v"
| "required_field_pack f (V_BOOL v) = tag_with_wire_type (of_nat (field_id f)) WIRE_VARINT @ boolean_pack v"
| "required_field_pack f (V_FIXED64 v) = tag_with_wire_type (of_nat (field_id f)) WIRE_64BIT @ fixed64_pack v"
| "required_field_pack f (V_BYTES v) =
     tag_with_wire_type (of_nat (field_id f)) WIRE_LENGTH_PREFIXED @ binary_data_pack v"
| "required_field_pack f (V_MESSAGE m) =
     (let body = protobuf_c_message_pack (sub_desc (field_type f)) m in
      tag_with_wire_type (of_nat (field_id f)) WIRE_LENGTH_PREFIXED @
      uint32_pack (of_nat (length body)) @ body)"
| "protobuf_c_message_pack (PBDesc fs rs) (PBMsg slots unknown) =
     concat (map (\<lambda>(f, vs). concat (map (\<lambda>v. required_field_pack f v) vs)) (zip fs slots)) @
     concat (map unknown_field_pack unknown)"
  by pat_completeness auto

termination
  by (relation "measure (case_sum (\<lambda>(f, v). size v) (\<lambda>(d, m). size m))")
     (auto simp: size_in_slot)

section \<open>Sizes\<close>

definition get_tag_size :: "nat \<Rightarrow> nat" where
  "get_tag_size number =
     (if number < 2 ^ 4 then 1 else if number < 2 ^ 11 then 2 else if number < 2 ^ 18 then 3
      else if number < 2 ^ 25 then 4 else 5)"

definition uint32_size :: "32 word \<Rightarrow> nat" where
  "uint32_size v =
     (if v < 2 ^ 7 then 1 else if v < 2 ^ 14 then 2 else if v < 2 ^ 21 then 3
      else if v < 2 ^ 28 then 4 else 5)"

definition int32_size :: "32 word \<Rightarrow> nat" where
  "int32_size v = (if v <s 0 then 10 else uint32_size v)"

definition unknown_field_get_packed_size :: "32 word \<times> byte \<times> bytes \<Rightarrow> nat" where
  "unknown_field_get_packed_size u = (case u of (tag, wt, data) \<Rightarrow> get_tag_size (unat tag) + length data)"

function (sequential) required_field_get_packed_size :: "pb_field \<Rightarrow> pb_value \<Rightarrow> nat"
  and protobuf_c_message_get_packed_size :: "pb_desc \<Rightarrow> pb_message \<Rightarrow> nat" where
  "required_field_get_packed_size f (V_UINT32 v) = get_tag_size (field_id f) + uint32_size v"
| "required_field_get_packed_size f (V_INT32 v) = get_tag_size (field_id f) + int32_size v"
| "required_field_get_packed_size f (V_BOOL v) = get_tag_size (field_id f) + 1"
| "required_field_get_packed_size f (V_FIXED64 v) = get_tag_size (field_id f) + 8"
| "required_field_get_packed_size f (V_BYTES v) =
     get_tag_size (field_id f) + uint32_size (of_nat (length v)) + length v"
| "required_field_get_packed_size f (V_MESSAGE m) =
     (let subrv = protobuf_c_message_get_packed_size (sub_desc (field_type f)) m in
      get_tag_size (field_id f) + uint32_size (of_nat subrv) + subrv)"
| "protobuf_c_message_get_packed_size (PBDesc fs rs) (PBMsg slots unknown) =
     sum_list (map (\<lambda>(f, vs). sum_list (map (\<lambda>v. required_field_get_packed_size f v) vs)) (zip fs slots)) +
     sum_list (map unknown_field_get_packed_size unknown)"
  by pat_completeness auto

termination
  by (relation "measure (case_sum (\<lambda>(f, v). size v) (\<lambda>(d, m). size m))")
     (auto simp: size_in_slot)

section \<open>Scanning\<close>

text \<open>\<open>int_range_lookup\<close>: binary search of a field number in the ranges; -1 when there is none.  The
  list ends with the terminating range of the generated code.\<close>

function int_range_lookup_loop :: "(int \<times> nat) list \<Rightarrow> int \<Rightarrow> nat \<Rightarrow> nat \<Rightarrow> int" where
  "int_range_lookup_loop ranges v start n =
     (if n > 1 then
        (let mid = start + n div 2 in
         if v < fst (ranges ! mid) then int_range_lookup_loop ranges v start (mid - start)
         else if v \<ge> fst (ranges ! mid) + (int (snd (ranges ! (mid + 1))) - int (snd (ranges ! mid))) then
           int_range_lookup_loop ranges v (mid + 1) (start + n - (mid + 1))
         else (v - fst (ranges ! mid)) + int (snd (ranges ! mid)))
      else if n > 0 then
        (let start_orig_index = int (snd (ranges ! start));
             range_size = int (snd (ranges ! (start + 1))) - start_orig_index
         in if fst (ranges ! start) \<le> v \<and> v < fst (ranges ! start) + range_size
            then (v - fst (ranges ! start)) + start_orig_index else -1)
      else -1)"
  by auto
termination
  by (relation "measure (\<lambda>(ranges, v, start, n). n)") auto

definition int_range_lookup :: "nat \<Rightarrow> (int \<times> nat) list \<Rightarrow> int \<Rightarrow> int" where
  "int_range_lookup n_ranges ranges v =
     (if n_ranges = 0 then -1 else int_range_lookup_loop ranges v 0 n_ranges)"

definition lookup_field :: "pb_desc \<Rightarrow> 32 word \<Rightarrow> nat option" where
  "lookup_field d tag =
     (let field_index = int_range_lookup (length (desc_ranges d) - 1) (desc_ranges d) (sint tag) in
      if field_index < 0 then None else Some (nat field_index))"

text \<open>\<open>parse_tag_and_wiretype\<close>: bytes used (0 for a bad header), tag and wire type.\<close>

fun parse_tag_rest :: "nat \<Rightarrow> bytes \<Rightarrow> nat \<Rightarrow> nat \<Rightarrow> 32 word \<Rightarrow> nat \<times> 32 word" where
  "parse_tag_rest 0 data rv shift tag = (0, 0)"
| "parse_tag_rest (Suc n) data rv shift tag =
     (if data ! rv AND 0x80 \<noteq> 0 then
        parse_tag_rest n data (rv + 1) (shift + 7) (tag OR push_bit shift (ucast (data ! rv AND 0x7f)))
      else (rv + 1, tag OR push_bit shift (ucast (data ! rv))))"

definition parse_tag_and_wiretype :: "bytes \<Rightarrow> nat \<times> 32 word \<times> byte" where
  "parse_tag_and_wiretype data =
     (let max_rv = (if length data > 5 then 5 else length data);
          tag = drop_bit 3 (ucast (data ! 0 AND 0x7f)) :: 32 word;
          wt = data ! 0 AND 7
      in if data ! 0 AND 0x80 = 0 then (1, tag, wt)
         else (case parse_tag_rest (max_rv - 1) data 1 4 tag of (used, tag') \<Rightarrow> (used, tag', wt)))"

text \<open>The end of a varint: one more than the index of its first byte without continuation bit, within
  the first \<open>max\<close> bytes.\<close>

fun varint_end :: "nat \<Rightarrow> bytes \<Rightarrow> nat option" where
  "varint_end 0 data = None"
| "varint_end (Suc n) [] = None"
| "varint_end (Suc n) (b # bs) =
     (if b AND 0x80 = 0 then Some 1 else map_option Suc (varint_end n bs))"

text \<open>\<open>scan_length_prefixed_data\<close>: total length and prefix length; the sum \<open>hdr_len + val\<close> is computed in
  32 bits.\<close>

fun prefix_value :: "bytes \<Rightarrow> nat \<Rightarrow> 32 word" where
  "prefix_value [] shift = 0"
| "prefix_value (b # bs) shift = push_bit shift (ucast (b AND 0x7f)) OR prefix_value bs (shift + 7)"

definition scan_length_prefixed_data :: "bytes \<Rightarrow> (32 word \<times> nat) option" where
  "scan_length_prefixed_data data =
     (case varint_end 5 data of
        None \<Rightarrow> None
      | Some hdr_len \<Rightarrow>
          (let total = of_nat hdr_len + prefix_value (take hdr_len data) 0 in
           if unat total > length data then None
           else if total = 0 then None
           else Some (total, hdr_len)))"

record scanned_member =
  sm_tag :: "32 word"
  sm_wire_type :: byte
  sm_length_prefix_len :: nat
  sm_field :: "nat option"
  sm_len :: "32 word"
  sm_data :: bytes

text \<open>The length of the data of a member after its tag, by wire type.\<close>

definition scan_data :: "byte \<Rightarrow> bytes \<Rightarrow> (32 word \<times> nat) option" where
  "scan_data wt at_data =
     (if wt = WIRE_VARINT then map_option (\<lambda>n. (of_nat n, 0)) (varint_end 10 at_data)
      else if wt = WIRE_64BIT then (if length at_data < 8 then None else Some (8, 0))
      else if wt = WIRE_LENGTH_PREFIXED then scan_length_prefixed_data at_data
      else if wt = WIRE_32BIT then (if length at_data < 4 then None else Some (4, 0))
      else None)"

function scan_members :: "pb_desc \<Rightarrow> bytes \<Rightarrow> scanned_member list option" where
  "scan_members d data =
     (if data = [] then Some []
      else
        (case parse_tag_and_wiretype data of (used, tag, wt) \<Rightarrow>
         if used = 0 then None
         else
           (case scan_data wt (drop used data) of
              None \<Rightarrow> None
            | Some (len, pref_len) \<Rightarrow>
                map_option ((#) \<lparr>sm_tag = tag, sm_wire_type = wt, sm_length_prefix_len = pref_len,
                    sm_field = lookup_field d tag, sm_len = len, sm_data = drop used data\<rparr>)
                  (scan_members d (drop (unat len) (drop used data))))))"
  by auto
termination
  by (relation "measure (\<lambda>(d, data). length data)") auto

section \<open>Parsing\<close>

definition parse_uint32 :: "nat \<Rightarrow> bytes \<Rightarrow> 32 word" where
  "parse_uint32 len data =
     (let part = (\<lambda>i. push_bit (7 * i) (ucast (data ! i AND 0x7f) :: 32 word));
          rv = part 0
      in if len > 1 then
           (let rv = rv OR part 1 in
            if len > 2 then
              (let rv = rv OR part 2 in
               if len > 3 then
                 (let rv = rv OR part 3 in
                  if len > 4 then rv OR push_bit 28 (ucast (data ! 4)) else rv)
               else rv)
            else rv)
         else rv)"

definition parse_int32 :: "nat \<Rightarrow> bytes \<Rightarrow> 32 word" where
  "parse_int32 len data = parse_uint32 len data"

definition parse_fixed_uint64 :: "bytes \<Rightarrow> 64 word" where
  "parse_fixed_uint64 data = foldr (\<lambda>i acc. push_bit (8 * i) (ucast (data ! i)) OR acc) [0..<8] 0"

definition parse_boolean :: "nat \<Rightarrow> bytes \<Rightarrow> bool" where
  "parse_boolean len data = (\<exists>b \<in> set (take len data). b AND 0x7f \<noteq> 0)"

abbreviation pb_null :: "'a res" where
  "pb_null \<equiv> Err SG_ERR_INVALID_PROTO_BUF"

definition bindR :: "'a res \<Rightarrow> ('a \<Rightarrow> 'b res) \<Rightarrow> 'b res" where
  "bindR r f = (case r of Ok x \<Rightarrow> f x | Err e \<Rightarrow> Err e | Fault \<Rightarrow> Fault)"

text \<open>The bytes after the length prefix.  The length is the 32-bit difference of the two lengths; a
  copy that runs past the data is undefined.\<close>

definition prefixed_payload :: "scanned_member \<Rightarrow> bytes res" where
  "prefixed_payload m =
     (let n = unat (sm_len m - of_nat (sm_length_prefix_len m)) in
      if sm_length_prefix_len m + n \<le> length (sm_data m)
      then Ok (take n (drop (sm_length_prefix_len m) (sm_data m))) else Fault)"

text \<open>\<open>parse_required_member\<close> for a field type; \<open>unpack\<close> is the unpacker of the nested message, if there
  is one.  A result \<open>pb_null\<close> is the return value FALSE.\<close>

definition parse_required_member ::
    "(bytes \<Rightarrow> pb_message res) \<Rightarrow> pb_type \<Rightarrow> scanned_member \<Rightarrow> pb_value res" where
  "parse_required_member unpack t m =
     (let len = unat (sm_len m); data = sm_data m; wt = sm_wire_type m in
      case t of
        TYPE_UINT32 \<Rightarrow> if wt \<noteq> WIRE_VARINT then pb_null else Ok (V_UINT32 (parse_uint32 len data))
      | TYPE_INT32 \<Rightarrow> if wt \<noteq> WIRE_VARINT then pb_null else Ok (V_INT32 (parse_int32 len data))
      | TYPE_BOOL \<Rightarrow> Ok (V_BOOL (parse_boolean len data))
      | TYPE_FIXED64 \<Rightarrow> if wt \<noteq> WIRE_64BIT then pb_null else Ok (V_FIXED64 (parse_fixed_uint64 data))
      | TYPE_BYTES \<Rightarrow>
          if wt \<noteq> WIRE_LENGTH_PREFIXED then pb_null
          else bindR (prefixed_payload m) (\<lambda>bs. Ok (V_BYTES bs))
      | TYPE_MESSAGE d \<Rightarrow>
          if wt \<noteq> WIRE_LENGTH_PREFIXED then pb_null
          else bindR (prefixed_payload m) (\<lambda>bs. bindR (unpack bs) (\<lambda>sub. Ok (V_MESSAGE sub))))"

text \<open>\<open>merge_messages\<close>: the later message wins field by field, repeated fields are concatenated, nested
  messages are merged.  A bytes member counts as set only when its data pointer is not null, that is
  when it is not empty.\<close>

function (sequential) merge_messages :: "pb_desc \<Rightarrow> pb_message \<Rightarrow> pb_message \<Rightarrow> pb_message"
  and merge_slot :: "pb_field \<Rightarrow> pb_value list \<Rightarrow> pb_value list \<Rightarrow> pb_value list" where
  "merge_messages (PBDesc fs rs) (PBMsg es eu) (PBMsg ls lu) =
     PBMsg (map (\<lambda>(f, e, l). merge_slot f e l) (zip fs (zip es ls))) lu"
| "merge_slot (PBField i LABEL_REPEATED t) e l = e @ l"
| "merge_slot (PBField i LABEL_OPTIONAL (TYPE_MESSAGE d)) (V_MESSAGE em # es) (V_MESSAGE lm # ls) =
     [V_MESSAGE (merge_messages d em lm)]"
| "merge_slot (PBField i LABEL_OPTIONAL (TYPE_MESSAGE d)) e l = (if l = [] then e else l)"
| "merge_slot (PBField i LABEL_OPTIONAL TYPE_BYTES) e l =
     (if e \<noteq> [] \<and> e \<noteq> [V_BYTES []] \<and> (l = [] \<or> l = [V_BYTES []]) then e else l)"
| "merge_slot (PBField i LABEL_OPTIONAL t) e l = (if e \<noteq> [] \<and> l = [] then e else l)"
  by pat_completeness auto

termination
  by (relation "measure (case_sum (\<lambda>(d, e, l). size d) (\<lambda>(f, e, l). size f))")
     (auto simp: size_in_zip)

text \<open>\<open>parse_member\<close>: an unknown field is kept aside, an optional field is set or merged, a repeated one
  extended.  Repeated scalar fields, which can be packed, do not occur in the library.\<close>

definition parse_member ::
    "pb_desc \<Rightarrow> (bytes \<Rightarrow> pb_message res) list \<Rightarrow> scanned_member \<Rightarrow> pb_message \<Rightarrow> pb_message res" where
  "parse_member d unpackers m msg =
     (case sm_field m of
        None \<Rightarrow>
          Ok (PBMsg (msg_slots msg)
                (msg_unknown msg @ [(sm_tag m, sm_wire_type m, take (unat (sm_len m)) (sm_data m))]))
      | Some i \<Rightarrow>
          (let f = desc_fields d ! i; slot = msg_slots msg ! i in
           bindR (parse_required_member (unpackers ! i) (field_type f) m) (\<lambda>v.
           Ok (PBMsg ((msg_slots msg)[i :=
             (case field_label f of
                LABEL_REPEATED \<Rightarrow> slot @ [v]
              | LABEL_OPTIONAL \<Rightarrow>
                  (case (slot, v) of
                     (V_MESSAGE em # _, V_MESSAGE lm) \<Rightarrow>
                       [V_MESSAGE (merge_messages (sub_desc (field_type f)) em lm)]
                   | _ \<Rightarrow> [v]))]) (msg_unknown msg)))))"

primrec parse_members ::
    "pb_desc \<Rightarrow> (bytes \<Rightarrow> pb_message res) list \<Rightarrow> scanned_member list \<Rightarrow> pb_message \<Rightarrow> pb_message res" where
  "parse_members d unpackers [] msg = Ok msg"
| "parse_members d unpackers (m # ms) msg =
     bindR (parse_member d unpackers m msg) (parse_members d unpackers ms)"

definition message_init :: "pb_desc \<Rightarrow> pb_message" where
  "message_init d = PBMsg (map (\<lambda>_. []) (desc_fields d)) []"

text \<open>The slabs of scanned members: sixteen on the stack, then each twice the size of the one before,
  23 in all.\<close>

definition MAX_SCANNED_MEMBERS :: nat where
  "MAX_SCANNED_MEMBERS = 16 * (2 ^ 23 - 1)"

function (sequential) protobuf_c_message_unpack :: "pb_desc \<Rightarrow> bytes \<Rightarrow> pb_message res"
  and unpack_nested :: "pb_field \<Rightarrow> bytes \<Rightarrow> pb_message res" where
  "protobuf_c_message_unpack (PBDesc fs rs) data =
     (case scan_members (PBDesc fs rs) data of
        None \<Rightarrow> pb_null
      | Some ms \<Rightarrow>
          if length ms > MAX_SCANNED_MEMBERS then pb_null
          else parse_members (PBDesc fs rs) (map (\<lambda>f bs. unpack_nested f bs) fs) ms
                 (message_init (PBDesc fs rs)))"
| "unpack_nested (PBField i l (TYPE_MESSAGE d)) bs = protobuf_c_message_unpack d bs"
| "unpack_nested f bs = pb_null"
  by pat_completeness auto

termination
  by (relation "measure (case_sum (\<lambda>(d, x). size d) (\<lambda>(f, x). size f))")
     (auto dest: size_list_estimation' [where f = size, OF _ order_refl])

text \<open>A call of an unpack function: when one of its allocations fails it returns null as well.\<close>

definition pb_unpack :: "pb_desc \<Rightarrow> bytes \<Rightarrow> ('c, 's, pb_message) M" where
  "pb_unpack d data =
     bindE try_alloc (\<lambda>b.
     if b then (\<lambda>w. (protobuf_c_message_unpack d data, w)) else failE SG_ERR_INVALID_PROTO_BUF)"

end
