(* ===== verification/Protobuf_Laws.thy ===== *)
theory Protobuf_Laws
  imports Protobuf
begin

text \<open>
  What the protobuf runtime guarantees for the library's messages: the size computed before packing
  is the size packed, and unpacking a packed message gives the message back.  The size bound of
  \<open>2 ^ 26\<close> bytes keeps every length far from the 32-bit limits of the wire format and the number of
  fields below the capacity of the scanner.
\<close>

section \<open>Varints\<close>

lemma bit_128: "bit (0x80 :: 'a :: len word) n \<longleftrightarrow> n = 7 \<and> n < LENGTH('a)"
proof -
  have "(0x80 :: 'a word) = 2 ^ 7" by simp
  then show ?thesis by (simp only: bit_exp_iff) auto
qed

lemma mask_7f: "(0x7f :: 'a :: len word) = mask 7"
  by (simp add: mask_eq_exp_minus_1)

lemma take_bit_self: "unat v < 2 ^ n \<Longrightarrow> take_bit n v = (v :: 'a :: len word)"
  by (metis unsigned_take_bit_eq take_bit_nat_eq_self unsigned_word_eqI)

lemma cont_bit_set: "(ucast (v OR 0x80 :: 32 word) :: byte) AND 0x80 \<noteq> 0"
proof -
  have "bit ((ucast (v OR 0x80 :: 32 word) :: byte) AND 0x80) 7"
    by (simp add: bit_and_iff bit_or_iff bit_128 bit_ucast_iff)
  then show ?thesis by (metis bit_0_eq bot_apply bot_bool_def)
qed

lemma less_128: "(v :: 32 word) < 0x80 \<Longrightarrow> unat v < 2 ^ 7"
  by (simp add: word_less_nat_alt)

lemma cont_bit_clear: "v < 0x80 \<Longrightarrow> (ucast (v :: 32 word) :: byte) AND 0x80 = 0"
proof (rule bit_word_eqI)
  fix n
  assume "v < 0x80"
  then have "take_bit 7 v = v" by (rule take_bit_self [OF less_128])
  then have "\<not> bit v 7" by (metis bit_take_bit_iff less_irrefl)
  then show "bit ((ucast v :: byte) AND 0x80) n = bit (0 :: byte) n"
    by (simp only: bit_and_iff bit_128 bit_ucast_iff) auto
qed

lemma low_bits_cont: "(ucast ((ucast (v OR 0x80 :: 32 word) :: byte) AND 0x7f) :: 32 word) = take_bit 7 v"
  by (rule bit_word_eqI)
     (simp only: bit_ucast_iff bit_and_iff bit_or_iff bit_128 bit_take_bit_iff mask_7f bit_mask_iff, auto)

lemma low_bits_last: "v < 0x80 \<Longrightarrow> (ucast ((ucast (v :: 32 word) :: byte) AND 0x7f) :: 32 word) = v"
proof -
  assume "v < 0x80"
  then have "take_bit 7 v = v" by (rule take_bit_self [OF less_128])
  moreover have "(ucast ((ucast (v :: 32 word) :: byte) AND 0x7f) :: 32 word) = take_bit 7 v"
    by (rule bit_word_eqI) (auto simp: bit_ucast_iff bit_and_iff bit_take_bit_iff mask_7f bit_mask_iff)
  ultimately show ?thesis by simp
qed

lemma split_7: "take_bit 7 v OR push_bit 7 (drop_bit 7 v) = (v :: 32 word)"
  by (rule bit_word_eqI)
     (auto simp: bit_or_iff bit_take_bit_iff bit_push_bit_iff bit_drop_bit_eq,
      metis le_add_diff_inverse not_less)

lemma drop_bit_bound: "unat v < 2 ^ (7 * Suc (Suc n)) \<Longrightarrow> unat (drop_bit 7 (v :: 32 word)) < 2 ^ (7 * Suc n)"
proof -
  assume "unat v < 2 ^ (7 * Suc (Suc n))"
  then have "unat v < 2 ^ (7 * Suc n) * 2 ^ 7" by (simp add: power_add)
  then have "unat v div 2 ^ 7 < 2 ^ (7 * Suc n)" by (rule less_mult_imp_div_less)
  moreover have "unat (drop_bit 7 v) = unat v div 2 ^ 7"
    by (metis unat_drop_bit_eq drop_bit_eq_div)
  ultimately show ?thesis by simp
qed

lemma pack_bytes_end:
  "unat v < 2 ^ (7 * Suc n) \<Longrightarrow> n < k \<Longrightarrow>
   varint_end k (uint32_pack_bytes n v @ rest) = Some (length (uint32_pack_bytes n v))"
proof (induction n arbitrary: v k)
  case 0
  then show ?case by (cases k) (auto simp: cont_bit_clear word_less_nat_alt)
next
  case (Suc n)
  then obtain k' where k: "k = Suc k'" "n < k'" by (cases k) auto
  show ?case
    using Suc.IH [OF drop_bit_bound k(2)] Suc.prems(1) k
    by (auto simp: cont_bit_clear cont_bit_set not_le)
qed

lemma pack_bytes_prefix_value:
  "unat v < 2 ^ (7 * Suc n) \<Longrightarrow> prefix_value (uint32_pack_bytes n v) s = push_bit s v"
proof (induction n arbitrary: v s)
  case 0
  then show ?case by (simp add: low_bits_last word_less_nat_alt)
next
  case (Suc n)
  have "push_bit s (take_bit 7 v) OR push_bit (s + 7) (drop_bit 7 v) = push_bit s v"
    using split_7 [of v] by (metis add.commute push_bit_or push_bit_push_bit)
  then show ?case
    using Suc.IH [OF drop_bit_bound] Suc.prems by (auto simp: low_bits_cont low_bits_last not_le)
qed

lemma pack_bytes_length: "0 < length (uint32_pack_bytes n v) \<and> length (uint32_pack_bytes n v) \<le> Suc n"
  by (induction n arbitrary: v) auto

lemma push_28: "push_bit 28 (ucast (b :: byte) :: 32 word) = push_bit 28 (ucast (b AND 0x7f))"
  by (rule bit_word_eqI) (auto simp: bit_push_bit_iff bit_ucast_iff bit_and_iff mask_7f bit_mask_iff)

lemma parse_uint32_prefix_value:
  assumes "0 < length bs" and "length bs \<le> 5"
  shows "parse_uint32 (length bs) (bs @ rest) = prefix_value bs 0"
proof -
  consider a where "bs = [a]" | a b where "bs = [a, b]" | a b c where "bs = [a, b, c]"
    | a b c d where "bs = [a, b, c, d]" | a b c d e where "bs = [a, b, c, d, e]"
    using assms by (auto simp: neq_Nil_conv Suc_le_eq numeral_eq_Suc le_Suc_eq length_Suc_conv)
  then show ?thesis
    by cases (simp_all add: parse_uint32_def Let_def or.assoc push_28 [symmetric])
qed

lemma uint32_facts:
  shows uint32_pack_end: "5 \<le> k \<Longrightarrow> varint_end k (uint32_pack v @ rest) = Some (length (uint32_pack v))"
    and uint32_pack_prefix: "prefix_value (uint32_pack v) 0 = v"
    and uint32_pack_pos: "0 < length (uint32_pack v)"
    and uint32_pack_le: "length (uint32_pack v) \<le> 5"
proof -
  have v: "unat v < 2 ^ (7 * Suc 4)" using unsigned_less [of v, where ?'a = nat] by simp
  show "5 \<le> k \<Longrightarrow> varint_end k (uint32_pack v @ rest) = Some (length (uint32_pack v))"
    unfolding uint32_pack_def by (rule pack_bytes_end [OF v]) simp
  show "prefix_value (uint32_pack v) 0 = v"
    unfolding uint32_pack_def pack_bytes_prefix_value [OF v] by simp
  show "0 < length (uint32_pack v)" "length (uint32_pack v) \<le> 5"
    using pack_bytes_length [of 4 v] by (simp_all add: uint32_pack_def)
qed

lemma parse_uint32_pack: "parse_uint32 (length (uint32_pack v)) (uint32_pack v @ rest) = v"
  by (metis parse_uint32_prefix_value uint32_pack_pos uint32_pack_le uint32_pack_prefix)

lemma drop_bit_ge_128:
  assumes "unat (2 ^ (k + 7) :: 32 word) = 2 ^ k * 128"
  shows "(0x80 \<le> drop_bit k (v :: 32 word)) = (\<not> v < 2 ^ (k + 7))"
proof -
  have "unat (drop_bit k v) = unat v div 2 ^ k" by (metis unat_drop_bit_eq drop_bit_eq_div)
  moreover have "(128 \<le> unat v div 2 ^ k) = (\<not> unat v < 2 ^ k * 128)"
    by (simp add: less_eq_div_iff_mult_less_eq not_less mult.commute)
  ultimately show ?thesis using assms by (simp add: word_le_nat_alt word_less_nat_alt)
qed

lemma uint32_pack_length: "length (uint32_pack v) = uint32_size v"
proof -
  have "(0x80 \<le> v) = (\<not> v < 2 ^ 7)" by (simp add: not_less)
  moreover have "(0x80 \<le> drop_bit 7 v) = (\<not> v < 2 ^ 14)" "(0x80 \<le> drop_bit 14 v) = (\<not> v < 2 ^ 21)"
    "(0x80 \<le> drop_bit 21 v) = (\<not> v < 2 ^ 28)"
    using drop_bit_ge_128 [of 7 v] drop_bit_ge_128 [of 14 v] drop_bit_ge_128 [of 21 v] by simp_all
  moreover have "uint32_pack v = uint32_pack_bytes (Suc (Suc (Suc (Suc 0)))) v"
    by (simp add: uint32_pack_def numeral_eq_Suc)
  ultimately show ?thesis
    by (simp add: uint32_size_def drop_bit_drop_bit)
qed

lemma bit_foldr_push:
  "bit (foldr (\<lambda>i acc. push_bit (8 * i) (ucast (d i :: byte)) OR acc) is (0 :: 64 word)) n =
   (\<exists>i \<in> set is. 8 * i \<le> n \<and> n < 64 \<and> bit (d i) (n - 8 * i))"
  by (induction "is") (auto simp: bit_or_iff bit_push_bit_iff bit_ucast_iff dest: bit_imp_le_length)

lemma fixed64_round: "parse_fixed_uint64 (fixed64_pack v @ rest) = v"
proof (rule bit_word_eqI)
  fix n
  assume "n < LENGTH(64)"
  then have n: "n < 64" by simp
  have nth: "(fixed64_pack v @ rest) ! i = ucast (drop_bit (8 * i) v)" if "i < 8" for i
    using that by (simp add: fixed64_pack_def nth_append)
  have "(\<exists>i \<in> {0..<8}. 8 * i \<le> n \<and> bit (drop_bit (8 * i) v) (n - 8 * i) \<and> n - 8 * i < 8) = bit v n"
  proof
    assume "bit v n"
    then show "\<exists>i \<in> {0..<8}. 8 * i \<le> n \<and> bit (drop_bit (8 * i) v) (n - 8 * i) \<and> n - 8 * i < 8"
      using n by (intro bexI [of _ "n div 8"]) (auto simp: bit_drop_bit_eq)
  qed (auto simp: bit_drop_bit_eq)
  then show "bit (parse_fixed_uint64 (fixed64_pack v @ rest)) n = bit v n"
    using n nth by (auto simp: parse_fixed_uint64_def bit_foldr_push bit_ucast_iff)
qed

lemma varint_end_append:
  "\<forall>b \<in> set bs. b AND 0x80 \<noteq> 0 \<Longrightarrow> c AND 0x80 = 0 \<Longrightarrow> length bs < k \<Longrightarrow>
   varint_end k (bs @ c # rest) = Some (Suc (length bs))"
proof (induction bs arbitrary: k)
  case Nil
  then show ?case by (cases k) auto
next
  case (Cons b bs)
  then show ?case by (cases k) auto
qed

lemma int32_bits:
  "push_bit 0 (take_bit 7 v) OR (push_bit 7 (take_bit 7 (signed_drop_bit 7 v)) OR
   (push_bit 14 (take_bit 7 (signed_drop_bit 14 v)) OR (push_bit 21 (take_bit 7 (signed_drop_bit 21 v)) OR
    push_bit 28 (take_bit 7 (signed_drop_bit 28 v))))) = (v :: 32 word)"
proof (rule bit_word_eqI)
  fix n
  assume "n < LENGTH(32)"
  then have n: "n < 32" by simp
  have part: "bit (push_bit k (take_bit 7 (signed_drop_bit k v))) n = (k \<le> n \<and> n < k + 7 \<and> bit v n)" for k
    using n by (auto simp: bit_push_bit_iff bit_take_bit_iff bit_signed_drop_bit_iff)
  have "bit (push_bit 0 (take_bit 7 v)) n = (n < 7 \<and> bit v n)"
    using n by (auto simp: bit_take_bit_iff)
  then show "bit (push_bit 0 (take_bit 7 v) OR (push_bit 7 (take_bit 7 (signed_drop_bit 7 v)) OR
   (push_bit 14 (take_bit 7 (signed_drop_bit 14 v)) OR (push_bit 21 (take_bit 7 (signed_drop_bit 21 v)) OR
    push_bit 28 (take_bit 7 (signed_drop_bit 28 v)))))) n = bit v n"
    using n by (simp only: bit_or_iff part) auto
qed

lemma int32_negative:
  assumes "v <s (0 :: 32 word)"
  shows int32_neg_end: "varint_end 10 (int32_pack v @ rest) = Some 10"
    and int32_neg_parse: "parse_uint32 10 (int32_pack v @ rest) = v"
    and int32_neg_length: "length (int32_pack v) = 10"
proof -
  let ?bs = "[ucast (v OR 0x80), ucast (signed_drop_bit 7 v OR 0x80), ucast (signed_drop_bit 14 v OR 0x80),
         ucast (signed_drop_bit 21 v OR 0x80), ucast (signed_drop_bit 28 v OR 0x80)] :: bytes"
  have eq: "int32_pack v = ?bs @ [0xff, 0xff, 0xff, 0xff, 1]"
    using assms by (simp add: int32_pack_def)
  show "length (int32_pack v) = 10" by (simp add: eq)
  have "\<forall>b \<in> set (?bs @ [0xff, 0xff, 0xff, 0xff]). b AND 0x80 \<noteq> 0"
    by (simp only: set_append set_simps Ball_def Un_iff insert_iff empty_iff) (auto simp: cont_bit_set simp del: unsigned_or_eq)
  from varint_end_append [OF this, of 1 10 rest] show "varint_end 10 (int32_pack v @ rest) = Some 10"
    unfolding eq by simp
  have "parse_uint32 10 (int32_pack v @ rest) = parse_uint32 (length ?bs) (?bs @ ([0xff, 0xff, 0xff, 0xff, 1] @ rest))"
    unfolding eq by (simp add: parse_uint32_def)
  also have "\<dots> = prefix_value ?bs 0" by (rule parse_uint32_prefix_value) simp_all
  also have "\<dots> = v"
    using int32_bits [of v] by (simp only: prefix_value.simps low_bits_cont) simp
  finally show "parse_uint32 10 (int32_pack v @ rest) = v" .
qed

section \<open>Tags\<close>

definition tag_check :: "nat \<Rightarrow> byte \<Rightarrow> bool" where
  "tag_check i wt = (case tag_with_wire_type (of_nat i) wt of
     [b] \<Rightarrow> b AND 0x80 = 0 \<and> drop_bit 3 (ucast (b AND 0x7f)) = (of_nat i :: 32 word) \<and> b AND 7 = wt
   | _ \<Rightarrow> False)"

lemma tag_check_all: "list_all (\<lambda>i. list_all (tag_check i) [0, 1, 2]) [0..<16]"
  by code_simp

lemma tag_check: "i < 16 \<Longrightarrow> wt \<in> {WIRE_VARINT, WIRE_64BIT, WIRE_LENGTH_PREFIXED} \<Longrightarrow> tag_check i wt"
  using tag_check_all by (auto simp: list_all_iff WIRE_VARINT_def WIRE_64BIT_def WIRE_LENGTH_PREFIXED_def)

lemma tag_byte:
  assumes "i < 16" and "wt \<in> {WIRE_VARINT, WIRE_64BIT, WIRE_LENGTH_PREFIXED}"
  obtains b where "tag_with_wire_type (of_nat i) wt = [b]"
    and "\<And>rest. parse_tag_and_wiretype (b # rest) = (1, of_nat i, wt)"
proof -
  obtain b where "tag_with_wire_type (of_nat i) wt = [b]" "b AND 0x80 = 0"
    "drop_bit 3 (ucast (b AND 0x7f)) = (of_nat i :: 32 word)" "b AND 7 = wt"
    using tag_check [OF assms] by (auto simp: tag_check_def split: list.splits)
  then show ?thesis
    by (intro that [of b]) (simp_all add: parse_tag_and_wiretype_def Let_def)
qed

text \<open>Descriptors that the generated code can have in this library, and the messages that fit them.\<close>

function (sequential) desc_ok :: "pb_desc \<Rightarrow> bool" and field_ok :: "pb_field \<Rightarrow> bool" where
  "desc_ok (PBDesc fs rs) =
     (list_all (\<lambda>i. 0 < field_id (fs ! i) \<and> field_id (fs ! i) < 16 \<and>
        lookup_field (PBDesc fs rs) (of_nat (field_id (fs ! i))) = Some i) [0..<length fs] \<and>
      list_all (\<lambda>f. field_ok f) fs \<and> list_all (\<lambda>r. snd r \<le> length fs) rs)"
| "field_ok (PBField i l (TYPE_MESSAGE d)) = desc_ok d"
| "field_ok (PBField i l t) = (l = LABEL_OPTIONAL)"
  by pat_completeness auto

termination
  by (relation "measure (case_sum size size)")
     (auto dest: size_list_estimation' [where f = size, OF _ order_refl])

function (sequential) value_ok :: "pb_type \<Rightarrow> pb_value \<Rightarrow> bool" and msg_ok :: "pb_desc \<Rightarrow> pb_message \<Rightarrow> bool" where
  "value_ok TYPE_UINT32 (V_UINT32 _) = True"
| "value_ok TYPE_INT32 (V_INT32 _) = True"
| "value_ok TYPE_BOOL (V_BOOL _) = True"
| "value_ok TYPE_FIXED64 (V_FIXED64 _) = True"
| "value_ok TYPE_BYTES (V_BYTES _) = True"
| "value_ok (TYPE_MESSAGE d) (V_MESSAGE m) = msg_ok d m"
| "value_ok _ _ = False"
| "msg_ok (PBDesc fs rs) (PBMsg slots unknown) =
     (unknown = [] \<and> length slots = length fs \<and>
      list_all (\<lambda>(f, vs). (field_label f = LABEL_OPTIONAL \<longrightarrow> length vs \<le> 1) \<and>
        list_all (\<lambda>v. value_ok (field_type f) v) vs) (zip fs slots))"
  by pat_completeness auto

termination
  by (relation "measure (case_sum (\<lambda>(t, v). size v) (\<lambda>(d, m). size m))")
     (auto simp: size_in_slot)

lemma get_tag_size_small: "i < 16 \<Longrightarrow> get_tag_size i = 1"
  by (simp add: get_tag_size_def)

lemma length_tag: "i < 16 \<Longrightarrow> wt \<in> {WIRE_VARINT, WIRE_64BIT, WIRE_LENGTH_PREFIXED} \<Longrightarrow>
    length (tag_with_wire_type (of_nat i) wt) = 1"
  by (erule tag_byte, assumption) simp

lemma int32_pack_length: "length (int32_pack v) = int32_size v"
  by (cases "v <s 0") (simp_all add: int32_neg_length int32_size_def, simp add: int32_pack_def uint32_pack_length)

lemma packed_size:
  "field_id f < 16 \<Longrightarrow> field_ok f \<Longrightarrow> value_ok (field_type f) v \<Longrightarrow>
     length (required_field_pack f v) = required_field_get_packed_size f v"
  "desc_ok d \<Longrightarrow> msg_ok d m \<Longrightarrow> length (protobuf_c_message_pack d m) = protobuf_c_message_get_packed_size d m"
proof (induction f v and d m rule: required_field_pack_protobuf_c_message_pack.induct)
  case (6 f m)
  then show ?case
    by (cases f; cases "field_type f") (simp_all add: Let_def length_tag get_tag_size_small uint32_pack_length)
next
  case (7 fs rs slots unknown)
  have "length (required_field_pack f v) = required_field_get_packed_size f v"
    if "(f, vs) \<in> set (zip fs slots)" "v \<in> set vs" for f vs v
  proof -
    have "field_id f < 16" using "7.prems"(1) that(1) by (auto simp: list_all_iff in_set_zip)
    moreover have "field_ok f" using "7.prems"(1) set_zip_leftD [OF that(1)] by (simp add: list_all_iff)
    moreover have "value_ok (field_type f) v" using "7.prems"(2) that by (auto simp: list_all_iff)
    ultimately show ?thesis using "7.IH" that by blast
  qed
  then show ?case
    using 7 by (auto simp: length_concat comp_def split_def intro!: arg_cong [where f = sum_list] map_cong)
qed (simp_all add: length_tag get_tag_size_small uint32_pack_length int32_pack_length
    boolean_pack_def fixed64_pack_def binary_data_pack_def)

section \<open>Scanning packed values\<close>

declare scan_members.simps [simp del]

lemma unat_of_nat_small: "n < 2 ^ 32 \<Longrightarrow> unat (of_nat n :: 32 word) = n"
  by (simp add: unsigned_of_nat take_bit_eq_mod)

lemma scan_step:
  assumes "parse_tag_and_wiretype (b # x) = (1, tag, wt)" and "scan_data wt x = Some (len, pref)"
  shows "scan_members d (b # x) =
     map_option ((#) \<lparr>sm_tag = tag, sm_wire_type = wt, sm_length_prefix_len = pref,
       sm_field = lookup_field d tag, sm_len = len, sm_data = x\<rparr>) (scan_members d (drop (unat len) x))"
  using assms by (subst scan_members.simps) simp

lemma scan_length_prefixed:
  assumes "length body < 2 ^ 26"
  shows "scan_length_prefixed_data (uint32_pack (of_nat (length body)) @ body @ rest) =
     Some (of_nat (length (uint32_pack (of_nat (length body))) + length body),
           length (uint32_pack (of_nat (length body))))"
proof -
  let ?p = "uint32_pack (of_nat (length body))"
  have h: "0 < length ?p" "length ?p \<le> 5" by (rule uint32_pack_pos, rule uint32_pack_le)
  then have small: "length ?p + length body < 2 ^ 32" using assms by simp
  have u: "unat (of_nat (length ?p + length body) :: 32 word) = length ?p + length body"
    by (rule unat_of_nat_small [OF small])
  have nz: "of_nat (length ?p + length body) \<noteq> (0 :: 32 word)"
    using u h by (metis add_is_0 less_numeral_extra(3) unsigned_0)
  show ?thesis
    unfolding scan_length_prefixed_data_def uint32_pack_end [OF order_refl, of "of_nat (length body)" "body @ rest"]
    using u nz by (simp add: Let_def uint32_pack_prefix)
qed

lemma prefixed_payload_ok:
  assumes "length body < 2 ^ 26" and "h \<le> 5" and "length p = h"
    and "sm_len m = of_nat (h + length body)" and "sm_length_prefix_len m = h" and "sm_data m = p @ body @ rest"
  shows "prefixed_payload m = Ok body"
  using assms by (simp add: prefixed_payload_def Let_def unat_of_nat_small)

text \<open>The members a packed value is scanned to.\<close>

definition scans_as :: "pb_desc \<Rightarrow> nat \<Rightarrow> (bytes \<Rightarrow> pb_message res) \<Rightarrow> pb_type \<Rightarrow> pb_value \<Rightarrow> bytes \<Rightarrow> bool" where
  "scans_as d i unpack t v bs = (\<forall>rest. \<exists>m. scan_members d (bs @ rest) = map_option ((#) m) (scan_members d rest) \<and>
     sm_field m = Some i \<and> parse_required_member unpack t m = Ok v)"

lemma scans_asI:
  assumes "field_id f < 16" and "lookup_field d (of_nat (field_id f)) = Some i"
    and "wt \<in> {WIRE_VARINT, WIRE_64BIT, WIRE_LENGTH_PREFIXED}"
    and "\<And>rest. \<exists>pref. scan_data wt (payload @ rest) = Some (of_nat (length payload), pref) \<and>
      parse_required_member unpack t \<lparr>sm_tag = of_nat (field_id f), sm_wire_type = wt,
        sm_length_prefix_len = pref, sm_field = Some i, sm_len = of_nat (length payload),
        sm_data = payload @ rest\<rparr> = Ok v"
    and "length payload < 2 ^ 32"
  shows "scans_as d i unpack t v (tag_with_wire_type (of_nat (field_id f)) wt @ payload)"
  unfolding scans_as_def
proof
  fix rest
  obtain b where b: "tag_with_wire_type (of_nat (field_id f)) wt = [b]"
    "\<And>x. parse_tag_and_wiretype (b # x) = (1, of_nat (field_id f), wt)"
    by (rule tag_byte [OF assms(1,3)], rule that)
  obtain pref where pref: "scan_data wt (payload @ rest) = Some (of_nat (length payload), pref)"
    and parse: "parse_required_member unpack t \<lparr>sm_tag = of_nat (field_id f), sm_wire_type = wt,
        sm_length_prefix_len = pref, sm_field = Some i, sm_len = of_nat (length payload),
        sm_data = payload @ rest\<rparr> = Ok v"
    using assms(4) by blast
  show "\<exists>m. scan_members d ((tag_with_wire_type (of_nat (field_id f)) wt @ payload) @ rest) =
      map_option ((#) m) (scan_members d rest) \<and> sm_field m = Some i \<and> parse_required_member unpack t m = Ok v"
    using scan_step [OF b(2) pref, of d] parse assms(2)
    by (simp add: b(1) unat_of_nat_small [OF assms(5)]) (metis scanned_member.select_convs(4))
qed

lemma int32_pack_end: "varint_end 10 (int32_pack v @ rest) = Some (length (int32_pack v))"
  by (cases "v <s 0") (simp add: int32_neg_end int32_neg_length, simp add: int32_pack_def uint32_pack_end)

lemma int32_pack_parse: "parse_int32 (length (int32_pack v)) (int32_pack v @ rest) = v"
  by (cases "v <s 0")
     (simp add: parse_int32_def int32_neg_parse int32_neg_length,
      simp add: parse_int32_def int32_pack_def parse_uint32_pack)

lemma int32_pack_le: "length (int32_pack v) \<le> 10"
  by (cases "v <s 0") (simp_all add: int32_neg_length, simp add: int32_pack_def order_trans [OF uint32_pack_le])

lemma parse_boolean_pack: "parse_boolean (Suc 0) (boolean_pack b @ rest) = b"
  by (simp add: parse_boolean_def boolean_pack_def)

lemma value_scans_as:
  assumes id: "field_id f < 16" and look: "lookup_field d (of_nat (field_id f)) = Some i"
    and ok: "value_ok (field_type f) v" and len: "length (required_field_pack f v) < 2 ^ 26"
    and sub: "\<And>m. v = V_MESSAGE m \<Longrightarrow> unpack (protobuf_c_message_pack (sub_desc (field_type f)) m) = Ok m"
  shows "scans_as d i unpack (field_type f) v (required_field_pack f v)"
proof (cases v)
  case (V_UINT32 x)
  then have t: "field_type f = TYPE_UINT32" using ok by (cases "field_type f") auto
  have l: "length (uint32_pack x) < 2 ^ 32" using uint32_pack_le [of x] by simp
  show ?thesis
    unfolding V_UINT32 t required_field_pack.simps
    by (rule scans_asI [OF id look _ _ l])
       (simp_all add: scan_data_def uint32_pack_end parse_required_member_def parse_uint32_pack
         unat_of_nat_small [OF l])
next
  case (V_INT32 x)
  then have t: "field_type f = TYPE_INT32" using ok by (cases "field_type f") auto
  have l: "length (int32_pack x) < 2 ^ 32" using int32_pack_le [of x] by simp
  show ?thesis
    unfolding V_INT32 t required_field_pack.simps
    by (rule scans_asI [OF id look _ _ l])
       (simp_all add: scan_data_def int32_pack_end parse_required_member_def int32_pack_parse
         unat_of_nat_small [OF l])
next
  case (V_BOOL x)
  then have t: "field_type f = TYPE_BOOL" using ok by (cases "field_type f") auto
  have "varint_end 10 (boolean_pack x @ rest) = Some 1" for rest
    by (simp add: boolean_pack_def numeral_eq_Suc)
  moreover have "length (boolean_pack x) = 1" by (simp add: boolean_pack_def)
  ultimately show ?thesis
    unfolding V_BOOL t required_field_pack.simps
    by (intro scans_asI [OF id look])
       (simp_all add: scan_data_def parse_required_member_def parse_boolean_pack)
next
  case (V_FIXED64 x)
  then have t: "field_type f = TYPE_FIXED64" using ok by (cases "field_type f") auto
  have "length (fixed64_pack x) = 8" by (simp add: fixed64_pack_def)
  then show ?thesis
    unfolding V_FIXED64 t required_field_pack.simps
    by (intro scans_asI [OF id look])
       (simp_all add: scan_data_def parse_required_member_def fixed64_round WIRE_64BIT_def WIRE_VARINT_def)
next
  case (V_BYTES x)
  then have t: "field_type f = TYPE_BYTES" using ok by (cases "field_type f") auto
  let ?p = "uint32_pack (of_nat (length x))"
  have x: "length x < 2 ^ 26" using len V_BYTES by (simp add: binary_data_pack_def)
  have "prefixed_payload \<lparr>sm_tag = g, sm_wire_type = w, sm_length_prefix_len = length ?p,
      sm_field = q, sm_len = of_nat (length ?p + length x), sm_data = ?p @ x @ rest\<rparr> = Ok x" for g w q rest
    by (rule prefixed_payload_ok [OF x uint32_pack_le refl]) simp_all
  then show ?thesis
    unfolding V_BYTES t required_field_pack.simps
    using scan_length_prefixed [OF x] x uint32_pack_le [of "of_nat (length x)"]
    by (intro scans_asI [OF id look])
       (simp_all add: binary_data_pack_def scan_data_def parse_required_member_def bindR_def
         WIRE_64BIT_def WIRE_VARINT_def WIRE_LENGTH_PREFIXED_def)
next
  case (V_MESSAGE m)
  then obtain sd where t: "field_type f = TYPE_MESSAGE sd" using ok by (cases "field_type f") auto
  let ?x = "protobuf_c_message_pack sd m"
  let ?p = "uint32_pack (of_nat (length ?x))"
  have x: "length ?x < 2 ^ 26" using len V_MESSAGE t by (simp add: Let_def)
  have "prefixed_payload \<lparr>sm_tag = g, sm_wire_type = w, sm_length_prefix_len = length ?p,
      sm_field = q, sm_len = of_nat (length ?p + length ?x), sm_data = ?p @ ?x @ rest\<rparr> = Ok ?x" for g w q rest
    by (rule prefixed_payload_ok [OF x uint32_pack_le refl]) simp_all
  then show ?thesis
    unfolding V_MESSAGE required_field_pack.simps Let_def t sub_desc.simps
    using scan_length_prefixed [OF x] x uint32_pack_le [of "of_nat (length ?x)"] sub [OF V_MESSAGE] t
    by (intro scans_asI [OF id look])
       (simp_all add: scan_data_def parse_required_member_def bindR_def
         WIRE_64BIT_def WIRE_VARINT_def WIRE_LENGTH_PREFIXED_def)
qed

text \<open>The values of a message in the order they are packed, with their field indices.\<close>

definition slot_values :: "'v list list \<Rightarrow> (nat \<times> 'v) list" where
  "slot_values slots = concat (map (\<lambda>i. map (Pair i) (slots ! i)) [0..<length slots])"

lemma concat_map_concat: "concat (map f (concat (map g xs))) = concat (map (\<lambda>x. concat (map f (g x))) xs)"
  by (induction xs) simp_all

lemma pack_slot_values:
  assumes "length slots = length fs"
  shows "protobuf_c_message_pack (PBDesc fs rs) (PBMsg slots []) =
     concat (map (\<lambda>(i, v). required_field_pack (fs ! i) v) (slot_values slots))"
proof -
  have "zip fs slots = map (\<lambda>i. (fs ! i, slots ! i)) [0..<length slots]"
    using assms by (auto intro!: nth_equalityI)
  then show ?thesis
    by (simp add: slot_values_def comp_def concat_map_concat)
qed

definition member_of :: "pb_desc \<Rightarrow> (bytes \<Rightarrow> pb_message res) list \<Rightarrow> nat \<times> pb_value \<Rightarrow> scanned_member \<Rightarrow> bool" where
  "member_of d us p m = (sm_field m = Some (fst p) \<and>
     parse_required_member (us ! fst p) (field_type (desc_fields d ! fst p)) m = Ok (snd p))"

lemma scan_values:
  assumes "\<forall>(i, v) \<in> set ps. scans_as d i (us ! i) (field_type (desc_fields d ! i)) v (enc (i, v))"
  shows "\<exists>ms. scan_members d (concat (map enc ps)) = Some ms \<and> list_all2 (member_of d us) ps ms"
  using assms
proof (induction ps)
  case Nil
  show ?case by (subst scan_members.simps) simp
next
  case (Cons p ps)
  then obtain ms where ms: "scan_members d (concat (map enc ps)) = Some ms" "list_all2 (member_of d us) ps ms"
    by auto
  from Cons.prems have "scans_as d (fst p) (us ! fst p) (field_type (desc_fields d ! fst p)) (snd p) (enc p)"
    by (cases p) auto
  then obtain m where "scan_members d (enc p @ concat (map enc ps)) = map_option ((#) m) (Some ms)"
      "sm_field m = Some (fst p)" "parse_required_member (us ! fst p) (field_type (desc_fields d ! fst p)) m = Ok (snd p)"
    unfolding scans_as_def ms(1) [symmetric] by blast
  moreover from this(2,3) have "member_of d us p m" by (simp add: member_of_def)
  ultimately show ?case
    using ms(2) by auto
qed

lemma parse_members_append:
  "parse_members d us (xs @ ys) msg = bindR (parse_members d us xs msg) (parse_members d us ys)"
  by (induction xs arbitrary: msg) (auto simp: bindR_def split: res.splits)

lemma parse_slot_repeated:
  assumes "list_all2 (member_of d us) (map (Pair i) vs) ms" and "i < length S"
    and "field_label (desc_fields d ! i) = LABEL_REPEATED"
  shows "parse_members d us ms (PBMsg S u) = Ok (PBMsg (S[i := S ! i @ vs]) u)"
  using assms
proof (induction vs arbitrary: ms S)
  case (Cons v vs)
  then obtain m ms' where ms: "ms = m # ms'" "member_of d us (i, v) m" "list_all2 (member_of d us) (map (Pair i) vs) ms'"
    by (auto simp: list_all2_Cons1)
  then have "parse_member d us m (PBMsg S u) = Ok (PBMsg (S[i := S ! i @ [v]]) u)"
    using Cons.prems by (simp add: parse_member_def member_of_def Let_def bindR_def)
  then show ?case
    using Cons.IH [OF ms(3), of "S[i := S ! i @ [v]]"] Cons.prems ms(1) by (simp add: bindR_def)
qed auto

lemma parse_slot_optional:
  assumes "list_all2 (member_of d us) (map (Pair i) vs) ms" and "i < length S"
    and "field_label (desc_fields d ! i) = LABEL_OPTIONAL" and "length vs \<le> 1" and "S ! i = []"
  shows "parse_members d us ms (PBMsg S u) = Ok (PBMsg (S[i := S ! i @ vs]) u)"
proof (cases vs)
  case Nil
  then show ?thesis using assms by simp (metis list_update_id)
next
  case (Cons v vs')
  then have vs: "vs = [v]" using assms(4) by simp
  then obtain m where "ms = [m]" "member_of d us (i, v) m"
    using assms(1) by (auto simp: list_all2_Cons1)
  then show ?thesis
    using assms vs by (simp add: parse_member_def member_of_def Let_def bindR_def split: pb_value.splits)
qed

lemma parse_slots:
  assumes "length slots = length (desc_fields d)"
    and "\<And>i. i < length slots \<Longrightarrow> field_label (desc_fields d ! i) = LABEL_OPTIONAL \<Longrightarrow> length (slots ! i) \<le> 1"
    and "k \<le> length slots"
    and "list_all2 (member_of d us) (concat (map (\<lambda>i. map (Pair i) (slots ! i)) [k..<length slots])) ms"
  shows "parse_members d us ms (PBMsg (take k slots @ replicate (length slots - k) []) u) = Ok (PBMsg slots u)"
  using assms(3,4)
proof (induction "length slots - k" arbitrary: k ms)
  case 0
  then show ?case by simp
next
  case (Suc n)
  then have k: "k < length slots" by simp
  let ?S = "take k slots @ replicate (length slots - k) []"
  have "[k..<length slots] = k # [Suc k..<length slots]" using k by (rule upt_conv_Cons)
  with Suc.prems(2) obtain ms1 ms2 where ms: "ms = ms1 @ ms2" "list_all2 (member_of d us) (map (Pair k) (slots ! k)) ms1"
      "list_all2 (member_of d us) (concat (map (\<lambda>i. map (Pair i) (slots ! i)) [Suc k..<length slots])) ms2"
    by (auto simp: list_all2_append1)
  have S: "k < length ?S" "?S ! k = []" using k by (simp_all add: nth_append)
  have "parse_members d us ms1 (PBMsg ?S u) = Ok (PBMsg (?S[k := ?S ! k @ slots ! k]) u)"
    by (cases "field_label (desc_fields d ! k)")
       (use parse_slot_optional [OF ms(2) S(1)] parse_slot_repeated [OF ms(2) S(1)] S(2) assms(2) k in auto)
  moreover have "?S[k := ?S ! k @ slots ! k] = take (Suc k) slots @ replicate (length slots - Suc k) []"
    using k S(2) by (auto simp: take_Suc_conv_app_nth list_update_append replicate_Suc [symmetric] Suc_diff_Suc
        simp del: replicate_Suc intro!: nth_equalityI simp: nth_append nth_list_update)
  ultimately show ?case
    using Suc.hyps(1) [of "Suc k" ms2] Suc.hyps(2) ms k by (simp add: parse_members_append bindR_def)
qed

lemma msg_ok_nth:
  "msg_ok (PBDesc fs rs) (PBMsg slots u) =
     (u = [] \<and> length slots = length fs \<and>
      (\<forall>i < length fs. (field_label (fs ! i) = LABEL_OPTIONAL \<longrightarrow> length (slots ! i) \<le> 1) \<and>
        (\<forall>v \<in> set (slots ! i). value_ok (field_type (fs ! i)) v)))"
  by (auto simp: list_all_length) (metis in_set_conv_nth)

lemma length_in_concat: "x \<in> set xs \<Longrightarrow> length x \<le> length (concat xs)"
  by (induction xs) auto

lemma scanned_count: "scan_members d data = Some ms \<Longrightarrow> length ms \<le> length data"
proof (induction d data arbitrary: ms rule: scan_members.induct)
  case (1 d data)
  show ?case
  proof (cases "data = []")
    case True
    then show ?thesis using "1.prems" by (subst (asm) scan_members.simps) simp
  next
    case False
    obtain used tag wt where p: "parse_tag_and_wiretype data = (used, tag, wt)" by (cases "parse_tag_and_wiretype data")
    with False "1.prems" obtain len pref ms' where
      "used \<noteq> 0" "scan_data wt (drop used data) = Some (len, pref)"
      "scan_members d (drop (unat len) (drop used data)) = Some ms'" "length ms = Suc (length ms')"
      by (subst (asm) scan_members.simps) (auto split: if_splits option.splits)
    with "1.IH" [OF False p [symmetric] refl this(1) this(2) refl this(3)] False show ?thesis
      by (cases data) auto
  qed
qed

section \<open>Round trip\<close>

lemma unpack_pack:
  "desc_ok d \<Longrightarrow> msg_ok d m \<Longrightarrow> length (protobuf_c_message_pack d m) < 2 ^ 26 \<Longrightarrow>
   protobuf_c_message_unpack d (protobuf_c_message_pack d m) = Ok m"
proof (induction "size m" arbitrary: d m rule: less_induct)
  case less
  obtain fs rs where d: "d = PBDesc fs rs" by (cases d)
  obtain slots where m: "m = PBMsg slots []" and len: "length slots = length fs"
    using less.prems(2) d by (cases m) auto
  let ?us = "map (\<lambda>f bs. unpack_nested f bs) fs"
  let ?enc = "\<lambda>(i, v). required_field_pack (fs ! i) v"
  have pack: "protobuf_c_message_pack d m = concat (map ?enc (slot_values slots))"
    unfolding d m by (rule pack_slot_values [OF len])
  have scans: "scans_as d i (?us ! i) (field_type (desc_fields d ! i)) v (?enc (i, v))"
    if iv: "(i, v) \<in> set (slot_values slots)" for i v
  proof -
    have i: "i < length fs" "v \<in> set (slots ! i)" using iv len by (auto simp: slot_values_def)
    have fok: "field_id (fs ! i) < 16" "lookup_field d (of_nat (field_id (fs ! i))) = Some i" "field_ok (fs ! i)"
      using less.prems(1) i(1) d by (auto simp: list_all_iff)
    have vok: "value_ok (field_type (fs ! i)) v"
      using less.prems(2) i unfolding d m msg_ok_nth by simp
    have small: "length (required_field_pack (fs ! i) v) < 2 ^ 26"
    proof -
      have "required_field_pack (fs ! i) v \<in> set (map ?enc (slot_values slots))" using iv by force
      then have "length (required_field_pack (fs ! i) v) \<le> length (concat (map ?enc (slot_values slots)))"
        by (rule length_in_concat)
      then show ?thesis using less.prems(3) pack by simp
    qed
    have "(?us ! i) (protobuf_c_message_pack (sub_desc (field_type (fs ! i))) sm) = Ok sm" if vm: "v = V_MESSAGE sm" for sm
    proof -
      obtain j l sd where f: "fs ! i = PBField j l (TYPE_MESSAGE sd)"
        using vok vm by (cases "fs ! i"; cases "field_type (fs ! i)") auto
      have "size v \<le> size_list size (slots ! i)" "size_list size (slots ! i) \<le> size_list (size_list size) slots"
        using i len by (auto intro!: size_list_estimation' [OF _ order_refl])
      then have "size sm < size m" using vm m by simp
      moreover have "desc_ok sd" "msg_ok sd sm" using fok(3) vok vm f by simp_all
      moreover have "length (protobuf_c_message_pack sd sm) < 2 ^ 26" using small vm f by (simp add: Let_def)
      ultimately show ?thesis using less.hyps f i(1) by simp
    qed
    from value_scans_as [OF fok(1,2) vok small this] show ?thesis
      by (simp add: d)
  qed
  obtain ms where ms: "scan_members d (protobuf_c_message_pack d m) = Some ms"
      "list_all2 (member_of d ?us) (slot_values slots) ms"
    using scan_values [of "slot_values slots" d ?us ?enc] scans pack by auto
  have "length ms \<le> MAX_SCANNED_MEMBERS"
    using scanned_count [OF ms(1)] less.prems(3) by (simp add: MAX_SCANNED_MEMBERS_def)
  moreover have "parse_members d ?us ms (PBMsg (take 0 slots @ replicate (length slots - 0) []) []) = Ok (PBMsg slots [])"
  proof (rule parse_slots)
    show "length (slots ! i) \<le> 1" if "i < length slots" "field_label (desc_fields d ! i) = LABEL_OPTIONAL" for i
      using less.prems(2) that len unfolding d m msg_ok_nth by simp
    show "list_all2 (member_of d ?us) (concat (map (\<lambda>i. map (Pair i) (slots ! i)) [0..<length slots])) ms"
      using ms(2) by (simp add: slot_values_def)
  qed (simp_all add: d len)
  moreover have "message_init d = PBMsg (replicate (length slots) []) []"
    by (simp add: message_init_def d len map_replicate_const)
  ultimately show ?case
    using ms(1) by (simp add: d m)
qed

section \<open>Memory safety of unpacking\<close>

text \<open>The sum of a length prefix and its value is computed in 32 bits and can wrap to less than the
  prefix.  Scanning then goes on inside the prefix itself, at a byte whose low three bits are an unknown
  wire type, and gives up: no member with a wrapped length reaches the copying phase.\<close>

lemma byte_and_7: "(b AND 7 = (7 :: byte)) = (bit b 0 \<and> bit b 1 \<and> bit b 2)"
proof -
  have "(b AND 7 = 7) = (\<forall>n < 8. (bit b n \<and> bit (7 :: byte) n) = bit (7 :: byte) n)"
    by (auto simp: bit_eq_iff bit_and_iff)
  also have "\<dots> = (bit b 0 \<and> bit b 1 \<and> bit b 2)"
    by (auto simp: less_Suc_eq numeral_eq_Suc)
  finally show ?thesis .
qed

lemma prefix_value_bit:
  "bit (prefix_value bs s) n \<Longrightarrow> n < 32 \<Longrightarrow> s \<le> n"
proof (induction bs arbitrary: s)
  case (Cons b bs)
  have "s \<le> n" if "bit (prefix_value bs (s + 7)) n"
    using Cons.IH [OF that] Cons.prems(2) by simp
  then show ?case using Cons.prems by (auto simp: bit_simps)
qed simp

lemma prefix_value_top: "bit (prefix_value bs s) n \<Longrightarrow> n < s + 7 * length bs"
proof (induction bs arbitrary: s)
  case (Cons b bs)
  have m: "(0x7f :: byte) = mask 7" by (simp add: mask_7f)
  show ?case using Cons.prems Cons.IH [of "s + 7"] unfolding prefix_value.simps m by (auto simp: bit_simps)
qed simp

lemma prefix_value_nth:
  "k < length bs \<Longrightarrow> i < 7 \<Longrightarrow> s + 7 * k + i < 32 \<Longrightarrow> bit (prefix_value bs s) (s + 7 * k + i) = bit (bs ! k) i"
proof (induction bs arbitrary: s k)
  case (Cons b bs)
  have m: "(0x7f :: byte) = mask 7" by (simp add: mask_7f)
  show ?case
  proof (cases k)
    case 0
    then show ?thesis
      using Cons.prems prefix_value_bit [of bs "s + 7" "s + i"]
      by (auto simp: bit_simps m)
  next
    case (Suc k')
    then have "bit (prefix_value bs (s + 7)) (s + 7 * k + i) = bit (bs ! k') i"
      using Cons.IH [of k' "s + 7"] Cons.prems by (simp add: ac_simps)
    then show ?thesis using Suc Cons.prems by (auto simp: bit_simps m)
  qed
qed simp

lemma varint_end_bounds: "varint_end n data = Some k \<Longrightarrow> 0 < k \<and> k \<le> n \<and> k \<le> length data"
  by (induction n data arbitrary: k rule: varint_end.induct) (auto split: if_splits)

lemma high_bits_set:
  assumes "2 ^ 32 - 5 \<le> unat (v :: 32 word)" and "3 \<le> n" and "n < 32"
  shows "bit v n"
proof -
  have "unat (NOT v) = 2 ^ 32 - 1 - unat v" 
  proof -
    have "NOT v = - 1 - v" by (simp add: not_eq_complement)
    then show ?thesis by (simp add: unat_sub unsigned_minus_1_eq_mask mask_eq_exp_minus_1)
  qed
  then have "unat (NOT v) < 2 ^ 3" using assms(1) by simp
  then have "take_bit 3 (NOT v) = NOT v" by (rule take_bit_self)
  then have "\<not> bit (NOT v) n" using assms(2) by (metis bit_take_bit_iff not_less)
  then show ?thesis using assms(3) by (simp add: bit_not_iff)
qed

lemma wrapped_length_stops:
  assumes "scan_length_prefixed_data data = Some (tot, pref)" and "unat tot < pref"
  shows "unat tot < length data \<and> data ! unat tot AND 7 = 7"
proof -
  define v where "v = prefix_value (take pref data) 0"
  have e: "varint_end 5 data = Some pref" and t: "tot = of_nat pref + v" "tot \<noteq> 0"
    using assms(1) by (auto simp: scan_length_prefixed_data_def v_def Let_def split: option.splits if_splits)
  have p: "0 < pref" "pref \<le> 5" "pref \<le> length data" using varint_end_bounds [OF e] by auto
  have "unat tot = (pref + unat v) mod 2 ^ 32"
    using p by (simp add: t(1) unat_word_ariths unsigned_of_nat take_bit_eq_mod)
  then have big: "2 ^ 32 - 5 \<le> unat v" using assms(2) p by (auto simp: mod_if split: if_splits)
  have "bit v 31" by (rule high_bits_set [OF big]) auto
  then have "31 < 7 * length (take pref data)" unfolding v_def by (metis prefix_value_top add_0)
  then have five: "pref = 5" using p by simp
  have tt: "0 < unat tot" "unat tot \<le> 4" using t(2) assms(2) five by (auto simp: unat_gt_0)
  have "bit (data ! unat tot) i" if "i < 3" for i
  proof -
    have "bit v (0 + 7 * unat tot + i)" by (rule high_bits_set [OF big]) (use tt that in auto)
    then have "bit (take 5 data ! unat tot) i"
      using prefix_value_nth [of "unat tot" "take 5 data" i 0] tt that p five unfolding v_def by simp
    then show ?thesis using tt by simp
  qed
  then show ?thesis using tt p five by (simp add: byte_and_7)
qed

lemma scan_stops:
  assumes "data \<noteq> []" and "data ! 0 AND 7 = 7"
  shows "scan_members d data = None"
proof -
  have "snd (snd (parse_tag_and_wiretype data)) = 7"
    using assms(2) by (simp add: parse_tag_and_wiretype_def Let_def split: prod.splits)
  then obtain used tag where "parse_tag_and_wiretype data = (used, tag, 7)"
    by (metis prod.collapse)
  then show ?thesis
    using assms(1) by (subst scan_members.simps)
      (auto simp: scan_data_def WIRE_VARINT_def WIRE_64BIT_def WIRE_LENGTH_PREFIXED_def WIRE_32BIT_def)
qed

definition member_in_bounds :: "scanned_member \<Rightarrow> bool" where
  "member_in_bounds m =
     (unat (sm_len m) \<le> length (sm_data m) \<and>
      (sm_wire_type m = WIRE_LENGTH_PREFIXED \<longrightarrow> sm_length_prefix_len m \<le> unat (sm_len m)))"

lemma scan_data_bounds:
  assumes "scan_data wt at_data = Some (len, pref)"
  shows "unat len \<le> length at_data"
  using assms varint_end_bounds [of 10 at_data]
  by (auto simp: scan_data_def scan_length_prefixed_data_def Let_def unsigned_of_nat take_bit_eq_mod
      split: if_splits option.splits)

lemma scan_members_in_bounds: "scan_members d data = Some ms \<Longrightarrow> list_all member_in_bounds ms"
proof (induction d data arbitrary: ms rule: scan_members.induct)
  case (1 d data)
  show ?case
  proof (cases "data = []")
    case True
    then show ?thesis using "1.prems" by (simp add: scan_members.simps [of d "[]"])
  next
    case False
    obtain used tag wt where p: "parse_tag_and_wiretype data = (used, tag, wt)" by (cases "parse_tag_and_wiretype data") auto
    from "1.prems" False p obtain len pref ms' where
      u: "used \<noteq> 0" and sd: "scan_data wt (drop used data) = Some (len, pref)"
      and rest: "scan_members d (drop (unat len) (drop used data)) = Some ms'"
      and ms: "ms = \<lparr>sm_tag = tag, sm_wire_type = wt, sm_length_prefix_len = pref,
                    sm_field = lookup_field d tag, sm_len = len, sm_data = drop used data\<rparr> # ms'"
      by (subst (asm) scan_members.simps) (auto split: if_splits option.splits)
    have "list_all member_in_bounds ms'"
      using "1.IH" [OF False p [symmetric] refl u sd refl rest] .
    moreover have "pref \<le> unat len" if "wt = WIRE_LENGTH_PREFIXED"
    proof (rule ccontr)
      assume "\<not> ?thesis"
      then have "unat len < length (drop used data) \<and> drop used data ! unat len AND 7 = 7"
        using sd that by (intro wrapped_length_stops [where pref = pref])
          (auto simp: scan_data_def WIRE_VARINT_def WIRE_64BIT_def WIRE_LENGTH_PREFIXED_def)
      then have "scan_members d (drop (unat len) (drop used data)) = None"
        by (intro scan_stops) (auto simp: add.commute)
      then show False using rest by simp
    qed
    ultimately show ?thesis
      using scan_data_bounds [OF sd] unfolding ms by (simp add: member_in_bounds_def [of "\<lparr>sm_tag = _, sm_wire_type = _, sm_length_prefix_len = _, sm_field = _, sm_len = _, sm_data = _\<rparr>"])
  qed
qed

lemma prefixed_payload_safe:
  assumes "member_in_bounds m" and "sm_wire_type m = WIRE_LENGTH_PREFIXED"
  shows "prefixed_payload m \<noteq> Fault"
proof -
  have "unat (sm_len m - of_nat (sm_length_prefix_len m)) = unat (sm_len m) - sm_length_prefix_len m"
  proof -
    have "unat (sm_len m) < 2 ^ 32" using unsigned_less [of "sm_len m"] by simp
    then have "sm_length_prefix_len m < 2 ^ 32" using assms by (simp add: member_in_bounds_def)
    then have u: "unat (of_nat (sm_length_prefix_len m) :: 32 word) = sm_length_prefix_len m"
      by (rule unat_of_nat_small)
    then have "(of_nat (sm_length_prefix_len m) :: 32 word) \<le> sm_len m"
      using assms by (simp add: word_le_nat_alt member_in_bounds_def)
    then show ?thesis using u by (simp add: unat_sub)
  qed
  then show ?thesis using assms by (auto simp: prefixed_payload_def member_in_bounds_def Let_def)
qed

lemma bindR_safe: "r \<noteq> Fault \<Longrightarrow> (\<And>x. r = Ok x \<Longrightarrow> f x \<noteq> Fault) \<Longrightarrow> bindR r f \<noteq> Fault"
  by (cases r) (auto simp: bindR_def)

lemma parse_required_member_safe:
  assumes "member_in_bounds m" and "\<And>bs. unpack bs \<noteq> Fault"
  shows "parse_required_member unpack t m \<noteq> Fault"
  using assms prefixed_payload_safe [OF assms(1)]
  by (cases t) (auto simp: parse_required_member_def Let_def bindR_def split: res.splits)

declare int_range_lookup_loop.simps [simp del]

lemma range_lookup_bound:
  assumes "\<And>j. j < length ranges \<Longrightarrow> snd (ranges ! j) \<le> N" and "start + n < length ranges"
  shows "int_range_lookup_loop ranges v start n < int N \<or> int_range_lookup_loop ranges v start n = -1"
  using assms
proof (induction ranges v start n rule: int_range_lookup_loop.induct)
  case (1 ranges v start n)
  let ?mid = "start + n div 2"
  have top: "(v - fst (ranges ! j)) + int (snd (ranges ! j)) < int N"
    if "j + 1 < length ranges" "v < fst (ranges ! j) + (int (snd (ranges ! (j + 1))) - int (snd (ranges ! j)))" for j
    using that "1.prems"(1) [of "j + 1"] by simp
  consider "n > 1" "v < fst (ranges ! ?mid)"
    | "n > 1" "\<not> v < fst (ranges ! ?mid)" "v \<ge> fst (ranges ! ?mid) + (int (snd (ranges ! (?mid + 1))) - int (snd (ranges ! ?mid)))"
    | "n > 1" "\<not> v < fst (ranges ! ?mid)" "\<not> v \<ge> fst (ranges ! ?mid) + (int (snd (ranges ! (?mid + 1))) - int (snd (ranges ! ?mid)))"
    | "n \<le> 1" by linarith
  then show ?case
  proof cases
    case 1
    then show ?thesis using "1.IH"(1) [OF 1(1) refl 1(2) "1.prems"(1)] "1.prems"(2)
      by (subst (1 2) int_range_lookup_loop.simps) (simp add: Let_def)
  next
    case 2
    then show ?thesis using "1.IH"(2) [OF 2(1) refl 2(2) 2(3) "1.prems"(1)] "1.prems"(2)
      by (subst (1 2) int_range_lookup_loop.simps) (simp add: Let_def)
  next
    case 3
    then show ?thesis using top [of ?mid] "1.prems"(2)
      by (subst (1 2) int_range_lookup_loop.simps) (simp add: Let_def)
  next
    case 4
    then show ?thesis using top [of start] "1.prems"(2)
      by (subst (1 2) int_range_lookup_loop.simps) (auto simp: Let_def)
  qed
qed

lemma lookup_field_bound:
  assumes "list_all (\<lambda>r. snd r \<le> length fs) rs" and "lookup_field (PBDesc fs rs) tag = Some i"
  shows "i < length fs"
proof -
  let ?r = "int_range_lookup_loop rs (sint tag) 0 (length rs - 1)"
  have "length rs - 1 \<noteq> 0" "i = nat ?r" "0 \<le> ?r"
    using assms(2) by (auto simp: lookup_field_def int_range_lookup_def Let_def split: if_splits)
  moreover have "?r < int (length fs) \<or> ?r = -1"
    by (rule range_lookup_bound) (use assms(1) calculation(1) in \<open>auto simp: list_all_length\<close>)
  ultimately show ?thesis by auto
qed

lemma scan_members_field: "scan_members d data = Some ms \<Longrightarrow> m \<in> set ms \<Longrightarrow> sm_field m = lookup_field d (sm_tag m)"
proof (induction d data arbitrary: ms rule: scan_members.induct)
  case (1 d data)
  then show ?case
    by (subst (asm) (2) scan_members.simps) (auto split: if_splits option.splits prod.splits)
qed

lemma parse_members_safe:
  assumes "\<And>m. m \<in> set ms \<Longrightarrow> member_in_bounds m"
    and "\<And>m i bs. m \<in> set ms \<Longrightarrow> sm_field m = Some i \<Longrightarrow> (us ! i) bs \<noteq> Fault"
  shows "parse_members d us ms msg \<noteq> Fault"
  using assms
proof (induction ms arbitrary: msg)
  case (Cons m ms)
  have "parse_member d us m msg \<noteq> Fault"
  proof (cases "sm_field m")
    case (Some i)
    have "parse_required_member (us ! i) t m \<noteq> Fault" for t
      by (rule parse_required_member_safe) (use Cons.prems Some in auto)
    then show ?thesis using Some by (auto simp: parse_member_def Let_def bindR_def split: res.splits)
  qed (simp add: parse_member_def)
  moreover have "parse_members d us ms msg' \<noteq> Fault" for msg'
    using Cons.prems by (intro Cons.IH) auto
  ultimately show ?case by (cases "parse_member d us m msg") (auto simp: bindR_def)
qed simp


lemma unpack_safe:
  "desc_ok d \<Longrightarrow> protobuf_c_message_unpack d data \<noteq> Fault"
  "field_ok f \<Longrightarrow> unpack_nested f bs \<noteq> Fault"
proof (induction d data and f bs rule: protobuf_c_message_unpack_unpack_nested.induct)
  case (1 fs rs data)
  have "parse_members (PBDesc fs rs) (map (\<lambda>f bs. unpack_nested f bs) fs) ms msg \<noteq> Fault"
    if ms: "scan_members (PBDesc fs rs) data = Some ms" "\<not> length ms > MAX_SCANNED_MEMBERS" for ms msg
  proof (rule parse_members_safe)
    show "member_in_bounds m" if "m \<in> set ms" for m
      using scan_members_in_bounds [OF ms(1)] that by (simp add: list_all_iff)
    fix m i bs
    assume "m \<in> set ms" "sm_field m = Some i"
    then have "lookup_field (PBDesc fs rs) (sm_tag m) = Some i" using scan_members_field [OF ms(1)] by simp
    then have i: "i < length fs" using "1.prems" lookup_field_bound by auto
    moreover have "field_ok (fs ! i)" using "1.prems" i by (simp add: list_all_length)
    ultimately show "(map (\<lambda>f bs. unpack_nested f bs) fs ! i) bs \<noteq> Fault"
      using "1.IH" [OF ms] by simp
  qed
  then show ?case by (auto split: option.splits)
qed auto

end
