(* ===== verification/Proto_Schemas.thy ===== *)
theory Proto_Schemas
  imports Signal_Base Protobuf_Laws
begin

text \<open>
  The message descriptors of the generated code (FingerprintProtocol.pb-c.c,
  LocalStorageProtocol.pb-c.c, WhisperTextProtocol.pb-c.c), access to the members of a message, and
  the two calls every serialisable object makes: pack into a buffer of the computed size, and unpack.

  A member is addressed by the position of its field in the descriptor.
\<close>

section \<open>Descriptors\<close>

definition textsecure__logical_fingerprint__descriptor :: pb_desc where
  "textsecure__logical_fingerprint__descriptor = PBDesc
     [PBField 1 LABEL_OPTIONAL TYPE_BYTES,
      PBField 2 LABEL_OPTIONAL TYPE_BYTES]
     [(1, 0), (0, 2)]"

definition textsecure__combined_fingerprints__descriptor :: pb_desc where
  "textsecure__combined_fingerprints__descriptor = PBDesc
     [PBField 1 LABEL_OPTIONAL TYPE_UINT32,
      PBField 2 LABEL_OPTIONAL (TYPE_MESSAGE textsecure__logical_fingerprint__descriptor),
      PBField 3 LABEL_OPTIONAL (TYPE_MESSAGE textsecure__logical_fingerprint__descriptor)]
     [(1, 0), (0, 3)]"

definition textsecure__session_structure__chain__chain_key__descriptor :: pb_desc where
  "textsecure__session_structure__chain__chain_key__descriptor = PBDesc
     [PBField 1 LABEL_OPTIONAL TYPE_UINT32,
      PBField 2 LABEL_OPTIONAL TYPE_BYTES]
     [(1, 0), (0, 2)]"

definition textsecure__session_structure__chain__message_key__descriptor :: pb_desc where
  "textsecure__session_structure__chain__message_key__descriptor = PBDesc
     [PBField 1 LABEL_OPTIONAL TYPE_UINT32,
      PBField 2 LABEL_OPTIONAL TYPE_BYTES,
      PBField 3 LABEL_OPTIONAL TYPE_BYTES,
      PBField 4 LABEL_OPTIONAL TYPE_BYTES]
     [(1, 0), (0, 4)]"

definition textsecure__session_structure__chain__descriptor :: pb_desc where
  "textsecure__session_structure__chain__descriptor = PBDesc
     [PBField 1 LABEL_OPTIONAL TYPE_BYTES,
      PBField 2 LABEL_OPTIONAL TYPE_BYTES,
      PBField 3 LABEL_OPTIONAL (TYPE_MESSAGE textsecure__session_structure__chain__chain_key__descriptor),
      PBField 4 LABEL_REPEATED (TYPE_MESSAGE textsecure__session_structure__chain__message_key__descriptor)]
     [(1, 0), (0, 4)]"

definition textsecure__session_structure__pending_key_exchange__descriptor :: pb_desc where
  "textsecure__session_structure__pending_key_exchange__descriptor = PBDesc
     [PBField 1 LABEL_OPTIONAL TYPE_UINT32,
      PBField 2 LABEL_OPTIONAL TYPE_BYTES,
      PBField 3 LABEL_OPTIONAL TYPE_BYTES,
      PBField 4 LABEL_OPTIONAL TYPE_BYTES,
      PBField 5 LABEL_OPTIONAL TYPE_BYTES,
      PBField 7 LABEL_OPTIONAL TYPE_BYTES,
      PBField 8 LABEL_OPTIONAL TYPE_BYTES]
     [(1, 0), (7, 5), (0, 7)]"

definition textsecure__session_structure__pending_pre_key__descriptor :: pb_desc where
  "textsecure__session_structure__pending_pre_key__descriptor = PBDesc
     [PBField 1 LABEL_OPTIONAL TYPE_UINT32,
      PBField 2 LABEL_OPTIONAL TYPE_BYTES,
      PBField 3 LABEL_OPTIONAL TYPE_INT32]
     [(1, 0), (0, 3)]"

definition textsecure__session_structure__descriptor :: pb_desc where
  "textsecure__session_structure__descriptor = PBDesc
     [PBField 1 LABEL_OPTIONAL TYPE_UINT32,
      PBField 2 LABEL_OPTIONAL TYPE_BYTES,
      PBField 3 LABEL_OPTIONAL TYPE_BYTES,
      PBField 4 LABEL_OPTIONAL TYPE_BYTES,
      PBField 5 LABEL_OPTIONAL TYPE_UINT32,
      PBField 6 LABEL_OPTIONAL (TYPE_MESSAGE textsecure__session_structure__chain__descriptor),
      PBField 7 LABEL_REPEATED (TYPE_MESSAGE textsecure__session_structure__chain__descriptor),
      PBField 8 LABEL_OPTIONAL (TYPE_MESSAGE textsecure__session_structure__pending_key_exchange__descriptor),
      PBField 9 LABEL_OPTIONAL (TYPE_MESSAGE textsecure__session_structure__pending_pre_key__descriptor),
      PBField 10 LABEL_OPTIONAL TYPE_UINT32,
      PBField 11 LABEL_OPTIONAL TYPE_UINT32,
      PBField 12 LABEL_OPTIONAL TYPE_BOOL,
      PBField 13 LABEL_OPTIONAL TYPE_BYTES]
     [(1, 0), (0, 13)]"

definition textsecure__record_structure__descriptor :: pb_desc where
  "textsecure__record_structure__descriptor = PBDesc
     [PBField 1 LABEL_OPTIONAL (TYPE_MESSAGE textsecure__session_structure__descriptor),
      PBField 2 LABEL_REPEATED (TYPE_MESSAGE textsecure__session_structure__descriptor)]
     [(1, 0), (0, 2)]"

definition textsecure__pre_key_record_structure__descriptor :: pb_desc where
  "textsecure__pre_key_record_structure__descriptor = PBDesc
     [PBField 1 LABEL_OPTIONAL TYPE_UINT32,
      PBField 2 LABEL_OPTIONAL TYPE_BYTES,
      PBField 3 LABEL_OPTIONAL TYPE_BYTES]
     [(1, 0), (0, 3)]"

definition textsecure__signed_pre_key_record_structure__descriptor :: pb_desc where
  "textsecure__signed_pre_key_record_structure__descriptor = PBDesc
     [PBField 1 LABEL_OPTIONAL TYPE_UINT32,
      PBField 2 LABEL_OPTIONAL TYPE_BYTES,
      PBField 3 LABEL_OPTIONAL TYPE_BYTES,
      PBField 4 LABEL_OPTIONAL TYPE_BYTES,
      PBField 5 LABEL_OPTIONAL TYPE_FIXED64]
     [(1, 0), (0, 5)]"

definition textsecure__identity_key_pair_structure__descriptor :: pb_desc where
  "textsecure__identity_key_pair_structure__descriptor = PBDesc
     [PBField 1 LABEL_OPTIONAL TYPE_BYTES,
      PBField 2 LABEL_OPTIONAL TYPE_BYTES]
     [(1, 0), (0, 2)]"

definition textsecure__sender_key_state_structure__sender_chain_key__descriptor :: pb_desc where
  "textsecure__sender_key_state_structure__sender_chain_key__descriptor = PBDesc
     [PBField 1 LABEL_OPTIONAL TYPE_UINT32,
      PBField 2 LABEL_OPTIONAL TYPE_BYTES]
     [(1, 0), (0, 2)]"

definition textsecure__sender_key_state_structure__sender_message_key__descriptor :: pb_desc where
  "textsecure__sender_key_state_structure__sender_message_key__descriptor = PBDesc
     [PBField 1 LABEL_OPTIONAL TYPE_UINT32,
      PBField 2 LABEL_OPTIONAL TYPE_BYTES]
     [(1, 0), (0, 2)]"

definition textsecure__sender_key_state_structure__sender_signing_key__descriptor :: pb_desc where
  "textsecure__sender_key_state_structure__sender_signing_key__descriptor = PBDesc
     [PBField 1 LABEL_OPTIONAL TYPE_BYTES,
      PBField 2 LABEL_OPTIONAL TYPE_BYTES]
     [(1, 0), (0, 2)]"

definition textsecure__sender_key_state_structure__descriptor :: pb_desc where
  "textsecure__sender_key_state_structure__descriptor = PBDesc
     [PBField 1 LABEL_OPTIONAL TYPE_UINT32,
      PBField 2 LABEL_OPTIONAL (TYPE_MESSAGE textsecure__sender_key_state_structure__sender_chain_key__descriptor),
      PBField 3 LABEL_OPTIONAL (TYPE_MESSAGE textsecure__sender_key_state_structure__sender_signing_key__descriptor),
      PBField 4 LABEL_REPEATED (TYPE_MESSAGE textsecure__sender_key_state_structure__sender_message_key__descriptor)]
     [(1, 0), (0, 4)]"

definition textsecure__sender_key_record_structure__descriptor :: pb_desc where
  "textsecure__sender_key_record_structure__descriptor = PBDesc
     [PBField 1 LABEL_REPEATED (TYPE_MESSAGE textsecure__sender_key_state_structure__descriptor)]
     [(1, 0), (0, 1)]"

definition textsecure__signal_message__descriptor :: pb_desc where
  "textsecure__signal_message__descriptor = PBDesc
     [PBField 1 LABEL_OPTIONAL TYPE_BYTES,
      PBField 2 LABEL_OPTIONAL TYPE_UINT32,
      PBField 3 LABEL_OPTIONAL TYPE_UINT32,
      PBField 4 LABEL_OPTIONAL TYPE_BYTES]
     [(1, 0), (0, 4)]"

definition textsecure__pre_key_signal_message__descriptor :: pb_desc where
  "textsecure__pre_key_signal_message__descriptor = PBDesc
     [PBField 1 LABEL_OPTIONAL TYPE_UINT32,
      PBField 2 LABEL_OPTIONAL TYPE_BYTES,
      PBField 3 LABEL_OPTIONAL TYPE_BYTES,
      PBField 4 LABEL_OPTIONAL TYPE_BYTES,
      PBField 5 LABEL_OPTIONAL TYPE_UINT32,
      PBField 6 LABEL_OPTIONAL TYPE_UINT32]
     [(1, 0), (0, 6)]"

definition textsecure__key_exchange_message__descriptor :: pb_desc where
  "textsecure__key_exchange_message__descriptor = PBDesc
     [PBField 1 LABEL_OPTIONAL TYPE_UINT32,
      PBField 2 LABEL_OPTIONAL TYPE_BYTES,
      PBField 3 LABEL_OPTIONAL TYPE_BYTES,
      PBField 4 LABEL_OPTIONAL TYPE_BYTES,
      PBField 5 LABEL_OPTIONAL TYPE_BYTES]
     [(1, 0), (0, 5)]"

definition textsecure__sender_key_message__descriptor :: pb_desc where
  "textsecure__sender_key_message__descriptor = PBDesc
     [PBField 1 LABEL_OPTIONAL TYPE_UINT32,
      PBField 2 LABEL_OPTIONAL TYPE_UINT32,
      PBField 3 LABEL_OPTIONAL TYPE_BYTES]
     [(1, 0), (0, 3)]"

definition textsecure__sender_key_distribution_message__descriptor :: pb_desc where
  "textsecure__sender_key_distribution_message__descriptor = PBDesc
     [PBField 1 LABEL_OPTIONAL TYPE_UINT32,
      PBField 2 LABEL_OPTIONAL TYPE_UINT32,
      PBField 3 LABEL_OPTIONAL TYPE_BYTES,
      PBField 4 LABEL_OPTIONAL TYPE_BYTES]
     [(1, 0), (0, 4)]"

definition textsecure__device_consistency_code_message__descriptor :: pb_desc where
  "textsecure__device_consistency_code_message__descriptor = PBDesc
     [PBField 1 LABEL_OPTIONAL TYPE_UINT32,
      PBField 2 LABEL_OPTIONAL TYPE_BYTES]
     [(1, 0), (0, 2)]"

section \<open>Members\<close>

definition opt_slot :: "('a \<Rightarrow> pb_value) \<Rightarrow> 'a option \<Rightarrow> pb_value list" where
  "opt_slot con x = (case x of None \<Rightarrow> [] | Some v \<Rightarrow> [con v])"

fun slot_uint32 :: "pb_value list \<Rightarrow> 32 word option" where
  "slot_uint32 (V_UINT32 v # _) = Some v"
| "slot_uint32 _ = None"

fun slot_int32 :: "pb_value list \<Rightarrow> 32 word option" where
  "slot_int32 (V_INT32 v # _) = Some v"
| "slot_int32 _ = None"

fun slot_bool :: "pb_value list \<Rightarrow> bool option" where
  "slot_bool (V_BOOL v # _) = Some v"
| "slot_bool _ = None"

fun slot_fixed64 :: "pb_value list \<Rightarrow> 64 word option" where
  "slot_fixed64 (V_FIXED64 v # _) = Some v"
| "slot_fixed64 _ = None"

fun slot_bytes :: "pb_value list \<Rightarrow> bytes option" where
  "slot_bytes (V_BYTES v # _) = Some v"
| "slot_bytes _ = None"

fun slot_sub :: "pb_value list \<Rightarrow> pb_message option" where
  "slot_sub (V_MESSAGE v # _) = Some v"
| "slot_sub _ = None"

definition pb_uint32 :: "nat \<Rightarrow> pb_message \<Rightarrow> 32 word option" where
  "pb_uint32 i m = slot_uint32 (msg_slots m ! i)"

definition pb_int32 :: "nat \<Rightarrow> pb_message \<Rightarrow> 32 word option" where
  "pb_int32 i m = slot_int32 (msg_slots m ! i)"

definition pb_bool :: "nat \<Rightarrow> pb_message \<Rightarrow> bool option" where
  "pb_bool i m = slot_bool (msg_slots m ! i)"

definition pb_fixed64 :: "nat \<Rightarrow> pb_message \<Rightarrow> 64 word option" where
  "pb_fixed64 i m = slot_fixed64 (msg_slots m ! i)"

definition pb_bytes :: "nat \<Rightarrow> pb_message \<Rightarrow> bytes option" where
  "pb_bytes i m = slot_bytes (msg_slots m ! i)"

definition pb_sub :: "nat \<Rightarrow> pb_message \<Rightarrow> pb_message option" where
  "pb_sub i m = slot_sub (msg_slots m ! i)"

fun message_of :: "pb_value \<Rightarrow> pb_message" where
  "message_of (V_MESSAGE m) = m"
| "message_of _ = PBMsg [] []"

definition pb_subs :: "nat \<Rightarrow> pb_message \<Rightarrow> pb_message list" where
  "pb_subs i m = map message_of (msg_slots m ! i)"

text \<open>The pattern of every serialiser: size, buffer, pack, check of the size.  Packing more than the
  buffer holds is undefined.\<close>

definition pb_pack :: "pb_desc \<Rightarrow> pb_message \<Rightarrow> ('c, 's, bytes) M" where
  "pb_pack d msg =
     (let len = protobuf_c_message_get_packed_size d msg in
      bindE (signal_buffer_alloc len) (\<lambda>b.
      if \<not> b then failE SG_ERR_NOMEM
      else
        (let data = protobuf_c_message_pack d msg in
         if length data > len then faultE
         else if length data \<noteq> len then failE SG_ERR_INVALID_PROTO_BUF
         else returnE data)))"

section \<open>Lemmas\<close>

lemmas descriptor_defs =
  textsecure__logical_fingerprint__descriptor_def
  textsecure__combined_fingerprints__descriptor_def
  textsecure__session_structure__chain__chain_key__descriptor_def
  textsecure__session_structure__chain__message_key__descriptor_def
  textsecure__session_structure__chain__descriptor_def
  textsecure__session_structure__pending_key_exchange__descriptor_def
  textsecure__session_structure__pending_pre_key__descriptor_def
  textsecure__session_structure__descriptor_def
  textsecure__record_structure__descriptor_def
  textsecure__pre_key_record_structure__descriptor_def
  textsecure__signed_pre_key_record_structure__descriptor_def
  textsecure__identity_key_pair_structure__descriptor_def
  textsecure__sender_key_state_structure__sender_chain_key__descriptor_def
  textsecure__sender_key_state_structure__sender_message_key__descriptor_def
  textsecure__sender_key_state_structure__sender_signing_key__descriptor_def
  textsecure__sender_key_state_structure__descriptor_def
  textsecure__sender_key_record_structure__descriptor_def
  textsecure__signal_message__descriptor_def
  textsecure__pre_key_signal_message__descriptor_def
  textsecure__key_exchange_message__descriptor_def
  textsecure__sender_key_message__descriptor_def
  textsecure__sender_key_distribution_message__descriptor_def
  textsecure__device_consistency_code_message__descriptor_def

lemma descriptors_ok [simp]:
  "desc_ok textsecure__logical_fingerprint__descriptor"
  "desc_ok textsecure__combined_fingerprints__descriptor"
  "desc_ok textsecure__session_structure__chain__chain_key__descriptor"
  "desc_ok textsecure__session_structure__chain__message_key__descriptor"
  "desc_ok textsecure__session_structure__chain__descriptor"
  "desc_ok textsecure__session_structure__pending_key_exchange__descriptor"
  "desc_ok textsecure__session_structure__pending_pre_key__descriptor"
  "desc_ok textsecure__session_structure__descriptor"
  "desc_ok textsecure__record_structure__descriptor"
  "desc_ok textsecure__pre_key_record_structure__descriptor"
  "desc_ok textsecure__signed_pre_key_record_structure__descriptor"
  "desc_ok textsecure__identity_key_pair_structure__descriptor"
  "desc_ok textsecure__sender_key_state_structure__sender_chain_key__descriptor"
  "desc_ok textsecure__sender_key_state_structure__sender_message_key__descriptor"
  "desc_ok textsecure__sender_key_state_structure__sender_signing_key__descriptor"
  "desc_ok textsecure__sender_key_state_structure__descriptor"
  "desc_ok textsecure__sender_key_record_structure__descriptor"
  "desc_ok textsecure__signal_message__descriptor"
  "desc_ok textsecure__pre_key_signal_message__descriptor"
  "desc_ok textsecure__key_exchange_message__descriptor"
  "desc_ok textsecure__sender_key_message__descriptor"
  "desc_ok textsecure__sender_key_distribution_message__descriptor"
  "desc_ok textsecure__device_consistency_code_message__descriptor"
  by code_simp+

lemma opt_slot_simps [simp]: "opt_slot con None = []" "opt_slot con (Some v) = [con v]"
  by (simp_all add: opt_slot_def)

lemma length_opt_slot [simp]: "length (opt_slot con x) \<le> Suc 0"
  by (cases x) auto

lemma set_opt_slot [simp]: "set (opt_slot con x) = (case x of None \<Rightarrow> {} | Some v \<Rightarrow> {con v})"
  by (cases x) auto

lemma slot_opt_slot [simp]:
  "slot_uint32 (opt_slot V_UINT32 u) = u"
  "slot_int32 (opt_slot V_INT32 u) = u"
  "slot_bool (opt_slot V_BOOL b) = b"
  "slot_fixed64 (opt_slot V_FIXED64 x) = x"
  "slot_bytes (opt_slot V_BYTES y) = y"
  "slot_sub (opt_slot V_MESSAGE z) = z"
  by (cases u; cases b; cases x; cases y; cases z; simp)+

lemma map_message_of [simp]: "map (message_of \<circ> V_MESSAGE) ms = ms"
  by (simp add: comp_def)

lemmas pb_member_defs = pb_uint32_def pb_int32_def pb_bool_def pb_fixed64_def pb_bytes_def pb_sub_def
  pb_subs_def

lemma keeps_pb_pack [keeps_rules, intro!]: "keeps_store (pb_pack d m)"
  by (auto simp: pb_pack_def Let_def signal_buffer_alloc_def)

lemma keeps_pb_unpack [keeps_rules, intro!]: "keeps_store (pb_unpack d data)"
proof -
  have "keeps_store (\<lambda>w. (protobuf_c_message_unpack d data, w))" by (simp add: keeps_store_def)
  then show ?thesis by (auto simp: pb_unpack_def)
qed

definition fits_wire :: "pb_desc \<Rightarrow> pb_message \<Rightarrow> bool" where
  "fits_wire d m = (msg_ok d m \<and> length (protobuf_c_message_pack d m) < 2 ^ 26)"

lemma yields_pb_pack:
  assumes "desc_ok d" and "fits_wire d m"
  shows "yields (pb_pack d m) (protobuf_c_message_pack d m)"
proof -
  have "length (protobuf_c_message_pack d m) = protobuf_c_message_get_packed_size d m"
    using assms by (simp add: packed_size fits_wire_def)
  moreover have "length (protobuf_c_message_pack d m) < 2 ^ 63"
    using assms(2) by (simp add: fits_wire_def)
  then have "yields (signal_buffer_alloc (length (protobuf_c_message_pack d m))) True"
    unfolding signal_buffer_alloc_def by (simp only: SIZE_MAX_bound if_False) (rule yields_try_alloc)
  ultimately show ?thesis
    unfolding pb_pack_def Let_def by (intro yields_bindE [where y = True]) (simp_all add: yields_returnE)
qed

lemma yields_pb_unpack:
  assumes "desc_ok d" and "fits_wire d m"
  shows "yields (pb_unpack d (protobuf_c_message_pack d m)) m"
proof -
  have "protobuf_c_message_unpack d (protobuf_c_message_pack d m) = Ok m"
    using assms by (simp add: unpack_pack fits_wire_def)
  then show ?thesis
    unfolding pb_unpack_def
    by (intro yields_bindE [OF yields_try_alloc]) (simp add: yields_def ensures_def wp_def)
qed

text \<open>An upper bound of the packed size that does not depend on the descriptor.\<close>

lemma size_in_slots: "vs \<in> set slots \<Longrightarrow> v \<in> set vs \<Longrightarrow> s v \<le> size_list (size_list s) slots"
  by (rule size_list_estimation', assumption, rule size_list_estimation', assumption, rule order_refl)

function (sequential) value_weight :: "pb_value \<Rightarrow> nat" and msg_weight :: "pb_message \<Rightarrow> nat" where
  "value_weight (V_UINT32 v) = 6"
| "value_weight (V_INT32 v) = 11"
| "value_weight (V_BOOL v) = 2"
| "value_weight (V_FIXED64 v) = 9"
| "value_weight (V_BYTES v) = 6 + length v"
| "value_weight (V_MESSAGE m) = 6 + msg_weight m"
| "msg_weight (PBMsg slots unknown) = sum_list (map (\<lambda>vs. sum_list (map (\<lambda>v. value_weight v) vs)) slots)"
  by pat_completeness auto
termination
  by (relation "measure (case_sum size size)")
     (auto simp: less_Suc_eq_le intro!: trans_le_add1 size_in_slots)

lemma uint32_size_le: "uint32_size v \<le> 5"
  by (simp add: uint32_size_def)

lemma int32_size_le: "int32_size v \<le> 10"
  using uint32_size_le [of v] by (simp add: int32_size_def)

lemma packed_size_le_weight:
  "field_id f < 16 \<Longrightarrow> field_ok f \<Longrightarrow> value_ok (field_type f) v \<Longrightarrow>
     required_field_get_packed_size f v \<le> value_weight v"
  "desc_ok d \<Longrightarrow> msg_ok d m \<Longrightarrow> protobuf_c_message_get_packed_size d m \<le> msg_weight m"
proof (induction f v and d m rule: required_field_get_packed_size_protobuf_c_message_get_packed_size.induct)
  case (6 f m)
  show ?case
  proof (cases f)
    case (PBField i l t)
    with 6 show ?thesis
      using uint32_size_le
      by (cases t) (auto simp: Let_def get_tag_size_small intro!: add_mono order_trans [OF uint32_size_le])
  qed
next
  case (7 fs rs slots unknown)
  have "required_field_get_packed_size f v \<le> value_weight v"
    if "(f, vs) \<in> set (zip fs slots)" "v \<in> set vs" for f vs v
  proof -
    have "field_id f < 16" using "7.prems"(1) that(1) by (auto simp: list_all_iff in_set_zip)
    moreover have "field_ok f" using "7.prems"(1) set_zip_leftD [OF that(1)] by (simp add: list_all_iff)
    moreover have "value_ok (field_type f) v" using "7.prems"(2) that by (auto simp: list_all_iff)
    ultimately show ?thesis using "7.IH" that by blast
  qed
  then have "sum_list (map (\<lambda>(f, vs). sum_list (map (\<lambda>v. required_field_get_packed_size f v) vs)) (zip fs slots))
    \<le> sum_list (map (\<lambda>(f, vs). sum_list (map value_weight vs)) (zip fs slots))"
    by (intro sum_list_mono) (auto intro!: sum_list_mono)
  also have "map (\<lambda>(f, vs). sum_list (map value_weight vs)) (zip fs slots) =
      map (\<lambda>vs. sum_list (map value_weight vs)) (map snd (zip fs slots))"
    by (simp add: split_def)
  also have "map snd (zip fs slots) = slots" using "7.prems"(2) by simp
  finally show ?case using "7.prems"(2) by simp
qed (use uint32_size_le int32_size_le in \<open>auto simp: get_tag_size_small\<close>)

lemma fits_wireI: "desc_ok d \<Longrightarrow> msg_ok d m \<Longrightarrow> msg_weight m < 2 ^ 26 \<Longrightarrow> fits_wire d m"
  using packed_size_le_weight(2) [of d m] by (simp add: fits_wire_def packed_size)

lemma value_weight_opt_slot:
  "sum_list (map value_weight (opt_slot con x)) = (case x of None \<Rightarrow> 0 | Some v \<Rightarrow> value_weight (con v))"
  by (cases x) simp_all

lemma sum_weights_le:
  assumes "\<And>x. x \<in> set xs \<Longrightarrow> msg_weight (g x) \<le> b" and "length xs \<le> n"
  shows "sum_list (map value_weight (map V_MESSAGE (map g xs))) \<le> n * (b + 6)"
proof -
  have "sum_list (map value_weight (map V_MESSAGE (map g xs))) \<le> sum_list (map (\<lambda>_. b + 6) xs)"
    using assms(1) by (auto intro!: sum_list_mono)
  also have "\<dots> \<le> n * (b + 6)" using assms(2) by (simp add: sum_list_triv)
  finally show ?thesis .
qed

end
