(* ===== verification/Interfaces.thy ===== *)
theory Interfaces
  imports Prelude
begin

text \<open>
  Contracts between the components.

  \<^item> \<open>object_codec\<close>: a serialisable object, as the stores and the copy functions rely on it;
  \<^item> \<open>message_key_store\<close>: the bounded list of message keys that a session keeps for each receiver
    chain and a sender key state for its group.

  The components interpret them on their own operations.
\<close>

section \<open>Serialisable objects\<close>

locale object_codec =
  fixes serialize :: "'o \<Rightarrow> ('c, 's, bytes) M"
    and deserialize :: "bytes \<Rightarrow> ('c, 's, 'o) M"
    and valid :: "'o \<Rightarrow> bool"
    and encoding :: "'o \<Rightarrow> bytes"
  assumes serialize_ok: "valid x \<Longrightarrow> yields (serialize x) (encoding x)"
    and deserialize_ok: "valid x \<Longrightarrow> yields (deserialize (encoding x)) x"
begin

lemma round_trip: "valid x \<Longrightarrow> yields (bindE (serialize x) deserialize) x"
  by (rule yields_bindE [OF serialize_ok], assumption, rule deserialize_ok)

lemma stable: "valid x \<Longrightarrow> yields (bindE (deserialize (encoding x)) serialize) (encoding x)"
  by (rule yields_bindE [OF deserialize_ok], assumption, rule serialize_ok)

lemma encoding_injective: "valid x \<Longrightarrow> valid y \<Longrightarrow> encoding x = encoding y \<Longrightarrow> x = y"
  using deserialize_ok yields_unique by metis

end

section \<open>Stores of message keys\<close>

locale message_key_store =
  fixes ready :: "'st \<Rightarrow> bool"
    and stored :: "'st \<Rightarrow> 'mk list"
    and number :: "'mk \<Rightarrow> 32 word"
    and has_keys :: "'st \<Rightarrow> 32 word \<Rightarrow> bool"
    and add_keys :: "'st \<Rightarrow> 'mk \<Rightarrow> ('c, 's, 'st) M"
    and remove_keys :: "'st \<Rightarrow> 32 word \<Rightarrow> 'mk option \<times> 'st"
    and bound :: nat
  assumes has_keys_iff: "ready st \<Longrightarrow> has_keys st n = (\<exists>mk \<in> set (stored st). number mk = n)"
    and add_keys_ok: "ready st \<Longrightarrow>
      ensures (add_keys st mk) (\<lambda>st'. ready st' \<and> stored st' = dl_trim bound (stored st @ [mk]))"
    and remove_found: "ready st \<Longrightarrow> dl_search (\<lambda>mk. number mk = n) (stored st) = Some j \<Longrightarrow>
      \<exists>st'. remove_keys st n = (Some (stored st ! j), st') \<and> ready st' \<and> stored st' = dl_delete j (stored st)"
    and remove_absent: "ready st \<Longrightarrow> dl_search (\<lambda>mk. number mk = n) (stored st) = None \<Longrightarrow>
      remove_keys st n = (None, st)"
    and bound_positive: "0 < bound"
begin

lemma add_bounded: "ready st \<Longrightarrow> ensures (add_keys st mk) (\<lambda>st'. length (stored st') \<le> bound)"
  by (rule ensures_mono [OF add_keys_ok]) auto

lemma add_has: "ready st \<Longrightarrow> ensures (add_keys st mk) (\<lambda>st'. has_keys st' (number mk))"
proof (rule ensures_mono [OF add_keys_ok], assumption)
  fix st'
  assume st': "ready st' \<and> stored st' = dl_trim bound (stored st @ [mk])"
  then have "mk \<in> set (stored st')" using bound_positive by (auto simp: dl_trim_drop Suc_diff_le)
  with st' show "has_keys st' (number mk)" by (auto simp: has_keys_iff)
qed

lemma add_keeps:
  assumes "ready st" and "length (stored st) < bound" and "has_keys st n"
  shows "ensures (add_keys st mk) (\<lambda>st'. has_keys st' n)"
  using assms by (intro ensures_mono [OF add_keys_ok]) (auto simp: has_keys_iff dl_trim_short)

lemma remove_cases:
  assumes "ready st"
  obtains "\<not> has_keys st n" and "remove_keys st n = (None, st)"
    | j st' where "j < length (stored st)" and "number (stored st ! j) = n"
        and "remove_keys st n = (Some (stored st ! j), st')" and "ready st'"
        and "stored st' = dl_delete j (stored st)"
proof (cases "dl_search (\<lambda>mk. number mk = n) (stored st)")
  case None
  then show ?thesis using that(1) assms remove_absent by (auto simp: has_keys_iff dl_search_None)
next
  case (Some j)
  then show ?thesis using that(2) dl_search_Some [OF Some] remove_found [OF assms Some] by blast
qed

text \<open>With distinct numbers a key is handed out once, and the others stay.\<close>

lemma remove_once:
  assumes "ready st" and "distinct (map number (stored st))" and "remove_keys st n = (r, st')"
  shows "\<not> has_keys st' n \<and> (r = None \<longleftrightarrow> \<not> has_keys st n) \<and> (\<forall>k. k \<noteq> n \<longrightarrow> has_keys st' k = has_keys st k)"
proof (rule remove_cases [OF assms(1), of n])
  fix j s
  assume j: "j < length (stored st)" "number (stored st ! j) = n"
    and rm: "remove_keys st n = (Some (stored st ! j), s)" "ready s" "stored s = dl_delete j (stored st)"
  obtain as bs where st: "stored st = as @ stored st ! j # bs" and s: "stored s = as @ bs"
    using id_take_nth_drop [OF j(1)] rm(3) by (auto simp: dl_delete_def)
  have "distinct (map number (as @ stored st ! j # bs))" using assms(2) st by argo
  then have "number mk \<noteq> n" if "mk \<in> set (stored s)" for mk
    using that j(2) s by (auto simp: image_iff)
  moreover have "set (stored st) = insert (stored st ! j) (set (stored s))"
    by (subst st) (simp add: s)
  ultimately show ?thesis
    using assms(1,3) rm(1,2) j(2) by (auto simp: has_keys_iff)
qed (use assms in \<open>auto\<close>)

lemma add_remove:
  assumes "ready st" and "\<not> has_keys st (number mk)"
  shows "ensures (add_keys st mk) (\<lambda>st'. fst (remove_keys st' (number mk)) = Some mk)"
proof (rule ensures_mono [OF add_keys_ok [OF assms(1)]])
  fix st'
  assume st': "ready st' \<and> stored st' = dl_trim bound (stored st @ [mk])"
  have mem: "x = mk" if "x \<in> set (stored st')" "number x = number mk" for x
    using that st' assms set_dl_trim [of x bound "stored st @ [mk]"] by (auto simp: has_keys_iff)
  have "mk \<in> set (stored st')" using st' bound_positive by (auto simp: dl_trim_drop Suc_diff_le)
  with st' have "has_keys st' (number mk)" by (auto simp: has_keys_iff)
  then show "fst (remove_keys st' (number mk)) = Some mk"
    using st' by (elim conjE remove_cases [of st' "number mk"]) (auto intro: mem)
qed

end

end
