(* ===== verification/Messages.thy ===== *)
theory Messages
  imports Curve Proto_Schemas Interfaces
begin

text \<open>
  protocol.c: the four message types, their wire form (a version byte, a protobuf body and, for the
  encrypted ones, a MAC or a signature), and the verification of MAC and signature.
\<close>

unbundle bit_operations_syntax

section \<open>Data\<close>

definition CIPHERTEXT_UNSUPPORTED_VERSION :: byte where "CIPHERTEXT_UNSUPPORTED_VERSION = 1"
definition CIPHERTEXT_CURRENT_VERSION :: byte where "CIPHERTEXT_CURRENT_VERSION = 3"
definition CIPHERTEXT_SIGNAL_TYPE :: int where "CIPHERTEXT_SIGNAL_TYPE = 2"
definition CIPHERTEXT_PREKEY_TYPE :: int where "CIPHERTEXT_PREKEY_TYPE = 3"
definition CIPHERTEXT_SENDERKEY_TYPE :: int where "CIPHERTEXT_SENDERKEY_TYPE = 4"
definition CIPHERTEXT_SENDERKEY_DISTRIBUTION_TYPE :: int where "CIPHERTEXT_SENDERKEY_DISTRIBUTION_TYPE = 5"
definition SIGNAL_MESSAGE_MAC_LENGTH :: nat where "SIGNAL_MESSAGE_MAC_LENGTH = 8"
definition SIGNATURE_LENGTH :: nat where "SIGNATURE_LENGTH = 64"

record signal_message =
  sm_version :: byte
  sm_ratchet_key :: ec_public_key
  sm_counter :: "32 word"
  sm_previous_counter :: "32 word"
  sm_ciphertext :: bytes
  sm_serialized :: bytes

text \<open>\<open>has_pre_key_id\<close> and \<open>pre_key_id\<close> of the source are one optional member here.\<close>

record pre_key_signal_message =
  pkm_version :: byte
  pkm_registration_id :: "32 word"
  pkm_pre_key_id :: "32 word option"
  pkm_signed_pre_key_id :: "32 word"
  pkm_base_key :: ec_public_key
  pkm_identity_key :: ec_public_key
  pkm_message :: signal_message
  pkm_serialized :: bytes

record sender_key_message =
  skm_version :: byte
  skm_key_id :: "32 word"
  skm_iteration :: "32 word"
  skm_ciphertext :: bytes
  skm_serialized :: bytes

record sender_key_distribution_message =
  skd_id :: "32 word"
  skd_iteration :: "32 word"
  skd_chain_key :: "bytes option"
  skd_signature_key :: "ec_public_key option"
  skd_serialized :: "bytes option"

datatype ciphertext_message =
    Signal_Message signal_message
  | Pre_Key_Signal_Message pre_key_signal_message
  | Sender_Key_Message sender_key_message
  | Sender_Key_Distribution_Message sender_key_distribution_message

fun ciphertext_message_get_type :: "ciphertext_message \<Rightarrow> int" where
  "ciphertext_message_get_type (Signal_Message _) = CIPHERTEXT_SIGNAL_TYPE"
| "ciphertext_message_get_type (Pre_Key_Signal_Message _) = CIPHERTEXT_PREKEY_TYPE"
| "ciphertext_message_get_type (Sender_Key_Message _) = CIPHERTEXT_SENDERKEY_TYPE"
| "ciphertext_message_get_type (Sender_Key_Distribution_Message _) = CIPHERTEXT_SENDERKEY_DISTRIBUTION_TYPE"

fun ciphertext_message_get_serialized :: "ciphertext_message \<Rightarrow> bytes option" where
  "ciphertext_message_get_serialized (Signal_Message m) = Some (sm_serialized m)"
| "ciphertext_message_get_serialized (Pre_Key_Signal_Message m) = Some (pkm_serialized m)"
| "ciphertext_message_get_serialized (Sender_Key_Message m) = Some (skm_serialized m)"
| "ciphertext_message_get_serialized (Sender_Key_Distribution_Message m) = skd_serialized m"

section \<open>The wire form\<close>

text \<open>The high nibble of the first byte is the version of the message, the low nibble the current one.\<close>

definition version_byte :: "byte \<Rightarrow> byte" where
  "version_byte version = push_bit 4 version OR CIPHERTEXT_CURRENT_VERSION"

definition high_nibble :: "byte \<Rightarrow> byte" where
  "high_nibble b = drop_bit 4 (b AND 0xF0)"

text \<open>A buffer of the version byte, the packed body and \<open>room\<close> bytes behind it.\<close>

definition pb_pack_versioned :: "byte \<Rightarrow> nat \<Rightarrow> pb_desc \<Rightarrow> pb_message \<Rightarrow> ('c, 's, bytes) M" where
  "pb_pack_versioned version room d msg =
     (let len = protobuf_c_message_get_packed_size d msg in
      bindE (signal_buffer_alloc (1 + len + room)) (\<lambda>b.
      if \<not> b then failE SG_ERR_NOMEM
      else
        (let data = protobuf_c_message_pack d msg in
         if length data > len + room then faultE
         else if length data \<noteq> len then failE SG_ERR_INVALID_PROTO_BUF
         else returnE (version # data))))"

section \<open>Signal messages\<close>

definition signal_message_serialize :: "signal_message \<Rightarrow> ('c, 's, bytes) M" where
  "signal_message_serialize message =
     bindE (ec_public_key_serialize_protobuf (Some (sm_ratchet_key message))) (\<lambda>ratchetkey.
     pb_pack_versioned (version_byte (sm_version message)) 0 textsecure__signal_message__descriptor
       (PBMsg [[V_BYTES ratchetkey], [V_UINT32 (sm_counter message)],
          [V_UINT32 (sm_previous_counter message)], [V_BYTES (sm_ciphertext message)]] []))"

definition signal_message_get_mac ::
    "'c signal_context \<Rightarrow> byte \<Rightarrow> ec_public_key option \<Rightarrow> ec_public_key option \<Rightarrow> bytes \<Rightarrow> bytes
      \<Rightarrow> ('c, 's, bytes) M" where
  "signal_message_get_mac ctx message_version sender_identity_key receiver_identity_key key data =
     hmac_sha256_steps ctx Uninitialised key
       ((if message_version \<ge> 3
         then [ec_public_key_serialize sender_identity_key, ec_public_key_serialize receiver_identity_key]
         else []) @ [returnE data])
       (\<lambda>full_mac.
        bindE (derefE full_mac) (\<lambda>mac.
        if length mac < SIGNAL_MESSAGE_MAC_LENGTH then failE SG_ERR_UNKNOWN
        else
          bindE (signal_buffer_alloc SIGNAL_MESSAGE_MAC_LENGTH) (\<lambda>b.
          if b then returnE (take SIGNAL_MESSAGE_MAC_LENGTH mac) else failE SG_ERR_NOMEM)))"

definition signal_message_create ::
    "'c signal_context \<Rightarrow> byte \<Rightarrow> bytes \<Rightarrow> ec_public_key option \<Rightarrow> 32 word \<Rightarrow> 32 word \<Rightarrow> bytes
      \<Rightarrow> ec_public_key option \<Rightarrow> ec_public_key option \<Rightarrow> ('c, 's, signal_message) M" where
  "signal_message_create ctx message_version key ratchet_key n pn ciphertext sender_id receiver_id =
     thenE alloc
      (bindE (derefE ratchet_key) (\<lambda>rk.
       bindE (new_buffer ciphertext) (\<lambda>ct.
       let message = \<lparr>sm_version = message_version, sm_ratchet_key = rk, sm_counter = n,
             sm_previous_counter = pn, sm_ciphertext = ct, sm_serialized = []\<rparr> in
       bindE (signal_message_serialize message) (\<lambda>message_buf.
       bindE (signal_message_get_mac ctx message_version sender_id receiver_id key message_buf) (\<lambda>mac_buf.
       bindE (signal_buffer_append message_buf mac_buf) (\<lambda>buf.
       (case buf of
          None \<Rightarrow> failE SG_ERR_NOMEM
        | Some bytes \<Rightarrow> returnE (message\<lparr>sm_serialized := bytes\<rparr>))))))))"

definition signal_message_deserialize :: "bytes \<Rightarrow> ('c, 's, signal_message) M" where
  "signal_message_deserialize data =
     (if length data \<le> 1 + SIGNAL_MESSAGE_MAC_LENGTH then failE SG_ERR_INVAL
      else
        (let version = high_nibble (data ! 0) in
         if version \<le> CIPHERTEXT_UNSUPPORTED_VERSION then failE SG_ERR_LEGACY_MESSAGE
         else if version > CIPHERTEXT_CURRENT_VERSION then failE SG_ERR_INVALID_MESSAGE
         else
           bindE (pb_unpack textsecure__signal_message__descriptor
                    (take (length data - 1 - SIGNAL_MESSAGE_MAC_LENGTH) (drop 1 data))) (\<lambda>m.
           (case (pb_bytes 3 m, pb_uint32 1 m, pb_bytes 0 m) of
              (Some ct, Some n, Some rk) \<Rightarrow>
                thenE alloc
                 (bindE (curve_decode_point rk) (\<lambda>key.
                  bindE (new_buffer ct) (\<lambda>ciphertext.
                  bindE (new_buffer data) (\<lambda>serialized.
                  returnE \<lparr>sm_version = version, sm_ratchet_key = key, sm_counter = n,
                    sm_previous_counter = (case pb_uint32 2 m of None \<Rightarrow> 0 | Some pn \<Rightarrow> pn),
                    sm_ciphertext = ciphertext, sm_serialized = serialized\<rparr>))))
            | _ \<Rightarrow> failE SG_ERR_INVALID_MESSAGE))))"

definition signal_message_copy :: "signal_message \<Rightarrow> ('c, 's, signal_message) M" where
  "signal_message_copy other_message = signal_message_deserialize (sm_serialized other_message)"

text \<open>Reading the MAC of a message shorter than a MAC is out of bounds.\<close>

definition signal_message_verify_mac ::
    "'c signal_context \<Rightarrow> signal_message \<Rightarrow> ec_public_key option \<Rightarrow> ec_public_key option \<Rightarrow> bytes
      \<Rightarrow> ('c, 's, bool) M" where
  "signal_message_verify_mac ctx message sender_id receiver_id key =
     (let data = sm_serialized message;
          n = length data - SIGNAL_MESSAGE_MAC_LENGTH in
      thenE (assertE (SIGNAL_MESSAGE_MAC_LENGTH \<le> length data))
      (bindE (signal_message_get_mac ctx (sm_version message) sender_id receiver_id key (take n data))
        (\<lambda>our_mac.
       thenE (guardE (length our_mac = SIGNAL_MESSAGE_MAC_LENGTH) SG_ERR_UNKNOWN)
         (returnE (signal_constant_memcmp our_mac (drop n data) (length our_mac) = 0)))))"

definition signal_message_is_legacy :: "bytes \<Rightarrow> bool" where
  "signal_message_is_legacy data =
     (length data \<ge> 1 \<and> high_nibble (data ! 0) \<le> CIPHERTEXT_UNSUPPORTED_VERSION)"

section \<open>Pre key messages\<close>

definition pre_key_signal_message_serialize :: "pre_key_signal_message \<Rightarrow> ('c, 's, bytes) M" where
  "pre_key_signal_message_serialize message =
     bindE (ec_public_key_serialize_protobuf (Some (pkm_base_key message))) (\<lambda>base.
     bindE (ec_public_key_serialize_protobuf (Some (pkm_identity_key message))) (\<lambda>ident.
     pb_pack_versioned (version_byte (pkm_version message)) 0 textsecure__pre_key_signal_message__descriptor
       (PBMsg [opt_slot V_UINT32 (pkm_pre_key_id message), [V_BYTES base], [V_BYTES ident],
          [V_BYTES (sm_serialized (pkm_message message))], [V_UINT32 (pkm_registration_id message)],
          [V_UINT32 (pkm_signed_pre_key_id message)]] [])))"

definition pre_key_signal_message_create ::
    "byte \<Rightarrow> 32 word \<Rightarrow> 32 word option \<Rightarrow> 32 word \<Rightarrow> ec_public_key option \<Rightarrow> ec_public_key option
      \<Rightarrow> signal_message option \<Rightarrow> ('c, 's, pre_key_signal_message) M" where
  "pre_key_signal_message_create message_version reg_id pk_id spk_id base_key identity_key message =
     thenE alloc
      (bindE (derefE base_key) (\<lambda>base.
       bindE (derefE identity_key) (\<lambda>ident.
       bindE (derefE message) (\<lambda>msg.
       let result = \<lparr>pkm_version = message_version, pkm_registration_id = reg_id,
             pkm_pre_key_id = pk_id, pkm_signed_pre_key_id = spk_id, pkm_base_key = base,
             pkm_identity_key = ident, pkm_message = msg, pkm_serialized = []\<rparr> in
       bindE (pre_key_signal_message_serialize result) (\<lambda>buf.
       returnE (result\<lparr>pkm_serialized := buf\<rparr>))))))"

definition pre_key_signal_message_deserialize :: "bytes \<Rightarrow> ('c, 's, pre_key_signal_message) M" where
  "pre_key_signal_message_deserialize data =
     (if length data \<le> 1 then failE SG_ERR_INVAL
      else
        (let version = high_nibble (data ! 0) in
         if version < CIPHERTEXT_CURRENT_VERSION then failE SG_ERR_LEGACY_MESSAGE
         else if version > CIPHERTEXT_CURRENT_VERSION then failE SG_ERR_INVALID_VERSION
         else
           bindE (pb_unpack textsecure__pre_key_signal_message__descriptor (drop 1 data)) (\<lambda>m.
           (case (pb_uint32 5 m, pb_bytes 1 m, pb_bytes 2 m, pb_bytes 3 m) of
              (Some spk_id, Some base_bytes, Some ident_bytes, Some msg_bytes) \<Rightarrow>
                thenE alloc
                 (bindE (curve_decode_point base_bytes) (\<lambda>base.
                  bindE (curve_decode_point ident_bytes) (\<lambda>ident.
                  bindE (signal_message_deserialize msg_bytes) (\<lambda>message.
                  thenE (guardE (sm_version message = version) SG_ERR_INVALID_VERSION)
                  (bindE (new_buffer data) (\<lambda>serialized.
                   returnE \<lparr>pkm_version = version,
                     pkm_registration_id = (case pb_uint32 4 m of None \<Rightarrow> 0 | Some i \<Rightarrow> i),
                     pkm_pre_key_id = pb_uint32 0 m, pkm_signed_pre_key_id = spk_id,
                     pkm_base_key = base, pkm_identity_key = ident, pkm_message = message,
                     pkm_serialized = serialized\<rparr>))))))
            | _ \<Rightarrow> failE SG_ERR_INVALID_MESSAGE))))"

definition pre_key_signal_message_copy ::
    "pre_key_signal_message \<Rightarrow> ('c, 's, pre_key_signal_message) M" where
  "pre_key_signal_message_copy other_message =
     pre_key_signal_message_deserialize (pkm_serialized other_message)"

section \<open>Sender key messages\<close>

definition sender_key_message_serialize ::
    "'c signal_context \<Rightarrow> sender_key_message \<Rightarrow> ec_private_key option \<Rightarrow> ('c, 's, bytes) M" where
  "sender_key_message_serialize ctx message signature_key =
     bindE (pb_pack_versioned (version_byte CIPHERTEXT_CURRENT_VERSION) SIGNATURE_LENGTH
              textsecure__sender_key_message__descriptor
              (PBMsg [[V_UINT32 (skm_key_id message)], [V_UINT32 (skm_iteration message)],
                 [V_BYTES (skm_ciphertext message)]] [])) (\<lambda>data.
     tryE (curve_calculate_signature ctx signature_key data)
       (\<lambda>e. failE (if e = SG_ERR_INVALID_KEY then SG_ERR_UNKNOWN else e))
       (\<lambda>signature.
        thenE (guardE (length signature = SIGNATURE_LENGTH) SG_ERR_UNKNOWN) (returnE (data @ signature))))"

definition sender_key_message_create ::
    "'c signal_context \<Rightarrow> 32 word \<Rightarrow> 32 word \<Rightarrow> bytes \<Rightarrow> ec_private_key option
      \<Rightarrow> ('c, 's, sender_key_message) M" where
  "sender_key_message_create ctx key_id n ciphertext signature_key =
     thenE alloc
      (bindE (new_buffer ciphertext) (\<lambda>ct.
       let message = \<lparr>skm_version = CIPHERTEXT_CURRENT_VERSION, skm_key_id = key_id,
             skm_iteration = n, skm_ciphertext = ct, skm_serialized = []\<rparr> in
       bindE (sender_key_message_serialize ctx message signature_key) (\<lambda>buf.
       returnE (message\<lparr>skm_serialized := buf\<rparr>))))"

definition sender_key_message_deserialize :: "bytes \<Rightarrow> ('c, 's, sender_key_message) M" where
  "sender_key_message_deserialize data =
     (if length data \<le> 1 + SIGNATURE_LENGTH then failE SG_ERR_INVAL
      else
        (let version = high_nibble (data ! 0) in
         if version < CIPHERTEXT_CURRENT_VERSION then failE SG_ERR_LEGACY_MESSAGE
         else if version > CIPHERTEXT_CURRENT_VERSION then failE SG_ERR_INVALID_VERSION
         else
           bindE (pb_unpack textsecure__sender_key_message__descriptor
                    (take (length data - 1 - SIGNATURE_LENGTH) (drop 1 data))) (\<lambda>m.
           (case (pb_uint32 0 m, pb_uint32 1 m, pb_bytes 2 m) of
              (Some key_id, Some n, Some ct) \<Rightarrow>
                thenE alloc
                 (bindE (new_buffer ct) (\<lambda>ciphertext.
                  bindE (new_buffer data) (\<lambda>serialized.
                  returnE \<lparr>skm_version = version, skm_key_id = key_id, skm_iteration = n,
                    skm_ciphertext = ciphertext, skm_serialized = serialized\<rparr>)))
            | _ \<Rightarrow> failE SG_ERR_INVALID_MESSAGE))))"

definition sender_key_message_copy :: "sender_key_message \<Rightarrow> ('c, 's, sender_key_message) M" where
  "sender_key_message_copy other_message = sender_key_message_deserialize (skm_serialized other_message)"

definition sender_key_message_verify_signature ::
    "'c signal_context \<Rightarrow> sender_key_message \<Rightarrow> ec_public_key option \<Rightarrow> ('c, 's, unit) M" where
  "sender_key_message_verify_signature ctx message signature_key =
     (let data = skm_serialized message;
          n = length data - SIGNATURE_LENGTH in
      thenE (assertE (SIGNATURE_LENGTH \<le> length data))
      (tryE (curve_verify_signature ctx signature_key (take n data) (drop n data))
        (\<lambda>_. failE SG_ERR_INVALID_MESSAGE)
        (\<lambda>ok. guardE ok SG_ERR_INVALID_MESSAGE)))"

definition sender_key_distribution_message_serialize ::
    "sender_key_distribution_message \<Rightarrow> ('c, 's, bytes) M" where
  "sender_key_distribution_message_serialize message =
     bindE (derefE (skd_chain_key message)) (\<lambda>chain_key.
     bindE (ec_public_key_serialize_protobuf (skd_signature_key message)) (\<lambda>signing_key.
     pb_pack_versioned (version_byte CIPHERTEXT_CURRENT_VERSION) 0
       textsecure__sender_key_distribution_message__descriptor
       (PBMsg [[V_UINT32 (skd_id message)], [V_UINT32 (skd_iteration message)], [V_BYTES chain_key],
          [V_BYTES signing_key]] [])))"

text \<open>When the chain key cannot be copied the status stays 0: the caller gets a message without keys
  and without a serialised form.\<close>

definition sender_key_distribution_message_create ::
    "32 word \<Rightarrow> 32 word \<Rightarrow> bytes \<Rightarrow> ec_public_key option \<Rightarrow> ('c, 's, sender_key_distribution_message) M" where
  "sender_key_distribution_message_create i n chain_key signature_key =
     thenE alloc
      (bindE (signal_buffer_create chain_key) (\<lambda>ck.
       let message = \<lparr>skd_id = i, skd_iteration = n, skd_chain_key = ck, skd_signature_key = None,
             skd_serialized = None\<rparr> in
       (case ck of
          None \<Rightarrow> returnE message
        | Some _ \<Rightarrow>
            bindE (derefE signature_key) (\<lambda>sk.
            let message' = message\<lparr>skd_signature_key := Some sk\<rparr> in
            bindE (sender_key_distribution_message_serialize message') (\<lambda>buf.
            returnE (message'\<lparr>skd_serialized := Some buf\<rparr>))))))"

definition sender_key_distribution_message_deserialize ::
    "bytes \<Rightarrow> ('c, 's, sender_key_distribution_message) M" where
  "sender_key_distribution_message_deserialize data =
     (if length data \<le> 1 then failE SG_ERR_INVAL
      else
        (let version = high_nibble (data ! 0) in
         if version < CIPHERTEXT_CURRENT_VERSION then failE SG_ERR_LEGACY_MESSAGE
         else if version > CIPHERTEXT_CURRENT_VERSION then failE SG_ERR_INVALID_VERSION
         else
           bindE (pb_unpack textsecure__sender_key_distribution_message__descriptor (drop 1 data)) (\<lambda>m.
           (case (pb_uint32 0 m, pb_uint32 1 m, pb_bytes 2 m, pb_bytes 3 m) of
              (Some i, Some n, Some ck, Some sk) \<Rightarrow>
                thenE alloc
                 (bindE (new_buffer ck) (\<lambda>chain_key.
                  bindE (curve_decode_point sk) (\<lambda>signature_key.
                  bindE (new_buffer data) (\<lambda>serialized.
                  returnE \<lparr>skd_id = i, skd_iteration = n, skd_chain_key = Some chain_key,
                    skd_signature_key = Some signature_key, skd_serialized = Some serialized\<rparr>))))
            | _ \<Rightarrow> failE SG_ERR_INVALID_MESSAGE))))"

definition sender_key_distribution_message_copy ::
    "sender_key_distribution_message \<Rightarrow> ('c, 's, sender_key_distribution_message) M" where
  "sender_key_distribution_message_copy other_message =
     bindE (derefE (skd_serialized other_message)) sender_key_distribution_message_deserialize"

end
