(* ===== verification/Messages_Laws.thy ===== *)
theory Messages_Laws
  imports Messages
begin

text \<open>
  Messages: what is on the wire, that deserialising a created message gives it back, that the MAC or
  signature of a created message verifies, and the message types as \<open>object_codec\<close>.
\<close>

section \<open>Framing\<close>

lemma high_nibble_version_byte: "v = 2 \<or> v = 3 \<Longrightarrow> high_nibble (version_byte v) = v"
  by (auto simp: high_nibble_def version_byte_def CIPHERTEXT_CURRENT_VERSION_def)

lemma message_version_ok:
  "v = 2 \<or> v = 3 \<Longrightarrow> \<not> v \<le> CIPHERTEXT_UNSUPPORTED_VERSION \<and> \<not> v > CIPHERTEXT_CURRENT_VERSION"
  by (auto simp: CIPHERTEXT_UNSUPPORTED_VERSION_def CIPHERTEXT_CURRENT_VERSION_def word_le_nat_alt word_less_nat_alt)

lemma yields_pb_pack_versioned:
  assumes "desc_ok d" and "fits_wire d m" and "room < 2 ^ 26"
  shows "yields (pb_pack_versioned v room d m) (v # protobuf_c_message_pack d m)"
proof -
  have len: "length (protobuf_c_message_pack d m) = protobuf_c_message_get_packed_size d m"
    "length (protobuf_c_message_pack d m) < 2 ^ 26"
    using assms by (simp add: packed_size fits_wire_def, simp add: fits_wire_def)
  have "yields (signal_buffer_alloc (1 + length (protobuf_c_message_pack d m) + room)) True"
    by (rule yields_signal_buffer_alloc) (use len(2) assms(3) in simp)
  then show ?thesis
    unfolding pb_pack_versioned_def Let_def len(1) [symmetric]
    by (intro yields_bindE [where y = True]) (simp_all add: yields_returnE)
qed

lemma keeps_pb_pack_versioned [keeps_rules, intro!]: "keeps_store (pb_pack_versioned v room d m)"
  by (auto simp: pb_pack_versioned_def Let_def)

lemma quiet_ec_public_key_serialize: "quiet (ec_public_key_serialize (Some k)) (DJB_TYPE # k)"
  by (simp add: quiet_def ec_public_key_serialize_def signal_buffer_alloc_def SIZE_MAX_def
      sizeof_signal_buffer_def DJB_KEY_LEN_def bindE_def try_alloc_def returnE_def)

section \<open>Signal messages\<close>

definition mac_input :: "byte \<Rightarrow> ec_public_key \<Rightarrow> ec_public_key \<Rightarrow> bytes \<Rightarrow> bytes" where
  "mac_input v sender receiver data =
     (if v \<ge> 3 then DJB_TYPE # sender @ DJB_TYPE # receiver else []) @ data"

definition message_mac ::
    "(bytes \<Rightarrow> bytes \<Rightarrow> bytes) \<Rightarrow> byte \<Rightarrow> ec_public_key \<Rightarrow> ec_public_key \<Rightarrow> bytes \<Rightarrow> bytes \<Rightarrow> bytes" where
  "message_mac H v sender receiver key data = take 8 (H key (mac_input v sender receiver data))"

lemma length_message_mac: "hmac_laws ctx H \<Longrightarrow> length (message_mac H v s r k d) = 8"
  by (simp add: message_mac_def hmac_laws_length)

lemma yields_signal_message_get_mac:
  assumes "hmac_laws ctx H"
  shows "yields (signal_message_get_mac ctx v (Some s) (Some r) key data) (message_mac H v s r key data)"
  unfolding signal_message_get_mac_def
proof (rule yields_hmac_sha256_steps [OF assms, where chunks =
      "(if v \<ge> 3 then [DJB_TYPE # s, DJB_TYPE # r] else []) @ [data]"])
  show "yields (bindE (derefE (Some (H key (concat ((if v \<ge> 3 then [DJB_TYPE # s, DJB_TYPE # r] else []) @ [data])))))
      (\<lambda>mac. if length mac < SIGNAL_MESSAGE_MAC_LENGTH then failE SG_ERR_UNKNOWN
        else bindE (signal_buffer_alloc SIGNAL_MESSAGE_MAC_LENGTH)
          (\<lambda>b. if b then returnE (take SIGNAL_MESSAGE_MAC_LENGTH mac) else failE SG_ERR_NOMEM)))
      (message_mac H v s r key data)"
    by (rule yields_bindE [OF yields_derefE])
       (auto simp: SIGNAL_MESSAGE_MAC_LENGTH_def hmac_laws_length [OF assms] message_mac_def mac_input_def
         intro!: yields_bindE [OF yields_signal_buffer_alloc] yields_returnE)
qed (simp add: quiet_ec_public_key_serialize)

definition signal_message_body :: "ec_public_key \<Rightarrow> 32 word \<Rightarrow> 32 word \<Rightarrow> bytes \<Rightarrow> pb_message" where
  "signal_message_body rk n pn ct =
     PBMsg [[V_BYTES (DJB_TYPE # rk)], [V_UINT32 n], [V_UINT32 pn], [V_BYTES ct]] []"

text \<open>The serialised message without its MAC.\<close>

definition signal_message_bytes :: "byte \<Rightarrow> ec_public_key \<Rightarrow> 32 word \<Rightarrow> 32 word \<Rightarrow> bytes \<Rightarrow> bytes" where
  "signal_message_bytes v rk n pn ct =
     version_byte v # protobuf_c_message_pack textsecure__signal_message__descriptor (signal_message_body rk n pn ct)"

definition signal_message_of ::
    "(bytes \<Rightarrow> bytes \<Rightarrow> bytes) \<Rightarrow> byte \<Rightarrow> bytes \<Rightarrow> ec_public_key \<Rightarrow> 32 word \<Rightarrow> 32 word \<Rightarrow> bytes
      \<Rightarrow> ec_public_key \<Rightarrow> ec_public_key \<Rightarrow> signal_message" where
  "signal_message_of H v key rk n pn ct s r =
     \<lparr>sm_version = v, sm_ratchet_key = rk, sm_counter = n, sm_previous_counter = pn, sm_ciphertext = ct,
      sm_serialized = signal_message_bytes v rk n pn ct @
        message_mac H v s r key (signal_message_bytes v rk n pn ct)\<rparr>"

definition MAX_CIPHERTEXT :: nat where "MAX_CIPHERTEXT = 2 ^ 25"

lemma fits_signal_message:
  "wf_key rk \<Longrightarrow> length ct \<le> MAX_CIPHERTEXT \<Longrightarrow>
   fits_wire textsecure__signal_message__descriptor (signal_message_body rk n pn ct)"
  by (rule fits_wireI, simp, simp add: textsecure__signal_message__descriptor_def signal_message_body_def)
     (simp add: signal_message_body_def MAX_CIPHERTEXT_def)

lemma yields_signal_message_serialize:
  "wf_key (sm_ratchet_key m) \<Longrightarrow> length (sm_ciphertext m) \<le> MAX_CIPHERTEXT \<Longrightarrow>
   yields (signal_message_serialize m)
     (signal_message_bytes (sm_version m) (sm_ratchet_key m) (sm_counter m) (sm_previous_counter m) (sm_ciphertext m))"
  unfolding signal_message_serialize_def signal_message_bytes_def signal_message_body_def
  by (rule yields_bindE [OF yields_ec_public_key_serialize_protobuf], rule yields_pb_pack_versioned)
     (simp_all add: fits_signal_message [unfolded signal_message_body_def])

lemma yields_new_buffer_small: "length data \<le> 2 ^ 28 \<Longrightarrow> yields (new_buffer data) data"
  by (rule yields_new_buffer) simp

lemma yields_signal_buffer_append:
  "length a + length b \<le> 2 ^ 28 \<Longrightarrow> yields (signal_buffer_append a b) (Some (a @ b))"
  unfolding signal_buffer_append_def Let_def
  by (auto simp: SIZE_MAX_def sizeof_signal_buffer_def intro!: yields_bindE [OF yields_try_alloc] yields_returnE)

lemma length_signal_message_bytes:
  assumes "wf_key rk" and "length ct \<le> MAX_CIPHERTEXT"
  shows "length (signal_message_bytes v rk n pn ct) \<le> 2 ^ 26"
  using fits_signal_message [OF assms, of n pn] by (simp add: signal_message_bytes_def fits_wire_def)

lemma yields_signal_message_create:
  assumes "hmac_laws ctx H" and "wf_key rk" and "length ct \<le> MAX_CIPHERTEXT"
  shows "yields (signal_message_create ctx v key (Some rk) n pn ct (Some s) (Some r))
    (signal_message_of H v key rk n pn ct s r)"
proof -
  let ?m = "\<lparr>sm_version = v, sm_ratchet_key = rk, sm_counter = n, sm_previous_counter = pn,
      sm_ciphertext = ct, sm_serialized = []\<rparr>"
  let ?b = "signal_message_bytes v rk n pn ct"
  have "yields (new_buffer ct) ct"
    by (rule yields_new_buffer_small) (use assms(3) in \<open>simp add: MAX_CIPHERTEXT_def\<close>)
  moreover have "yields (signal_message_serialize ?m) ?b"
    using yields_signal_message_serialize [of ?m] assms(2,3) by simp
  moreover have "yields (signal_buffer_append ?b (message_mac H v s r key ?b)) (Some (?b @ message_mac H v s r key ?b))"
    by (rule yields_signal_buffer_append)
       (use length_signal_message_bytes [OF assms(2,3), of v n pn] length_message_mac [OF assms(1)] in simp)
  moreover note yields_signal_message_get_mac [OF assms(1), of v s r key ?b]
  ultimately show ?thesis
    unfolding signal_message_create_def Let_def signal_message_of_def
    by (intro yields_thenE [OF yields_alloc] yields_bindE [OF yields_derefE] yields_bindE)
       (auto simp: yields_returnE)
qed

text \<open>A message as it comes out of either constructor: its serialised form is its fields and a MAC.\<close>

definition wf_signal_message :: "signal_message \<Rightarrow> bool" where
  "wf_signal_message m =
     ((sm_version m = 2 \<or> sm_version m = 3) \<and> wf_key (sm_ratchet_key m) \<and>
      length (sm_ciphertext m) \<le> MAX_CIPHERTEXT \<and>
      (\<exists>mac. length mac = 8 \<and> sm_serialized m =
         signal_message_bytes (sm_version m) (sm_ratchet_key m) (sm_counter m) (sm_previous_counter m)
           (sm_ciphertext m) @ mac))"

lemma yields_signal_message_deserialize:
  assumes "wf_signal_message m"
  shows "yields (signal_message_deserialize (sm_serialized m)) m"
proof -
  let ?D = textsecure__signal_message__descriptor
  let ?body = "signal_message_body (sm_ratchet_key m) (sm_counter m) (sm_previous_counter m) (sm_ciphertext m)"
  obtain mac where mac: "length mac = 8"
    and ser: "sm_serialized m = version_byte (sm_version m) # protobuf_c_message_pack ?D ?body @ mac"
    and v: "sm_version m = 2 \<or> sm_version m = 3" and wf: "wf_key (sm_ratchet_key m)"
      "length (sm_ciphertext m) \<le> MAX_CIPHERTEXT"
    using assms by (auto simp: wf_signal_message_def signal_message_bytes_def)
  have fits: "fits_wire ?D ?body" by (rule fits_signal_message [OF wf])
  have ne: "protobuf_c_message_pack ?D ?body \<noteq> []"
    by (simp add: textsecure__signal_message__descriptor_def signal_message_body_def tag_with_wire_type_def
        binary_data_pack_def Let_def)
  have "yields (new_buffer (sm_serialized m)) (sm_serialized m)"
    using fits mac by (intro yields_new_buffer_small) (simp add: ser fits_wire_def)
  moreover have "yields (new_buffer (sm_ciphertext m)) (sm_ciphertext m)"
    using wf(2) by (intro yields_new_buffer_small) (simp add: MAX_CIPHERTEXT_def)
  moreover have "yields (pb_unpack ?D (take (length (sm_serialized m) - 1 - SIGNAL_MESSAGE_MAC_LENGTH)
      (drop 1 (sm_serialized m)))) ?body"
    using yields_pb_unpack [OF _ fits] mac by (simp add: ser SIGNAL_MESSAGE_MAC_LENGTH_def)
  moreover have "high_nibble (sm_serialized m ! 0) = sm_version m"
    using high_nibble_version_byte [OF v] by (simp add: ser)
  moreover have "\<not> length (sm_serialized m) \<le> 1 + SIGNAL_MESSAGE_MAC_LENGTH"
    using ne mac by (simp add: ser SIGNAL_MESSAGE_MAC_LENGTH_def)
  ultimately show ?thesis
    unfolding signal_message_deserialize_def Let_def
    apply (simp only: message_version_ok [OF v] if_False simp_thms)
    apply (rule yields_bindE, assumption)
    apply (simp add: signal_message_body_def pb_member_defs)
    apply (rule yields_thenE [OF yields_alloc], rule yields_bindE [OF yields_curve_decode_point [OF wf(1)]])
    apply (rule yields_bindE, assumption)+
    apply (rule yields_cong [OF yields_returnE], simp)
    done
qed

interpretation signal_message_codec:
  object_codec "\<lambda>m. returnE (sm_serialized m)" signal_message_deserialize wf_signal_message sm_serialized
  by unfold_locales (auto intro: yields_returnE yields_signal_message_deserialize)

lemma wf_signal_message_of:
  assumes "hmac_laws ctx H" and "v = 2 \<or> v = 3" and "wf_key rk" and "length ct \<le> MAX_CIPHERTEXT"
  shows "wf_signal_message (signal_message_of H v key rk n pn ct s r)"
  using assms by (auto simp: wf_signal_message_def signal_message_of_def length_message_mac)

lemma memcmp_self: "signal_constant_memcmp a a n = 0"
  by (simp add: signal_constant_memcmp_def uint_0_iff memcmp_loop_eq_0)

lemma yields_verify_mac:
  assumes "hmac_laws ctx H"
  shows "yields (signal_message_verify_mac ctx (signal_message_of H v key rk n pn ct s r) (Some s) (Some r) key) True"
proof -
  let ?b = "signal_message_bytes v rk n pn ct"
  let ?mac = "message_mac H v s r key ?b"
  have len: "length (?b @ ?mac) - SIGNAL_MESSAGE_MAC_LENGTH = length ?b" "length ?mac = SIGNAL_MESSAGE_MAC_LENGTH"
    by (simp_all add: length_message_mac [OF assms] SIGNAL_MESSAGE_MAC_LENGTH_def)
  have "yields (signal_message_get_mac ctx v (Some s) (Some r) key ?b) ?mac"
    by (rule yields_signal_message_get_mac [OF assms])
  with len show ?thesis
    unfolding signal_message_verify_mac_def Let_def signal_message_of_def
    by (intro yields_thenE [OF yields_assertE] yields_bindE [where y = ?mac] yields_thenE [OF yields_guardE]
          yields_cong [OF yields_returnE])
       (simp_all add: memcmp_self)
qed

text \<open>A MAC that verifies is the MAC of the serialised message, whatever the message is.\<close>

lemma yields_verify_mac_iff:
  assumes "hmac_laws ctx H" and "length (sm_serialized m) \<ge> 8"
  shows "yields (signal_message_verify_mac ctx m (Some s) (Some r) key)
    (drop (length (sm_serialized m) - 8) (sm_serialized m) =
     message_mac H (sm_version m) s r key (take (length (sm_serialized m) - 8) (sm_serialized m)))"
proof -
  let ?d = "sm_serialized m"
  let ?n = "length ?d - 8"
  let ?mac = "message_mac H (sm_version m) s r key (take ?n ?d)"
  have "yields (signal_message_get_mac ctx (sm_version m) (Some s) (Some r) key (take ?n ?d)) ?mac"
    by (rule yields_signal_message_get_mac [OF assms(1)])
  moreover have "(signal_constant_memcmp ?mac (drop ?n ?d) (length ?mac) = 0) = (drop ?n ?d = ?mac)"
    using assms(2) length_message_mac [OF assms(1), of "sm_version m" s r key "take ?n ?d"]
    by (subst signal_constant_memcmp_eq_0) auto
  ultimately show ?thesis
    unfolding signal_message_verify_mac_def Let_def SIGNAL_MESSAGE_MAC_LENGTH_def
    using assms(2) length_message_mac [OF assms(1)]
    by (intro yields_thenE [OF yields_assertE] yields_bindE [where y = ?mac] yields_thenE [OF yields_guardE]
          yields_cong [OF yields_returnE]) simp_all
qed

section \<open>Pre key messages\<close>

definition pre_key_message_body ::
    "32 word \<Rightarrow> 32 word option \<Rightarrow> 32 word \<Rightarrow> ec_public_key \<Rightarrow> ec_public_key \<Rightarrow> bytes \<Rightarrow> pb_message" where
  "pre_key_message_body reg pk spk base ident msg =
     PBMsg [opt_slot V_UINT32 pk, [V_BYTES (DJB_TYPE # base)], [V_BYTES (DJB_TYPE # ident)], [V_BYTES msg],
       [V_UINT32 reg], [V_UINT32 spk]] []"

definition pre_key_message_of ::
    "32 word \<Rightarrow> 32 word option \<Rightarrow> 32 word \<Rightarrow> ec_public_key \<Rightarrow> ec_public_key \<Rightarrow> signal_message
      \<Rightarrow> pre_key_signal_message" where
  "pre_key_message_of reg pk spk base ident msg =
     \<lparr>pkm_version = 3, pkm_registration_id = reg, pkm_pre_key_id = pk, pkm_signed_pre_key_id = spk,
      pkm_base_key = base, pkm_identity_key = ident, pkm_message = msg,
      pkm_serialized = version_byte 3 # protobuf_c_message_pack textsecure__pre_key_signal_message__descriptor
        (pre_key_message_body reg pk spk base ident (sm_serialized msg))\<rparr>"

lemma fits_pre_key_message:
  "wf_key base \<Longrightarrow> wf_key ident \<Longrightarrow> length msg \<le> 2 ^ 25 + 2 ^ 24 \<Longrightarrow>
   fits_wire textsecure__pre_key_signal_message__descriptor (pre_key_message_body reg pk spk base ident msg)"
  by (rule fits_wireI, simp,
      cases pk, (simp add: textsecure__pre_key_signal_message__descriptor_def pre_key_message_body_def)+)
     (cases pk, (simp add: pre_key_message_body_def)+)

text \<open>The bound on the inner message of a pre key message.\<close>

definition wf_inner_message :: "signal_message \<Rightarrow> bool" where
  "wf_inner_message m = (wf_signal_message m \<and> sm_version m = 3 \<and> length (sm_ciphertext m) \<le> 2 ^ 24)"

lemma length_inner_message:
  assumes "wf_inner_message m"
  shows "length (sm_serialized m) \<le> 2 ^ 25"
proof -
  let ?body = "signal_message_body (sm_ratchet_key m) (sm_counter m) (sm_previous_counter m) (sm_ciphertext m)"
  have ok: "msg_ok textsecure__signal_message__descriptor ?body"
    by (simp add: textsecure__signal_message__descriptor_def signal_message_body_def)
  have "length (protobuf_c_message_pack textsecure__signal_message__descriptor ?body) \<le> msg_weight ?body"
    using packed_size_le_weight(2) [OF _ ok] packed_size(2) [OF _ ok] by simp
  then show ?thesis
    using assms by (auto simp: wf_inner_message_def wf_signal_message_def signal_message_bytes_def signal_message_body_def)
qed

lemma yields_pre_key_signal_message_create:
  assumes "wf_key base" and "wf_key ident" and "wf_inner_message msg"
  shows "yields (pre_key_signal_message_create 3 reg pk spk (Some base) (Some ident) (Some msg))
    (pre_key_message_of reg pk spk base ident msg)"
  unfolding pre_key_signal_message_create_def Let_def pre_key_signal_message_serialize_def
  by (rule yields_thenE [OF yields_alloc], (rule yields_bindE [OF yields_derefE])+,
      simp, rule yields_bindE, (rule yields_bindE [OF yields_ec_public_key_serialize_protobuf])+,
      rule yields_pb_pack_versioned, simp, rule fits_pre_key_message [unfolded pre_key_message_body_def])
     (use assms length_inner_message [OF assms(3)] in
       \<open>auto simp: pre_key_message_of_def pre_key_message_body_def intro!: yields_cong [OF yields_returnE]\<close>)

lemma yields_pre_key_signal_message_deserialize:
  assumes "wf_key base" and "wf_key ident" and "wf_inner_message msg"
  shows "yields (pre_key_signal_message_deserialize (pkm_serialized (pre_key_message_of reg pk spk base ident msg)))
    (pre_key_message_of reg pk spk base ident msg)"
proof -
  let ?D = textsecure__pre_key_signal_message__descriptor
  let ?body = "pre_key_message_body reg pk spk base ident (sm_serialized msg)"
  let ?data = "version_byte 3 # protobuf_c_message_pack ?D ?body"
  have fits: "fits_wire ?D ?body"
    by (rule fits_pre_key_message [OF assms(1,2)]) (use length_inner_message [OF assms(3)] in simp)
  have ne: "protobuf_c_message_pack ?D ?body \<noteq> []"
    by (cases pk) (simp_all add: textsecure__pre_key_signal_message__descriptor_def pre_key_message_body_def
        tag_with_wire_type_def binary_data_pack_def Let_def)
  have "yields (new_buffer ?data) ?data"
    using fits by (intro yields_new_buffer_small) (simp add: fits_wire_def)
  moreover have "yields (signal_message_deserialize (sm_serialized msg)) msg"
    using assms(3) by (intro yields_signal_message_deserialize) (simp add: wf_inner_message_def)
  moreover have "yields (pb_unpack ?D (drop 1 ?data)) ?body" using yields_pb_unpack [OF _ fits] by simp
  moreover have "high_nibble (?data ! 0) = 3" by (simp add: high_nibble_version_byte)
  moreover have "\<not> length ?data \<le> 1" using ne by simp
  moreover have "sm_version msg = 3" using assms(3) by (simp add: wf_inner_message_def)
  ultimately show ?thesis
    unfolding pre_key_signal_message_deserialize_def Let_def pre_key_message_of_def pre_key_signal_message.simps
    apply (simp only: CIPHERTEXT_CURRENT_VERSION_def if_False less_irrefl)
    apply (rule yields_bindE, assumption)
    apply (simp add: pre_key_message_body_def pb_member_defs)
    apply (rule yields_thenE [OF yields_alloc], rule yields_bindE [OF yields_curve_decode_point [OF assms(1)]],
        rule yields_bindE [OF yields_curve_decode_point [OF assms(2)]])
    apply (rule yields_bindE, assumption, rule yields_thenE [OF yields_guardE], simp, rule yields_bindE, assumption)
    apply (rule yields_cong [OF yields_returnE], simp)
    done
qed

definition wf_pre_key_message :: "pre_key_signal_message \<Rightarrow> bool" where
  "wf_pre_key_message m =
     (wf_key (pkm_base_key m) \<and> wf_key (pkm_identity_key m) \<and> wf_inner_message (pkm_message m) \<and>
      m = pre_key_message_of (pkm_registration_id m) (pkm_pre_key_id m) (pkm_signed_pre_key_id m)
        (pkm_base_key m) (pkm_identity_key m) (pkm_message m))"

interpretation pre_key_message_codec:
  object_codec "\<lambda>m. returnE (pkm_serialized m)" pre_key_signal_message_deserialize wf_pre_key_message pkm_serialized
proof unfold_locales
  fix m :: pre_key_signal_message
  assume "wf_pre_key_message m"
  then show "yields (pre_key_signal_message_deserialize (pkm_serialized m)) m"
    unfolding wf_pre_key_message_def by (metis yields_pre_key_signal_message_deserialize)
qed (rule yields_returnE)

end
