(* ===== verification/Session_State.thy ===== *)
theory Session_State
  imports Ratchet Proto_Schemas
begin

text \<open>
  session\_state.c: the state of one double-ratchet session, its operations and its protobuf form.
  The counted pointers of the source are values; a null pointer is \<open>None\<close>.  A receiver chain is
  addressed by its position in the list.
\<close>

section \<open>Data\<close>

record session_state_sender_chain =
  sender_ratchet_key_pair :: "ec_key_pair option"
  sender_chain_key :: "ratchet_chain_key option"

record session_state_receiver_chain =
  sender_ratchet_key :: "ec_public_key option"
  chain_key :: "ratchet_chain_key option"
  message_keys :: "ratchet_message_keys list"

record session_pending_key_exchange =
  sequence :: "32 word"
  local_base_key :: "ec_key_pair option"
  local_ratchet_key :: "ec_key_pair option"
  local_identity_key :: "ratchet_identity_key_pair option"

record session_pending_pre_key =
  has_pre_key_id :: bool
  pending_pre_key_id :: "32 word"
  pending_signed_pre_key_id :: "32 word"
  pending_base_key :: "ec_public_key option"

record session_state =
  session_version :: "32 word"
  local_identity_public :: "ec_public_key option"
  remote_identity_public :: "ec_public_key option"
  root_key :: "ratchet_root_key option"
  previous_counter :: "32 word"
  has_sender_chain :: bool
  sender_chain :: session_state_sender_chain
  receiver_chains :: "session_state_receiver_chain list"
  has_pending_key_exchange :: bool
  pending_key_exchange :: session_pending_key_exchange
  has_pending_pre_key :: bool
  pending_pre_key :: session_pending_pre_key
  remote_registration_id :: "32 word"
  local_registration_id :: "32 word"
  needs_refresh :: bool
  alice_base_key :: "ec_public_key option"

definition MAX_MESSAGE_KEYS :: nat where "MAX_MESSAGE_KEYS = 2000"
definition MAX_RECEIVER_CHAINS :: nat where "MAX_RECEIVER_CHAINS = 5"

definition no_sender_chain :: session_state_sender_chain where
  "no_sender_chain = \<lparr>sender_ratchet_key_pair = None, sender_chain_key = None\<rparr>"

definition no_pending_key_exchange :: session_pending_key_exchange where
  "no_pending_key_exchange =
     \<lparr>sequence = 0, local_base_key = None, local_ratchet_key = None, local_identity_key = None\<rparr>"

definition no_pending_pre_key :: session_pending_pre_key where
  "no_pending_pre_key = \<lparr>has_pre_key_id = False, pending_pre_key_id = 0,
     pending_signed_pre_key_id = 0, pending_base_key = None\<rparr>"

text \<open>The zeroed structure of \<open>session_state_create\<close>.\<close>

definition empty_session_state :: session_state where
  "empty_session_state = \<lparr>session_version = 2, local_identity_public = None,
     remote_identity_public = None, root_key = None, previous_counter = 0, has_sender_chain = False,
     sender_chain = no_sender_chain, receiver_chains = [], has_pending_key_exchange = False,
     pending_key_exchange = no_pending_key_exchange, has_pending_pre_key = False,
     pending_pre_key = no_pending_pre_key, remote_registration_id = 0, local_registration_id = 0,
     needs_refresh = False, alice_base_key = None\<rparr>"

definition session_state_create :: "('c, 's, session_state) M" where
  "session_state_create = thenE alloc (returnE empty_session_state)"

section \<open>Operations\<close>

definition session_state_set_session_version :: "session_state \<Rightarrow> 32 word \<Rightarrow> session_state" where
  "session_state_set_session_version st version = st\<lparr>session_version := version\<rparr>"

definition session_state_set_local_identity_key :: "session_state \<Rightarrow> ec_public_key \<Rightarrow> session_state" where
  "session_state_set_local_identity_key st identity_key = st\<lparr>local_identity_public := Some identity_key\<rparr>"

definition session_state_set_remote_identity_key :: "session_state \<Rightarrow> ec_public_key \<Rightarrow> session_state" where
  "session_state_set_remote_identity_key st identity_key = st\<lparr>remote_identity_public := Some identity_key\<rparr>"

definition session_state_set_root_key :: "session_state \<Rightarrow> ratchet_root_key \<Rightarrow> session_state" where
  "session_state_set_root_key st rk = st\<lparr>root_key := Some rk\<rparr>"

definition session_state_set_previous_counter :: "session_state \<Rightarrow> 32 word \<Rightarrow> session_state" where
  "session_state_set_previous_counter st n = st\<lparr>previous_counter := n\<rparr>"

definition session_state_set_sender_chain ::
    "session_state \<Rightarrow> ec_key_pair \<Rightarrow> ratchet_chain_key \<Rightarrow> session_state" where
  "session_state_set_sender_chain st kp ck =
     st\<lparr>has_sender_chain := True,
        sender_chain := \<lparr>sender_ratchet_key_pair = Some kp, sender_chain_key = Some ck\<rparr>\<rparr>"

definition session_state_get_sender_ratchet_key :: "session_state \<Rightarrow> ec_public_key option" where
  "session_state_get_sender_ratchet_key st =
     map_option public_key (sender_ratchet_key_pair (sender_chain st))"

definition session_state_get_sender_ratchet_key_pair :: "session_state \<Rightarrow> ec_key_pair option" where
  "session_state_get_sender_ratchet_key_pair st = sender_ratchet_key_pair (sender_chain st)"

definition session_state_get_sender_chain_key :: "session_state \<Rightarrow> ratchet_chain_key option" where
  "session_state_get_sender_chain_key st = sender_chain_key (sender_chain st)"

definition session_state_set_sender_chain_key ::
    "session_state \<Rightarrow> ratchet_chain_key \<Rightarrow> 'w \<Rightarrow> session_state res \<times> 'w" where
  "session_state_set_sender_chain_key st ck =
     (if has_sender_chain st
      then returnE (st\<lparr>sender_chain := (sender_chain st)\<lparr>sender_chain_key := Some ck\<rparr>\<rparr>)
      else failE SG_ERR_UNKNOWN)"

definition session_state_find_receiver_chain :: "session_state \<Rightarrow> ec_public_key \<Rightarrow> nat option" where
  "session_state_find_receiver_chain st sender_ephemeral =
     dl_search (\<lambda>chain. ec_public_key_compare (sender_ratchet_key chain) (Some sender_ephemeral) = 0)
       (receiver_chains st)"

definition session_state_has_message_keys :: "session_state \<Rightarrow> ec_public_key \<Rightarrow> 32 word \<Rightarrow> bool" where
  "session_state_has_message_keys st sender_ephemeral n =
     (case session_state_find_receiver_chain st sender_ephemeral of
        None \<Rightarrow> False
      | Some i \<Rightarrow> list_ex (\<lambda>mk. counter mk = n) (message_keys (receiver_chains st ! i)))"

text \<open>The removed keys, when there are any, and the state as it is left.\<close>

definition session_state_remove_message_keys ::
    "session_state \<Rightarrow> ec_public_key \<Rightarrow> 32 word \<Rightarrow> ratchet_message_keys option \<times> session_state" where
  "session_state_remove_message_keys st sender_ephemeral n =
     (case session_state_find_receiver_chain st sender_ephemeral of
        None \<Rightarrow> (None, st)
      | Some i \<Rightarrow>
          (let chain = receiver_chains st ! i in
           case dl_search (\<lambda>mk. counter mk = n) (message_keys chain) of
             None \<Rightarrow> (None, st)
           | Some j \<Rightarrow>
               (Some (message_keys chain ! j),
                st\<lparr>receiver_chains :=
                  (receiver_chains st)[i := chain\<lparr>message_keys := dl_delete j (message_keys chain)\<rparr>]\<rparr>)))"

definition session_state_set_message_keys ::
    "session_state \<Rightarrow> ec_public_key \<Rightarrow> ratchet_message_keys \<Rightarrow> ('c, 's, session_state) M" where
  "session_state_set_message_keys st sender_ephemeral mk =
     (case session_state_find_receiver_chain st sender_ephemeral of
        None \<Rightarrow> returnE st
      | Some i \<Rightarrow>
          thenE alloc
           (let chain = receiver_chains st ! i in
            returnE (st\<lparr>receiver_chains := (receiver_chains st)[i :=
              chain\<lparr>message_keys := dl_trim MAX_MESSAGE_KEYS (message_keys chain @ [mk])\<rparr>]\<rparr>)))"

definition session_state_add_receiver_chain ::
    "session_state \<Rightarrow> ec_public_key \<Rightarrow> ratchet_chain_key \<Rightarrow> ('c, 's, session_state) M" where
  "session_state_add_receiver_chain st ratchet_key ck =
     thenE alloc
      (returnE (st\<lparr>receiver_chains := dl_trim MAX_RECEIVER_CHAINS (receiver_chains st @
         [\<lparr>sender_ratchet_key = Some ratchet_key, chain_key = Some ck, message_keys = []\<rparr>])\<rparr>))"

definition session_state_set_receiver_chain_key ::
    "session_state \<Rightarrow> ec_public_key \<Rightarrow> ratchet_chain_key \<Rightarrow> 'w \<Rightarrow> session_state res \<times> 'w" where
  "session_state_set_receiver_chain_key st sender_ephemeral ck =
     (case session_state_find_receiver_chain st sender_ephemeral of
        None \<Rightarrow> failE SG_ERR_UNKNOWN
      | Some i \<Rightarrow> returnE (st\<lparr>receiver_chains :=
          (receiver_chains st)[i := (receiver_chains st ! i)\<lparr>chain_key := Some ck\<rparr>]\<rparr>))"

definition session_state_get_receiver_chain_key ::
    "session_state \<Rightarrow> ec_public_key \<Rightarrow> ratchet_chain_key option" where
  "session_state_get_receiver_chain_key st sender_ephemeral =
     (case session_state_find_receiver_chain st sender_ephemeral of
        None \<Rightarrow> None
      | Some i \<Rightarrow> chain_key (receiver_chains st ! i))"

definition session_state_set_pending_key_exchange ::
    "session_state \<Rightarrow> 32 word \<Rightarrow> ec_key_pair \<Rightarrow> ec_key_pair \<Rightarrow> ratchet_identity_key_pair \<Rightarrow> session_state" where
  "session_state_set_pending_key_exchange st seqn our_base_key our_ratchet_key our_identity_key =
     st\<lparr>has_pending_key_exchange := True,
        pending_key_exchange := \<lparr>sequence = seqn, local_base_key = Some our_base_key,
          local_ratchet_key = Some our_ratchet_key, local_identity_key = Some our_identity_key\<rparr>\<rparr>"

definition session_state_get_pending_key_exchange_sequence :: "session_state \<Rightarrow> 32 word" where
  "session_state_get_pending_key_exchange_sequence st =
     (if has_pending_key_exchange st then sequence (pending_key_exchange st) else 0)"

definition session_state_get_pending_key_exchange_base_key :: "session_state \<Rightarrow> ec_key_pair option" where
  "session_state_get_pending_key_exchange_base_key st =
     (if has_pending_key_exchange st then local_base_key (pending_key_exchange st) else None)"

definition session_state_get_pending_key_exchange_ratchet_key :: "session_state \<Rightarrow> ec_key_pair option" where
  "session_state_get_pending_key_exchange_ratchet_key st =
     (if has_pending_key_exchange st then local_ratchet_key (pending_key_exchange st) else None)"

definition session_state_get_pending_key_exchange_identity_key ::
    "session_state \<Rightarrow> ratchet_identity_key_pair option" where
  "session_state_get_pending_key_exchange_identity_key st =
     (if has_pending_key_exchange st then local_identity_key (pending_key_exchange st) else None)"

definition session_state_set_unacknowledged_pre_key_message ::
    "session_state \<Rightarrow> 32 word option \<Rightarrow> 32 word \<Rightarrow> ec_public_key \<Rightarrow> session_state" where
  "session_state_set_unacknowledged_pre_key_message st pre_key_id signed_pre_key_id base_key =
     st\<lparr>has_pending_pre_key := True,
        pending_pre_key := \<lparr>has_pre_key_id = (pre_key_id \<noteq> None),
          pending_pre_key_id = (case pre_key_id of None \<Rightarrow> 0 | Some i \<Rightarrow> i),
          pending_signed_pre_key_id = signed_pre_key_id, pending_base_key = Some base_key\<rparr>\<rparr>"

definition session_state_unacknowledged_pre_key_message_get_pre_key_id ::
    "session_state \<Rightarrow> 'w \<Rightarrow> (32 word) res \<times> 'w" where
  "session_state_unacknowledged_pre_key_message_get_pre_key_id st =
     thenE (assertE (has_pre_key_id (pending_pre_key st)))
       (returnE (pending_pre_key_id (pending_pre_key st)))"

definition session_state_clear_unacknowledged_pre_key_message :: "session_state \<Rightarrow> session_state" where
  "session_state_clear_unacknowledged_pre_key_message st =
     st\<lparr>has_pending_pre_key := False, pending_pre_key := no_pending_pre_key\<rparr>"

definition session_state_set_remote_registration_id :: "session_state \<Rightarrow> 32 word \<Rightarrow> session_state" where
  "session_state_set_remote_registration_id st i = st\<lparr>remote_registration_id := i\<rparr>"

definition session_state_set_local_registration_id :: "session_state \<Rightarrow> 32 word \<Rightarrow> session_state" where
  "session_state_set_local_registration_id st i = st\<lparr>local_registration_id := i\<rparr>"

definition session_state_set_needs_refresh :: "session_state \<Rightarrow> int \<Rightarrow> 'w \<Rightarrow> session_state res \<times> 'w" where
  "session_state_set_needs_refresh st v =
     thenE (assertE (v = 0 \<or> v = 1)) (returnE (st\<lparr>needs_refresh := (v = 1)\<rparr>))"

definition session_state_set_alice_base_key :: "session_state \<Rightarrow> ec_public_key \<Rightarrow> session_state" where
  "session_state_set_alice_base_key st key = st\<lparr>alice_base_key := Some key\<rparr>"

section \<open>Protobuf form\<close>

text \<open>A key pair as its two serialised members.\<close>

definition serialize_key_pair ::
    "ec_public_key \<Rightarrow> ec_private_key \<Rightarrow> ('c, 's, bytes \<times> bytes) M" where
  "serialize_key_pair pub priv =
     bindE (ec_public_key_serialize_protobuf (Some pub)) (\<lambda>p.
     bindE (ec_private_key_serialize_protobuf (Some priv)) (\<lambda>k. returnE (p, k)))"

definition session_state_serialize_prepare_chain_chain_key ::
    "ratchet_chain_key \<Rightarrow> ('c, 's, pb_message) M" where
  "session_state_serialize_prepare_chain_chain_key ck =
     thenE alloc
      (bindE (ratchet_chain_key_get_key_protobuf (Some ck)) (\<lambda>k.
       returnE (PBMsg [[V_UINT32 (ck_index ck)], [V_BYTES k]] [])))"

definition session_state_serialize_prepare_message_keys ::
    "ratchet_message_keys \<Rightarrow> ('c, 's, pb_message) M" where
  "session_state_serialize_prepare_message_keys mk =
     thenE alloc (thenE alloc (thenE alloc
      (returnE (PBMsg [[V_UINT32 (counter mk)], [V_BYTES (cipher_key mk)], [V_BYTES (mac_key mk)],
         [V_BYTES (iv mk)]] []))))"

text \<open>An array of pointers to structures: one \<open>malloc\<close> for the array, one for each element.\<close>

definition prepare_list :: "('a \<Rightarrow> ('c, 's, pb_message) M) \<Rightarrow> 'a list \<Rightarrow> ('c, 's, pb_message list) M" where
  "prepare_list f xs =
     (if xs = [] then returnE []
      else
        thenE (guardE (length xs \<le> SIZE_MAX div 8) SG_ERR_NOMEM)
        (thenE alloc (mapE (\<lambda>x. thenE alloc (f x)) xs)))"

definition session_state_serialize_prepare_chain_message_keys_list ::
    "ratchet_message_keys list \<Rightarrow> ('c, 's, pb_message list) M" where
  "session_state_serialize_prepare_chain_message_keys_list mks =
     prepare_list session_state_serialize_prepare_message_keys mks"

definition session_state_serialize_prepare_sender_chain ::
    "session_state_sender_chain \<Rightarrow> ('c, 's, pb_message) M" where
  "session_state_serialize_prepare_sender_chain chain =
     bindE (optE (\<lambda>kp. serialize_key_pair (public_key kp) (private_key kp)) (sender_ratchet_key_pair chain))
       (\<lambda>keys.
     bindE (optE session_state_serialize_prepare_chain_chain_key (sender_chain_key chain)) (\<lambda>ck.
     returnE (PBMsg [opt_slot V_BYTES (map_option fst keys), opt_slot V_BYTES (map_option snd keys),
       opt_slot V_MESSAGE ck, []] [])))"

definition session_state_serialize_prepare_receiver_chain ::
    "session_state_receiver_chain \<Rightarrow> ('c, 's, pb_message) M" where
  "session_state_serialize_prepare_receiver_chain chain =
     bindE (optE (\<lambda>k. ec_public_key_serialize_protobuf (Some k)) (sender_ratchet_key chain)) (\<lambda>key.
     bindE (optE session_state_serialize_prepare_chain_chain_key (chain_key chain)) (\<lambda>ck.
     bindE (session_state_serialize_prepare_chain_message_keys_list (message_keys chain)) (\<lambda>mks.
     returnE (PBMsg [opt_slot V_BYTES key, [], opt_slot V_MESSAGE ck, map V_MESSAGE mks] []))))"

definition session_state_serialize_prepare_pending_key_exchange ::
    "session_pending_key_exchange \<Rightarrow> ('c, 's, pb_message) M" where
  "session_state_serialize_prepare_pending_key_exchange ex =
     bindE (optE (\<lambda>kp. serialize_key_pair (public_key kp) (private_key kp)) (local_base_key ex)) (\<lambda>base.
     bindE (optE (\<lambda>kp. serialize_key_pair (public_key kp) (private_key kp)) (local_ratchet_key ex)) (\<lambda>ratchet.
     bindE (optE (\<lambda>kp. serialize_key_pair (id_public_key kp) (id_private_key kp)) (local_identity_key ex))
       (\<lambda>ident.
     returnE (PBMsg [[V_UINT32 (sequence ex)],
       opt_slot V_BYTES (map_option fst base), opt_slot V_BYTES (map_option snd base),
       opt_slot V_BYTES (map_option fst ratchet), opt_slot V_BYTES (map_option snd ratchet),
       opt_slot V_BYTES (map_option fst ident), opt_slot V_BYTES (map_option snd ident)] []))))"

definition session_state_serialize_prepare_pending_pre_key ::
    "session_pending_pre_key \<Rightarrow> ('c, 's, pb_message) M" where
  "session_state_serialize_prepare_pending_pre_key pk =
     bindE (optE (\<lambda>k. ec_public_key_serialize_protobuf (Some k)) (pending_base_key pk)) (\<lambda>key.
     returnE (PBMsg [if has_pre_key_id pk then [V_UINT32 (pending_pre_key_id pk)] else [],
       opt_slot V_BYTES key, [V_INT32 (pending_signed_pre_key_id pk)]] []))"

text \<open>A member of the state that is there when its flag is set.\<close>

definition present :: "bool \<Rightarrow> 'a \<Rightarrow> 'a option" where
  "present b x = (if b then Some x else None)"

definition session_state_serialize_prepare :: "session_state \<Rightarrow> ('c, 's, pb_message) M" where
  "session_state_serialize_prepare st =
     bindE (optE (\<lambda>k. ec_public_key_serialize_protobuf (Some k)) (local_identity_public st)) (\<lambda>local_id.
     bindE (optE (\<lambda>k. ec_public_key_serialize_protobuf (Some k)) (remote_identity_public st)) (\<lambda>remote_id.
     bindE (optE (\<lambda>rk. ratchet_root_key_get_key_protobuf (Some rk)) (root_key st)) (\<lambda>root.
     bindE (optE (\<lambda>c. thenE alloc (session_state_serialize_prepare_sender_chain c))
              (present (has_sender_chain st) (sender_chain st))) (\<lambda>sender.
     bindE (prepare_list session_state_serialize_prepare_receiver_chain (receiver_chains st)) (\<lambda>receivers.
     bindE (optE (\<lambda>x. thenE alloc (session_state_serialize_prepare_pending_key_exchange x))
              (present (has_pending_key_exchange st) (pending_key_exchange st))) (\<lambda>exchange.
     bindE (optE (\<lambda>x. thenE alloc (session_state_serialize_prepare_pending_pre_key x))
              (present (has_pending_pre_key st) (pending_pre_key st))) (\<lambda>pending.
     bindE (optE (\<lambda>k. ec_public_key_serialize_protobuf (Some k)) (alice_base_key st)) (\<lambda>base_key.
     returnE (PBMsg [[V_UINT32 (session_version st)], opt_slot V_BYTES local_id,
       opt_slot V_BYTES remote_id, opt_slot V_BYTES root, [V_UINT32 (previous_counter st)],
       opt_slot V_MESSAGE sender, map V_MESSAGE receivers, opt_slot V_MESSAGE exchange,
       opt_slot V_MESSAGE pending, [V_UINT32 (remote_registration_id st)],
       [V_UINT32 (local_registration_id st)], [V_BOOL (needs_refresh st)],
       opt_slot V_BYTES base_key] [])))))))))"

definition session_state_serialize :: "session_state \<Rightarrow> ('c, 's, bytes) M" where
  "session_state_serialize st =
     thenE alloc
      (bindE (session_state_serialize_prepare st) (pb_pack textsecure__session_structure__descriptor))"

text \<open>Members without data have a null data pointer.\<close>

definition data_pointer :: "bytes \<Rightarrow> bytes option" where
  "data_pointer bs = (if bs = [] then None else Some bs)"

definition decode_key_pair ::
    "(ec_public_key \<Rightarrow> ec_private_key \<Rightarrow> ('c, 's, 'a) M) \<Rightarrow> bytes option \<Rightarrow> bytes option
      \<Rightarrow> ('c, 's, 'a option) M" where
  "decode_key_pair create pub priv =
     (case (pub, priv) of
        (Some p, Some k) \<Rightarrow>
          bindE (curve_decode_point p) (\<lambda>p'.
          bindE (curve_decode_private_point k) (\<lambda>k'.
          bindE (create p' k') (\<lambda>kp. returnE (Some kp))))
      | _ \<Rightarrow> returnE None)"

text \<open>Both chain readers drop their reference to the key derivation context at the end.  After an
  unsupported version \<open>hkdf_create\<close> has freed the context and left the pointer set, so that this is a
  use after free.\<close>

definition decode_chain_key ::
    "32 word \<Rightarrow> pb_message option \<Rightarrow> ('c, 's, ratchet_chain_key option) M" where
  "decode_chain_key version ck_structure =
     (case ck_structure of
        None \<Rightarrow> returnE None
      | Some m \<Rightarrow>
         (case (pb_uint32 0 m, pb_bytes 1 m) of
            (Some index, Some key) \<Rightarrow>
              tryE (hkdf_create (unat version))
                (\<lambda>e. if e = SG_ERR_INVAL then faultE else failE e)
                (\<lambda>kdf. bindE (ratchet_chain_key_create (Some kdf) (data_pointer key) index)
                   (\<lambda>ck. returnE (Some ck)))
          | _ \<Rightarrow> returnE None))"

definition session_state_deserialize_protobuf_sender_chain ::
    "32 word \<Rightarrow> pb_message \<Rightarrow> ('c, 's, session_state_sender_chain) M" where
  "session_state_deserialize_protobuf_sender_chain version m =
     bindE (decode_key_pair ec_key_pair_create (pb_bytes 0 m) (pb_bytes 1 m)) (\<lambda>kp.
     bindE (decode_chain_key version (pb_sub 2 m)) (\<lambda>ck.
     returnE \<lparr>sender_ratchet_key_pair = kp, sender_chain_key = ck\<rparr>))"

text \<open>A member of the wrong length leaves the zeroes of the new node.\<close>

definition fixed_array :: "nat \<Rightarrow> bytes option \<Rightarrow> bytes" where
  "fixed_array n field =
     (case field of Some bs \<Rightarrow> if length bs = n then bs else replicate n 0 | None \<Rightarrow> replicate n 0)"

definition decode_message_keys :: "pb_message \<Rightarrow> ('c, 's, ratchet_message_keys) M" where
  "decode_message_keys m =
     thenE alloc
      (returnE \<lparr>cipher_key = fixed_array RATCHET_CIPHER_KEY_LENGTH (pb_bytes 1 m),
         mac_key = fixed_array RATCHET_MAC_KEY_LENGTH (pb_bytes 2 m),
         iv = fixed_array RATCHET_IV_LENGTH (pb_bytes 3 m),
         counter = (case pb_uint32 0 m of None \<Rightarrow> 0 | Some n \<Rightarrow> n)\<rparr>)"

definition session_state_deserialize_protobuf_receiver_chain ::
    "32 word \<Rightarrow> pb_message \<Rightarrow> ('c, 's, session_state_receiver_chain) M" where
  "session_state_deserialize_protobuf_receiver_chain version m =
     bindE (optE curve_decode_point (pb_bytes 0 m)) (\<lambda>key.
     bindE (decode_chain_key version (pb_sub 2 m)) (\<lambda>ck.
     bindE (mapE decode_message_keys (pb_subs 3 m)) (\<lambda>mks.
     returnE \<lparr>sender_ratchet_key = key, chain_key = ck, message_keys = mks\<rparr>)))"

text \<open>An absent sequence number is the 0 of the unpacked structure.\<close>

definition session_state_deserialize_protobuf_pending_key_exchange ::
    "pb_message \<Rightarrow> ('c, 's, session_pending_key_exchange) M" where
  "session_state_deserialize_protobuf_pending_key_exchange m =
     bindE (decode_key_pair ec_key_pair_create (pb_bytes 1 m) (pb_bytes 2 m)) (\<lambda>base.
     bindE (decode_key_pair ec_key_pair_create (pb_bytes 3 m) (pb_bytes 4 m)) (\<lambda>ratchet.
     bindE (decode_key_pair ratchet_identity_key_pair_create (pb_bytes 5 m) (pb_bytes 6 m)) (\<lambda>ident.
     returnE \<lparr>sequence = (case pb_uint32 0 m of None \<Rightarrow> 0 | Some n \<Rightarrow> n), local_base_key = base,
       local_ratchet_key = ratchet, local_identity_key = ident\<rparr>)))"

definition session_state_deserialize_protobuf_pending_pre_key ::
    "pb_message \<Rightarrow> ('c, 's, session_pending_pre_key) M" where
  "session_state_deserialize_protobuf_pending_pre_key m =
     bindE (optE curve_decode_point (pb_bytes 1 m)) (\<lambda>base.
     returnE \<lparr>has_pre_key_id = (pb_uint32 0 m \<noteq> None),
       pending_pre_key_id = (case pb_uint32 0 m of None \<Rightarrow> 0 | Some n \<Rightarrow> n),
       pending_signed_pre_key_id = (case pb_int32 2 m of None \<Rightarrow> 0 | Some n \<Rightarrow> n),
       pending_base_key = base\<rparr>)"

text \<open>The status of \<open>session_state_deserialize_protobuf_sender_chain\<close> is not looked at: after an error
  the session has a sender chain without keys.\<close>

definition session_state_deserialize_protobuf :: "pb_message \<Rightarrow> ('c, 's, session_state) M" where
  "session_state_deserialize_protobuf m =
     bindE session_state_create (\<lambda>st.
     let version = (case pb_uint32 0 m of None \<Rightarrow> session_version st | Some v \<Rightarrow> v) in
     bindE (optE curve_decode_point (pb_bytes 1 m)) (\<lambda>local_id.
     bindE (optE curve_decode_point (pb_bytes 2 m)) (\<lambda>remote_id.
     bindE (optE (\<lambda>k. bindE (hkdf_create (unat version)) (\<lambda>kdf.
              ratchet_root_key_create (Some kdf) (data_pointer k))) (pb_bytes 3 m)) (\<lambda>root.
     bindE (optE (\<lambda>c. tryE (session_state_deserialize_protobuf_sender_chain version c)
              (\<lambda>_. returnE no_sender_chain) returnE) (pb_sub 5 m)) (\<lambda>sender.
     bindE (mapE (\<lambda>c. thenE alloc (session_state_deserialize_protobuf_receiver_chain version c))
              (pb_subs 6 m)) (\<lambda>receivers.
     bindE (optE session_state_deserialize_protobuf_pending_key_exchange (pb_sub 7 m)) (\<lambda>exchange.
     bindE (optE session_state_deserialize_protobuf_pending_pre_key (pb_sub 8 m)) (\<lambda>pending.
     bindE (optE curve_decode_point (pb_bytes 12 m)) (\<lambda>base_key.
     returnE \<lparr>session_version = version, local_identity_public = local_id,
       remote_identity_public = remote_id, root_key = root,
       previous_counter = (case pb_uint32 4 m of None \<Rightarrow> 0 | Some n \<Rightarrow> n),
       has_sender_chain = (sender \<noteq> None),
       sender_chain = (case sender of None \<Rightarrow> no_sender_chain | Some c \<Rightarrow> c),
       receiver_chains = receivers,
       has_pending_key_exchange = (exchange \<noteq> None),
       pending_key_exchange = (case exchange of None \<Rightarrow> no_pending_key_exchange | Some x \<Rightarrow> x),
       has_pending_pre_key = (pending \<noteq> None),
       pending_pre_key = (case pending of None \<Rightarrow> no_pending_pre_key | Some x \<Rightarrow> x),
       remote_registration_id = (case pb_uint32 9 m of None \<Rightarrow> 0 | Some n \<Rightarrow> n),
       local_registration_id = (case pb_uint32 10 m of None \<Rightarrow> 0 | Some n \<Rightarrow> n),
       needs_refresh = (case pb_bool 11 m of None \<Rightarrow> False | Some b \<Rightarrow> b),
       alice_base_key = base_key\<rparr>)))))))))"

definition session_state_deserialize :: "bytes \<Rightarrow> ('c, 's, session_state) M" where
  "session_state_deserialize data =
     bindE (pb_unpack textsecure__session_structure__descriptor data) session_state_deserialize_protobuf"

definition session_state_copy :: "session_state \<Rightarrow> ('c, 's, session_state) M" where
  "session_state_copy other_state =
     bindE (session_state_serialize other_state) session_state_deserialize"

end
