(* ===== verification/Session_State_Laws.thy ===== *)
theory Session_State_Laws
  imports Session_State Interfaces
begin

text \<open>
  Session states: the protobuf structure of a state, well-formed states, the round trip through the
  serialised form with its size bound, the message keys of a receiver chain as a
  \<open>message_key_store\<close>, and that every operation keeps a state well-formed.
\<close>

section \<open>The structure of a state and well-formed states\<close>

definition chain_key_structure :: "ratchet_chain_key \<Rightarrow> pb_message" where
  "chain_key_structure ck = PBMsg [[V_UINT32 (ck_index ck)], [V_BYTES (ck_key ck)]] []"

definition message_keys_structure :: "ratchet_message_keys \<Rightarrow> pb_message" where
  "message_keys_structure mk = PBMsg [[V_UINT32 (counter mk)], [V_BYTES (cipher_key mk)],
     [V_BYTES (mac_key mk)], [V_BYTES (iv mk)]] []"

definition sender_chain_structure :: "session_state_sender_chain \<Rightarrow> pb_message" where
  "sender_chain_structure c = PBMsg
     [opt_slot V_BYTES (map_option (\<lambda>kp. DJB_TYPE # public_key kp) (sender_ratchet_key_pair c)),
      opt_slot V_BYTES (map_option private_key (sender_ratchet_key_pair c)),
      opt_slot V_MESSAGE (map_option chain_key_structure (sender_chain_key c)), []] []"

definition receiver_chain_structure :: "session_state_receiver_chain \<Rightarrow> pb_message" where
  "receiver_chain_structure c = PBMsg
     [opt_slot V_BYTES (map_option (\<lambda>k. DJB_TYPE # k) (sender_ratchet_key c)), [],
      opt_slot V_MESSAGE (map_option chain_key_structure (chain_key c)),
      map V_MESSAGE (map message_keys_structure (message_keys c))] []"

definition key_exchange_structure :: "session_pending_key_exchange \<Rightarrow> pb_message" where
  "key_exchange_structure x = PBMsg
     [[V_UINT32 (sequence x)],
      opt_slot V_BYTES (map_option (\<lambda>kp. DJB_TYPE # public_key kp) (local_base_key x)),
      opt_slot V_BYTES (map_option private_key (local_base_key x)),
      opt_slot V_BYTES (map_option (\<lambda>kp. DJB_TYPE # public_key kp) (local_ratchet_key x)),
      opt_slot V_BYTES (map_option private_key (local_ratchet_key x)),
      opt_slot V_BYTES (map_option (\<lambda>kp. DJB_TYPE # id_public_key kp) (local_identity_key x)),
      opt_slot V_BYTES (map_option id_private_key (local_identity_key x))] []"

definition pending_pre_key_structure :: "session_pending_pre_key \<Rightarrow> pb_message" where
  "pending_pre_key_structure p = PBMsg
     [if has_pre_key_id p then [V_UINT32 (pending_pre_key_id p)] else [],
      opt_slot V_BYTES (map_option (\<lambda>k. DJB_TYPE # k) (pending_base_key p)),
      [V_INT32 (pending_signed_pre_key_id p)]] []"

definition session_structure :: "session_state \<Rightarrow> pb_message" where
  "session_structure st = PBMsg
     [[V_UINT32 (session_version st)],
      opt_slot V_BYTES (map_option (\<lambda>k. DJB_TYPE # k) (local_identity_public st)),
      opt_slot V_BYTES (map_option (\<lambda>k. DJB_TYPE # k) (remote_identity_public st)),
      opt_slot V_BYTES (map_option rk_key (root_key st)),
      [V_UINT32 (previous_counter st)],
      opt_slot V_MESSAGE (map_option sender_chain_structure
        (present (has_sender_chain st) (sender_chain st))),
      map V_MESSAGE (map receiver_chain_structure (receiver_chains st)),
      opt_slot V_MESSAGE (map_option key_exchange_structure
        (present (has_pending_key_exchange st) (pending_key_exchange st))),
      opt_slot V_MESSAGE (map_option pending_pre_key_structure
        (present (has_pending_pre_key st) (pending_pre_key st))),
      [V_UINT32 (remote_registration_id st)], [V_UINT32 (local_registration_id st)],
      [V_BOOL (needs_refresh st)],
      opt_slot V_BYTES (map_option (\<lambda>k. DJB_TYPE # k) (alice_base_key st))] []"

text \<open>The keys of a session use the derivation function of its version, and have the lengths the
  derivations give; absent parts are zeroed; the lists are within their bounds.\<close>

definition kdf_of :: "32 word \<Rightarrow> hkdf_context" where
  "kdf_of v = \<lparr>iteration_start_offset = int (unat v) - 2\<rparr>"

definition wf_version :: "32 word \<Rightarrow> bool" where
  "wf_version v = (v = 2 \<or> v = 3)"

definition wf_chain_key :: "32 word \<Rightarrow> ratchet_chain_key \<Rightarrow> bool" where
  "wf_chain_key v ck = (ck_kdf ck = kdf_of v \<and> length (ck_key ck) = 32)"

definition wf_root_key :: "32 word \<Rightarrow> ratchet_root_key \<Rightarrow> bool" where
  "wf_root_key v rk = (rk_kdf rk = kdf_of v \<and> length (rk_key rk) = 32)"

definition wf_pair :: "ec_key_pair \<Rightarrow> bool" where
  "wf_pair kp = (wf_key (public_key kp) \<and> wf_key (private_key kp))"

definition wf_identity_pair :: "ratchet_identity_key_pair \<Rightarrow> bool" where
  "wf_identity_pair kp = (wf_key (id_public_key kp) \<and> wf_key (id_private_key kp))"

definition wf_sender_chain :: "32 word \<Rightarrow> session_state_sender_chain \<Rightarrow> bool" where
  "wf_sender_chain v c =
     (pred_option wf_pair (sender_ratchet_key_pair c) \<and> pred_option (wf_chain_key v) (sender_chain_key c))"

definition wf_receiver_chain :: "32 word \<Rightarrow> session_state_receiver_chain \<Rightarrow> bool" where
  "wf_receiver_chain v c =
     (pred_option wf_key (sender_ratchet_key c) \<and> pred_option (wf_chain_key v) (chain_key c) \<and>
      list_all wf_message_keys (message_keys c) \<and> length (message_keys c) \<le> MAX_MESSAGE_KEYS)"

definition wf_key_exchange :: "session_pending_key_exchange \<Rightarrow> bool" where
  "wf_key_exchange x = (pred_option wf_pair (local_base_key x) \<and> pred_option wf_pair (local_ratchet_key x) \<and>
     pred_option wf_identity_pair (local_identity_key x))"

definition wf_pending_pre_key :: "session_pending_pre_key \<Rightarrow> bool" where
  "wf_pending_pre_key p =
     (pred_option wf_key (pending_base_key p) \<and> (has_pre_key_id p \<or> pending_pre_key_id p = 0))"

definition wf_session_state :: "session_state \<Rightarrow> bool" where
  "wf_session_state st =
     (wf_version (session_version st) \<and>
      pred_option wf_key (local_identity_public st) \<and> pred_option wf_key (remote_identity_public st) \<and>
      pred_option (wf_root_key (session_version st)) (root_key st) \<and>
      wf_sender_chain (session_version st) (sender_chain st) \<and>
      (has_sender_chain st \<or> sender_chain st = no_sender_chain) \<and>
      list_all (wf_receiver_chain (session_version st)) (receiver_chains st) \<and>
      length (receiver_chains st) \<le> MAX_RECEIVER_CHAINS \<and>
      wf_key_exchange (pending_key_exchange st) \<and>
      (has_pending_key_exchange st \<or> pending_key_exchange st = no_pending_key_exchange) \<and>
      wf_pending_pre_key (pending_pre_key st) \<and>
      (has_pending_pre_key st \<or> pending_pre_key st = no_pending_pre_key) \<and>
      pred_option wf_key (alice_base_key st))"

lemmas wf_session_defs = wf_session_state_def wf_sender_chain_def wf_receiver_chain_def
  wf_key_exchange_def wf_pending_pre_key_def

section \<open>Serialisation: lemmas\<close>

lemma yields_prepare_list:
  assumes "\<And>x. x \<in> set xs \<Longrightarrow> yields (f x) (g x)" and "length xs \<le> 2 ^ 32"
  shows "yields (prepare_list f xs) (map g xs)"
proof -
  have "length xs \<le> SIZE_MAX div 8" using assms(2) by (simp add: SIZE_MAX_def)
  then show ?thesis
    unfolding prepare_list_def
    by (auto intro!: yields_returnE yields_thenE [OF yields_guardE] yields_thenE [OF yields_alloc]
        yields_mapE assms(1))
qed

lemma keeps_prepare_list [keeps_rules, intro!]:
  "(\<And>x. keeps_store (f x)) \<Longrightarrow> keeps_store (prepare_list f xs)"
  by (auto simp: prepare_list_def)

lemma yields_serialize_key_pair [yields_rules]:
  "yields (serialize_key_pair pub priv) (DJB_TYPE # pub, priv)"
  unfolding serialize_key_pair_def
  by (rule yields_bindE [OF yields_ec_public_key_serialize_protobuf],
      rule yields_bindE [OF yields_ec_private_key_serialize_protobuf], rule yields_returnE)

lemma yields_prepare_parts:
  "yields (session_state_serialize_prepare_chain_chain_key ck) (chain_key_structure ck)"
  "yields (session_state_serialize_prepare_message_keys mk) (message_keys_structure mk)"
  unfolding session_state_serialize_prepare_chain_chain_key_def chain_key_structure_def
    session_state_serialize_prepare_message_keys_def message_keys_structure_def
  by (rule yields_thenE [OF yields_alloc] yields_bindE [OF yields_ratchet_protobuf(1)] yields_returnE)+

lemma yields_prepare_sender_chain:
  "yields (session_state_serialize_prepare_sender_chain c) (sender_chain_structure c)"
  unfolding session_state_serialize_prepare_sender_chain_def
  by (rule yields_bindE [OF yields_optE [OF yields_serialize_key_pair]],
      rule yields_bindE [OF yields_optE [OF yields_prepare_parts(1)]],
      rule yields_cong [OF yields_returnE])
     (simp add: sender_chain_structure_def option.map_comp comp_def)

lemma yields_prepare_receiver_chain:
  assumes "length (message_keys c) \<le> MAX_MESSAGE_KEYS"
  shows "yields (session_state_serialize_prepare_receiver_chain c) (receiver_chain_structure c)"
  unfolding session_state_serialize_prepare_receiver_chain_def
    session_state_serialize_prepare_chain_message_keys_list_def
  by (rule yields_bindE [OF yields_optE [OF yields_ec_public_key_serialize_protobuf]],
      rule yields_bindE [OF yields_optE [OF yields_prepare_parts(1)]],
      rule yields_bindE [OF yields_prepare_list [OF yields_prepare_parts(2)]])
     (use assms in \<open>auto simp: MAX_MESSAGE_KEYS_def receiver_chain_structure_def
        intro!: yields_cong [OF yields_returnE]\<close>)

lemma yields_prepare_pending:
  "yields (session_state_serialize_prepare_pending_key_exchange x) (key_exchange_structure x)"
  "yields (session_state_serialize_prepare_pending_pre_key p) (pending_pre_key_structure p)"
  unfolding session_state_serialize_prepare_pending_key_exchange_def
    session_state_serialize_prepare_pending_pre_key_def
   apply (rule yields_bindE [OF yields_optE [OF yields_serialize_key_pair]])+
   apply (rule yields_cong [OF yields_returnE])
   apply (simp add: key_exchange_structure_def option.map_comp comp_def)
  apply (rule yields_bindE [OF yields_optE [OF yields_ec_public_key_serialize_protobuf]])
  apply (rule yields_cong [OF yields_returnE])
  apply (simp add: pending_pre_key_structure_def)
  done

lemma yields_session_state_serialize_prepare:
  assumes "wf_session_state st"
  shows "yields (session_state_serialize_prepare st) (session_structure st)"
proof -
  have rc: "yields (prepare_list session_state_serialize_prepare_receiver_chain (receiver_chains st))
      (map receiver_chain_structure (receiver_chains st))"
    using assms
    by (intro yields_prepare_list yields_prepare_receiver_chain)
       (auto simp: wf_session_state_def wf_receiver_chain_def list_all_iff MAX_RECEIVER_CHAINS_def)
  note key = yields_bindE [OF yields_optE [OF yields_ec_public_key_serialize_protobuf]]
  note part = yields_thenE [OF yields_alloc]
  show ?thesis
    unfolding session_state_serialize_prepare_def
    by (rule key, rule key, rule yields_bindE [OF yields_optE [OF yields_ratchet_protobuf(2)]],
        rule yields_bindE [OF yields_optE [OF part [OF yields_prepare_sender_chain]]],
        rule yields_bindE [OF rc],
        rule yields_bindE [OF yields_optE [OF part [OF yields_prepare_pending(1)]]],
        rule yields_bindE [OF yields_optE [OF part [OF yields_prepare_pending(2)]]],
        rule key, rule yields_cong [OF yields_returnE])
       (simp add: session_structure_def)
qed

lemma wf_version_unat: "wf_version v \<Longrightarrow> unat v = 2 \<or> unat v = 3"
  by (auto simp: wf_version_def)

lemma yields_hkdf_create_version: "wf_version v \<Longrightarrow> yields (hkdf_create (unat v)) (kdf_of v)"
  unfolding kdf_of_def by (rule yields_hkdf_create [OF wf_version_unat])

lemma yields_decode_key_pair:
  assumes "\<And>p. x = Some p \<Longrightarrow> wf_key (pub p) \<and> wf_key (priv p) \<and> yields (create (pub p) (priv p)) p"
  shows "yields (decode_key_pair create (map_option (\<lambda>p. DJB_TYPE # pub p) x) (map_option priv x)) x"
proof (cases x)
  case (Some p)
  with assms show ?thesis
    unfolding decode_key_pair_def
    by (auto intro!: yields_bindE [OF yields_curve_decode_point]
        yields_bindE [OF yields_curve_decode_private_point] yields_bindE [where y = p] yields_returnE)
qed (simp add: decode_key_pair_def yields_returnE)

lemma yields_create_pair:
  "yields (ec_key_pair_create (public_key kp) (private_key kp)) (kp :: ec_key_pair)"
  "yields (ratchet_identity_key_pair_create (id_public_key ip) (id_private_key ip)) (ip :: ratchet_identity_key_pair)"
  by (rule yields_cong [OF yields_ec_key_pair_create], simp,
      rule yields_cong [OF yields_ratchet_creates(3)], simp)

lemma yields_decode_ec_pair:
  "pred_option wf_pair x \<Longrightarrow>
   yields (decode_key_pair ec_key_pair_create (map_option (\<lambda>p. DJB_TYPE # public_key p) x)
     (map_option private_key x)) x"
  by (rule yields_decode_key_pair) (auto simp: wf_pair_def yields_create_pair)

lemma yields_decode_identity_pair:
  "pred_option wf_identity_pair x \<Longrightarrow>
   yields (decode_key_pair ratchet_identity_key_pair_create (map_option (\<lambda>p. DJB_TYPE # id_public_key p) x)
     (map_option id_private_key x)) x"
  by (rule yields_decode_key_pair) (auto simp: wf_identity_pair_def yields_create_pair)

lemma yields_decode_keys:
  "pred_option wf_key x \<Longrightarrow> yields (optE curve_decode_point (map_option (\<lambda>k. DJB_TYPE # k) x)) x"
  by (cases x) (auto intro!: yields_returnE yields_bindE [OF yields_curve_decode_point])

lemma data_pointer_32 [simp]: "length bs = 32 \<Longrightarrow> data_pointer bs = Some bs"
  by (auto simp: data_pointer_def)

lemma yields_decode_chain_key:
  assumes "wf_version v" and "pred_option (wf_chain_key v) x"
  shows "yields (decode_chain_key v (map_option chain_key_structure x)) x"
proof (cases x)
  case (Some ck)
  then have ck: "ck = \<lparr>ck_kdf = kdf_of v, ck_key = ck_key ck, ck_index = ck_index ck\<rparr>" "length (ck_key ck) = 32"
    using assms(2) by (auto simp: wf_chain_key_def)
  have "yields (ratchet_chain_key_create (Some (kdf_of v)) (Some (ck_key ck)) (ck_index ck)) ck"
    by (rule yields_cong [OF yields_ratchet_creates(1)]) (use ck in simp)
  with Some ck(2) show ?thesis
    unfolding decode_chain_key_def chain_key_structure_def pb_member_defs
    by (auto intro!: yields_tryE [OF yields_hkdf_create_version [OF assms(1)]] yields_bindE [where y = ck]
        yields_returnE)
qed (simp add: decode_chain_key_def yields_returnE)

lemma yields_decode_message_keys:
  "wf_message_keys mk \<Longrightarrow> yields (decode_message_keys (message_keys_structure mk)) mk"
  unfolding decode_message_keys_def
  by (rule yields_thenE [OF yields_alloc], rule yields_cong [OF yields_returnE])
     (simp add: message_keys_structure_def pb_member_defs fixed_array_def wf_message_keys_def
       RATCHET_CIPHER_KEY_LENGTH_def RATCHET_MAC_KEY_LENGTH_def RATCHET_IV_LENGTH_def)

lemma yields_deserialize_sender_chain:
  "wf_version v \<Longrightarrow> wf_sender_chain v c \<Longrightarrow>
   yields (session_state_deserialize_protobuf_sender_chain v (sender_chain_structure c)) c"
  unfolding session_state_deserialize_protobuf_sender_chain_def sender_chain_structure_def pb_member_defs
    wf_sender_chain_def
  by simp (rule yields_bindE [OF yields_decode_ec_pair], simp,
      rule yields_bindE [OF yields_decode_chain_key], simp, simp, rule yields_cong [OF yields_returnE], simp)

lemma yields_deserialize_receiver_chain:
  "wf_version v \<Longrightarrow> wf_receiver_chain v c \<Longrightarrow>
   yields (session_state_deserialize_protobuf_receiver_chain v (receiver_chain_structure c)) c"
  unfolding session_state_deserialize_protobuf_receiver_chain_def receiver_chain_structure_def
    pb_member_defs wf_receiver_chain_def
  by (simp add: comp_def) (rule yields_bindE [OF yields_decode_keys], simp,
      rule yields_bindE [OF yields_decode_chain_key], simp, simp,
      rule yields_bindE [OF yields_mapE_inverse], rule yields_decode_message_keys, simp add: list_all_iff,
      rule yields_cong [OF yields_returnE], simp)

lemma yields_deserialize_key_exchange:
  "wf_key_exchange x \<Longrightarrow>
   yields (session_state_deserialize_protobuf_pending_key_exchange (key_exchange_structure x)) x"
  unfolding session_state_deserialize_protobuf_pending_key_exchange_def key_exchange_structure_def
    pb_member_defs wf_key_exchange_def
  by simp (rule yields_bindE [OF yields_decode_ec_pair], simp,
      rule yields_bindE [OF yields_decode_ec_pair], simp,
      rule yields_bindE [OF yields_decode_identity_pair], simp, rule yields_cong [OF yields_returnE], simp)

lemma yields_deserialize_pending_pre_key:
  "wf_pending_pre_key p \<Longrightarrow>
   yields (session_state_deserialize_protobuf_pending_pre_key (pending_pre_key_structure p)) p"
  unfolding session_state_deserialize_protobuf_pending_pre_key_def pending_pre_key_structure_def
    pb_member_defs wf_pending_pre_key_def
  by (cases "has_pre_key_id p"; simp)
     (rule yields_bindE [OF yields_decode_keys], simp, rule yields_cong [OF yields_returnE], cases p, simp)+

lemma yields_decode_root_key:
  assumes "wf_version v" and "pred_option (wf_root_key v) x"
  shows "yields (optE (\<lambda>k. bindE (hkdf_create (unat v)) (\<lambda>kdf.
    ratchet_root_key_create (Some kdf) (data_pointer k))) (map_option rk_key x)) x"
proof (rule yields_optE_inverse)
  fix rk
  assume "x = Some rk"
  then have rk: "rk = \<lparr>rk_kdf = kdf_of v, rk_key = rk_key rk\<rparr>" "length (rk_key rk) = 32"
    using assms(2) by (auto simp: wf_root_key_def)
  show "yields (bindE (hkdf_create (unat v)) (\<lambda>kdf.
      ratchet_root_key_create (Some kdf) (data_pointer (rk_key rk)))) rk"
    by (rule yields_bindE [OF yields_hkdf_create_version [OF assms(1)]], simp add: rk(2),
        rule yields_cong [OF yields_ratchet_creates(2)]) (use rk in simp)
qed

lemma yields_decode_sender:
  "wf_version v \<Longrightarrow> pred_option (wf_sender_chain v) x \<Longrightarrow>
   yields (optE (\<lambda>c. tryE (session_state_deserialize_protobuf_sender_chain v c)
     (\<lambda>_. returnE no_sender_chain) returnE) (map_option sender_chain_structure x)) x"
  by (rule yields_optE_inverse, rule yields_tryE [OF yields_deserialize_sender_chain])
     (auto simp: yields_returnE)

lemma yields_session_state_deserialize_protobuf:
  assumes wf: "wf_session_state st"
  shows "yields (session_state_deserialize_protobuf (session_structure st)) st"
proof -
  let ?v = "session_version st"
  have v: "wf_version ?v" using wf by (simp add: wf_session_state_def)
  have rc: "yields (mapE (\<lambda>c. thenE alloc (session_state_deserialize_protobuf_receiver_chain ?v c))
      (map receiver_chain_structure (receiver_chains st))) (receiver_chains st)"
    by (rule yields_mapE_inverse, rule yields_thenE [OF yields_alloc],
        rule yields_deserialize_receiver_chain [OF v]) (use wf in \<open>simp add: wf_session_state_def list_all_iff\<close>)
  have create: "yields session_state_create empty_session_state"
    unfolding session_state_create_def by (rule yields_thenE [OF yields_alloc yields_returnE])
  show ?thesis
    unfolding session_state_deserialize_protobuf_def session_structure_def pb_member_defs
    apply (rule yields_bindE [OF create])
    apply (simp add: Let_def comp_def)
    apply (rule yields_bindE [OF yields_decode_keys], use wf in \<open>simp add: wf_session_state_def\<close>)+
    apply (rule yields_bindE [OF yields_decode_root_key [OF v]], use wf in \<open>simp add: wf_session_state_def\<close>)
    apply (rule yields_bindE [OF yields_decode_sender [OF v]], use wf in \<open>simp add: wf_session_state_def present_def\<close>)
    apply (rule yields_bindE [OF rc])
    apply (rule yields_bindE [OF yields_optE_inverse], rule yields_deserialize_key_exchange,
        use wf in \<open>simp add: wf_session_state_def present_def split: if_splits\<close>)
    apply (rule yields_bindE [OF yields_optE_inverse], rule yields_deserialize_pending_pre_key,
        use wf in \<open>simp add: wf_session_state_def present_def split: if_splits\<close>)
    apply (rule yields_bindE [OF yields_decode_keys], use wf in \<open>simp add: wf_session_state_def\<close>)
    apply (rule yields_cong [OF yields_returnE])
    apply (use wf in \<open>cases st; auto simp: wf_session_state_def present_def split: if_splits\<close>)
    done
qed

text \<open>The structures fit their descriptors, and a state within its bounds fits the wire format.\<close>

lemma msg_ok_chain_key [simp]:
  "msg_ok textsecure__session_structure__chain__chain_key__descriptor (chain_key_structure ck)"
  by (simp add: textsecure__session_structure__chain__chain_key__descriptor_def chain_key_structure_def)

lemma msg_ok_message_keys [simp]:
  "msg_ok textsecure__session_structure__chain__message_key__descriptor (message_keys_structure mk)"
  by (simp add: textsecure__session_structure__chain__message_key__descriptor_def message_keys_structure_def)

lemma msg_ok_chains [simp]:
  "msg_ok textsecure__session_structure__chain__descriptor (sender_chain_structure sc)"
  "msg_ok textsecure__session_structure__chain__descriptor (receiver_chain_structure rc)"
  by (auto simp: textsecure__session_structure__chain__descriptor_def sender_chain_structure_def
      receiver_chain_structure_def list_all_iff split: option.splits)

lemma msg_ok_key_exchange [simp]:
  "msg_ok textsecure__session_structure__pending_key_exchange__descriptor (key_exchange_structure x)"
  by (auto simp: textsecure__session_structure__pending_key_exchange__descriptor_def
      key_exchange_structure_def list_all_iff split: option.splits)

lemma msg_ok_pending_pre_key [simp]:
  "msg_ok textsecure__session_structure__pending_pre_key__descriptor (pending_pre_key_structure p)"
  by (auto simp: textsecure__session_structure__pending_pre_key__descriptor_def
      pending_pre_key_structure_def list_all_iff split: option.splits)

lemma msg_ok_session [simp]: "msg_ok textsecure__session_structure__descriptor (session_structure st)"
  by (auto simp: textsecure__session_structure__descriptor_def session_structure_def list_all_iff
      split: option.splits)

lemma weight_opt_bytes:
  "(\<And>v. x = Some v \<Longrightarrow> length v \<le> n) \<Longrightarrow> sum_list (map value_weight (opt_slot V_BYTES x)) \<le> n + 6"
  by (cases x) auto

lemma weight_opt_message:
  "(\<And>v. x = Some v \<Longrightarrow> msg_weight v \<le> n) \<Longrightarrow> sum_list (map value_weight (opt_slot V_MESSAGE x)) \<le> n + 6"
  by (cases x) auto

lemma weight_chain_key: "wf_chain_key v ck \<Longrightarrow> msg_weight (chain_key_structure ck) \<le> 44"
  by (simp add: chain_key_structure_def wf_chain_key_def)

lemma weight_message_keys: "wf_message_keys mk \<Longrightarrow> msg_weight (message_keys_structure mk) \<le> 104"
  by (simp add: message_keys_structure_def wf_message_keys_def)

lemma weight_sender_chain:
  assumes "wf_sender_chain v c"
  shows "msg_weight (sender_chain_structure c) \<le> 127"
proof -
  have "sum_list (map value_weight (opt_slot V_MESSAGE (map_option chain_key_structure (sender_chain_key c)))) \<le> 50"
    by (rule weight_opt_message [of _ 44, simplified]) (use assms weight_chain_key in \<open>auto simp: wf_sender_chain_def\<close>)
  moreover have "sum_list (map value_weight (opt_slot V_BYTES (map_option private_key (sender_ratchet_key_pair c)))) \<le> 38"
    by (rule weight_opt_bytes [of _ 32, simplified]) (use assms in \<open>auto simp: wf_sender_chain_def wf_pair_def\<close>)
  moreover have "sum_list (map value_weight (opt_slot V_BYTES
      (map_option (\<lambda>kp. DJB_TYPE # public_key kp) (sender_ratchet_key_pair c)))) \<le> 39"
    by (rule weight_opt_bytes [of _ 33, simplified]) (use assms in \<open>auto simp: wf_sender_chain_def wf_pair_def\<close>)
  ultimately show ?thesis by (simp add: sender_chain_structure_def)
qed

lemma weight_opt_key:
  "pred_option wf_key x \<Longrightarrow>
   sum_list (map value_weight (opt_slot V_BYTES (map_option (\<lambda>k. DJB_TYPE # k) x))) \<le> 39"
  by (cases x) auto

lemma weight_receiver_chain:
  assumes "wf_receiver_chain v c"
  shows "msg_weight (receiver_chain_structure c) \<le> 220089"
proof -
  have "sum_list (map value_weight (opt_slot V_MESSAGE (map_option chain_key_structure (chain_key c)))) \<le> 50"
    by (rule weight_opt_message [of _ 44, simplified]) (use assms weight_chain_key in \<open>auto simp: wf_receiver_chain_def\<close>)
  moreover have "sum_list (map value_weight (map V_MESSAGE (map message_keys_structure (message_keys c)))) \<le> 2000 * (104 + 6)"
    by (rule sum_weights_le) (use assms weight_message_keys in
        \<open>auto simp: wf_receiver_chain_def list_all_iff MAX_MESSAGE_KEYS_def\<close>)
  moreover note weight_opt_key [of "sender_ratchet_key c"]
  ultimately show ?thesis
    using assms by (simp add: receiver_chain_structure_def wf_receiver_chain_def)
qed

lemma weight_opt_pair:
  "pred_option (\<lambda>kp. wf_key (pub kp) \<and> wf_key (priv kp)) x \<Longrightarrow>
   sum_list (map value_weight (opt_slot V_BYTES (map_option (\<lambda>kp. DJB_TYPE # pub kp) x))) +
   sum_list (map value_weight (opt_slot V_BYTES (map_option priv x))) \<le> 77"
  by (cases x) auto

lemma weight_key_exchange:
  assumes "wf_key_exchange x"
  shows "msg_weight (key_exchange_structure x) \<le> 237"
  using assms weight_opt_pair [of public_key private_key "local_base_key x"]
    weight_opt_pair [of public_key private_key "local_ratchet_key x"]
    weight_opt_pair [of id_public_key id_private_key "local_identity_key x"]
  by (simp add: key_exchange_structure_def wf_key_exchange_def wf_pair_def [abs_def] wf_identity_pair_def [abs_def])

lemma weight_pending_pre_key: "wf_pending_pre_key p \<Longrightarrow> msg_weight (pending_pre_key_structure p) \<le> 56"
  using weight_opt_key [of "pending_base_key p"]
  by (auto simp: pending_pre_key_structure_def wf_pending_pre_key_def)

lemma weight_session:
  assumes wf: "wf_session_state st"
  shows "msg_weight (session_structure st) \<le> 1101118"
proof -
  let ?w = "\<lambda>vs. sum_list (map value_weight vs)"
  have "?w (opt_slot V_MESSAGE (map_option sender_chain_structure
      (present (has_sender_chain st) (sender_chain st)))) \<le> 127 + 6"
    by (rule weight_opt_message)
       (use wf weight_sender_chain in \<open>auto simp: wf_session_state_def present_def split: if_splits\<close>)
  moreover have "?w (opt_slot V_MESSAGE (map_option key_exchange_structure
      (present (has_pending_key_exchange st) (pending_key_exchange st)))) \<le> 237 + 6"
    by (rule weight_opt_message)
       (use wf weight_key_exchange in \<open>auto simp: wf_session_state_def present_def split: if_splits\<close>)
  moreover have "?w (opt_slot V_MESSAGE (map_option pending_pre_key_structure
      (present (has_pending_pre_key st) (pending_pre_key st)))) \<le> 56 + 6"
    by (rule weight_opt_message)
       (use wf weight_pending_pre_key in \<open>auto simp: wf_session_state_def present_def split: if_splits\<close>)
  moreover have "?w (map V_MESSAGE (map receiver_chain_structure (receiver_chains st))) \<le> 5 * (220089 + 6)"
    by (rule sum_weights_le)
       (use wf weight_receiver_chain in \<open>auto simp: wf_session_state_def list_all_iff MAX_RECEIVER_CHAINS_def\<close>)
  moreover have "?w (opt_slot V_BYTES (map_option rk_key (root_key st))) \<le> 32 + 6"
    by (rule weight_opt_bytes) (use wf in \<open>auto simp: wf_session_state_def wf_root_key_def\<close>)
  moreover have "?w (opt_slot V_BYTES (map_option (\<lambda>k. DJB_TYPE # k) (local_identity_public st))) \<le> 39"
    "?w (opt_slot V_BYTES (map_option (\<lambda>k. DJB_TYPE # k) (remote_identity_public st))) \<le> 39"
    "?w (opt_slot V_BYTES (map_option (\<lambda>k. DJB_TYPE # k) (alice_base_key st))) \<le> 39"
    by (rule weight_opt_key; use wf in \<open>simp add: wf_session_state_def\<close>)+
  ultimately show ?thesis by (simp add: session_structure_def)
qed

lemma fits_wire_session:
  "wf_session_state st \<Longrightarrow> fits_wire textsecure__session_structure__descriptor (session_structure st)"
  using weight_session [of st] by (intro fits_wireI) auto

definition session_bytes :: "session_state \<Rightarrow> bytes" where
  "session_bytes st = protobuf_c_message_pack textsecure__session_structure__descriptor (session_structure st)"

lemma yields_session_state_serialize:
  "wf_session_state st \<Longrightarrow> yields (session_state_serialize st) (session_bytes st)"
  unfolding session_state_serialize_def session_bytes_def
  by (rule yields_thenE [OF yields_alloc], rule yields_bindE [OF yields_session_state_serialize_prepare],
      assumption, rule yields_pb_pack) (simp_all add: fits_wire_session)

lemma yields_session_state_deserialize:
  "wf_session_state st \<Longrightarrow> yields (session_state_deserialize (session_bytes st)) st"
  unfolding session_state_deserialize_def session_bytes_def
  by (rule yields_bindE [OF yields_pb_unpack], simp, simp add: fits_wire_session,
      rule yields_session_state_deserialize_protobuf)

interpretation session_codec:
  object_codec session_state_serialize session_state_deserialize wf_session_state session_bytes
  by unfold_locales (auto intro: yields_session_state_serialize yields_session_state_deserialize)

lemma yields_session_state_copy: "wf_session_state st \<Longrightarrow> yields (session_state_copy st) st"
  unfolding session_state_copy_def by (rule session_codec.round_trip)

lemma keeps_serialize_parts [keeps_rules, intro!]:
  "keeps_store (serialize_key_pair pub priv)"
  "keeps_store (session_state_serialize_prepare_chain_chain_key ck)"
  "keeps_store (session_state_serialize_prepare_message_keys mk)"
  by (auto simp: serialize_key_pair_def session_state_serialize_prepare_chain_chain_key_def
      session_state_serialize_prepare_message_keys_def)

lemma keeps_serialize_chains [keeps_rules, intro!]:
  "keeps_store (session_state_serialize_prepare_sender_chain sc)"
  "keeps_store (session_state_serialize_prepare_receiver_chain rc)"
  "keeps_store (session_state_serialize_prepare_pending_key_exchange x)"
  "keeps_store (session_state_serialize_prepare_pending_pre_key p)"
  unfolding session_state_serialize_prepare_sender_chain_def session_state_serialize_prepare_receiver_chain_def
    session_state_serialize_prepare_pending_key_exchange_def session_state_serialize_prepare_pending_pre_key_def
    session_state_serialize_prepare_chain_message_keys_list_def
  by (intro keeps_rules)+

lemma keeps_session_state_serialize [keeps_rules, intro!]:
  "keeps_store (session_state_serialize_prepare st)"
  "keeps_store (session_state_serialize st)"
  unfolding session_state_serialize_def session_state_serialize_prepare_def by (intro keeps_rules)+

lemma keeps_deserialize_parts [keeps_rules, intro!]:
  "(\<And>p k. keeps_store (create p k)) \<Longrightarrow> keeps_store (decode_key_pair create pub priv)"
  "keeps_store (decode_chain_key v m)"
  "keeps_store (decode_message_keys m')"
  by (auto simp: decode_key_pair_def decode_chain_key_def decode_message_keys_def split: option.splits)

lemma keeps_deserialize_chains [keeps_rules, intro!]:
  "keeps_store (session_state_deserialize_protobuf_sender_chain v m)"
  "keeps_store (session_state_deserialize_protobuf_receiver_chain v m)"
  "keeps_store (session_state_deserialize_protobuf_pending_key_exchange m)"
  "keeps_store (session_state_deserialize_protobuf_pending_pre_key m)"
  "keeps_store session_state_create"
  unfolding session_state_deserialize_protobuf_sender_chain_def session_state_create_def
    session_state_deserialize_protobuf_receiver_chain_def session_state_deserialize_protobuf_pending_pre_key_def
    session_state_deserialize_protobuf_pending_key_exchange_def
  by (intro keeps_rules)+

lemma keeps_session_state_codec [keeps_rules, intro!]:
  "keeps_store (session_state_deserialize_protobuf m)"
  "keeps_store (session_state_deserialize data)"
  "keeps_store (session_state_copy st)"
  unfolding session_state_copy_def session_state_deserialize_def session_state_deserialize_protobuf_def Let_def
  by (intro keeps_rules)+

section \<open>Receiver chains and their message keys\<close>

lemma find_receiver_chain_Some:
  "session_state_find_receiver_chain st eph = Some i \<Longrightarrow> i < length (receiver_chains st)"
  unfolding session_state_find_receiver_chain_def by (drule dl_search_Some) simp

text \<open>Replacing a chain by one with the same ratchet key does not change where keys are found.\<close>

lemma find_receiver_chain_update:
  assumes "session_state_find_receiver_chain st eph = Some i"
    and "sender_ratchet_key c = sender_ratchet_key (receiver_chains st ! i)"
  shows "session_state_find_receiver_chain (st\<lparr>receiver_chains := (receiver_chains st)[i := c]\<rparr>) eph = Some i"
  using assms unfolding session_state_find_receiver_chain_def by (simp add: dl_search_update)

definition chain_message_keys_of :: "ec_public_key \<Rightarrow> session_state \<Rightarrow> ratchet_message_keys list" where
  "chain_message_keys_of eph st =
     (case session_state_find_receiver_chain st eph of
        None \<Rightarrow> [] | Some i \<Rightarrow> message_keys (receiver_chains st ! i))"

definition has_receiver_chain :: "ec_public_key \<Rightarrow> session_state \<Rightarrow> bool" where
  "has_receiver_chain eph st = (session_state_find_receiver_chain st eph \<noteq> None)"

lemma keys_of_update:
  assumes "session_state_find_receiver_chain st eph = Some i"
    and "sender_ratchet_key c = sender_ratchet_key (receiver_chains st ! i)"
  shows "chain_message_keys_of eph (st\<lparr>receiver_chains := (receiver_chains st)[i := c]\<rparr>) = message_keys c"
    and "has_receiver_chain eph (st\<lparr>receiver_chains := (receiver_chains st)[i := c]\<rparr>)"
  using find_receiver_chain_update [OF assms] find_receiver_chain_Some [OF assms(1)]
  by (simp_all add: chain_message_keys_of_def has_receiver_chain_def)

interpretation session_keys:
  message_key_store "has_receiver_chain eph" "chain_message_keys_of eph" counter
    "\<lambda>st. session_state_has_message_keys st eph" "\<lambda>st. session_state_set_message_keys st eph"
    "\<lambda>st. session_state_remove_message_keys st eph" MAX_MESSAGE_KEYS for eph
proof unfold_locales
  fix st n
  assume "has_receiver_chain eph st"
  then show "session_state_has_message_keys st eph n = (\<exists>mk \<in> set (chain_message_keys_of eph st). counter mk = n)"
    by (auto simp: has_receiver_chain_def session_state_has_message_keys_def chain_message_keys_of_def list_ex_iff)
next
  fix st mk
  assume "has_receiver_chain eph st"
  then obtain i where i: "session_state_find_receiver_chain st eph = Some i"
    by (auto simp: has_receiver_chain_def)
  then have "chain_message_keys_of eph st = message_keys (receiver_chains st ! i)"
    by (simp add: chain_message_keys_of_def)
  with i show "ensures (session_state_set_message_keys st eph mk)
      (\<lambda>st'. has_receiver_chain eph st' \<and>
         chain_message_keys_of eph st' = dl_trim MAX_MESSAGE_KEYS (chain_message_keys_of eph st @ [mk]))"
    by (simp add: session_state_set_message_keys_def Let_def)
       (intro ensures_thenE [OF yields_alloc] ensures_returnE, simp add: keys_of_update)
next
  fix st n j
  assume "has_receiver_chain eph st"
    and j: "dl_search (\<lambda>mk. counter mk = n) (chain_message_keys_of eph st) = Some j"
  then obtain i where i: "session_state_find_receiver_chain st eph = Some i"
    by (auto simp: has_receiver_chain_def)
  with j show "\<exists>st'. session_state_remove_message_keys st eph n = (Some (chain_message_keys_of eph st ! j), st') \<and>
      has_receiver_chain eph st' \<and> chain_message_keys_of eph st' = dl_delete j (chain_message_keys_of eph st)"
    by (simp add: session_state_remove_message_keys_def chain_message_keys_of_def [of eph st] keys_of_update Let_def)
next
  fix st n
  assume "has_receiver_chain eph st" "dl_search (\<lambda>mk. counter mk = n) (chain_message_keys_of eph st) = None"
  then show "session_state_remove_message_keys st eph n = (None, st)"
    by (auto simp: has_receiver_chain_def session_state_remove_message_keys_def chain_message_keys_of_def)
qed (simp add: MAX_MESSAGE_KEYS_def)

section \<open>Every operation keeps a state well-formed\<close>

lemma wf_kdf_of: "wf_version v \<Longrightarrow> wf_kdf (kdf_of v)"
  by (auto simp: wf_version_def wf_kdf_def kdf_of_def)

lemma wf_empty_session_state [simp]: "wf_session_state empty_session_state"
  by (simp add: wf_session_defs empty_session_state_def no_sender_chain_def no_pending_key_exchange_def
      no_pending_pre_key_def wf_version_def)

lemma list_all_update: "list_all P xs \<Longrightarrow> P x \<Longrightarrow> list_all P (xs[i := x])"
  by (auto simp: list_all_iff dest!: set_update_subset_insert [THEN subsetD])

lemma list_all_dl_trim: "list_all P xs \<Longrightarrow> list_all P (dl_trim n xs)"
  by (auto simp: list_all_iff dest: set_dl_trim)

lemma list_all_dl_delete: "list_all P xs \<Longrightarrow> list_all P (dl_delete i xs)"
  by (auto simp: list_all_iff dest: set_dl_delete)

lemma wf_update_receiver_chain:
  assumes "wf_session_state st" and "wf_receiver_chain (session_version st) c"
  shows "wf_session_state (st\<lparr>receiver_chains := (receiver_chains st)[i := c]\<rparr>)"
  using assms by (simp add: wf_session_state_def list_all_update)

lemma wf_receiver_chain_nth:
  "wf_session_state st \<Longrightarrow> session_state_find_receiver_chain st eph = Some i \<Longrightarrow>
   wf_receiver_chain (session_version st) (receiver_chains st ! i)"
  by (simp add: wf_session_state_def list_all_length find_receiver_chain_Some)

lemma wf_set_message_keys:
  assumes "wf_session_state st" and "wf_message_keys mk"
  shows "ensures (session_state_set_message_keys st eph mk)
    (\<lambda>st'. wf_session_state st' \<and> session_version st' = session_version st)"
proof (cases "session_state_find_receiver_chain st eph")
  case (Some i)
  have "wf_receiver_chain (session_version st) ((receiver_chains st ! i)\<lparr>message_keys :=
      dl_trim MAX_MESSAGE_KEYS (message_keys (receiver_chains st ! i) @ [mk])\<rparr>)"
    using wf_receiver_chain_nth [OF assms(1) Some] assms(2)
    by (simp add: wf_receiver_chain_def list_all_dl_trim)
  with Some assms(1) show ?thesis
    by (simp add: session_state_set_message_keys_def Let_def)
       (intro ensures_thenE [OF yields_alloc] ensures_returnE, simp add: wf_update_receiver_chain)
qed (use assms in \<open>simp add: session_state_set_message_keys_def ensures_returnE\<close>)

lemma wf_remove_message_keys:
  assumes "wf_session_state st" and "session_state_remove_message_keys st eph n = (r, st')"
  shows "wf_session_state st' \<and> session_version st' = session_version st \<and> pred_option wf_message_keys r"
proof (cases "session_state_find_receiver_chain st eph")
  case (Some i)
  note c = wf_receiver_chain_nth [OF assms(1) Some]
  show ?thesis
  proof (cases "dl_search (\<lambda>mk. counter mk = n) (message_keys (receiver_chains st ! i))")
    case (Some j)
    note j = dl_search_Some [OF this]
    have "wf_receiver_chain (session_version st) ((receiver_chains st ! i)\<lparr>message_keys :=
        dl_delete j (message_keys (receiver_chains st ! i))\<rparr>)"
      using c j by (auto simp: wf_receiver_chain_def list_all_dl_delete length_dl_delete)
    with assms Some \<open>session_state_find_receiver_chain st eph = _\<close> c j show ?thesis
      by (auto simp: session_state_remove_message_keys_def Let_def wf_update_receiver_chain
          wf_receiver_chain_def list_all_length)
  qed (use assms Some in \<open>auto simp: session_state_remove_message_keys_def\<close>)
qed (use assms in \<open>auto simp: session_state_remove_message_keys_def\<close>)

lemma wf_add_receiver_chain:
  assumes "wf_session_state st" and "wf_key k" and "wf_chain_key (session_version st) ck"
  shows "ensures (session_state_add_receiver_chain st k ck) wf_session_state"
  unfolding session_state_add_receiver_chain_def
  by (intro ensures_thenE [OF yields_alloc] ensures_returnE)
     (use assms in \<open>auto simp: wf_session_state_def wf_receiver_chain_def intro!: list_all_dl_trim\<close>)

lemma wf_session_setters:
  assumes "wf_session_state st"
  shows "wf_root_key (session_version st) rk \<Longrightarrow> wf_session_state (session_state_set_root_key st rk)"
    and "wf_pair kp \<Longrightarrow> wf_chain_key (session_version st) ck \<Longrightarrow>
      wf_session_state (session_state_set_sender_chain st kp ck)"
    and "wf_key k \<Longrightarrow> wf_session_state (session_state_set_local_identity_key st k)"
    and "wf_key k \<Longrightarrow> wf_session_state (session_state_set_remote_identity_key st k)"
    and "wf_key k \<Longrightarrow> wf_session_state (session_state_set_alice_base_key st k)"
    and "wf_key k \<Longrightarrow> wf_session_state (session_state_set_unacknowledged_pre_key_message st pid sid k)"
    and "wf_session_state (session_state_clear_unacknowledged_pre_key_message st)"
    and "wf_session_state (session_state_set_previous_counter st n)"
    and "wf_session_state (session_state_set_remote_registration_id st n)"
    and "wf_session_state (session_state_set_local_registration_id st n)"
    and "wf_pair kp \<Longrightarrow> wf_pair kp' \<Longrightarrow> wf_identity_pair ip \<Longrightarrow>
      wf_session_state (session_state_set_pending_key_exchange st n kp kp' ip)"
  using assms
  by (auto simp: wf_session_state_def wf_sender_chain_def wf_key_exchange_def wf_pending_pre_key_def
      no_pending_pre_key_def
      session_state_set_root_key_def session_state_set_sender_chain_def session_state_set_local_identity_key_def
      session_state_set_remote_identity_key_def session_state_set_alice_base_key_def
      session_state_set_unacknowledged_pre_key_message_def session_state_clear_unacknowledged_pre_key_message_def
      session_state_set_previous_counter_def session_state_set_remote_registration_id_def
      session_state_set_local_registration_id_def session_state_set_pending_key_exchange_def split: option.splits)

lemma wf_set_sender_chain_key:
  assumes "wf_session_state st" and "has_sender_chain st" and "wf_chain_key (session_version st) ck"
  shows "yields (session_state_set_sender_chain_key st ck)
      (st\<lparr>sender_chain := (sender_chain st)\<lparr>sender_chain_key := Some ck\<rparr>\<rparr>)"
    and "wf_session_state (st\<lparr>sender_chain := (sender_chain st)\<lparr>sender_chain_key := Some ck\<rparr>\<rparr>)"
  using assms
  by (auto simp: session_state_set_sender_chain_key_def yields_returnE wf_session_state_def wf_sender_chain_def)

lemma wf_set_receiver_chain_key:
  assumes "wf_session_state st" and "session_state_find_receiver_chain st eph = Some i"
    and "wf_chain_key (session_version st) ck"
  shows "yields (session_state_set_receiver_chain_key st eph ck)
      (st\<lparr>receiver_chains := (receiver_chains st)[i := (receiver_chains st ! i)\<lparr>chain_key := Some ck\<rparr>]\<rparr>)"
    and "wf_session_state
      (st\<lparr>receiver_chains := (receiver_chains st)[i := (receiver_chains st ! i)\<lparr>chain_key := Some ck\<rparr>]\<rparr>)"
  using assms wf_receiver_chain_nth [OF assms(1,2)]
  by (auto simp: session_state_set_receiver_chain_key_def yields_returnE wf_receiver_chain_def
      intro!: wf_update_receiver_chain)

end
