(* ===== verification/Session_Record.thy ===== *)
theory Session_Record
  imports Session_State_Laws
begin

text \<open>
  session\_record.c: the current session state of a remote device and its archived states, with the
  serialised form that the session store holds.
\<close>

section \<open>Model\<close>

record session_record =
  record_state :: "session_state option"
  previous_states :: "session_state list"
  is_fresh :: bool

definition ARCHIVED_STATES_MAX_LENGTH :: nat where "ARCHIVED_STATES_MAX_LENGTH = 40"

definition session_record_create :: "session_state option \<Rightarrow> ('c, 's, session_record) M" where
  "session_record_create state =
     thenE alloc
      (case state of
         None \<Rightarrow>
           bindE session_state_create (\<lambda>st.
           returnE \<lparr>record_state = Some st, previous_states = [], is_fresh = True\<rparr>)
       | Some st \<Rightarrow> returnE \<lparr>record_state = Some st, previous_states = [], is_fresh = False\<rparr>)"

definition session_record_serialize :: "session_record option \<Rightarrow> ('c, 's, bytes) M" where
  "session_record_serialize rec =
     (case rec of
        None \<Rightarrow> failE SG_ERR_INVAL
      | Some r \<Rightarrow>
          bindE (optE (\<lambda>st. thenE alloc (session_state_serialize_prepare st)) (record_state r)) (\<lambda>current.
          bindE (prepare_list session_state_serialize_prepare (previous_states r)) (\<lambda>previous.
          pb_pack textsecure__record_structure__descriptor
            (PBMsg [opt_slot V_MESSAGE current, map V_MESSAGE previous] []))))"

definition session_record_deserialize :: "bytes \<Rightarrow> ('c, 's, session_record) M" where
  "session_record_deserialize data =
     bindE (pb_unpack textsecure__record_structure__descriptor data) (\<lambda>m.
     bindE (optE session_state_deserialize_protobuf (pb_sub 0 m)) (\<lambda>current_state.
     bindE (session_record_create current_state) (\<lambda>r.
     bindE (mapE (\<lambda>s. thenE alloc (session_state_deserialize_protobuf s)) (pb_subs 1 m)) (\<lambda>previous.
     returnE (r\<lparr>is_fresh := False, previous_states := previous\<rparr>)))))"

definition session_record_copy :: "session_record \<Rightarrow> ('c, 's, session_record) M" where
  "session_record_copy other_record =
     bindE (session_record_serialize (Some other_record)) session_record_deserialize"

definition session_record_has_session_state ::
    "session_record \<Rightarrow> 32 word \<Rightarrow> ec_public_key option \<Rightarrow> 'w \<Rightarrow> bool res \<times> 'w" where
  "session_record_has_session_state r version base_key =
     (let matches = (\<lambda>st. session_version st = version \<and>
                       ec_public_key_compare (alice_base_key st) base_key = 0)
      in bindE (derefE (record_state r)) (\<lambda>st.
         returnE (matches st \<or> list_ex matches (previous_states r))))"

definition session_record_set_state :: "session_record \<Rightarrow> session_state \<Rightarrow> session_record" where
  "session_record_set_state r st = r\<lparr>record_state := Some st\<rparr>"

text \<open>Removing the node at a position; the next node is then at the same position.\<close>

definition session_record_get_previous_states_remove :: "session_record \<Rightarrow> nat \<Rightarrow> session_record" where
  "session_record_get_previous_states_remove r i =
     r\<lparr>previous_states := dl_delete i (previous_states r)\<rparr>"

text \<open>The loop that deletes every node after the first \<open>ARCHIVED_STATES_MAX_LENGTH\<close>.\<close>

fun remove_beyond :: "nat \<Rightarrow> 'a list \<Rightarrow> 'a list" where
  "remove_beyond n [] = []"
| "remove_beyond n (x # xs) =
     (if n + 1 > ARCHIVED_STATES_MAX_LENGTH then remove_beyond (n + 1) xs
      else x # remove_beyond (n + 1) xs)"

definition session_record_promote_state :: "session_record \<Rightarrow> session_state \<Rightarrow> ('c, 's, session_record) M" where
  "session_record_promote_state r promoted_state =
     (case record_state r of
        None \<Rightarrow> returnE (r\<lparr>record_state := Some promoted_state,
                            previous_states := remove_beyond 0 (previous_states r)\<rparr>)
      | Some st \<Rightarrow>
          thenE alloc
           (returnE (r\<lparr>record_state := Some promoted_state,
                       previous_states := remove_beyond 0 (st # previous_states r)\<rparr>)))"

definition session_record_archive_current_state :: "session_record \<Rightarrow> ('c, 's, session_record) M" where
  "session_record_archive_current_state r =
     bindE session_state_create (\<lambda>new_state. session_record_promote_state r new_state)"

section \<open>Well-formed records and their serialised form\<close>

definition wf_session_record :: "session_record \<Rightarrow> bool" where
  "wf_session_record r =
     (record_state r \<noteq> None \<and> pred_option wf_session_state (record_state r) \<and>
      list_all wf_session_state (previous_states r) \<and>
      length (previous_states r) \<le> ARCHIVED_STATES_MAX_LENGTH)"

definition record_structure :: "session_record \<Rightarrow> pb_message" where
  "record_structure r = PBMsg
     [opt_slot V_MESSAGE (map_option session_structure (record_state r)),
      map V_MESSAGE (map session_structure (previous_states r))] []"

definition record_bytes :: "session_record \<Rightarrow> bytes" where
  "record_bytes r = protobuf_c_message_pack textsecure__record_structure__descriptor (record_structure r)"

lemma msg_ok_record [simp]: "msg_ok textsecure__record_structure__descriptor (record_structure r)"
  by (auto simp: textsecure__record_structure__descriptor_def record_structure_def list_all_iff
      split: option.splits)

lemma fits_wire_record:
  assumes "wf_session_record r"
  shows "fits_wire textsecure__record_structure__descriptor (record_structure r)"
proof (rule fits_wireI)
  have "sum_list (map value_weight (opt_slot V_MESSAGE (map_option session_structure (record_state r))))
      \<le> 1101118 + 6"
    by (rule weight_opt_message) (use assms weight_session in \<open>auto simp: wf_session_record_def\<close>)
  moreover have "sum_list (map value_weight (map V_MESSAGE (map session_structure (previous_states r))))
      \<le> 40 * (1101118 + 6)"
    by (rule sum_weights_le) (use assms weight_session in
        \<open>auto simp: wf_session_record_def list_all_iff ARCHIVED_STATES_MAX_LENGTH_def\<close>)
  ultimately show "msg_weight (record_structure r) < 2 ^ 26" by (simp add: record_structure_def)
qed simp_all

lemma yields_session_record_serialize:
  assumes "wf_session_record r"
  shows "yields (session_record_serialize (Some r)) (record_bytes r)"
proof -
  have "yields (optE (\<lambda>st. thenE alloc (session_state_serialize_prepare st)) (record_state r))
      (map_option session_structure (record_state r))"
    using assms
    by (intro yields_optE yields_thenE [OF yields_alloc] yields_session_state_serialize_prepare)
       (auto simp: wf_session_record_def)
  moreover have "yields (prepare_list session_state_serialize_prepare (previous_states r))
      (map session_structure (previous_states r))"
    using assms
    by (intro yields_prepare_list yields_session_state_serialize_prepare)
       (auto simp: wf_session_record_def list_all_iff ARCHIVED_STATES_MAX_LENGTH_def)
  moreover note yields_pb_pack [OF _ fits_wire_record [OF assms]]
  ultimately show ?thesis
    unfolding session_record_serialize_def record_bytes_def record_structure_def option.case
    by (intro yields_bindE) auto
qed

text \<open>A record that was read is never fresh.\<close>

lemma yields_session_record_deserialize:
  assumes "wf_session_record r"
  shows "yields (session_record_deserialize (record_bytes r)) (r\<lparr>is_fresh := False\<rparr>)"
proof -
  obtain st where st: "record_state r = Some st" "wf_session_state st"
    using assms by (auto simp: wf_session_record_def)
  have "yields (mapE (\<lambda>s. thenE alloc (session_state_deserialize_protobuf s))
      (map session_structure (previous_states r))) (previous_states r)"
    by (rule yields_mapE_inverse, rule yields_thenE [OF yields_alloc],
        rule yields_session_state_deserialize_protobuf)
       (use assms in \<open>simp add: wf_session_record_def list_all_iff\<close>)
  moreover have "yields (session_record_create (Some st))
      \<lparr>record_state = Some st, previous_states = [], is_fresh = False\<rparr>"
    unfolding session_record_create_def option.case by (rule yields_thenE [OF yields_alloc yields_returnE])
  moreover have "yields (optE session_state_deserialize_protobuf (Some (session_structure st))) (Some st)"
    by (simp, rule yields_bindE [OF yields_session_state_deserialize_protobuf [OF st(2)] yields_returnE])
  moreover have "yields (pb_unpack textsecure__record_structure__descriptor (record_bytes r)) (record_structure r)"
    unfolding record_bytes_def by (rule yields_pb_unpack [OF _ fits_wire_record [OF assms]]) simp
  ultimately show ?thesis
    unfolding session_record_deserialize_def
    by (intro yields_bindE [where y = "record_structure r"] yields_bindE [where y = "Some st"]
          yields_bindE [where y = "\<lparr>record_state = Some st, previous_states = [], is_fresh = False\<rparr>"]
          yields_bindE [where y = "previous_states r"] yields_cong [OF yields_returnE])
       (use st in \<open>simp_all add: record_structure_def pb_member_defs comp_def\<close>)
qed

interpretation record_codec:
  object_codec "\<lambda>r. session_record_serialize (Some r)" session_record_deserialize
    "\<lambda>r. wf_session_record r \<and> \<not> is_fresh r" record_bytes
proof unfold_locales
  fix r :: session_record
  assume r: "wf_session_record r \<and> \<not> is_fresh r"
  then show "yields (session_record_serialize (Some r)) (record_bytes r)"
    by (simp add: yields_session_record_serialize)
  have "r\<lparr>is_fresh := False\<rparr> = r" using r by (cases r) simp
  with r show "yields (session_record_deserialize (record_bytes r)) r"
    by (intro yields_cong [OF yields_session_record_deserialize]) simp_all
qed

section \<open>Archiving and promoting\<close>

lemma remove_beyond_take: "remove_beyond n xs = take (ARCHIVED_STATES_MAX_LENGTH - n) xs"
proof (induction xs arbitrary: n)
  case (Cons x xs)
  show ?case
  proof (cases "n < ARCHIVED_STATES_MAX_LENGTH")
    case True
    then obtain k where "ARCHIVED_STATES_MAX_LENGTH - n = Suc k"
      by (metis Suc_diff_Suc)
    with True Cons.IH [of "Suc n"] show ?thesis by (simp add: diff_Suc)
  qed (simp add: Cons.IH)
qed simp

lemma wf_session_record_create:
  "ensures (session_record_create None) (\<lambda>r. wf_session_record r \<and> is_fresh r)"
  unfolding session_record_create_def session_state_create_def option.case
  by (intro ensures_thenE [OF yields_alloc], rule ensures_bind_yields,
      rule yields_thenE [OF yields_alloc yields_returnE], rule ensures_returnE)
     (simp add: wf_session_record_def)

lemma yields_promote_state:
  "record_state r = Some st \<Longrightarrow>
   yields (session_record_promote_state r st') (r\<lparr>record_state := Some st',
     previous_states := take ARCHIVED_STATES_MAX_LENGTH (st # previous_states r)\<rparr>)"
  unfolding session_record_promote_state_def
  by (simp add: remove_beyond_take del: take_Cons) (rule yields_thenE [OF yields_alloc yields_returnE])

lemma wf_promote_state:
  assumes "wf_session_record r" and "wf_session_state st'"
  shows "ensures (session_record_promote_state r st') wf_session_record"
proof -
  obtain st where st: "record_state r = Some st" "wf_session_state st"
    using assms(1) by (auto simp: wf_session_record_def)
  have "list_all wf_session_state (take ARCHIVED_STATES_MAX_LENGTH (st # previous_states r))"
    using assms(1) st(2) by (auto simp: wf_session_record_def list_all_iff dest!: in_set_takeD)
  then show ?thesis
    using assms(2) by (intro ensures_yields [OF yields_promote_state [OF st(1)]]) (simp add: wf_session_record_def)
qed

lemma yields_archive_current_state:
  "record_state r = Some st \<Longrightarrow>
   yields (session_record_archive_current_state r) (r\<lparr>record_state := Some empty_session_state,
     previous_states := take ARCHIVED_STATES_MAX_LENGTH (st # previous_states r)\<rparr>)"
  unfolding session_record_archive_current_state_def session_state_create_def
  by (rule yields_bindE [OF yields_thenE [OF yields_alloc yields_returnE]], rule yields_promote_state)

lemma keeps_session_record [keeps_rules, intro!]:
  "keeps_store (session_record_create s)"
  "keeps_store (session_record_serialize rec)"
  "keeps_store (session_record_deserialize data)"
  "keeps_store (session_record_copy r)"
  "keeps_store (session_record_has_session_state r v k)"
  "keeps_store (session_record_promote_state r st)"
  "keeps_store (session_record_archive_current_state r)"
  by (auto simp: session_record_create_def session_record_serialize_def session_record_deserialize_def
      session_record_copy_def session_record_has_session_state_def session_record_promote_state_def
      session_record_archive_current_state_def session_state_create_def Let_def split: option.splits)

end
