(* ===== verification/Ratcheting_Session.thy ===== *)
theory Ratcheting_Session
  imports Session_Record Vpool
begin

text \<open>
  The end of ratchet.c: identity key pairs in serialised form, the parameters of the two sides of a
  key agreement (X3DH) and the initialisation of a session state from them.  Alice starts the
  session with a fresh ratchet key; Bob starts from his signed pre key.
\<close>

section \<open>Identity key pairs\<close>

definition ratchet_identity_key_pair_serialize ::
    "ratchet_identity_key_pair option \<Rightarrow> ('c, 's, bytes) M" where
  "ratchet_identity_key_pair_serialize key_pair =
     (case key_pair of
        None \<Rightarrow> failE SG_ERR_INVAL
      | Some kp \<Rightarrow>
          bindE (serialize_key_pair (id_public_key kp) (id_private_key kp)) (\<lambda>(pub, priv).
          pb_pack textsecure__identity_key_pair_structure__descriptor (PBMsg [[V_BYTES pub], [V_BYTES priv]] [])))"

definition ratchet_identity_key_pair_deserialize :: "bytes \<Rightarrow> ('c, 's, ratchet_identity_key_pair) M" where
  "ratchet_identity_key_pair_deserialize data =
     bindE (pb_unpack textsecure__identity_key_pair_structure__descriptor data) (\<lambda>m.
     (case (pb_bytes 0 m, pb_bytes 1 m) of
        (Some pub, Some priv) \<Rightarrow>
          bindE (curve_decode_point pub) (\<lambda>p.
          bindE (curve_decode_private_point priv) (\<lambda>k.
          ratchet_identity_key_pair_create p k))
      | _ \<Rightarrow> failE SG_ERR_INVALID_KEY))"

section \<open>Parameters\<close>

record symmetric_signal_protocol_parameters =
  sym_our_identity_key :: ratchet_identity_key_pair
  sym_our_base_key :: ec_key_pair
  sym_our_ratchet_key :: ec_key_pair
  sym_their_base_key :: ec_public_key
  sym_their_ratchet_key :: ec_public_key
  sym_their_identity_key :: ec_public_key

record alice_signal_protocol_parameters =
  alice_our_identity_key :: ratchet_identity_key_pair
  alice_our_base_key :: ec_key_pair
  alice_their_identity_key :: ec_public_key
  alice_their_signed_pre_key :: ec_public_key
  alice_their_one_time_pre_key :: "ec_public_key option"
  alice_their_ratchet_key :: ec_public_key

record bob_signal_protocol_parameters =
  bob_our_identity_key :: ratchet_identity_key_pair
  bob_our_signed_pre_key :: ec_key_pair
  bob_our_one_time_pre_key :: "ec_key_pair option"
  bob_our_ratchet_key :: ec_key_pair
  bob_their_identity_key :: ec_public_key
  bob_their_base_key :: ec_public_key

definition symmetric_signal_protocol_parameters_create ::
    "ratchet_identity_key_pair option \<Rightarrow> ec_key_pair option \<Rightarrow> ec_key_pair option \<Rightarrow> ec_public_key option
      \<Rightarrow> ec_public_key option \<Rightarrow> ec_public_key option \<Rightarrow> ('c, 's, symmetric_signal_protocol_parameters) M" where
  "symmetric_signal_protocol_parameters_create our_identity_key our_base_key our_ratchet_key
       their_base_key their_ratchet_key their_identity_key =
     (case (our_identity_key, our_base_key, our_ratchet_key, their_base_key, their_ratchet_key,
            their_identity_key) of
        (Some oi, Some ob, Some ork, Some tb, Some tr, Some ti) \<Rightarrow>
          thenE alloc
           (returnE \<lparr>sym_our_identity_key = oi, sym_our_base_key = ob, sym_our_ratchet_key = ork,
              sym_their_base_key = tb, sym_their_ratchet_key = tr, sym_their_identity_key = ti\<rparr>)
      | _ \<Rightarrow> failE SG_ERR_INVAL)"

definition alice_signal_protocol_parameters_create ::
    "ratchet_identity_key_pair option \<Rightarrow> ec_key_pair option \<Rightarrow> ec_public_key option \<Rightarrow> ec_public_key option
      \<Rightarrow> ec_public_key option \<Rightarrow> ec_public_key option \<Rightarrow> ('c, 's, alice_signal_protocol_parameters) M" where
  "alice_signal_protocol_parameters_create our_identity_key our_base_key their_identity_key
       their_signed_pre_key their_one_time_pre_key their_ratchet_key =
     (case (our_identity_key, our_base_key, their_identity_key, their_signed_pre_key, their_ratchet_key) of
        (Some oi, Some ob, Some ti, Some ts, Some tr) \<Rightarrow>
          thenE alloc
           (returnE \<lparr>alice_our_identity_key = oi, alice_our_base_key = ob,
              alice_their_identity_key = ti, alice_their_signed_pre_key = ts,
              alice_their_one_time_pre_key = their_one_time_pre_key, alice_their_ratchet_key = tr\<rparr>)
      | _ \<Rightarrow> failE SG_ERR_INVAL)"

definition bob_signal_protocol_parameters_create ::
    "ratchet_identity_key_pair option \<Rightarrow> ec_key_pair option \<Rightarrow> ec_key_pair option \<Rightarrow> ec_key_pair option
      \<Rightarrow> ec_public_key option \<Rightarrow> ec_public_key option \<Rightarrow> ('c, 's, bob_signal_protocol_parameters) M" where
  "bob_signal_protocol_parameters_create our_identity_key our_signed_pre_key our_one_time_pre_key
       our_ratchet_key their_identity_key their_base_key =
     (case (our_identity_key, our_signed_pre_key, our_ratchet_key, their_identity_key, their_base_key) of
        (Some oi, Some os, Some ork, Some ti, Some tb) \<Rightarrow>
          thenE alloc
           (returnE \<lparr>bob_our_identity_key = oi, bob_our_signed_pre_key = os,
              bob_our_one_time_pre_key = our_one_time_pre_key, bob_our_ratchet_key = ork,
              bob_their_identity_key = ti, bob_their_base_key = tb\<rparr>)
      | _ \<Rightarrow> failE SG_ERR_INVAL)"

section \<open>Initialising a session\<close>

text \<open>The part that both initialisations share: the discontinuity bytes, then one agreement for each
  pair of a public key of the peer and a private key of ours.\<close>

definition agreed_secret ::
    "'c signal_context \<Rightarrow> (ec_public_key \<times> ec_private_key) list \<Rightarrow> ('c, 's, bytes) M" where
  "agreed_secret ctx pairs =
     bindE (vpool_append (vpool_init 1024 0) (replicate 32 0xFF)) (\<lambda>vp.
     bindE (foldE (\<lambda>(their, our) vp.
              bindE (curve_calculate_agreement ctx (Some their) (Some our)) (vpool_append vp)) pairs vp) (\<lambda>vp'.
     if v_off vp' = 0 then failE SG_ERR_UNKNOWN else vpool_get_data vp'))"

definition alice_agreements :: "alice_signal_protocol_parameters \<Rightarrow> (ec_public_key \<times> ec_private_key) list" where
  "alice_agreements p =
     (let base = private_key (alice_our_base_key p) in
      [(alice_their_signed_pre_key p, id_private_key (alice_our_identity_key p)),
       (alice_their_identity_key p, base), (alice_their_signed_pre_key p, base)] @
      (case alice_their_one_time_pre_key p of None \<Rightarrow> [] | Some k \<Rightarrow> [(k, base)]))"

definition bob_agreements :: "bob_signal_protocol_parameters \<Rightarrow> (ec_public_key \<times> ec_private_key) list" where
  "bob_agreements p =
     (let base = bob_their_base_key p; spk = private_key (bob_our_signed_pre_key p) in
      [(bob_their_identity_key p, spk), (base, id_private_key (bob_our_identity_key p)), (base, spk)] @
      (case bob_our_one_time_pre_key p of None \<Rightarrow> [] | Some kp \<Rightarrow> [(base, private_key kp)]))"

definition ratcheting_session_alice_initialize ::
    "'c signal_context \<Rightarrow> session_state \<Rightarrow> alice_signal_protocol_parameters \<Rightarrow> ('c, 's, session_state) M" where
  "ratcheting_session_alice_initialize ctx st p =
     bindE (curve_generate_key_pair ctx) (\<lambda>sending_ratchet_key.
     bindE (agreed_secret ctx (alice_agreements p)) (\<lambda>secret.
     bindE (ratcheting_session_calculate_derived_keys ctx secret) (\<lambda>(derived_root, derived_chain).
     bindE (ratchet_root_key_create_chain ctx derived_root (Some (alice_their_ratchet_key p))
              (Some (private_key sending_ratchet_key))) (\<lambda>(sending_chain_root, sending_chain_key).
     bindE (session_state_add_receiver_chain st (alice_their_ratchet_key p) derived_chain) (\<lambda>st1.
     let st2 = session_state_set_session_version st1 3;
         st3 = session_state_set_remote_identity_key st2 (alice_their_identity_key p);
         st4 = session_state_set_local_identity_key st3 (id_public_key (alice_our_identity_key p));
         st5 = session_state_set_sender_chain st4 sending_ratchet_key sending_chain_key;
         st6 = session_state_set_root_key st5 sending_chain_root
     in returnE st6)))))"

definition ratcheting_session_bob_initialize ::
    "'c signal_context \<Rightarrow> session_state \<Rightarrow> bob_signal_protocol_parameters \<Rightarrow> ('c, 's, session_state) M" where
  "ratcheting_session_bob_initialize ctx st p =
     bindE (agreed_secret ctx (bob_agreements p)) (\<lambda>secret.
     bindE (ratcheting_session_calculate_derived_keys ctx secret) (\<lambda>(derived_root, derived_chain).
     let st1 = session_state_set_session_version st 3;
         st2 = session_state_set_remote_identity_key st1 (bob_their_identity_key p);
         st3 = session_state_set_local_identity_key st2 (id_public_key (bob_our_identity_key p));
         st4 = session_state_set_sender_chain st3 (bob_our_ratchet_key p) derived_chain;
         st5 = session_state_set_root_key st4 derived_root
     in returnE st5))"

definition ratcheting_session_symmetric_is_alice :: "symmetric_signal_protocol_parameters \<Rightarrow> bool" where
  "ratcheting_session_symmetric_is_alice p =
     (ec_public_key_memcmp (Some (public_key (sym_our_base_key p))) (Some (sym_their_base_key p)) < 0)"

definition ratcheting_session_symmetric_initialize ::
    "'c signal_context \<Rightarrow> session_state \<Rightarrow> symmetric_signal_protocol_parameters \<Rightarrow> ('c, 's, session_state) M" where
  "ratcheting_session_symmetric_initialize ctx st p =
     (if ratcheting_session_symmetric_is_alice p then
        bindE (alice_signal_protocol_parameters_create (Some (sym_our_identity_key p))
                 (Some (sym_our_base_key p)) (Some (sym_their_identity_key p)) (Some (sym_their_base_key p))
                 None (Some (sym_their_ratchet_key p)))
          (ratcheting_session_alice_initialize ctx st)
      else
        bindE (bob_signal_protocol_parameters_create (Some (sym_our_identity_key p))
                 (Some (sym_our_base_key p)) None (Some (sym_our_ratchet_key p))
                 (Some (sym_their_identity_key p)) (Some (sym_their_base_key p)))
          (ratcheting_session_bob_initialize ctx st))"

section \<open>What the two sides compute\<close>

definition x3dh_secret :: "(bytes \<Rightarrow> bytes \<Rightarrow> bytes) \<Rightarrow> (ec_public_key \<times> ec_private_key) list \<Rightarrow> bytes" where
  "x3dh_secret DH pairs = replicate 32 0xFF @ concat (map (\<lambda>(their, our). DH our their) pairs)"

definition alice_session ::
    "(bytes \<Rightarrow> bytes \<Rightarrow> bytes) \<Rightarrow> (bytes \<Rightarrow> bytes \<Rightarrow> bytes) \<Rightarrow> session_state \<Rightarrow> alice_signal_protocol_parameters
      \<Rightarrow> ec_key_pair \<Rightarrow> session_state" where
  "alice_session H DH st p kp =
     (let (root, chain) = derived_keys H (x3dh_secret DH (alice_agreements p));
          (sending_root, sending_chain) = root_chain H root (DH (private_key kp) (alice_their_ratchet_key p))
      in st\<lparr>session_version := 3,
            remote_identity_public := Some (alice_their_identity_key p),
            local_identity_public := Some (id_public_key (alice_our_identity_key p)),
            root_key := Some sending_root,
            has_sender_chain := True,
            sender_chain := \<lparr>sender_ratchet_key_pair = Some kp, sender_chain_key = Some sending_chain\<rparr>,
            receiver_chains := dl_trim MAX_RECEIVER_CHAINS (receiver_chains st @
              [\<lparr>sender_ratchet_key = Some (alice_their_ratchet_key p), chain_key = Some chain,
                message_keys = []\<rparr>])\<rparr>)"

definition bob_session ::
    "(bytes \<Rightarrow> bytes \<Rightarrow> bytes) \<Rightarrow> (bytes \<Rightarrow> bytes \<Rightarrow> bytes) \<Rightarrow> session_state \<Rightarrow> bob_signal_protocol_parameters
      \<Rightarrow> session_state" where
  "bob_session H DH st p =
     (let (root, chain) = derived_keys H (x3dh_secret DH (bob_agreements p))
      in st\<lparr>session_version := 3,
            remote_identity_public := Some (bob_their_identity_key p),
            local_identity_public := Some (id_public_key (bob_our_identity_key p)),
            root_key := Some root,
            has_sender_chain := True,
            sender_chain := \<lparr>sender_ratchet_key_pair = Some (bob_our_ratchet_key p),
              sender_chain_key = Some chain\<rparr>\<rparr>)"

text \<open>The parameters of both sides belong to the same keys.\<close>

definition identity_pair_of :: "(bytes \<Rightarrow> bytes \<Rightarrow> bytes) \<Rightarrow> ratchet_identity_key_pair \<Rightarrow> bool" where
  "identity_pair_of DH kp =
     (wf_key (id_private_key kp) \<and> id_public_key kp = DH (id_private_key kp) basepoint)"

definition matching ::
    "(bytes \<Rightarrow> bytes \<Rightarrow> bytes) \<Rightarrow> alice_signal_protocol_parameters \<Rightarrow> bob_signal_protocol_parameters \<Rightarrow> bool" where
  "matching DH a b =
     (identity_pair_of DH (alice_our_identity_key a) \<and> identity_pair_of DH (bob_our_identity_key b) \<and>
      key_pair_of DH (alice_our_base_key a) \<and> key_pair_of DH (bob_our_signed_pre_key b) \<and>
      pred_option (key_pair_of DH) (bob_our_one_time_pre_key b) \<and>
      bob_our_ratchet_key b = bob_our_signed_pre_key b \<and>
      alice_their_identity_key a = id_public_key (bob_our_identity_key b) \<and>
      alice_their_signed_pre_key a = public_key (bob_our_signed_pre_key b) \<and>
      alice_their_ratchet_key a = public_key (bob_our_signed_pre_key b) \<and>
      alice_their_one_time_pre_key a = map_option public_key (bob_our_one_time_pre_key b) \<and>
      bob_their_identity_key b = id_public_key (alice_our_identity_key a) \<and>
      bob_their_base_key b = public_key (alice_our_base_key a))"

section \<open>Lemmas\<close>

definition identity_pair_bytes :: "ratchet_identity_key_pair \<Rightarrow> bytes" where
  "identity_pair_bytes kp = protobuf_c_message_pack textsecure__identity_key_pair_structure__descriptor
     (PBMsg [[V_BYTES (DJB_TYPE # id_public_key kp)], [V_BYTES (id_private_key kp)]] [])"

lemma fits_identity_pair:
  "wf_identity_pair kp \<Longrightarrow> fits_wire textsecure__identity_key_pair_structure__descriptor
     (PBMsg [[V_BYTES (DJB_TYPE # id_public_key kp)], [V_BYTES (id_private_key kp)]] [])"
  by (rule fits_wireI, simp, simp add: textsecure__identity_key_pair_structure__descriptor_def)
     (simp add: wf_identity_pair_def)

interpretation identity_codec:
  object_codec "\<lambda>kp. ratchet_identity_key_pair_serialize (Some kp)" ratchet_identity_key_pair_deserialize
    wf_identity_pair identity_pair_bytes
proof unfold_locales
  fix kp :: ratchet_identity_key_pair
  assume wf: "wf_identity_pair kp"
  show "yields (ratchet_identity_key_pair_serialize (Some kp)) (identity_pair_bytes kp)"
    unfolding ratchet_identity_key_pair_serialize_def identity_pair_bytes_def option.case
    by (rule yields_bindE [OF yields_serialize_key_pair], simp, rule yields_pb_pack)
       (simp_all add: fits_identity_pair [OF wf])
  show "yields (ratchet_identity_key_pair_deserialize (identity_pair_bytes kp)) kp"
    unfolding ratchet_identity_key_pair_deserialize_def identity_pair_bytes_def
    by (rule yields_bindE [OF yields_pb_unpack [OF _ fits_identity_pair [OF wf]]], simp,
        simp add: pb_member_defs, rule yields_bindE [OF yields_curve_decode_point],
        use wf in \<open>simp add: wf_identity_pair_def\<close>, rule yields_bindE [OF yields_curve_decode_private_point],
        use wf in \<open>simp add: wf_identity_pair_def\<close>, rule yields_create_pair(2))
qed

lemma ensures_agreements:
  assumes "curve_laws ctx DH" and "\<forall>(their, our) \<in> set pairs. wf_key their \<and> wf_key our"
    and "vpool_holds vp bs" and "length bs + 32 * length pairs < 2 ^ 63"
  shows "ensures (foldE (\<lambda>(their, our) vp.
      bindE (curve_calculate_agreement ctx (Some their) (Some our)) (vpool_append vp)) pairs vp :: ('c, 's, vpool) M)
    (\<lambda>vp'. vpool_holds vp' (bs @ concat (map (\<lambda>(their, our). DH our their) pairs)))"
  using assms(2-)
proof (induction pairs arbitrary: vp bs)
  case (Cons pair pairs)
  obtain their our where pair: "pair = (their, our)" by force
  have wf: "wf_key their" "wf_key our" using Cons.prems(1) pair by auto
  have len: "length (DH our their) = 32" using curve_laws_wf [OF assms(1) wf(2,1)] by simp
  have "ensures (bindE (curve_calculate_agreement ctx (Some their) (Some our)) (vpool_append vp) :: ('c, 's, vpool) M)
      (\<lambda>vp'. vpool_holds vp' (bs @ DH our their))"
    by (rule ensures_bind_yields [OF yields_curve_calculate_agreement [OF assms(1) wf(2,1)]],
        rule ensures_vpool_append_E [OF Cons.prems(2)]) (use Cons.prems(3) len in simp)
  then show ?case
    unfolding foldE.simps pair prod.case
  proof (rule ensures_bindE)
    fix vp'
    assume vp': "vpool_holds vp' (bs @ DH our their)"
    show "ensures (foldE (\<lambda>(their, our) vp.
        bindE (curve_calculate_agreement ctx (Some their) (Some our)) (vpool_append vp)) pairs vp' :: ('c, 's, vpool) M)
      (\<lambda>vp''. vpool_holds vp'' (bs @ concat (map (\<lambda>(their, our). DH our their) ((their, our) # pairs))))"
      using Cons.IH [OF _ vp'] Cons.prems(1,3) len by simp
  qed
qed (simp add: ensures_returnE)

lemma yields_agreed_secret:
  assumes "curve_laws ctx DH" and "\<forall>(their, our) \<in> set pairs. wf_key their \<and> wf_key our" and "length pairs \<le> 8"
  shows "yields (agreed_secret ctx pairs) (x3dh_secret DH pairs)"
  unfolding yields_def agreed_secret_def
proof (rule ensures_bindE)
  show "ensures (vpool_append (vpool_init 1024 0) (replicate 32 0xFF)) (\<lambda>vp. vpool_holds vp (replicate 32 0xFF))"
    using ensures_vpool_append_E [OF vpool_holds_init, of "replicate 32 0xFF"] by simp
next
  fix vp
  assume "vpool_holds vp (replicate 32 0xFF)"
  then show "ensures (bindE (foldE (\<lambda>(their, our) vp.
        bindE (curve_calculate_agreement ctx (Some their) (Some our)) (vpool_append vp)) pairs vp)
      (\<lambda>vp'. if v_off vp' = 0 then failE SG_ERR_UNKNOWN else vpool_get_data vp')) (\<lambda>y. y = x3dh_secret DH pairs)"
  proof (rule ensures_bindE [OF ensures_agreements [OF assms(1,2)]])
    fix vp'
    assume "vpool_holds vp' (replicate 32 0xFF @ concat (map (\<lambda>(their, our). DH our their) pairs))"
    then show "ensures (if v_off vp' = 0 then failE SG_ERR_UNKNOWN else vpool_get_data vp') (\<lambda>y. y = x3dh_secret DH pairs)"
      using yields_vpool_get_data [unfolded yields_def] by (simp add: vpool_holds_length x3dh_secret_def)
  qed (use assms(3) in simp)
qed

definition wf_alice_parameters :: "alice_signal_protocol_parameters \<Rightarrow> bool" where
  "wf_alice_parameters p =
     (wf_identity_pair (alice_our_identity_key p) \<and> wf_pair (alice_our_base_key p) \<and>
      wf_key (alice_their_identity_key p) \<and> wf_key (alice_their_signed_pre_key p) \<and>
      pred_option wf_key (alice_their_one_time_pre_key p) \<and> wf_key (alice_their_ratchet_key p))"

definition wf_bob_parameters :: "bob_signal_protocol_parameters \<Rightarrow> bool" where
  "wf_bob_parameters p =
     (wf_identity_pair (bob_our_identity_key p) \<and> wf_pair (bob_our_signed_pre_key p) \<and>
      pred_option wf_pair (bob_our_one_time_pre_key p) \<and> wf_pair (bob_our_ratchet_key p) \<and>
      wf_key (bob_their_identity_key p) \<and> wf_key (bob_their_base_key p))"

lemma alice_agreements_wf:
  "wf_alice_parameters p \<Longrightarrow>
   (\<forall>(their, our) \<in> set (alice_agreements p). wf_key their \<and> wf_key our) \<and> length (alice_agreements p) \<le> 8"
  by (auto simp: alice_agreements_def wf_alice_parameters_def wf_identity_pair_def wf_pair_def Let_def split: option.splits)

lemma bob_agreements_wf:
  "wf_bob_parameters p \<Longrightarrow>
   (\<forall>(their, our) \<in> set (bob_agreements p). wf_key their \<and> wf_key our) \<and> length (bob_agreements p) \<le> 8"
  by (auto simp: bob_agreements_def wf_bob_parameters_def wf_identity_pair_def wf_pair_def Let_def split: option.splits)

lemma yields_bob_initialize:
  assumes "hmac_laws ctx H" and "curve_laws ctx DH" and "wf_bob_parameters p"
  shows "yields (ratcheting_session_bob_initialize ctx st p) (bob_session H DH st p)"
  unfolding ratcheting_session_bob_initialize_def Let_def
  by (rule yields_bindE [OF yields_agreed_secret [OF assms(2)]], use bob_agreements_wf [OF assms(3)] in simp,
      use bob_agreements_wf [OF assms(3)] in simp,
      rule yields_bindE [OF yields_calculate_derived_keys [OF assms(1)]], simp only: split_def,
      rule yields_cong [OF yields_returnE], cases st)
     (simp add: bob_session_def split_def Let_def session_state_set_session_version_def
       session_state_set_remote_identity_key_def session_state_set_local_identity_key_def
       session_state_set_sender_chain_def session_state_set_root_key_def)

lemma derived_keys_kdf:
  assumes "hmac_laws ctx H" and "derived_keys H secret = (root, chain)"
  shows "wf_root_key 3 root" and "wf_chain_key 3 chain" and "wf_kdf (rk_kdf root)"
  using assms
  by (auto simp: derived_keys_def Let_def wf_root_key_def wf_chain_key_def kdf_of_def wf_kdf_def rfc5869_length)

lemma root_chain_wf:
  assumes "hmac_laws ctx H" and "wf_root_key v rk" and "root_chain H rk secret = (root, chain)"
  shows "wf_root_key v root" and "wf_chain_key v chain"
  using assms by (auto simp: root_chain_def Let_def wf_root_key_def wf_chain_key_def rfc5869_length)

lemma ensures_alice_initialize:
  assumes H: "hmac_laws (ctx :: 'c signal_context) H" and DH: "curve_laws ctx DH" and rnd: "random_laws ctx" and p: "wf_alice_parameters p"
  shows "ensures (ratcheting_session_alice_initialize ctx st p :: ('c, 's, session_state) M)
    (\<lambda>st'. \<exists>kp. key_pair_of DH kp \<and> st' = alice_session H DH st p kp)"
  unfolding ratcheting_session_alice_initialize_def
proof (rule ensures_bindE [OF ensures_curve_generate_key_pair [OF DH rnd]])
  fix kp
  assume kp: "key_pair_of DH kp"
  let ?secret = "x3dh_secret DH (alice_agreements p)"
  obtain root chain where d: "derived_keys H ?secret = (root, chain)" by force
  obtain sroot schain where r: "root_chain H root (DH (private_key kp) (alice_their_ratchet_key p)) = (sroot, schain)"
    by force
  have rat: "wf_key (alice_their_ratchet_key p)" using p by (simp add: wf_alice_parameters_def)
  let ?rest = "\<lambda>secret :: bytes. (bindE (ratcheting_session_calculate_derived_keys ctx secret) (\<lambda>(derived_root, derived_chain).
     bindE (ratchet_root_key_create_chain ctx derived_root (Some (alice_their_ratchet_key p))
              (Some (private_key kp))) (\<lambda>(sending_chain_root, sending_chain_key).
     bindE (session_state_add_receiver_chain st (alice_their_ratchet_key p) derived_chain) (\<lambda>st1.
     let st2 = session_state_set_session_version st1 3;
         st3 = session_state_set_remote_identity_key st2 (alice_their_identity_key p);
         st4 = session_state_set_local_identity_key st3 (id_public_key (alice_our_identity_key p));
         st5 = session_state_set_sender_chain st4 kp sending_chain_key;
         st6 = session_state_set_root_key st5 sending_chain_root
     in returnE st6)))) :: ('c, 's, session_state) M"
  have "yields (bindE (agreed_secret ctx (alice_agreements p)) ?rest :: ('c, 's, session_state) M) (alice_session H DH st p kp)"
    apply (rule yields_bindE [OF yields_agreed_secret [OF DH]])
      apply (use alice_agreements_wf [OF p] in simp)
     apply (use alice_agreements_wf [OF p] in simp)
    apply (rule yields_bindE [OF yields_calculate_derived_keys [OF H]])
    apply (simp only: d prod.case)
    apply (rule yields_bindE [OF yields_create_chain [OF H DH derived_keys_kdf(3) [OF H d] rat]])
     apply (use key_pair_of_wf [OF DH kp] in simp)
    apply (simp only: r prod.case session_state_add_receiver_chain_def)
    apply (rule yields_bindE [OF yields_thenE [OF yields_alloc yields_returnE]])
    apply (simp only: Let_def, rule yields_cong [OF yields_returnE], cases st)
    apply (simp add: alice_session_def d r Let_def session_state_set_session_version_def
        session_state_set_remote_identity_key_def session_state_set_local_identity_key_def
        session_state_set_sender_chain_def session_state_set_root_key_def)
    done
  then show "ensures (bindE (agreed_secret ctx (alice_agreements p)) ?rest)
      (\<lambda>st'. \<exists>kp. key_pair_of DH kp \<and> st' = alice_session H DH st p kp)"
    by (rule ensures_yields) (use kp in blast)
qed

text \<open>Both sides derive the same keys.\<close>

lemma matching_wf:
  assumes "curve_laws ctx DH" and "matching DH a b"
  shows "wf_alice_parameters a" and "wf_bob_parameters b"
  using assms curve_laws_wf [OF assms(1)] key_pair_of_wf [OF assms(1)]
  by (auto simp: wf_alice_parameters_def wf_bob_parameters_def matching_def identity_pair_of_def
      wf_identity_pair_def wf_pair_def option.pred_map comp_def elim!: option.pred_mono_strong)

lemma x3dh_agree:
  assumes laws: "curve_laws ctx DH" and m: "matching DH a b"
  shows "x3dh_secret DH (alice_agreements a) = x3dh_secret DH (bob_agreements b)"
proof -
  have comm: "DH (k :: bytes) (DH k' basepoint) = DH k' (DH k basepoint)" if "wf_key k" "wf_key k'" for k k'
    using that by (rule curve_laws_DH_commute [OF laws])
  have wf: "wf_key (id_private_key (alice_our_identity_key a))" "wf_key (id_private_key (bob_our_identity_key b))"
    "wf_key (private_key (alice_our_base_key a))" "wf_key (private_key (bob_our_signed_pre_key b))"
    using m by (auto simp: matching_def identity_pair_of_def key_pair_of_def clamped_def)
  show ?thesis
  proof (cases "bob_our_one_time_pre_key b")
    case None
    with m wf show ?thesis
      by (simp add: x3dh_secret_def alice_agreements_def bob_agreements_def matching_def identity_pair_of_def
          key_pair_of_def Let_def comm)
  next
    case (Some kp)
    then have "wf_key (private_key kp)" using m by (simp add: matching_def key_pair_of_def clamped_def)
    with m wf Some show ?thesis
      by (simp add: x3dh_secret_def alice_agreements_def bob_agreements_def matching_def identity_pair_of_def
          key_pair_of_def Let_def comm)
  qed
qed

lemma wf_alice_session:
  assumes "hmac_laws ctx H" and "curve_laws ctx DH" and "wf_alice_parameters p" and "key_pair_of DH kp"
  shows "wf_session_state (alice_session H DH empty_session_state p kp)"
proof -
  obtain root chain where d: "derived_keys H (x3dh_secret DH (alice_agreements p)) = (root, chain)" by force
  obtain sroot schain where r: "root_chain H root (DH (private_key kp) (alice_their_ratchet_key p)) = (sroot, schain)"
    by force
  note k = derived_keys_kdf [OF assms(1) d]
  show ?thesis
    using assms(3) k(2) root_chain_wf [OF assms(1) k(1) r] key_pair_of_wf [OF assms(2,4)] wf_empty_session_state
    by (simp add: alice_session_def d r wf_session_state_def wf_sender_chain_def wf_receiver_chain_def
        wf_version_def wf_alice_parameters_def wf_identity_pair_def wf_pair_def empty_session_state_def
        dl_trim_short MAX_RECEIVER_CHAINS_def)
qed

lemma wf_bob_session:
  assumes "hmac_laws ctx H" and "wf_bob_parameters p"
  shows "wf_session_state (bob_session H DH empty_session_state p)"
proof -
  obtain root chain where d: "derived_keys H (x3dh_secret DH (bob_agreements p)) = (root, chain)" by force
  show ?thesis
    using assms(2) derived_keys_kdf [OF assms(1) d] wf_empty_session_state
    by (simp add: bob_session_def d wf_session_state_def wf_sender_chain_def
        wf_version_def wf_bob_parameters_def wf_identity_pair_def empty_session_state_def)
qed

lemma keeps_ratcheting_session [keeps_rules, intro!]:
  "keeps_store (agreed_secret ctx pairs)"
  "keeps_store (ratcheting_session_alice_initialize ctx st a)"
  "keeps_store (ratcheting_session_bob_initialize ctx st b)"
proof -
  show secret: "keeps_store (agreed_secret ctx pairs)" for pairs
    by (auto simp: agreed_secret_def vpool_append_def vpool_get_data_def)
  show "keeps_store (ratcheting_session_alice_initialize ctx st a)"
    and "keeps_store (ratcheting_session_bob_initialize ctx st b)"
    by (auto simp: ratcheting_session_alice_initialize_def ratcheting_session_bob_initialize_def
        session_state_add_receiver_chain_def Let_def intro!: secret)
qed

end
