(* ===== verification/Pre_Keys.thy ===== *)
theory Pre_Keys
  imports Session_State_Laws
begin

text \<open>
  session\_pre\_key.c: one-time pre keys and signed pre keys with their serialised form, and the bundle
  of public keys that a session is built from.
\<close>

section \<open>Model\<close>

record session_pre_key =
  pre_key_id :: "32 word"
  pre_key_pair :: ec_key_pair

record session_signed_pre_key =
  signed_pre_key_id :: "32 word"
  signed_pre_key_pair :: ec_key_pair
  signed_pre_key_timestamp :: "64 word"
  signed_pre_key_signature :: bytes

record session_pre_key_bundle =
  bundle_registration_id :: "32 word"
  bundle_device_id :: int
  bundle_pre_key_id :: "32 word"
  bundle_pre_key :: "ec_public_key option"
  bundle_signed_pre_key_id :: "32 word"
  bundle_signed_pre_key :: "ec_public_key option"
  bundle_signed_pre_key_signature :: "bytes option"
  bundle_identity_key :: "ec_public_key option"

definition session_pre_key_create :: "32 word \<Rightarrow> ec_key_pair option \<Rightarrow> ('c, 's, session_pre_key) M" where
  "session_pre_key_create i key_pair =
     bindE (derefE key_pair) (\<lambda>kp. thenE alloc (returnE \<lparr>pre_key_id = i, pre_key_pair = kp\<rparr>))"

definition session_pre_key_serialize :: "session_pre_key option \<Rightarrow> ('c, 's, bytes) M" where
  "session_pre_key_serialize pre_key =
     (case pre_key of
        None \<Rightarrow> failE SG_ERR_INVAL
      | Some pk \<Rightarrow>
          bindE (ec_public_key_serialize (Some (public_key (pre_key_pair pk)))) (\<lambda>pub.
          bindE (ec_private_key_serialize (Some (private_key (pre_key_pair pk)))) (\<lambda>priv.
          pb_pack textsecure__pre_key_record_structure__descriptor
            (PBMsg [[V_UINT32 (pre_key_id pk)], [V_BYTES pub], [V_BYTES priv]] []))))"

definition session_pre_key_deserialize :: "bytes \<Rightarrow> ('c, 's, session_pre_key) M" where
  "session_pre_key_deserialize data =
     bindE (pb_unpack textsecure__pre_key_record_structure__descriptor data) (\<lambda>m.
     (case (pb_uint32 0 m, pb_bytes 1 m, pb_bytes 2 m) of
        (Some i, Some pub, Some priv) \<Rightarrow>
          bindE (curve_decode_point pub) (\<lambda>p.
          bindE (curve_decode_private_point priv) (\<lambda>k.
          bindE (ec_key_pair_create p k) (\<lambda>kp.
          session_pre_key_create i (Some kp))))
      | _ \<Rightarrow> failE SG_ERR_INVALID_KEY))"

definition sizeof_session_signed_pre_key :: nat where "sizeof_session_signed_pre_key = 48"

definition session_signed_pre_key_create ::
    "32 word \<Rightarrow> 64 word \<Rightarrow> ec_key_pair option \<Rightarrow> bytes option \<Rightarrow> ('c, 's, session_signed_pre_key) M" where
  "session_signed_pre_key_create i ts key_pair signature =
     bindE (derefE key_pair) (\<lambda>kp.
     bindE (derefE signature) (\<lambda>sig.
     thenE (assertE (length sig > 0))
     (thenE (guardE (length sig \<le> SIZE_MAX - sizeof_session_signed_pre_key) SG_ERR_NOMEM)
     (thenE alloc
       (returnE \<lparr>signed_pre_key_id = i, signed_pre_key_pair = kp, signed_pre_key_timestamp = ts,
          signed_pre_key_signature = sig\<rparr>)))))"

definition session_signed_pre_key_serialize :: "session_signed_pre_key \<Rightarrow> ('c, 's, bytes) M" where
  "session_signed_pre_key_serialize pk =
     bindE (ec_public_key_serialize (Some (public_key (signed_pre_key_pair pk)))) (\<lambda>pub.
     bindE (ec_private_key_serialize (Some (private_key (signed_pre_key_pair pk)))) (\<lambda>priv.
     bindE (new_buffer (signed_pre_key_signature pk)) (\<lambda>sig.
     pb_pack textsecure__signed_pre_key_record_structure__descriptor
       (PBMsg [[V_UINT32 (signed_pre_key_id pk)], [V_BYTES pub], [V_BYTES priv], [V_BYTES sig],
          [V_FIXED64 (signed_pre_key_timestamp pk)]] []))))"

definition session_signed_pre_key_deserialize :: "bytes \<Rightarrow> ('c, 's, session_signed_pre_key) M" where
  "session_signed_pre_key_deserialize data =
     bindE (pb_unpack textsecure__signed_pre_key_record_structure__descriptor data) (\<lambda>m.
     (case (pb_uint32 0 m, pb_fixed64 4 m, pb_bytes 1 m, pb_bytes 2 m, pb_bytes 3 m) of
        (Some i, Some ts, Some pub, Some priv, Some sig) \<Rightarrow>
          bindE (curve_decode_point pub) (\<lambda>p.
          bindE (curve_decode_private_point priv) (\<lambda>k.
          bindE (ec_key_pair_create p k) (\<lambda>kp.
          session_signed_pre_key_create i ts (Some kp) (data_pointer sig))))
      | _ \<Rightarrow> failE SG_ERR_INVALID_KEY))"

text \<open>A signature that cannot be copied is left out without an error.\<close>

definition session_pre_key_bundle_create ::
    "32 word \<Rightarrow> int \<Rightarrow> 32 word \<Rightarrow> ec_public_key option \<Rightarrow> 32 word \<Rightarrow> ec_public_key option \<Rightarrow> bytes option
      \<Rightarrow> ec_public_key option \<Rightarrow> ('c, 's, session_pre_key_bundle) M" where
  "session_pre_key_bundle_create reg_id device pk_id pk spk_id spk signature identity_key =
     thenE alloc
      (bindE (case signature of
                Some sig \<Rightarrow> if length sig > 0 then signal_buffer_create sig else returnE None
              | None \<Rightarrow> returnE None) (\<lambda>sig.
       returnE \<lparr>bundle_registration_id = reg_id, bundle_device_id = device, bundle_pre_key_id = pk_id,
         bundle_pre_key = pk, bundle_signed_pre_key_id = spk_id, bundle_signed_pre_key = spk,
         bundle_signed_pre_key_signature = sig, bundle_identity_key = identity_key\<rparr>))"

section \<open>Lemmas\<close>

definition pre_key_structure :: "session_pre_key \<Rightarrow> pb_message" where
  "pre_key_structure pk = PBMsg [[V_UINT32 (pre_key_id pk)],
     [V_BYTES (DJB_TYPE # public_key (pre_key_pair pk))], [V_BYTES (private_key (pre_key_pair pk))]] []"

definition signed_pre_key_structure :: "session_signed_pre_key \<Rightarrow> pb_message" where
  "signed_pre_key_structure pk = PBMsg [[V_UINT32 (signed_pre_key_id pk)],
     [V_BYTES (DJB_TYPE # public_key (signed_pre_key_pair pk))],
     [V_BYTES (private_key (signed_pre_key_pair pk))], [V_BYTES (signed_pre_key_signature pk)],
     [V_FIXED64 (signed_pre_key_timestamp pk)]] []"

definition pre_key_bytes :: "session_pre_key \<Rightarrow> bytes" where
  "pre_key_bytes pk = protobuf_c_message_pack textsecure__pre_key_record_structure__descriptor (pre_key_structure pk)"

definition signed_pre_key_bytes :: "session_signed_pre_key \<Rightarrow> bytes" where
  "signed_pre_key_bytes pk =
     protobuf_c_message_pack textsecure__signed_pre_key_record_structure__descriptor (signed_pre_key_structure pk)"

definition wf_pre_key :: "session_pre_key \<Rightarrow> bool" where
  "wf_pre_key pk = wf_pair (pre_key_pair pk)"

definition wf_signed_pre_key :: "session_signed_pre_key \<Rightarrow> bool" where
  "wf_signed_pre_key pk = (wf_pair (signed_pre_key_pair pk) \<and>
     0 < length (signed_pre_key_signature pk) \<and> length (signed_pre_key_signature pk) \<le> 2 ^ 20)"

lemma fits_pre_key:
  "wf_pre_key pk \<Longrightarrow> fits_wire textsecure__pre_key_record_structure__descriptor (pre_key_structure pk)"
  by (rule fits_wireI, simp, simp add: textsecure__pre_key_record_structure__descriptor_def pre_key_structure_def)
     (simp add: pre_key_structure_def wf_pre_key_def wf_pair_def)

lemma fits_signed_pre_key:
  "wf_signed_pre_key pk \<Longrightarrow>
   fits_wire textsecure__signed_pre_key_record_structure__descriptor (signed_pre_key_structure pk)"
  by (rule fits_wireI, simp,
      simp add: textsecure__signed_pre_key_record_structure__descriptor_def signed_pre_key_structure_def)
     (simp add: signed_pre_key_structure_def wf_signed_pre_key_def wf_pair_def)

lemma yields_decode_pair_then:
  assumes "wf_pair kp" and "yields (f kp) x"
  shows "yields (bindE (curve_decode_point (DJB_TYPE # public_key kp)) (\<lambda>p.
    bindE (curve_decode_private_point (private_key kp)) (\<lambda>k. bindE (ec_key_pair_create p k) f))) x"
  by (rule yields_bindE [OF yields_curve_decode_point], use assms(1) in \<open>simp add: wf_pair_def\<close>,
      rule yields_bindE [OF yields_curve_decode_private_point], use assms(1) in \<open>simp add: wf_pair_def\<close>,
      rule yields_bindE [OF yields_create_pair(1)], rule assms(2))

interpretation pre_key_codec:
  object_codec "\<lambda>pk. session_pre_key_serialize (Some pk)" session_pre_key_deserialize wf_pre_key pre_key_bytes
proof unfold_locales
  fix pk :: session_pre_key
  assume wf: "wf_pre_key pk"
  show "yields (session_pre_key_serialize (Some pk)) (pre_key_bytes pk)"
    unfolding session_pre_key_serialize_def pre_key_bytes_def option.case
    by (rule yields_bindE [OF yields_ec_public_key_serialize], rule yields_bindE [OF yields_ec_private_key_serialize])
       (use yields_pb_pack [OF _ fits_pre_key [OF wf]] in \<open>simp add: pre_key_structure_def\<close>)
  have "yields (session_pre_key_create (pre_key_id pk) (Some (pre_key_pair pk))) pk"
    unfolding session_pre_key_create_def
    by (rule yields_bindE [OF yields_derefE], rule yields_thenE [OF yields_alloc], rule yields_cong [OF yields_returnE]) simp
  then show "yields (session_pre_key_deserialize (pre_key_bytes pk)) pk"
    unfolding session_pre_key_deserialize_def pre_key_bytes_def
    by (intro yields_bindE [OF yields_pb_unpack [OF _ fits_pre_key [OF wf]]])
       (use wf in \<open>auto simp: pre_key_structure_def pb_member_defs wf_pre_key_def
         intro!: yields_decode_pair_then\<close>)
qed

interpretation signed_pre_key_codec:
  object_codec session_signed_pre_key_serialize session_signed_pre_key_deserialize wf_signed_pre_key signed_pre_key_bytes
proof unfold_locales
  fix pk :: session_signed_pre_key
  assume wf: "wf_signed_pre_key pk"
  have sig: "yields (new_buffer (signed_pre_key_signature pk)) (signed_pre_key_signature pk)"
    by (rule yields_new_buffer) (use wf in \<open>simp add: wf_signed_pre_key_def\<close>)
  show "yields (session_signed_pre_key_serialize pk) (signed_pre_key_bytes pk)"
    unfolding session_signed_pre_key_serialize_def signed_pre_key_bytes_def
    by (rule yields_bindE [OF yields_ec_public_key_serialize], rule yields_bindE [OF yields_ec_private_key_serialize],
        rule yields_bindE [OF sig])
       (use yields_pb_pack [OF _ fits_signed_pre_key [OF wf]] in \<open>simp add: signed_pre_key_structure_def\<close>)
  have "yields (session_signed_pre_key_create (signed_pre_key_id pk) (signed_pre_key_timestamp pk)
      (Some (signed_pre_key_pair pk)) (data_pointer (signed_pre_key_signature pk))) pk"
    unfolding session_signed_pre_key_create_def
    by (rule yields_bindE [OF yields_derefE])
       (use wf in \<open>auto simp: wf_signed_pre_key_def data_pointer_def SIZE_MAX_def sizeof_session_signed_pre_key_def
         intro!: yields_bindE [OF yields_derefE]
         intro!: yields_thenE [OF yields_assertE] yields_thenE [OF yields_guardE] yields_thenE [OF yields_alloc]
           yields_cong [OF yields_returnE]\<close>)
  then show "yields (session_signed_pre_key_deserialize (signed_pre_key_bytes pk)) pk"
    unfolding session_signed_pre_key_deserialize_def signed_pre_key_bytes_def
    by (intro yields_bindE [OF yields_pb_unpack [OF _ fits_signed_pre_key [OF wf]]])
       (use wf in \<open>auto simp: signed_pre_key_structure_def pb_member_defs wf_signed_pre_key_def
         intro!: yields_decode_pair_then\<close>)
qed

end
