(* ===== verification/Codec_Properties.thy ===== *)
theory Codec_Properties
  imports Messages_Laws Session_Record Ratcheting_Session Pre_Keys Sample_Provider
begin

text \<open>
  Properties of the wire format and of the serialised objects: what is written is read back, hostile
  input is handled in bounds, authentication codes, and the bounds on what a session keeps.
\<close>

section \<open>The wire format\<close>



text \<open>C10: for every message type whose description is well-formed, the packed form of a message has exactly
  the computed size, and unpacking it gives the message back.\<close>

theorem wire_round_trip:
  assumes "desc_ok d" and "msg_ok d m" and "protobuf_c_message_get_packed_size d m < 2 ^ 26"
  shows "length (protobuf_c_message_pack d m) = protobuf_c_message_get_packed_size d m \<and>
    protobuf_c_message_unpack d (protobuf_c_message_pack d m) = Ok m"
  using unpack_pack [OF assms(1,2)] packed_size(2) [OF assms(1,2)] assms(3) by simp

theorem wire_round_trip_witness:
  "protobuf_c_message_unpack textsecure__pre_key_record_structure__descriptor
     (protobuf_c_message_pack textsecure__pre_key_record_structure__descriptor
       (PBMsg [[V_UINT32 300], [V_BYTES [1, 2]], []] [])) = Ok (PBMsg [[V_UINT32 300], [V_BYTES [1, 2]], []] [])"
  by (rule wire_round_trip [THEN conjunct2], simp)
     (simp_all add: textsecure__pre_key_record_structure__descriptor_def uint32_size_def get_tag_size_def)

section \<open>Serialised objects\<close>

text \<open>C8: a session record that every operation of the library keeps well-formed (up to 40 archived states of up
  to 5 chains with up to 2000 stored keys each) is serialised without error and read back as the same record,
  which is then not fresh; the same holds for a single state.\<close>

theorem session_round_trip:
  assumes "wf_session_record r" and "wf_session_state st"
  shows "yields (bindE (session_record_serialize (Some r)) session_record_deserialize :: ('c, 's, _) M) (r\<lparr>is_fresh := False\<rparr>) \<and>
    yields (bindE (session_state_serialize st) session_state_deserialize :: ('c, 's, _) M) st"
  by (intro conjI yields_bindE [OF yields_session_record_serialize [OF assms(1)]]
      yields_session_record_deserialize [OF assms(1)] session_codec.round_trip [OF assms(2)])

theorem session_round_trip_witness:
  "yields (bindE (session_record_serialize (Some \<lparr>record_state = Some empty_session_state, previous_states = [], is_fresh = True\<rparr>))
      session_record_deserialize :: (unit, unit, _) M) \<lparr>record_state = Some empty_session_state, previous_states = [], is_fresh = False\<rparr> \<and>
   yields (bindE (session_state_serialize empty_session_state) session_state_deserialize :: (unit, unit, _) M) empty_session_state"
  using session_round_trip [of "\<lparr>record_state = Some empty_session_state, previous_states = [], is_fresh = True\<rparr>"
      empty_session_state, where 'c = unit and 's = unit]
  by (simp add: wf_session_record_def)

text \<open>C31: pre keys, signed pre keys and identity key pairs are serialised without error and read back as they
  were.\<close>

theorem key_objects_round_trip:
  assumes "wf_pre_key pk" and "wf_signed_pre_key spk" and "wf_identity_pair ip"
  shows "yields (bindE (session_pre_key_serialize (Some pk)) session_pre_key_deserialize :: ('c, 's, _) M) pk \<and>
    yields (bindE (session_signed_pre_key_serialize spk) session_signed_pre_key_deserialize :: ('c, 's, _) M) spk \<and>
    yields (bindE (ratchet_identity_key_pair_serialize (Some ip)) ratchet_identity_key_pair_deserialize :: ('c, 's, _) M) ip"
  by (intro conjI pre_key_codec.round_trip signed_pre_key_codec.round_trip identity_codec.round_trip assms)

theorem key_objects_round_trip_witness:
  "yields (bindE (session_pre_key_serialize (Some \<lparr>pre_key_id = 1, pre_key_pair = sample_pair 1\<rparr>)) session_pre_key_deserialize :: (unit, unit, _) M)
    \<lparr>pre_key_id = 1, pre_key_pair = sample_pair 1\<rparr>"
  by (rule key_objects_round_trip [where spk = "\<lparr>signed_pre_key_id = 1, signed_pre_key_pair = sample_pair 1,
      signed_pre_key_timestamp = 0, signed_pre_key_signature = [1]\<rparr>" and
      ip = "\<lparr>id_public_key = public_key (sample_pair 1), id_private_key = private_key (sample_pair 1)\<rparr>", THEN conjunct1])
     (simp_all add: wf_pre_key_def wf_signed_pre_key_def wf_identity_pair_def wf_pair_def)

text \<open>C22: a message that is created is read back from its bytes, and its authentication code verifies with
  the keys it was made with, for both message versions and ciphertexts of up to 2^25 bytes.\<close>

theorem signal_message_round_trip:
  fixes ctx :: "'c signal_context"
  assumes "hmac_laws ctx H" and "v = 2 \<or> v = 3" and "wf_key rk" and "length ct \<le> 2 ^ 25"
  shows "yields (bindE (signal_message_create ctx v key (Some rk) n pn ct (Some s) (Some r)) (\<lambda>m.
      bindE (signal_message_deserialize (sm_serialized m)) (\<lambda>m'.
      bindE (signal_message_verify_mac ctx m' (Some s) (Some r) key) (\<lambda>ok.
      returnE (sm_version m', sm_ratchet_key m', sm_counter m', sm_previous_counter m', sm_ciphertext m', ok)))) :: ('c, 's, _) M)
    (v, rk, n, pn, ct, True)"
proof -
  have ct: "length ct \<le> MAX_CIPHERTEXT" using assms(4) by (simp add: MAX_CIPHERTEXT_def)
  show ?thesis
    by (rule yields_bindE [OF yields_signal_message_create [OF assms(1,3) ct]],
        rule yields_bindE [OF yields_signal_message_deserialize [OF wf_signal_message_of [OF assms(1-3) ct]]],
        rule yields_bindE [OF yields_verify_mac [OF assms(1)]], rule yields_cong [OF yields_returnE])
       (simp add: signal_message_of_def)
qed

theorem signal_message_round_trip_witness:
  "yields (bindE (signal_message_create sample_context 3 [1] (Some (public_key (sample_pair 1))) 7 6 [2, 3]
        (Some (public_key (sample_pair 2))) (Some (public_key (sample_pair 3)))) (\<lambda>m.
      bindE (signal_message_deserialize (sm_serialized m)) (\<lambda>m'.
      bindE (signal_message_verify_mac sample_context m' (Some (public_key (sample_pair 2)))
        (Some (public_key (sample_pair 3))) [1]) (\<lambda>ok.
      returnE (sm_version m', sm_ratchet_key m', sm_counter m', sm_previous_counter m', sm_ciphertext m', ok))))
      :: (sample_memory, unit, _) M)
    (3, public_key (sample_pair 1), 7, 6, [2, 3], True)"
  by (rule signal_message_round_trip [OF sample_hmac_laws]) simp_all

text \<open>C23: a pre key message is created for every well-formed message of version 3 and read back from its bytes
  with every member.\<close>

theorem pre_key_message_round_trip:
  assumes "wf_key base" and "wf_key ident" and "wf_inner_message msg"
  shows "yields (bindE (pre_key_signal_message_create 3 reg pk spk (Some base) (Some ident) (Some msg)) (\<lambda>m.
      bindE (pre_key_signal_message_deserialize (pkm_serialized m)) (\<lambda>m'.
      returnE (pkm_version m', pkm_registration_id m', pkm_pre_key_id m', pkm_signed_pre_key_id m', pkm_base_key m',
        pkm_identity_key m', pkm_message m'))) :: ('c, 's, _) M) (3, reg, pk, spk, base, ident, msg)"
  by (rule yields_bindE [OF yields_pre_key_signal_message_create [OF assms]],
      rule yields_bindE [OF yields_pre_key_signal_message_deserialize [OF assms]], rule yields_cong [OF yields_returnE])
     (simp add: pre_key_message_of_def)

theorem pre_key_message_round_trip_witness:
  "yields (bindE (pre_key_signal_message_create 3 5 (Some 6) 7 (Some (public_key (sample_pair 1))) (Some (public_key (sample_pair 2)))
        (Some (signal_message_of sample_hmac 3 [1] (public_key (sample_pair 3)) 0 0 [9] [] []))) (\<lambda>m.
      bindE (pre_key_signal_message_deserialize (pkm_serialized m)) (\<lambda>m'.
      returnE (pkm_version m', pkm_registration_id m', pkm_pre_key_id m', pkm_signed_pre_key_id m', pkm_base_key m',
        pkm_identity_key m', pkm_message m'))) :: (unit, unit, _) M)
    (3, 5, Some 6, 7, public_key (sample_pair 1), public_key (sample_pair 2),
      signal_message_of sample_hmac 3 [1] (public_key (sample_pair 3)) 0 0 [9] [] [])"
  by (rule pre_key_message_round_trip)
     (simp_all add: wf_inner_message_def wf_signal_message_of [OF sample_hmac_laws] MAX_CIPHERTEXT_def,
      simp_all add: signal_message_of_def)

text \<open>C24: the check of a message's authentication code, however the message was made, succeeds exactly when the
  last 8 bytes of the serialised message are the code of the bytes before them for the version, the two identity
  keys and the key.\<close>

theorem verify_mac_exact:
  fixes ctx :: "'c signal_context"
  assumes "hmac_laws ctx H" and "length (sm_serialized m) \<ge> 8"
  shows "yields (signal_message_verify_mac ctx m (Some s) (Some r) key :: ('c, 's, _) M)
    (drop (length (sm_serialized m) - 8) (sm_serialized m) =
     message_mac H (sm_version m) s r key (take (length (sm_serialized m) - 8) (sm_serialized m)))"
  by (rule yields_verify_mac_iff [OF assms])

theorem verify_mac_exact_witness:
  "yields (signal_message_verify_mac sample_context \<lparr>sm_version = 2, sm_ratchet_key = [], sm_counter = 0,
      sm_previous_counter = 0, sm_ciphertext = [], sm_serialized = replicate 8 0\<rparr> (Some []) (Some []) [] :: (sample_memory, unit, _) M)
    True"
  using verify_mac_exact [OF sample_hmac_laws, of "\<lparr>sm_version = 2, sm_ratchet_key = [], sm_counter = 0,
      sm_previous_counter = 0, sm_ciphertext = [], sm_serialized = replicate 8 0\<rparr>" "[]" "[]" "[]"]
  by (simp add: message_mac_def mac_input_def sample_hmac_def)

section \<open>What a session keeps\<close>

text \<open>C29: storing message keys in a chain of a session never leaves more than 2000 of them, keeps the new keys
  and, below the bound, all others; taking keys out returns them exactly when they are stored, and afterwards
  they are gone while all others are still there.\<close>

theorem message_keys_stored_once:
  fixes st :: session_state
  assumes "has_receiver_chain eph st" and "distinct (map counter (chain_message_keys_of eph st))"
    and "\<not> session_state_has_message_keys st eph (counter mk)"
  shows "ensures (session_state_set_message_keys st eph mk :: ('c, 's, _) M) (\<lambda>st'.
      length (chain_message_keys_of eph st') \<le> 2000 \<and> session_state_has_message_keys st' eph (counter mk) \<and>
      fst (session_state_remove_message_keys st' eph (counter mk)) = Some mk \<and>
      (length (chain_message_keys_of eph st) < 2000 \<longrightarrow>
        (\<forall>n. session_state_has_message_keys st eph n \<longrightarrow> session_state_has_message_keys st' eph n))) \<and>
    (case session_state_remove_message_keys st eph n of (r, st') \<Rightarrow>
      \<not> session_state_has_message_keys st' eph n \<and> (r = None) = (\<not> session_state_has_message_keys st eph n) \<and>
      (\<forall>k. k \<noteq> n \<longrightarrow> session_state_has_message_keys st' eph k = session_state_has_message_keys st eph k))"
proof
  let ?set = "session_state_set_message_keys st eph mk :: ('c, 's, _) M"
  have "ensures ?set (\<lambda>st'. (length (chain_message_keys_of eph st') \<le> MAX_MESSAGE_KEYS \<and>
      session_state_has_message_keys st' eph (counter mk)) \<and>
      (fst (session_state_remove_message_keys st' eph (counter mk)) = Some mk \<and>
       (length (chain_message_keys_of eph st) < 2000 \<longrightarrow>
        (\<forall>n. session_state_has_message_keys st eph n \<longrightarrow> session_state_has_message_keys st' eph n))))"
    by (intro ensures_conj ensures_imp ensures_all session_keys.add_bounded session_keys.add_has session_keys.add_remove
        session_keys.add_keeps assms ensures_mono [OF session_keys.add_bounded [OF assms(1)] TrueI])
       (simp_all add: MAX_MESSAGE_KEYS_def)
  then show "ensures ?set (\<lambda>st'.
      length (chain_message_keys_of eph st') \<le> 2000 \<and> session_state_has_message_keys st' eph (counter mk) \<and>
      fst (session_state_remove_message_keys st' eph (counter mk)) = Some mk \<and>
      (length (chain_message_keys_of eph st) < 2000 \<longrightarrow>
        (\<forall>n. session_state_has_message_keys st eph n \<longrightarrow> session_state_has_message_keys st' eph n)))"
    by (rule ensures_mono) (simp add: MAX_MESSAGE_KEYS_def)
  show "case session_state_remove_message_keys st eph n of (r, st') \<Rightarrow>
      \<not> session_state_has_message_keys st' eph n \<and> (r = None) = (\<not> session_state_has_message_keys st eph n) \<and>
      (\<forall>k. k \<noteq> n \<longrightarrow> session_state_has_message_keys st' eph k = session_state_has_message_keys st eph k)"
    using session_keys.remove_once [OF assms(1,2)] by (auto split: prod.splits)
qed

definition sample_chain_state :: session_state where
  "sample_chain_state = empty_session_state\<lparr>receiver_chains :=
     [\<lparr>sender_ratchet_key = Some (public_key (sample_pair 1)), chain_key = None, message_keys = []\<rparr>]\<rparr>"

lemma sample_chain_state_chain:
  "session_state_find_receiver_chain sample_chain_state (public_key (sample_pair 1)) = Some 0"
proof -
  have "ec_public_key_compare (Some (public_key (sample_pair 1))) (Some (public_key (sample_pair 1))) = 0"
    by (subst ec_public_key_compare_eq_0) auto
  then show ?thesis by (simp add: session_state_find_receiver_chain_def sample_chain_state_def)
qed

theorem message_keys_stored_once_witness:
  "ensures (session_state_set_message_keys sample_chain_state (public_key (sample_pair 1))
      \<lparr>cipher_key = [], mac_key = [], iv = [], counter = 4\<rparr> :: (unit, unit, _) M)
    (\<lambda>st'. session_state_has_message_keys st' (public_key (sample_pair 1)) 4)"
proof (rule ensures_mono [OF message_keys_stored_once [THEN conjunct1]])
  show "has_receiver_chain (public_key (sample_pair 1)) sample_chain_state"
    by (simp add: has_receiver_chain_def sample_chain_state_chain)
  show "distinct (map counter (chain_message_keys_of (public_key (sample_pair 1)) sample_chain_state))"
    by (simp add: chain_message_keys_of_def sample_chain_state_chain) (simp add: sample_chain_state_def)
  show "\<not> session_state_has_message_keys sample_chain_state (public_key (sample_pair 1))
      (counter \<lparr>cipher_key = [], mac_key = [], iv = [], counter = 4\<rparr>)"
    by (simp add: session_state_has_message_keys_def sample_chain_state_chain) (simp add: sample_chain_state_def)
qed simp

text \<open>C30: archiving the current state of a record puts it first among the previous states, of which the first 40
  are kept, and starts with an empty state; a well-formed record stays well-formed.\<close>

theorem archive_is_bounded:
  assumes "wf_session_record r" and "record_state r = Some st"
  shows "yields (session_record_archive_current_state r :: ('c, 's, _) M) (r\<lparr>record_state := Some empty_session_state,
      previous_states := take 40 (st # previous_states r)\<rparr>) \<and>
    ensures (session_record_archive_current_state r :: ('c, 's, _) M) wf_session_record"
proof
  show y: "yields (session_record_archive_current_state r :: ('c, 's, _) M) (r\<lparr>record_state := Some empty_session_state,
      previous_states := take 40 (st # previous_states r)\<rparr>)"
    using yields_archive_current_state [OF assms(2)] by (simp add: ARCHIVED_STATES_MAX_LENGTH_def del: take_Cons_numeral)
  have "list_all wf_session_state (take n (st # previous_states r))" for n
    using assms by (fastforce simp: wf_session_record_def list_all_iff dest: in_set_takeD)
  then show "ensures (session_record_archive_current_state r :: ('c, 's, _) M) wf_session_record"
    by (intro ensures_yields [OF y]) (simp add: wf_session_record_def ARCHIVED_STATES_MAX_LENGTH_def del: take_Cons_numeral)
qed

theorem archive_is_bounded_witness:
  "yields (session_record_archive_current_state \<lparr>record_state = Some empty_session_state,
      previous_states = replicate 40 empty_session_state, is_fresh = False\<rparr> :: (unit, unit, _) M)
    \<lparr>record_state = Some empty_session_state, previous_states = replicate 40 empty_session_state, is_fresh = False\<rparr>"
proof -
  have "take 40 (empty_session_state # replicate 40 empty_session_state) = replicate 40 empty_session_state"
    by (simp add: take_Cons' numeral_eq_Suc)
  then show ?thesis
    using archive_is_bounded [of "\<lparr>record_state = Some empty_session_state,
      previous_states = replicate 40 empty_session_state, is_fresh = False\<rparr>" empty_session_state,
      where 'c = unit and 's = unit]
    by (simp add: wf_session_record_def ARCHIVED_STATES_MAX_LENGTH_def list_all_iff del: take_Cons_numeral)
qed



end
