(* ===== verification/Stores.thy ===== *)
theory Stores
  imports Session_Record Pre_Keys
begin

text \<open>
  The data stores of signal\_protocol.c: the table of callbacks that the application provides and the
  library's typed access to it.  A callback works on the application's own data of type \<open>'s\<close>.
  What signal\_protocol.h documents of the callbacks is the locale \<open>protocol_store\<close> of \<open>Store_Laws\<close>; the in-memory
  stores of tests/test\_common.c are modelled in the theory \<open>Test_Stores\<close> and satisfy it.
\<close>

section \<open>Model\<close>

record signal_protocol_address =
  address_name :: bytes
  device_id :: int

record signal_protocol_sender_key_name =
  group_id :: bytes
  sender :: signal_protocol_address

record 's signal_protocol_store_context =
  load_session_func :: "(signal_protocol_address \<Rightarrow> 's \<Rightarrow> (int \<times> bytes option) \<times> 's) option"
  get_sub_device_sessions_func :: "(bytes \<Rightarrow> 's \<Rightarrow> (int \<times> int list) \<times> 's) option"
  store_session_func :: "(signal_protocol_address \<Rightarrow> bytes \<Rightarrow> 's \<Rightarrow> int \<times> 's) option"
  contains_session_func :: "(signal_protocol_address \<Rightarrow> 's \<Rightarrow> int \<times> 's) option"
  delete_session_func :: "(signal_protocol_address \<Rightarrow> 's \<Rightarrow> int \<times> 's) option"
  delete_all_sessions_func :: "(bytes \<Rightarrow> 's \<Rightarrow> int \<times> 's) option"
  load_pre_key :: "(32 word \<Rightarrow> 's \<Rightarrow> (int \<times> bytes option) \<times> 's) option"
  store_pre_key :: "(32 word \<Rightarrow> bytes \<Rightarrow> 's \<Rightarrow> int \<times> 's) option"
  contains_pre_key :: "(32 word \<Rightarrow> 's \<Rightarrow> int \<times> 's) option"
  remove_pre_key :: "(32 word \<Rightarrow> 's \<Rightarrow> int \<times> 's) option"
  load_signed_pre_key :: "(32 word \<Rightarrow> 's \<Rightarrow> (int \<times> bytes option) \<times> 's) option"
  store_signed_pre_key :: "(32 word \<Rightarrow> bytes \<Rightarrow> 's \<Rightarrow> int \<times> 's) option"
  contains_signed_pre_key :: "(32 word \<Rightarrow> 's \<Rightarrow> int \<times> 's) option"
  remove_signed_pre_key :: "(32 word \<Rightarrow> 's \<Rightarrow> int \<times> 's) option"
  get_identity_key_pair :: "('s \<Rightarrow> (int \<times> bytes option \<times> bytes option) \<times> 's) option"
  get_local_registration_id :: "('s \<Rightarrow> (int \<times> 32 word) \<times> 's) option"
  save_identity :: "(signal_protocol_address \<Rightarrow> bytes option \<Rightarrow> 's \<Rightarrow> int \<times> 's) option"
  is_trusted_identity :: "(signal_protocol_address \<Rightarrow> bytes \<Rightarrow> 's \<Rightarrow> int \<times> 's) option"
  store_sender_key :: "(signal_protocol_sender_key_name \<Rightarrow> bytes \<Rightarrow> 's \<Rightarrow> int \<times> 's) option"
  load_sender_key :: "(signal_protocol_sender_key_name \<Rightarrow> 's \<Rightarrow> (int \<times> bytes option) \<times> 's) option"

text \<open>A context starts without callbacks and gets them store by store.  The callbacks of one store are given as
  the members of a context, of which the setter of that store takes its own.\<close>

definition signal_protocol_store_context_create :: "('c, 's, 's signal_protocol_store_context) M" where
  "signal_protocol_store_context_create =
     thenE alloc (returnE \<lparr>load_session_func = None, get_sub_device_sessions_func = None, store_session_func = None, contains_session_func = None,
       delete_session_func = None, delete_all_sessions_func = None, load_pre_key = None, store_pre_key = None,
       contains_pre_key = None, remove_pre_key = None, load_signed_pre_key = None, store_signed_pre_key = None,
       contains_signed_pre_key = None, remove_signed_pre_key = None, get_identity_key_pair = None, get_local_registration_id = None,
       save_identity = None, is_trusted_identity = None, store_sender_key = None, load_sender_key = None\<rparr>)"

definition signal_protocol_store_context_set_session_store ::
    "'s signal_protocol_store_context \<Rightarrow> 's signal_protocol_store_context option
      \<Rightarrow> 'w \<Rightarrow> 's signal_protocol_store_context res \<times> 'w" where
  "signal_protocol_store_context_set_session_store scx store =
     (case store of None \<Rightarrow> failE SG_ERR_INVAL
      | Some st \<Rightarrow> returnE (scx\<lparr>
         load_session_func := load_session_func st, get_sub_device_sessions_func := get_sub_device_sessions_func st,
         store_session_func := store_session_func st, contains_session_func := contains_session_func st,
         delete_session_func := delete_session_func st, delete_all_sessions_func := delete_all_sessions_func st\<rparr>))"

definition signal_protocol_store_context_set_pre_key_store ::
    "'s signal_protocol_store_context \<Rightarrow> 's signal_protocol_store_context option
      \<Rightarrow> 'w \<Rightarrow> 's signal_protocol_store_context res \<times> 'w" where
  "signal_protocol_store_context_set_pre_key_store scx store =
     (case store of None \<Rightarrow> failE SG_ERR_INVAL
      | Some st \<Rightarrow> returnE (scx\<lparr>
         load_pre_key := load_pre_key st, store_pre_key := store_pre_key st,
         contains_pre_key := contains_pre_key st, remove_pre_key := remove_pre_key st\<rparr>))"

definition signal_protocol_store_context_set_signed_pre_key_store ::
    "'s signal_protocol_store_context \<Rightarrow> 's signal_protocol_store_context option
      \<Rightarrow> 'w \<Rightarrow> 's signal_protocol_store_context res \<times> 'w" where
  "signal_protocol_store_context_set_signed_pre_key_store scx store =
     (case store of None \<Rightarrow> failE SG_ERR_INVAL
      | Some st \<Rightarrow> returnE (scx\<lparr>
         load_signed_pre_key := load_signed_pre_key st, store_signed_pre_key := store_signed_pre_key st,
         contains_signed_pre_key := contains_signed_pre_key st, remove_signed_pre_key := remove_signed_pre_key st\<rparr>))"

definition signal_protocol_store_context_set_identity_key_store ::
    "'s signal_protocol_store_context \<Rightarrow> 's signal_protocol_store_context option
      \<Rightarrow> 'w \<Rightarrow> 's signal_protocol_store_context res \<times> 'w" where
  "signal_protocol_store_context_set_identity_key_store scx store =
     (case store of None \<Rightarrow> failE SG_ERR_INVAL
      | Some st \<Rightarrow> returnE (scx\<lparr>
         get_identity_key_pair := get_identity_key_pair st, get_local_registration_id := get_local_registration_id st,
         save_identity := save_identity st, is_trusted_identity := is_trusted_identity st\<rparr>))"

definition signal_protocol_store_context_set_sender_key_store ::
    "'s signal_protocol_store_context \<Rightarrow> 's signal_protocol_store_context option
      \<Rightarrow> 'w \<Rightarrow> 's signal_protocol_store_context res \<times> 'w" where
  "signal_protocol_store_context_set_sender_key_store scx store =
     (case store of None \<Rightarrow> failE SG_ERR_INVAL
      | Some st \<Rightarrow> returnE (scx\<lparr>
         store_sender_key := store_sender_key st, load_sender_key := load_sender_key st\<rparr>))"

text \<open>Calling a callback; a missing one stops at the \<open>assert\<close>.\<close>

definition store_call :: "'f option \<Rightarrow> ('f \<Rightarrow> 's \<Rightarrow> 'a \<times> 's) \<Rightarrow> ('c, 's, 'a) M" where
  "store_call func app =
     bindE (derefE func) (\<lambda>f w.
       case app f (store_data w) of (x, s) \<Rightarrow> (Ok x, w\<lparr>store_data := s\<rparr>))"

text \<open>A status that the library returns to its caller as it is.\<close>

definition status_call :: "'f option \<Rightarrow> ('f \<Rightarrow> 's \<Rightarrow> int \<times> 's) \<Rightarrow> ('c, 's, int) M" where
  "status_call func app = bindE (store_call func app) (\<lambda>r. thenE (statusE r) (returnE r))"

definition signal_protocol_session_load_session ::
    "'s signal_protocol_store_context \<Rightarrow> signal_protocol_address \<Rightarrow> ('c, 's, session_record) M" where
  "signal_protocol_session_load_session store address =
     bindE (store_call (load_session_func store) (\<lambda>f. f address)) (\<lambda>(result, buffer).
     thenE (statusE result)
      (if result = 0 then
         (if buffer \<noteq> None then failE SG_ERR_UNKNOWN else session_record_create None)
       else if result = 1 then
         (case buffer of None \<Rightarrow> failE (-1) | Some data \<Rightarrow> session_record_deserialize data)
       else failE SG_ERR_UNKNOWN))"

definition signal_protocol_session_get_sub_device_sessions ::
    "'s signal_protocol_store_context \<Rightarrow> bytes \<Rightarrow> ('c, 's, int list) M" where
  "signal_protocol_session_get_sub_device_sessions store name =
     bindE (store_call (get_sub_device_sessions_func store) (\<lambda>f. f name)) (\<lambda>(result, ids).
     thenE (statusE result) (returnE ids))"

definition signal_protocol_session_store_session ::
    "'s signal_protocol_store_context \<Rightarrow> signal_protocol_address \<Rightarrow> session_record \<Rightarrow> ('c, 's, int) M" where
  "signal_protocol_session_store_session store address r =
     bindE (session_record_serialize (Some r)) (\<lambda>data.
     status_call (store_session_func store) (\<lambda>f. f address data))"

definition signal_protocol_session_contains_session ::
    "'s signal_protocol_store_context \<Rightarrow> signal_protocol_address \<Rightarrow> ('c, 's, int) M" where
  "signal_protocol_session_contains_session store address =
     status_call (contains_session_func store) (\<lambda>f. f address)"

definition signal_protocol_session_delete_session ::
    "'s signal_protocol_store_context \<Rightarrow> signal_protocol_address \<Rightarrow> ('c, 's, int) M" where
  "signal_protocol_session_delete_session store address =
     status_call (delete_session_func store) (\<lambda>f. f address)"

definition signal_protocol_session_delete_all_sessions ::
    "'s signal_protocol_store_context \<Rightarrow> bytes \<Rightarrow> ('c, 's, int) M" where
  "signal_protocol_session_delete_all_sessions store name =
     status_call (delete_all_sessions_func store) (\<lambda>f. f name)"

definition signal_protocol_pre_key_load_key ::
    "'s signal_protocol_store_context \<Rightarrow> 32 word \<Rightarrow> ('c, 's, session_pre_key) M" where
  "signal_protocol_pre_key_load_key store i =
     bindE (store_call (load_pre_key store) (\<lambda>f. f i)) (\<lambda>(result, buffer).
     thenE (statusE result) (bindE (derefE buffer) session_pre_key_deserialize))"

definition signal_protocol_pre_key_store_key ::
    "'s signal_protocol_store_context \<Rightarrow> session_pre_key \<Rightarrow> ('c, 's, int) M" where
  "signal_protocol_pre_key_store_key store pk =
     bindE (session_pre_key_serialize (Some pk)) (\<lambda>data.
     status_call (store_pre_key store) (\<lambda>f. f (pre_key_id pk) data))"

definition signal_protocol_pre_key_contains_key ::
    "'s signal_protocol_store_context \<Rightarrow> 32 word \<Rightarrow> ('c, 's, int) M" where
  "signal_protocol_pre_key_contains_key store i = status_call (contains_pre_key store) (\<lambda>f. f i)"

definition signal_protocol_pre_key_remove_key ::
    "'s signal_protocol_store_context \<Rightarrow> 32 word \<Rightarrow> ('c, 's, int) M" where
  "signal_protocol_pre_key_remove_key store i = status_call (remove_pre_key store) (\<lambda>f. f i)"

definition signal_protocol_signed_pre_key_load_key ::
    "'s signal_protocol_store_context \<Rightarrow> 32 word \<Rightarrow> ('c, 's, session_signed_pre_key) M" where
  "signal_protocol_signed_pre_key_load_key store i =
     bindE (store_call (load_signed_pre_key store) (\<lambda>f. f i)) (\<lambda>(result, buffer).
     thenE (statusE result) (bindE (derefE buffer) session_signed_pre_key_deserialize))"

definition signal_protocol_signed_pre_key_store_key ::
    "'s signal_protocol_store_context \<Rightarrow> session_signed_pre_key \<Rightarrow> ('c, 's, int) M" where
  "signal_protocol_signed_pre_key_store_key store pk =
     bindE (session_signed_pre_key_serialize pk) (\<lambda>data.
     status_call (store_signed_pre_key store) (\<lambda>f. f (signed_pre_key_id pk) data))"

definition signal_protocol_signed_pre_key_contains_key ::
    "'s signal_protocol_store_context \<Rightarrow> 32 word \<Rightarrow> ('c, 's, int) M" where
  "signal_protocol_signed_pre_key_contains_key store i = status_call (contains_signed_pre_key store) (\<lambda>f. f i)"

definition signal_protocol_signed_pre_key_remove_key ::
    "'s signal_protocol_store_context \<Rightarrow> 32 word \<Rightarrow> ('c, 's, int) M" where
  "signal_protocol_signed_pre_key_remove_key store i = status_call (remove_signed_pre_key store) (\<lambda>f. f i)"

definition signal_protocol_identity_get_key_pair ::
    "'s signal_protocol_store_context \<Rightarrow> ('c, 's, ratchet_identity_key_pair) M" where
  "signal_protocol_identity_get_key_pair store =
     bindE (store_call (get_identity_key_pair store) (\<lambda>f. f)) (\<lambda>(result, public_buf, private_buf).
     thenE (statusE result)
     (bindE (derefE public_buf) (\<lambda>pub.
      bindE (curve_decode_point pub) (\<lambda>p.
      bindE (derefE private_buf) (\<lambda>priv.
      bindE (curve_decode_private_point priv) (\<lambda>k.
      ratchet_identity_key_pair_create p k))))))"

definition signal_protocol_identity_get_local_registration_id ::
    "'s signal_protocol_store_context \<Rightarrow> ('c, 's, 32 word) M" where
  "signal_protocol_identity_get_local_registration_id store =
     bindE (store_call (get_local_registration_id store) (\<lambda>f. f)) (\<lambda>(result, i).
     thenE (statusE result) (returnE i))"

definition signal_protocol_identity_save_identity ::
    "'s signal_protocol_store_context \<Rightarrow> signal_protocol_address \<Rightarrow> ec_public_key option \<Rightarrow> ('c, 's, int) M" where
  "signal_protocol_identity_save_identity store address identity_key =
     (case identity_key of
        Some k \<Rightarrow>
          bindE (ec_public_key_serialize (Some k)) (\<lambda>data.
          status_call (save_identity store) (\<lambda>f. f address (Some data)))
      | None \<Rightarrow> status_call (save_identity store) (\<lambda>f. f address None))"

definition signal_protocol_identity_is_trusted_identity ::
    "'s signal_protocol_store_context \<Rightarrow> signal_protocol_address \<Rightarrow> ec_public_key option \<Rightarrow> ('c, 's, int) M" where
  "signal_protocol_identity_is_trusted_identity store address identity_key =
     bindE (ec_public_key_serialize identity_key) (\<lambda>data.
     status_call (is_trusted_identity store) (\<lambda>f. f address data))"

section \<open>Programs on stores\<close>

text \<open>Started with memory available and data that satisfies \<open>P\<close>, the program succeeds with a result and
  data that satisfy \<open>Q\<close>.\<close>

definition hoare :: "('s \<Rightarrow> bool) \<Rightarrow> ('c, 's, 'a) M \<Rightarrow> ('a \<Rightarrow> 's \<Rightarrow> bool) \<Rightarrow> bool" where
  "hoare P m Q = (\<forall>w. allocs w = [] \<longrightarrow> P (store_data w) \<longrightarrow>
     wp m (\<lambda>x w'. allocs w' = [] \<and> Q x (store_data w')) w)"

lemma hoare_returnE: "(\<And>s. P s \<Longrightarrow> Q x s) \<Longrightarrow> hoare P (returnE x) Q"
  by (simp add: hoare_def)

lemma hoare_bindE: "hoare P m R \<Longrightarrow> (\<And>x. hoare (R x) (f x) Q) \<Longrightarrow> hoare P (bindE m f) Q"
  unfolding hoare_def wp_bindE by (blast intro: wp_mono)

lemma hoare_thenE: "hoare P m R \<Longrightarrow> (\<And>x. hoare (R x) k Q) \<Longrightarrow> hoare P (thenE m k) Q"
  unfolding thenE_def by (rule hoare_bindE)

lemma hoare_ensures: "ensures m A \<Longrightarrow> hoare P m (\<lambda>x s. A x \<and> P s)"
  unfolding hoare_def by (auto elim: ensures_wp)

lemma hoare_yields: "yields m y \<Longrightarrow> hoare P m (\<lambda>x s. x = y \<and> P s)"
  unfolding yields_def by (rule hoare_ensures)

lemma hoare_bind_yields: "yields m y \<Longrightarrow> hoare P (f y) Q \<Longrightarrow> hoare P (bindE m f) Q"
  unfolding hoare_def wp_bindE yields_def by (auto elim: ensures_wp)

lemma hoare_then_yields: "yields m y \<Longrightarrow> hoare P k Q \<Longrightarrow> hoare P (thenE m k) Q"
  unfolding thenE_def by (rule hoare_bind_yields)

lemma hoare_bind_ensures: "ensures m A \<Longrightarrow> (\<And>x. A x \<Longrightarrow> hoare P (f x) Q) \<Longrightarrow> hoare P (bindE m f) Q"
  unfolding hoare_def wp_bindE by (auto elim: ensures_wp)

lemma hoare_pre: "hoare P m Q \<Longrightarrow> (\<And>s. P' s \<Longrightarrow> P s) \<Longrightarrow> hoare P' m Q"
  by (auto simp: hoare_def)

lemma hoare_post: "hoare P m Q \<Longrightarrow> (\<And>x s. Q x s \<Longrightarrow> Q' x s) \<Longrightarrow> hoare P m Q'"
  unfolding hoare_def by (blast intro: wp_mono)

lemma hoare_fact: "(\<And>s. P s \<Longrightarrow> A) \<Longrightarrow> (A \<Longrightarrow> hoare P m Q) \<Longrightarrow> hoare P m Q"
  by (auto simp: hoare_def)

lemma hoare_tryE: "hoare P m R \<Longrightarrow> (\<And>x. hoare (R x) (f x) Q) \<Longrightarrow> hoare P (tryE m h f) Q"
  unfolding hoare_def by (blast intro: wp_tryE_ok wp_mono)

lemma hoare_try_return: "hoare P m Q \<Longrightarrow> hoare P (tryE m h returnE) Q"
  by (erule hoare_tryE) (rule hoare_returnE)

lemma hoare_ex: "(\<And>x. hoare (P x) m Q) \<Longrightarrow> hoare (\<lambda>s. \<exists>x. P x s) m Q"
  by (auto simp: hoare_def)

lemma hoare_pure: "(A \<Longrightarrow> hoare P m Q) \<Longrightarrow> hoare (\<lambda>s. A \<and> P s) m Q"
  by (auto simp: hoare_def)

lemma hoareE:
  assumes "hoare P m Q" and "allocs w = []" and "P (store_data w)"
  obtains x w' where "m w = (Ok x, w')" and "allocs w' = []" and "Q x (store_data w')"
proof -
  have "wp m (\<lambda>x w'. allocs w' = [] \<and> Q x (store_data w')) w" using assms by (simp add: hoare_def)
  then show thesis using that by (cases "m w"; cases "fst (m w)") (auto simp: wp_def)
qed

lemma hoare_store_call:
  assumes "func = Some f" and "\<And>s. P s \<Longrightarrow> Q (fst (app f s)) (snd (app f s))"
  shows "hoare P (store_call func app) Q"
  using assms by (auto simp: hoare_def store_call_def wp_def bindE_def derefE_def returnE_def case_prod_unfold)

lemma hoare_status_call:
  assumes "func = Some f" and "\<And>s. P s \<Longrightarrow> 0 \<le> fst (app f s) \<and> Q (fst (app f s)) (snd (app f s))"
  shows "hoare P (status_call func app) Q"
proof -
  have "hoare P (store_call func app) (\<lambda>r s. 0 \<le> r \<and> Q r s)"
    using assms by (intro hoare_store_call) auto
  then show ?thesis
    unfolding status_call_def by (rule hoare_bindE) (auto simp: hoare_def)
qed

end
