(* ===== verification/Session_Builder.thy ===== *)
theory Session_Builder
  imports Ratcheting_Session Messages_Laws Stores
begin

text \<open>
  session\_builder.c: building a session from a received pre key message (Bob's side) and from a pre
  key bundle (Alice's side).  A session record that the source changes in place is returned.  The locks
  around the operations are not modelled: an operation runs alone.
\<close>

section \<open>Model\<close>

record ('c, 's) session_builder =
  builder_store :: "'s signal_protocol_store_context"
  builder_remote_address :: signal_protocol_address
  builder_global_context :: "'c signal_context"

definition PRE_KEY_MEDIUM_MAX_VALUE :: "32 word" where "PRE_KEY_MEDIUM_MAX_VALUE = 0xFFFFFF"

definition session_builder_create ::
    "'s signal_protocol_store_context \<Rightarrow> signal_protocol_address \<Rightarrow> 'c signal_context
      \<Rightarrow> ('c, 's, ('c, 's) session_builder) M" where
  "session_builder_create store remote_address ctx =
     thenE alloc (returnE \<lparr>builder_store = store, builder_remote_address = remote_address,
       builder_global_context = ctx\<rparr>)"

text \<open>The identifier of a one-time pre key to remove is \<open>Some\<close> when the source returns 1.\<close>

definition session_builder_process_pre_key_signal_message_v3 ::
    "('c, 's) session_builder \<Rightarrow> session_record \<Rightarrow> pre_key_signal_message
      \<Rightarrow> ('c, 's, session_record \<times> 32 word option) M" where
  "session_builder_process_pre_key_signal_message_v3 builder r message =
     bindE (session_record_has_session_state r (ucast (pkm_version message)) (Some (pkm_base_key message)))
      (\<lambda>has_session_state.
     if has_session_state then returnE (r, None)
     else
       (let store = builder_store builder in
        bindE (signal_protocol_signed_pre_key_load_key store (pkm_signed_pre_key_id message)) (\<lambda>our_signed_pre_key.
        bindE (signal_protocol_identity_get_key_pair store) (\<lambda>our_identity_key.
        bindE (optE (signal_protocol_pre_key_load_key store) (pkm_pre_key_id message)) (\<lambda>our_one_time_pre_key.
        bindE (bob_signal_protocol_parameters_create (Some our_identity_key)
                 (Some (signed_pre_key_pair our_signed_pre_key))
                 (map_option pre_key_pair our_one_time_pre_key)
                 (Some (signed_pre_key_pair our_signed_pre_key))
                 (Some (pkm_identity_key message)) (Some (pkm_base_key message))) (\<lambda>parameters.
        bindE (if \<not> is_fresh r then session_record_archive_current_state r else returnE r) (\<lambda>r'.
        bindE (derefE (record_state r')) (\<lambda>state.
        bindE (ratcheting_session_bob_initialize (builder_global_context builder) state parameters) (\<lambda>state1.
        bindE (signal_protocol_identity_get_local_registration_id store) (\<lambda>local_registration_id.
        let state2 = session_state_set_local_registration_id state1 local_registration_id;
            state3 = session_state_set_remote_registration_id state2 (pkm_registration_id message);
            state4 = session_state_set_alice_base_key state3 (pkm_base_key message)
        in returnE (r'\<lparr>record_state := Some state4\<rparr>,
             (case pkm_pre_key_id message of
                None \<Rightarrow> None
              | Some i \<Rightarrow> if i \<noteq> PRE_KEY_MEDIUM_MAX_VALUE then Some i else None))))))))))))"

definition session_builder_process_pre_key_signal_message ::
    "('c, 's) session_builder \<Rightarrow> session_record \<Rightarrow> pre_key_signal_message
      \<Rightarrow> ('c, 's, session_record \<times> 32 word option) M" where
  "session_builder_process_pre_key_signal_message builder r message =
     bindE (signal_protocol_identity_is_trusted_identity (builder_store builder)
              (builder_remote_address builder) (Some (pkm_identity_key message))) (\<lambda>trusted.
     thenE (guardE (trusted \<noteq> 0) SG_ERR_UNTRUSTED_IDENTITY)
     (bindE (session_builder_process_pre_key_signal_message_v3 builder r message) (\<lambda>(r', unsigned_pre_key_id).
      thenE (signal_protocol_identity_save_identity (builder_store builder)
               (builder_remote_address builder) (Some (pkm_identity_key message)))
        (returnE (r', unsigned_pre_key_id)))))"

text \<open>The check of the signature of a bundle.\<close>

definition verify_bundle_signature ::
    "'c signal_context \<Rightarrow> session_pre_key_bundle \<Rightarrow> ec_public_key \<Rightarrow> ('c, 's, unit) M" where
  "verify_bundle_signature ctx bundle signed_pre_key =
     bindE (ec_public_key_serialize (Some signed_pre_key)) (\<lambda>serialized_signed_pre_key.
     bindE (derefE (bundle_signed_pre_key_signature bundle)) (\<lambda>signature.
     bindE (curve_verify_signature ctx (bundle_identity_key bundle) serialized_signed_pre_key signature) (\<lambda>valid.
     guardE valid SG_ERR_INVALID_KEY)))"

definition session_builder_process_pre_key_bundle ::
    "('c, 's) session_builder \<Rightarrow> session_pre_key_bundle \<Rightarrow> ('c, 's, unit) M" where
  "session_builder_process_pre_key_bundle builder bundle =
     (let store = builder_store builder; address = builder_remote_address builder;
          ctx = builder_global_context builder in
      bindE (signal_protocol_identity_is_trusted_identity store address (bundle_identity_key bundle)) (\<lambda>trusted.
      thenE (guardE (trusted \<noteq> 0) SG_ERR_UNTRUSTED_IDENTITY)
      (case bundle_signed_pre_key bundle of
         None \<Rightarrow> failE SG_ERR_INVALID_KEY
       | Some signed_pre_key \<Rightarrow>
           thenE (verify_bundle_signature ctx bundle signed_pre_key)
           (bindE (signal_protocol_session_load_session store address) (\<lambda>r.
            bindE (curve_generate_key_pair ctx) (\<lambda>our_base_key.
            bindE (signal_protocol_identity_get_key_pair store) (\<lambda>our_identity_key.
            bindE (alice_signal_protocol_parameters_create (Some our_identity_key) (Some our_base_key)
                     (bundle_identity_key bundle) (Some signed_pre_key) (bundle_pre_key bundle)
                     (Some signed_pre_key)) (\<lambda>parameters.
            bindE (if \<not> is_fresh r then session_record_archive_current_state r else returnE r) (\<lambda>r'.
            bindE (derefE (record_state r')) (\<lambda>state.
            bindE (ratcheting_session_alice_initialize ctx state parameters) (\<lambda>state1.
            let state2 = session_state_set_unacknowledged_pre_key_message state1
                  (case bundle_pre_key bundle of None \<Rightarrow> None | Some _ \<Rightarrow> Some (bundle_pre_key_id bundle))
                  (bundle_signed_pre_key_id bundle) (public_key our_base_key) in
            bindE (signal_protocol_identity_get_local_registration_id store) (\<lambda>local_registration_id.
            let state3 = session_state_set_local_registration_id state2 local_registration_id;
                state4 = session_state_set_remote_registration_id state3 (bundle_registration_id bundle);
                state5 = session_state_set_alice_base_key state4 (public_key our_base_key) in
            thenE (signal_protocol_session_store_session store address (r'\<lparr>record_state := Some state5\<rparr>))
            (thenE (signal_protocol_identity_save_identity store address (bundle_identity_key bundle))
              (returnE ()))))))))))))))"

end
