(* ===== verification/Session_Cipher.thy ===== *)
theory Session_Cipher
  imports Session_Builder
begin

text \<open>
  session\_cipher.c: encryption and decryption on a stored session.  A session state that the source
  changes in place is returned.  The callback that gets the plaintext before the session is stored is
  given the flag \<open>inside_callback\<close> of the cipher, the only member of the cipher that changes.
\<close>

section \<open>Model\<close>

record ('c, 's) session_cipher =
  cipher_store :: "'s signal_protocol_store_context"
  cipher_remote_address :: signal_protocol_address
  cipher_builder :: "('c, 's) session_builder"
  cipher_global_context :: "'c signal_context"
  decrypt_callback :: "(bool \<Rightarrow> bytes option \<Rightarrow> ('c, 's, unit) M) option"
  inside_callback :: bool

definition session_cipher_create ::
    "'s signal_protocol_store_context \<Rightarrow> signal_protocol_address \<Rightarrow> 'c signal_context
      \<Rightarrow> ('c, 's, ('c, 's) session_cipher) M" where
  "session_cipher_create store remote_address ctx =
     bindE (session_builder_create store remote_address ctx) (\<lambda>builder.
     thenE alloc (returnE \<lparr>cipher_store = store, cipher_remote_address = remote_address,
       cipher_builder = builder, cipher_global_context = ctx, decrypt_callback = None,
       inside_callback = False\<rparr>))"

definition session_cipher_set_decryption_callback ::
    "('c, 's) session_cipher \<Rightarrow> (bool \<Rightarrow> bytes option \<Rightarrow> ('c, 's, unit) M) option \<Rightarrow> ('c, 's) session_cipher" where
  "session_cipher_set_decryption_callback cipher callback = cipher\<lparr>decrypt_callback := callback\<rparr>"

text \<open>The initial counter block of version 2: the message counter in big-endian order, then zeros.\<close>

definition counter_iv :: "32 word \<Rightarrow> bytes" where
  "counter_iv n = [ucast (drop_bit 24 n), ucast (drop_bit 16 n), ucast (drop_bit 8 n), ucast n] @ replicate 12 0"

definition session_cipher_get_ciphertext ::
    "'c signal_context \<Rightarrow> 32 word \<Rightarrow> ratchet_message_keys \<Rightarrow> bytes \<Rightarrow> ('c, 's, bytes option) M" where
  "session_cipher_get_ciphertext ctx version mk plaintext =
     (if version \<ge> 3
      then signal_encrypt ctx SG_CIPHER_AES_CBC_PKCS5 (cipher_key mk) (iv mk) plaintext
      else signal_encrypt ctx SG_CIPHER_AES_CTR_NOPADDING (cipher_key mk) (counter_iv (counter mk)) plaintext)"

definition session_cipher_get_plaintext ::
    "'c signal_context \<Rightarrow> 32 word \<Rightarrow> ratchet_message_keys \<Rightarrow> bytes \<Rightarrow> ('c, 's, bytes option) M" where
  "session_cipher_get_plaintext ctx version mk ciphertext =
     (if version \<ge> 3
      then signal_decrypt ctx SG_CIPHER_AES_CBC_PKCS5 (cipher_key mk) (iv mk) ciphertext
      else signal_decrypt ctx SG_CIPHER_AES_CTR_NOPADDING (cipher_key mk) (counter_iv (counter mk)) ciphertext)"

text \<open>As long as the peer has not answered, the message is wrapped with the data of the pre key exchange.\<close>

definition wrap_pre_key_message ::
    "session_state \<Rightarrow> ec_public_key \<Rightarrow> signal_message \<Rightarrow> ('c, 's, ciphertext_message) M" where
  "wrap_pre_key_message state local_identity message =
     (if has_pending_pre_key state then
        (let pending = pending_pre_key state in
         bindE (if has_pre_key_id pending
                then bindE (session_state_unacknowledged_pre_key_message_get_pre_key_id state)
                       (\<lambda>i. returnE (Some i))
                else returnE None) (\<lambda>pre_key_id.
         case pending_base_key pending of
           None \<Rightarrow> failE SG_ERR_UNKNOWN
         | Some base_key \<Rightarrow>
             bindE (pre_key_signal_message_create (ucast (session_version state))
                      (local_registration_id state) pre_key_id (pending_signed_pre_key_id pending)
                      (Some base_key) (Some local_identity) (Some message))
               (\<lambda>m. returnE (Pre_Key_Signal_Message m))))
      else returnE (Signal_Message message))"

text \<open>The part of \<open>session_cipher_encrypt\<close> between loading and storing the session: the message and the
  state with the advanced sender chain.\<close>

definition encrypt_on_state ::
    "'c signal_context \<Rightarrow> session_state \<Rightarrow> bytes \<Rightarrow> ('c, 's, ciphertext_message \<times> session_state) M" where
  "encrypt_on_state ctx state padded_message =
     (case session_state_get_sender_chain_key state of
        None \<Rightarrow> failE SG_ERR_UNKNOWN
      | Some ck \<Rightarrow>
     bindE (ratchet_chain_key_get_message_keys ctx ck) (\<lambda>mk.
     case session_state_get_sender_ratchet_key state of
        None \<Rightarrow> failE SG_ERR_UNKNOWN
      | Some sender_ephemeral \<Rightarrow>
     bindE (session_cipher_get_ciphertext ctx (session_version state) mk padded_message) (\<lambda>output.
     bindE (derefE output) (\<lambda>ciphertext.
     case local_identity_public state of
        None \<Rightarrow> failE SG_ERR_UNKNOWN
      | Some local_identity \<Rightarrow>
     (case remote_identity_public state of
        None \<Rightarrow> failE SG_ERR_UNKNOWN
      | Some remote_identity \<Rightarrow>
     bindE (signal_message_create ctx (ucast (session_version state)) (mac_key mk) (Some sender_ephemeral)
              (ck_index ck) (previous_counter state) ciphertext (Some local_identity) (Some remote_identity))
      (\<lambda>message.
     bindE (wrap_pre_key_message state local_identity message) (\<lambda>encrypted_message.
     bindE (ratchet_chain_key_create_next ctx ck) (\<lambda>next_chain_key.
     bindE (session_state_set_sender_chain_key state next_chain_key) (\<lambda>state'.
     returnE (encrypted_message, state'))))))))))"

definition session_cipher_encrypt :: "('c, 's) session_cipher \<Rightarrow> bytes \<Rightarrow> ('c, 's, ciphertext_message) M" where
  "session_cipher_encrypt cipher padded_message =
     thenE (guardE (\<not> inside_callback cipher) SG_ERR_INVAL)
     (bindE (signal_protocol_session_load_session (cipher_store cipher) (cipher_remote_address cipher)) (\<lambda>r.
      case record_state r of
        None \<Rightarrow> failE SG_ERR_UNKNOWN
      | Some state \<Rightarrow>
          bindE (encrypt_on_state (cipher_global_context cipher) state padded_message)
            (\<lambda>(encrypted_message, state').
          thenE (signal_protocol_session_store_session (cipher_store cipher) (cipher_remote_address cipher)
                   (r\<lparr>record_state := Some state'\<rparr>))
            (returnE encrypted_message))))"

definition session_cipher_get_or_create_chain_key ::
    "'c signal_context \<Rightarrow> session_state \<Rightarrow> ec_public_key \<Rightarrow> ('c, 's, ratchet_chain_key \<times> session_state) M" where
  "session_cipher_get_or_create_chain_key ctx state their_ephemeral =
     (case session_state_get_receiver_chain_key state their_ephemeral of
        Some ck \<Rightarrow> returnE (ck, state)
      | None \<Rightarrow>
     (case root_key state of
        None \<Rightarrow> failE SG_ERR_UNKNOWN
      | Some rk \<Rightarrow>
     (case session_state_get_sender_ratchet_key_pair state of
        None \<Rightarrow> failE SG_ERR_UNKNOWN
      | Some our_ephemeral \<Rightarrow>
     bindE (ratchet_root_key_create_chain ctx rk (Some their_ephemeral) (Some (private_key our_ephemeral)))
       (\<lambda>(receiver_root_key, receiver_chain_key).
     bindE (curve_generate_key_pair ctx) (\<lambda>our_new_ephemeral.
     bindE (ratchet_root_key_create_chain ctx receiver_root_key (Some their_ephemeral)
              (Some (private_key our_new_ephemeral))) (\<lambda>(sender_root_key, sender_chain_key).
     let state1 = session_state_set_root_key state sender_root_key in
     bindE (session_state_add_receiver_chain state1 their_ephemeral receiver_chain_key) (\<lambda>state2.
     case session_state_get_sender_chain_key state2 of
       None \<Rightarrow> failE SG_ERR_UNKNOWN
     | Some previous_sender_chain_key \<Rightarrow>
         (let index = ck_index previous_sender_chain_key;
              index' = (if index > 0 then index - 1 else index);
              state3 = session_state_set_previous_counter state2 index';
              state4 = session_state_set_sender_chain state3 our_new_ephemeral sender_chain_key
          in returnE (receiver_chain_key, state4)))))))))"

text \<open>The loop that stores the keys of the messages not yet received.  Its test is bounded by the check
  before it, so 2001 passes are never used up.\<close>

primrec skip_message_keys ::
    "nat \<Rightarrow> 'c signal_context \<Rightarrow> ec_public_key \<Rightarrow> 32 word \<Rightarrow> ratchet_chain_key \<Rightarrow> session_state
      \<Rightarrow> ('c, 's, ratchet_chain_key \<times> session_state) M" where
  "skip_message_keys 0 ctx their_ephemeral n cur_chain_key state = faultE"
| "skip_message_keys (Suc fuel) ctx their_ephemeral n cur_chain_key state =
     (if ck_index cur_chain_key < n then
        bindE (ratchet_chain_key_get_message_keys ctx cur_chain_key) (\<lambda>mk.
        bindE (session_state_set_message_keys state their_ephemeral mk) (\<lambda>state'.
        bindE (ratchet_chain_key_create_next ctx cur_chain_key) (\<lambda>next_chain_key.
        skip_message_keys fuel ctx their_ephemeral n next_chain_key state')))
      else returnE (cur_chain_key, state))"

definition session_cipher_get_or_create_message_keys ::
    "'c signal_context \<Rightarrow> session_state \<Rightarrow> ec_public_key \<Rightarrow> ratchet_chain_key \<Rightarrow> 32 word
      \<Rightarrow> ('c, 's, ratchet_message_keys \<times> session_state) M" where
  "session_cipher_get_or_create_message_keys ctx state their_ephemeral ck n =
     (if ck_index ck > n then
        (case session_state_remove_message_keys state their_ephemeral n of
           (Some mk, state') \<Rightarrow> returnE (mk, state')
         | (None, _) \<Rightarrow> failE SG_ERR_DUPLICATE_MESSAGE)
      else if n - ck_index ck > 2000 then failE SG_ERR_INVALID_MESSAGE
      else
        bindE (skip_message_keys 2001 ctx their_ephemeral n ck state) (\<lambda>(cur_chain_key, state1).
        bindE (ratchet_chain_key_create_next ctx cur_chain_key) (\<lambda>next_chain_key.
        bindE (session_state_set_receiver_chain_key state1 their_ephemeral next_chain_key) (\<lambda>state2.
        bindE (ratchet_chain_key_get_message_keys ctx cur_chain_key) (\<lambda>mk.
        returnE (mk, state2))))))"

definition session_cipher_decrypt_from_state_and_signal_message ::
    "'c signal_context \<Rightarrow> session_state \<Rightarrow> signal_message \<Rightarrow> ('c, 's, bytes option \<times> session_state) M" where
  "session_cipher_decrypt_from_state_and_signal_message ctx state ciphertext =
     thenE (guardE (has_sender_chain state) SG_ERR_INVALID_MESSAGE)
     (thenE (guardE (ucast (sm_version ciphertext) = session_version state) SG_ERR_INVALID_MESSAGE)
     (let their_ephemeral = sm_ratchet_key ciphertext; n = sm_counter ciphertext in
      bindE (session_cipher_get_or_create_chain_key ctx state their_ephemeral) (\<lambda>(ck, state1).
      bindE (session_cipher_get_or_create_message_keys ctx state1 their_ephemeral ck n) (\<lambda>(mk, state2).
      case remote_identity_public state2 of
        None \<Rightarrow> failE SG_ERR_UNKNOWN
      | Some remote_identity \<Rightarrow>
      (case local_identity_public state2 of
        None \<Rightarrow> failE SG_ERR_UNKNOWN
      | Some local_identity \<Rightarrow>
      bindE (signal_message_verify_mac ctx ciphertext (Some remote_identity) (Some local_identity) (mac_key mk))
        (\<lambda>verified.
      thenE (guardE verified SG_ERR_INVALID_MESSAGE)
      (bindE (session_cipher_get_plaintext ctx (ucast (sm_version ciphertext)) mk (sm_ciphertext ciphertext))
        (\<lambda>plaintext.
       returnE (plaintext, session_state_clear_unacknowledged_pre_key_message state2)))))))))"

text \<open>One state: a copy is tried, and only an invalid message lets the next state be tried (\<open>None\<close>).\<close>

definition try_state ::
    "'c signal_context \<Rightarrow> session_state \<Rightarrow> signal_message \<Rightarrow> ('c, 's, (bytes option \<times> session_state) option) M" where
  "try_state ctx state ciphertext =
     bindE (session_state_copy state) (\<lambda>state_copy.
     tryE (session_cipher_decrypt_from_state_and_signal_message ctx state_copy ciphertext)
       (\<lambda>e. if e = SG_ERR_INVALID_MESSAGE then returnE None else failE e)
       (\<lambda>x. returnE (Some x)))"

text \<open>The loop over the archived states, from position \<open>i\<close> on.\<close>

primrec try_previous_states ::
    "'c signal_context \<Rightarrow> session_record \<Rightarrow> signal_message \<Rightarrow> nat \<Rightarrow> session_state list
      \<Rightarrow> ('c, 's, bytes option \<times> session_record) M" where
  "try_previous_states ctx r ciphertext i [] = failE SG_ERR_INVALID_MESSAGE"
| "try_previous_states ctx r ciphertext i (state # states) =
     bindE (try_state ctx state ciphertext) (\<lambda>result.
     case result of
       Some (plaintext, state_copy) \<Rightarrow>
         bindE (session_record_promote_state (session_record_get_previous_states_remove r i) state_copy)
           (\<lambda>r'. returnE (plaintext, r'))
     | None \<Rightarrow> try_previous_states ctx r ciphertext (i + 1) states)"

definition session_cipher_decrypt_from_record_and_signal_message ::
    "'c signal_context \<Rightarrow> session_record \<Rightarrow> signal_message \<Rightarrow> ('c, 's, bytes option \<times> session_record) M" where
  "session_cipher_decrypt_from_record_and_signal_message ctx r ciphertext =
     (case record_state r of
        None \<Rightarrow> try_previous_states ctx r ciphertext 0 (previous_states r)
      | Some state \<Rightarrow>
          bindE (try_state ctx state ciphertext) (\<lambda>result.
          case result of
            Some (plaintext, state_copy) \<Rightarrow> returnE (plaintext, session_record_set_state r state_copy)
          | None \<Rightarrow> try_previous_states ctx r ciphertext 0 (previous_states r)))"

definition session_cipher_decrypt_callback ::
    "('c, 's) session_cipher \<Rightarrow> bytes option \<Rightarrow> ('c, 's, unit) M" where
  "session_cipher_decrypt_callback cipher plaintext =
     (case decrypt_callback cipher of None \<Rightarrow> returnE () | Some callback \<Rightarrow> callback True plaintext)"

definition session_cipher_decrypt_pre_key_signal_message ::
    "('c, 's) session_cipher \<Rightarrow> pre_key_signal_message \<Rightarrow> ('c, 's, bytes option) M" where
  "session_cipher_decrypt_pre_key_signal_message cipher ciphertext =
     thenE (guardE (\<not> inside_callback cipher) SG_ERR_INVAL)
     (bindE (signal_protocol_session_load_session (cipher_store cipher) (cipher_remote_address cipher)) (\<lambda>r.
      bindE (session_builder_process_pre_key_signal_message (cipher_builder cipher) r ciphertext)
        (\<lambda>(r1, unsigned_pre_key_id).
      bindE (session_cipher_decrypt_from_record_and_signal_message (cipher_global_context cipher) r1
               (pkm_message ciphertext)) (\<lambda>(plaintext, r2).
      thenE (session_cipher_decrypt_callback cipher plaintext)
      (thenE (signal_protocol_session_store_session (cipher_store cipher) (cipher_remote_address cipher) r2)
      (thenE (case unsigned_pre_key_id of
                None \<Rightarrow> returnE 0
              | Some i \<Rightarrow> signal_protocol_pre_key_remove_key (cipher_store cipher) i)
        (returnE plaintext)))))))"

definition session_cipher_decrypt_signal_message ::
    "('c, 's) session_cipher \<Rightarrow> signal_message \<Rightarrow> ('c, 's, bytes option) M" where
  "session_cipher_decrypt_signal_message cipher ciphertext =
     thenE (guardE (\<not> inside_callback cipher) SG_ERR_INVAL)
     (bindE (signal_protocol_session_contains_session (cipher_store cipher) (cipher_remote_address cipher)) (\<lambda>c.
      thenE (guardE (c \<noteq> 0) SG_ERR_NO_SESSION)
     (bindE (signal_protocol_session_load_session (cipher_store cipher) (cipher_remote_address cipher)) (\<lambda>r.
      bindE (session_cipher_decrypt_from_record_and_signal_message (cipher_global_context cipher) r ciphertext)
        (\<lambda>(plaintext, r').
      thenE (session_cipher_decrypt_callback cipher plaintext)
      (thenE (signal_protocol_session_store_session (cipher_store cipher) (cipher_remote_address cipher) r')
        (returnE plaintext)))))))"

definition session_cipher_get_remote_registration_id :: "('c, 's) session_cipher \<Rightarrow> ('c, 's, 32 word) M" where
  "session_cipher_get_remote_registration_id cipher =
     bindE (signal_protocol_session_load_session (cipher_store cipher) (cipher_remote_address cipher)) (\<lambda>r.
     case record_state r of None \<Rightarrow> failE SG_ERR_UNKNOWN | Some state \<Rightarrow> returnE (remote_registration_id state))"

text \<open>Any result of the store other than 0 and 1 is passed on with the version left at 0.\<close>

definition session_cipher_get_session_version :: "('c, 's) session_cipher \<Rightarrow> ('c, 's, 32 word) M" where
  "session_cipher_get_session_version cipher =
     bindE (signal_protocol_session_contains_session (cipher_store cipher) (cipher_remote_address cipher)) (\<lambda>c.
     if c = 0 then failE SG_ERR_NO_SESSION
     else if c \<noteq> 1 then returnE 0
     else
       bindE (signal_protocol_session_load_session (cipher_store cipher) (cipher_remote_address cipher)) (\<lambda>r.
       case record_state r of None \<Rightarrow> failE SG_ERR_UNKNOWN | Some state \<Rightarrow> returnE (session_version state)))"

end
