(* ===== verification/Session_Cipher_Laws.thy ===== *)
theory Session_Cipher_Laws
  imports Session_Cipher
begin

text \<open>
  What encryption and decryption do to a pair of session states: the message that a state sends, the
  states that can read it, and the state they are left in.
\<close>

section \<open>The receiver chain of a ratchet key\<close>

definition chain_of :: "ec_public_key \<Rightarrow> session_state \<Rightarrow> session_state_receiver_chain option" where
  "chain_of rk st = map_option ((!) (receiver_chains st)) (session_state_find_receiver_chain st rk)"

definition with_chain ::
    "session_state \<Rightarrow> ec_public_key \<Rightarrow> (session_state_receiver_chain \<Rightarrow> session_state_receiver_chain) \<Rightarrow> session_state" where
  "with_chain st rk f =
     (case session_state_find_receiver_chain st rk of
        None \<Rightarrow> st
      | Some i \<Rightarrow> st\<lparr>receiver_chains := (receiver_chains st)[i := f (receiver_chains st ! i)]\<rparr>)"

lemma find_with_chain:
  "(\<And>c. sender_ratchet_key (f c) = sender_ratchet_key c) \<Longrightarrow>
   session_state_find_receiver_chain (with_chain st rk f) rk = session_state_find_receiver_chain st rk"
  by (auto simp: with_chain_def find_receiver_chain_update split: option.splits)

lemma chain_of_with_chain:
  assumes "\<And>c. sender_ratchet_key (f c) = sender_ratchet_key c"
  shows "chain_of rk (with_chain st rk f) = map_option f (chain_of rk st)"
  unfolding chain_of_def find_with_chain [of f, OF assms]
  by (auto simp: with_chain_def find_receiver_chain_Some split: option.splits)

lemma with_chain_with_chain:
  assumes "\<And>c. sender_ratchet_key (f c) = sender_ratchet_key c"
  shows "with_chain (with_chain st rk f) rk g = with_chain st rk (g \<circ> f)"
  using find_with_chain [of f st rk, OF assms] find_receiver_chain_Some [of st rk]
  by (auto simp: with_chain_def split: option.splits)

lemma with_chain_cong:
  "(\<And>c. chain_of rk st = Some c \<Longrightarrow> f c = g c) \<Longrightarrow> with_chain st rk f = with_chain st rk g"
  by (auto simp: with_chain_def chain_of_def split: option.splits)

lemma with_chain_id: "(\<And>c. chain_of rk st = Some c \<Longrightarrow> f c = c) \<Longrightarrow> with_chain st rk f = st"
  by (auto simp: with_chain_def chain_of_def split: option.splits)

lemma with_chain_simps [simp]:
  "session_version (with_chain st rk f) = session_version st"
  "local_identity_public (with_chain st rk f) = local_identity_public st"
  "remote_identity_public (with_chain st rk f) = remote_identity_public st"
  "root_key (with_chain st rk f) = root_key st"
  "has_sender_chain (with_chain st rk f) = has_sender_chain st"
  "sender_chain (with_chain st rk f) = sender_chain st"
  by (simp_all add: with_chain_def split: option.splits)

lemma wf_with_chain:
  assumes "wf_session_state st"
    and "\<And>c. chain_of rk st = Some c \<Longrightarrow> wf_receiver_chain (session_version st) c \<Longrightarrow>
      wf_receiver_chain (session_version st) (f c)"
  shows "wf_session_state (with_chain st rk f)"
proof (cases "session_state_find_receiver_chain st rk")
  case (Some i)
  then show ?thesis
    using wf_update_receiver_chain [OF assms(1) assms(2)] wf_receiver_chain_nth [OF assms(1) Some]
    by (simp add: with_chain_def chain_of_def)
qed (simp add: with_chain_def assms(1))

lemma get_receiver_chain_key_of:
  "session_state_get_receiver_chain_key st rk = Option.bind (chain_of rk st) chain_key"
  by (simp add: session_state_get_receiver_chain_key_def chain_of_def split: option.splits)

lemma chain_of_wf: "wf_session_state st \<Longrightarrow> chain_of rk st = Some c \<Longrightarrow> wf_receiver_chain (session_version st) c"
  by (auto simp: chain_of_def dest: wf_receiver_chain_nth)

lemma yields_set_message_keys:
  "yields (session_state_set_message_keys st rk mk)
     (with_chain st rk (\<lambda>c. c\<lparr>message_keys := dl_trim MAX_MESSAGE_KEYS (message_keys c @ [mk])\<rparr>))"
  unfolding session_state_set_message_keys_def with_chain_def Let_def
  by (cases "session_state_find_receiver_chain st rk") (auto intro!: yields_returnE yields_thenE [OF yields_alloc])

lemma yields_set_receiver_chain_key:
  "chain_of rk st \<noteq> None \<Longrightarrow>
   yields (session_state_set_receiver_chain_key st rk ck) (with_chain st rk (\<lambda>c. c\<lparr>chain_key := Some ck\<rparr>))"
  unfolding session_state_set_receiver_chain_key_def with_chain_def chain_of_def
  by (auto intro!: yields_returnE)

lemma remove_message_keys_of:
  "session_state_remove_message_keys st rk n =
     (case Option.bind (chain_of rk st) (\<lambda>c. map_option (\<lambda>j. (c, j)) (dl_search (\<lambda>mk. counter mk = n) (message_keys c))) of
        None \<Rightarrow> (None, st)
      | Some (c, j) \<Rightarrow> (Some (message_keys c ! j), with_chain st rk (\<lambda>c. c\<lparr>message_keys := dl_delete j (message_keys c)\<rparr>)))"
  by (auto simp: session_state_remove_message_keys_def chain_of_def with_chain_def Let_def split: option.splits)

section \<open>Positions on a chain\<close>

definition chain_step :: "(bytes \<Rightarrow> bytes \<Rightarrow> bytes) \<Rightarrow> ratchet_chain_key \<Rightarrow> nat \<Rightarrow> ratchet_chain_key" where
  "chain_step H ck j = (chain_next H ^^ j) ck"

lemma chain_step_simps [simp]:
  "chain_step H ck 0 = ck"
  "ck_kdf (chain_step H ck j) = ck_kdf ck"
  "ck_index (chain_step H ck j) = ck_index ck + of_nat j"
  by (induction j) (simp_all add: chain_step_def)

lemma chain_step_Suc: "chain_step H ck (Suc j) = chain_next H (chain_step H ck j)"
  and chain_step_next: "chain_step H (chain_next H ck) j = chain_step H ck (Suc j)"
  by (simp_all add: chain_step_def funpow_swap1)

lemma chain_step_add: "chain_step H (chain_step H ck i) j = chain_step H ck (i + j)"
  by (simp add: chain_step_def funpow_add add.commute [of i])

lemma wf_chain_next: "hmac_laws ctx H \<Longrightarrow> wf_chain_key v ck \<Longrightarrow> wf_chain_key v (chain_next H ck)"
  by (simp add: wf_chain_key_def chain_next_def hmac_laws_length)

lemma wf_chain_step: "hmac_laws ctx H \<Longrightarrow> wf_chain_key v ck \<Longrightarrow> wf_chain_key v (chain_step H ck j)"
  by (induction j) (simp_all add: chain_step_Suc wf_chain_next)

definition chain_keys :: "(bytes \<Rightarrow> bytes \<Rightarrow> bytes) \<Rightarrow> ratchet_chain_key \<Rightarrow> nat \<Rightarrow> ratchet_message_keys list" where
  "chain_keys H ck d = map (\<lambda>j. chain_message_keys H (chain_step H ck j)) [0..<d]"

lemma chain_keys_Suc: "chain_keys H ck (Suc d) = chain_message_keys H ck # chain_keys H (chain_next H ck) d"
  unfolding chain_keys_def by (subst upt_conv_Cons) (simp_all add: map_Suc_upt [symmetric] chain_step_next del: upt_Suc)

text \<open>The chain after \<open>d\<close> messages were skipped, and after the next one was read.\<close>

definition skip_chain :: "ratchet_message_keys list \<Rightarrow> session_state_receiver_chain \<Rightarrow> session_state_receiver_chain" where
  "skip_chain mks c = c\<lparr>message_keys := dl_trim MAX_MESSAGE_KEYS (message_keys c @ mks)\<rparr>"

definition read_chain ::
    "(bytes \<Rightarrow> bytes \<Rightarrow> bytes) \<Rightarrow> ratchet_chain_key \<Rightarrow> nat \<Rightarrow> session_state_receiver_chain \<Rightarrow> session_state_receiver_chain" where
  "read_chain H ck d c = (skip_chain (chain_keys H ck d) c)\<lparr>chain_key := Some (chain_step H ck (Suc d))\<rparr>"

lemma yields_skip_message_keys:
  assumes "hmac_laws ctx H" and "wf_kdf (ck_kdf ck)"
    and "\<And>c. chain_of rk st = Some c \<Longrightarrow> length (message_keys c) \<le> MAX_MESSAGE_KEYS"
    and "unat (ck_index ck) + d = unat n" and "d < fuel"
  shows "yields (skip_message_keys fuel ctx rk n ck st :: ('c, 's, _) M)
    (chain_step H ck d, with_chain st rk (skip_chain (chain_keys H ck d)))"
  using assms(2-)
proof (induction d arbitrary: fuel ck st)
  case 0
  then obtain f where "fuel = Suc f" by (cases fuel) auto
  moreover have "\<not> ck_index ck < n" using 0 by (simp add: word_less_nat_alt)
  moreover have "with_chain st rk (skip_chain []) = st"
    using "0.prems"(2) by (intro with_chain_id) (simp add: skip_chain_def dl_trim_short)
  ultimately show ?case by (simp add: chain_keys_def yields_returnE)
next
  case (Suc d)
  then obtain f where f: "fuel = Suc f" "d < f" by (cases fuel) auto
  have less: "ck_index ck < n" using Suc.prems(3) by (simp add: word_less_nat_alt)
  let ?mk = "chain_message_keys H ck"
  let ?st = "with_chain st rk (skip_chain [?mk])"
  have "unat (ck_index ck + 1) = Suc (unat (ck_index ck))"
  proof -
    have "unat n < 2 ^ 32" using unsigned_less [of n] by simp
    then show ?thesis using Suc.prems(3) by (simp add: unat_word_ariths)
  qed
  then have "yields (skip_message_keys f ctx rk n (chain_next H ck) ?st :: ('c, 's, _) M)
      (chain_step H (chain_next H ck) d, with_chain ?st rk (skip_chain (chain_keys H (chain_next H ck) d)))"
    by (intro Suc.IH) (use Suc.prems f in \<open>auto simp: chain_of_with_chain skip_chain_def\<close>)
  moreover have "with_chain ?st rk (skip_chain (chain_keys H (chain_next H ck) d)) =
      with_chain st rk (skip_chain (chain_keys H ck (Suc d)))"
    by (simp add: with_chain_with_chain skip_chain_def [abs_def] chain_keys_Suc comp_def dl_trim_append)
  moreover have "yields (session_state_set_message_keys st rk ?mk :: ('c, 's, _) M) ?st"
    using yields_set_message_keys [of st rk ?mk] by (simp add: skip_chain_def [abs_def])
  ultimately show ?case
    using less f yields_get_message_keys [OF assms(1) Suc.prems(1)] yields_create_next [OF assms(1)]
    by (simp add: chain_step_next) (blast intro: yields_bindE)
qed

section \<open>What a state sends\<close>

definition message_text ::
    "(int \<Rightarrow> bytes \<Rightarrow> bytes \<Rightarrow> bytes \<Rightarrow> bytes) \<Rightarrow> 32 word \<Rightarrow> ratchet_message_keys \<Rightarrow> bytes \<Rightarrow> bytes" where
  "message_text E v mk p =
     (if v \<ge> 3 then E SG_CIPHER_AES_CBC_PKCS5 (cipher_key mk) (iv mk) p
      else E SG_CIPHER_AES_CTR_NOPADDING (cipher_key mk) (counter_iv (counter mk)) p)"

lemma length_counter_iv [simp]: "length (counter_iv n) = 16"
  by (simp add: counter_iv_def)

lemma yields_get_ciphertext:
  "cipher_laws ctx E \<Longrightarrow> wf_message_keys mk \<Longrightarrow>
   yields (session_cipher_get_ciphertext ctx v mk p) (Some (message_text E v mk p))"
  by (auto simp: session_cipher_get_ciphertext_def message_text_def wf_message_keys_def
      intro!: yields_signal_encrypt)

lemma yields_get_plaintext:
  "cipher_laws ctx E \<Longrightarrow> wf_message_keys mk \<Longrightarrow>
   yields (session_cipher_get_plaintext ctx v mk (message_text E v mk p)) (Some p)"
  by (auto simp: session_cipher_get_plaintext_def message_text_def wf_message_keys_def
      intro!: yields_signal_decrypt)

lemma length_message_text:
  "cipher_laws ctx E \<Longrightarrow> wf_message_keys mk \<Longrightarrow> length (message_text E v mk p) \<le> length p + 16"
  by (simp add: message_text_def wf_message_keys_def cipher_laws_length [of ctx])

text \<open>The message with number \<open>ck_index ck\<close> on a chain of the ratchet key \<open>rk\<close>.\<close>

definition chain_message ::
    "(bytes \<Rightarrow> bytes \<Rightarrow> bytes) \<Rightarrow> (int \<Rightarrow> bytes \<Rightarrow> bytes \<Rightarrow> bytes \<Rightarrow> bytes) \<Rightarrow> 32 word \<Rightarrow> ec_public_key
      \<Rightarrow> ec_public_key \<Rightarrow> ec_public_key \<Rightarrow> 32 word \<Rightarrow> ratchet_chain_key \<Rightarrow> bytes \<Rightarrow> signal_message" where
  "chain_message H E v s r rk pn ck p =
     (let mk = chain_message_keys H ck
      in signal_message_of H (ucast v) (mac_key mk) rk (ck_index ck) pn (message_text E v mk p) s r)"

definition can_send :: "session_state \<Rightarrow> bool" where
  "can_send st =
     (wf_session_state st \<and> has_sender_chain st \<and> sender_chain_key (sender_chain st) \<noteq> None \<and>
      sender_ratchet_key_pair (sender_chain st) \<noteq> None \<and> local_identity_public st \<noteq> None \<and>
      remote_identity_public st \<noteq> None \<and>
      (has_pending_pre_key st \<longrightarrow> pending_base_key (pending_pre_key st) \<noteq> None \<and> session_version st = 3))"

definition sending_chain :: "session_state \<Rightarrow> ratchet_chain_key" where
  "sending_chain st = the (sender_chain_key (sender_chain st))"

definition sending_key :: "session_state \<Rightarrow> ec_key_pair" where
  "sending_key st = the (sender_ratchet_key_pair (sender_chain st))"

definition sent_message ::
    "(bytes \<Rightarrow> bytes \<Rightarrow> bytes) \<Rightarrow> (int \<Rightarrow> bytes \<Rightarrow> bytes \<Rightarrow> bytes \<Rightarrow> bytes) \<Rightarrow> session_state \<Rightarrow> bytes \<Rightarrow> signal_message" where
  "sent_message H E st p =
     chain_message H E (session_version st) (the (local_identity_public st)) (the (remote_identity_public st))
       (public_key (sending_key st)) (previous_counter st) (sending_chain st) p"

definition sent_envelope ::
    "(bytes \<Rightarrow> bytes \<Rightarrow> bytes) \<Rightarrow> (int \<Rightarrow> bytes \<Rightarrow> bytes \<Rightarrow> bytes \<Rightarrow> bytes) \<Rightarrow> session_state \<Rightarrow> bytes \<Rightarrow> ciphertext_message" where
  "sent_envelope H E st p =
     (if has_pending_pre_key st then
        (let pending = pending_pre_key st in
         Pre_Key_Signal_Message (pre_key_message_of (local_registration_id st)
           (if has_pre_key_id pending then Some (pending_pre_key_id pending) else None)
           (pending_signed_pre_key_id pending) (the (pending_base_key pending))
           (the (local_identity_public st)) (sent_message H E st p)))
      else Signal_Message (sent_message H E st p))"

definition sent_state :: "(bytes \<Rightarrow> bytes \<Rightarrow> bytes) \<Rightarrow> session_state \<Rightarrow> session_state" where
  "sent_state H st =
     st\<lparr>sender_chain := (sender_chain st)\<lparr>sender_chain_key := Some (chain_next H (sending_chain st))\<rparr>\<rparr>"

lemma can_send_facts:
  assumes "can_send st"
  shows "session_state_get_sender_chain_key st = Some (sending_chain st)"
    and "session_state_get_sender_ratchet_key st = Some (public_key (sending_key st))"
    and "sender_ratchet_key_pair (sender_chain st) = Some (sending_key st)"
    and "wf_key (public_key (sending_key st))" and "wf_key (private_key (sending_key st))"
    and "wf_chain_key (session_version st) (sending_chain st)" and "wf_kdf (ck_kdf (sending_chain st))"
    and "local_identity_public st = Some (the (local_identity_public st))"
    and "remote_identity_public st = Some (the (remote_identity_public st))"
    and "wf_key (the (local_identity_public st))" and "wf_key (the (remote_identity_public st))"
    and "session_version st = 2 \<or> session_version st = 3"
proof -
  have v: "wf_version (session_version st)" using assms by (simp add: can_send_def wf_session_state_def)
  show "wf_chain_key (session_version st) (sending_chain st)"
    using assms by (auto simp: can_send_def wf_session_state_def wf_sender_chain_def sending_chain_def)
  then show "wf_kdf (ck_kdf (sending_chain st))" using wf_kdf_of [OF v] by (simp add: wf_chain_key_def)
  show "session_version st = 2 \<or> session_version st = 3" using v by (auto simp: wf_version_def)
qed (use assms in \<open>auto simp: can_send_def wf_session_state_def wf_sender_chain_def wf_pair_def sending_key_def
    sending_chain_def session_state_get_sender_chain_key_def session_state_get_sender_ratchet_key_def\<close>)

lemma wf_sent_state: "hmac_laws ctx H \<Longrightarrow> can_send st \<Longrightarrow> wf_session_state (sent_state H st)"
  unfolding sent_state_def
  by (rule wf_set_sender_chain_key(2))
     (auto simp: can_send_def intro!: wf_chain_next can_send_facts(6))

lemma can_send_sent_state: "hmac_laws ctx H \<Longrightarrow> can_send st \<Longrightarrow> can_send (sent_state H st)"
  using wf_sent_state [of ctx H st] by (auto simp: can_send_def sent_state_def)

lemma wf_chain_message:
  assumes "hmac_laws ctx H" and "cipher_laws ctx E" and "v = 2 \<or> v = 3" and "wf_key rk"
    and "length p \<le> 2 ^ 24 - 16"
  shows "wf_signal_message (chain_message H E v s r rk pn ck p)"
    and "v = 3 \<Longrightarrow> wf_inner_message (chain_message H E v s r rk pn ck p)"
proof -
  let ?mk = "chain_message_keys H ck"
  have len: "length (message_text E v ?mk p) \<le> 2 ^ 24"
    using length_message_text [OF assms(2) wf_chain_message_keys [OF assms(1)], of v ck p] assms(5) by simp
  show wf: "wf_signal_message (chain_message H E v s r rk pn ck p)"
    unfolding chain_message_def Let_def
    by (rule wf_signal_message_of [OF assms(1)]) (use assms len in \<open>auto simp: MAX_CIPHERTEXT_def\<close>)
  then show "wf_inner_message (chain_message H E v s r rk pn ck p)" if "v = 3"
    using that len by (simp add: wf_inner_message_def chain_message_def signal_message_of_def Let_def)
qed

lemma yields_wrap_pre_key_message:
  assumes laws: "hmac_laws ctx H" "cipher_laws ctx E" and st: "can_send st" and p: "length p \<le> 2 ^ 24 - 16"
  shows "yields (wrap_pre_key_message st (the (local_identity_public st)) (sent_message H E st p))
    (sent_envelope H E st p)"
proof (cases "has_pending_pre_key st")
  case True
  note f = can_send_facts [OF st]
  let ?pend = "pending_pre_key st"
  obtain base where base: "pending_base_key ?pend = Some base" and v: "session_version st = 3"
    using st True by (auto simp: can_send_def)
  have "wf_key base" using st base by (auto simp: can_send_def wf_session_state_def wf_pending_pre_key_def)
  moreover have "wf_inner_message (sent_message H E st p)"
    unfolding sent_message_def v by (rule wf_chain_message(2) [OF laws _ f(4) p]) simp_all
  ultimately have pk: "yields (pre_key_signal_message_create (ucast (session_version st)) (local_registration_id st) i
        (pending_signed_pre_key_id ?pend) (Some base) (Some (the (local_identity_public st)))
        (Some (sent_message H E st p)))
      (pre_key_message_of (local_registration_id st) i (pending_signed_pre_key_id ?pend) base
        (the (local_identity_public st)) (sent_message H E st p))" for i
    using yields_pre_key_signal_message_create f(10) v by simp
  have "yields (if has_pre_key_id ?pend
      then bindE (session_state_unacknowledged_pre_key_message_get_pre_key_id st) (\<lambda>i. returnE (Some i))
      else returnE None) (if has_pre_key_id ?pend then Some (pending_pre_key_id ?pend) else None)"
    unfolding session_state_unacknowledged_pre_key_message_get_pre_key_id_def
    by (simp add: yields_returnE yields_bindE [OF yields_thenE [OF yields_assertE yields_returnE]])
  then show ?thesis
    unfolding wrap_pre_key_message_def Let_def
    by (simp only: True if_True base option.case)
       (rule yields_bindE, assumption, rule yields_bindE [OF pk],
        rule yields_cong [OF yields_returnE], simp add: sent_envelope_def True base Let_def)
qed (simp add: wrap_pre_key_message_def sent_envelope_def yields_returnE)

lemma yields_encrypt_on_state:
  assumes laws: "hmac_laws ctx H" "cipher_laws ctx E" and st: "can_send st" and p: "length p \<le> 2 ^ 24 - 16"
  shows "yields (encrypt_on_state ctx st p) (sent_envelope H E st p, sent_state H st)"
proof -
  note f = can_send_facts [OF st]
  let ?ck = "sending_chain st" and ?v = "session_version st"
  let ?mk = "chain_message_keys H ?ck"
  have wfmk: "wf_message_keys ?mk" by (rule wf_chain_message_keys [OF laws(1)])
  have ct: "length (message_text E ?v ?mk p) \<le> MAX_CIPHERTEXT"
    using length_message_text [OF laws(2) wfmk, of ?v p] p by (simp add: MAX_CIPHERTEXT_def)
  obtain l r where lr: "local_identity_public st = Some l" "remote_identity_public st = Some r"
    using f(8,9) by blast
  have msg: "signal_message_of H (ucast ?v) (mac_key ?mk) (public_key (sending_key st)) (ck_index ?ck)
      (previous_counter st) (message_text E ?v ?mk p) l r = sent_message H E st p"
    by (simp add: sent_message_def chain_message_def lr Let_def)
  have upd: "yields (session_state_set_sender_chain_key st (chain_next H ?ck)) (sent_state H st)"
    unfolding sent_state_def
    by (rule wf_set_sender_chain_key(1)) (use st in \<open>auto simp: can_send_def intro!: wf_chain_next [OF laws(1)] f(6)\<close>)
  show ?thesis
    unfolding encrypt_on_state_def f(1,2) lr option.case
    by (rule yields_bindE [OF yields_get_message_keys [OF laws(1) f(7)]],
        rule yields_bindE [OF yields_get_ciphertext [OF laws(2) wfmk]], rule yields_bindE [OF yields_derefE],
        rule yields_bindE [OF yields_signal_message_create [OF laws(1) f(4) ct]], unfold msg,
        rule yields_bindE [OF yields_wrap_pre_key_message [OF laws st p, unfolded lr option.sel]],
        rule yields_bindE [OF yields_create_next [OF laws(1)]],
        rule yields_bindE [OF upd], rule yields_returnE)
qed

section \<open>Reading a message of a known chain\<close>

lemma yields_new_message_keys:
  assumes "hmac_laws ctx H" and "wf_kdf (ck_kdf ck)" and "wf_session_state st" and "chain_of rk st \<noteq> None"
    and "unat (ck_index ck) + d = unat n" and "d \<le> 2000"
  shows "yields (session_cipher_get_or_create_message_keys ctx st rk ck n :: ('c, 's, _) M)
    (chain_message_keys H (chain_step H ck d), with_chain st rk (read_chain H ck d))"
proof -
  have u: "unat (n - ck_index ck) = d"
    using assms(5) by (subst unat_sub) (simp_all add: word_le_nat_alt)
  have cmp: "\<not> ck_index ck > n" "\<not> n - ck_index ck > 2000"
    using assms(5,6) u by (simp_all add: word_less_nat_alt)
  let ?skip = "with_chain st rk (skip_chain (chain_keys H ck d))"
  have skip: "yields (skip_message_keys 2001 ctx rk n ck st :: ('c, 's, _) M) (chain_step H ck d, ?skip)"
    by (rule yields_skip_message_keys [OF assms(1,2) _ assms(5)])
       (use assms(6) chain_of_wf [OF assms(3)] in \<open>auto simp: wf_receiver_chain_def\<close>)
  have "chain_of rk ?skip \<noteq> None"
    using assms(4) by (simp add: chain_of_with_chain skip_chain_def)
  then have set: "yields (session_state_set_receiver_chain_key ?skip rk (chain_next H (chain_step H ck d)) :: ('c, 's, _) M)
      (with_chain ?skip rk (\<lambda>c. c\<lparr>chain_key := Some (chain_next H (chain_step H ck d))\<rparr>))"
    by (intro yields_set_receiver_chain_key) simp
  have read: "with_chain ?skip rk (\<lambda>c. c\<lparr>chain_key := Some (chain_next H (chain_step H ck d))\<rparr>) =
      with_chain st rk (read_chain H ck d)"
    by (simp add: with_chain_with_chain skip_chain_def read_chain_def [abs_def] comp_def chain_step_Suc)
  have kdf: "wf_kdf (ck_kdf (chain_step H ck d))" using assms(2) by simp
  show ?thesis
    unfolding session_cipher_get_or_create_message_keys_def
    by (simp only: cmp if_False, rule yields_bindE [OF skip], simp only: prod.case,
        rule yields_bindE [OF yields_create_next [OF assms(1)]], rule yields_bindE [OF set],
        rule yields_bindE [OF yields_get_message_keys [OF assms(1) kdf]], unfold read, rule yields_returnE)
qed

lemma yields_old_message_keys:
  assumes "ck_index ck > n" and "chain_of rk st = Some c"
    and "dl_search (\<lambda>mk. counter mk = n) (message_keys c) = Some j"
  shows "yields (session_cipher_get_or_create_message_keys ctx st rk ck n)
    (message_keys c ! j, with_chain st rk (\<lambda>c. c\<lparr>message_keys := dl_delete j (message_keys c)\<rparr>))"
  using assms by (simp add: session_cipher_get_or_create_message_keys_def remove_message_keys_of yields_returnE)

lemma fails_old_message_keys:
  assumes "ck_index ck > n" and "chain_of rk st = Some c" and "\<forall>mk \<in> set (message_keys c). counter mk \<noteq> n"
  shows "fails (session_cipher_get_or_create_message_keys ctx st rk ck n) SG_ERR_DUPLICATE_MESSAGE"
proof -
  have "dl_search (\<lambda>mk. counter mk = n) (message_keys c) = None" using assms(3) by (simp add: dl_search_None)
  then show ?thesis
    using assms(1,2) by (simp add: session_cipher_get_or_create_message_keys_def remove_message_keys_of fails_failE)
qed

lemma fails_future_message_keys:
  assumes "unat (ck_index ck) + 2000 < unat n"
  shows "fails (session_cipher_get_or_create_message_keys ctx st rk ck n) SG_ERR_INVALID_MESSAGE"
proof -
  have "unat (n - ck_index ck) = unat n - unat (ck_index ck)"
    using assms by (subst unat_sub) (simp_all add: word_le_nat_alt)
  then have "n - ck_index ck > 2000" "\<not> ck_index ck > n" using assms by (simp_all add: word_less_nat_alt)
  then show ?thesis by (simp add: session_cipher_get_or_create_message_keys_def fails_failE)
qed

text \<open>The last part of reading a message, once its keys are found.\<close>

lemma ensures_decrypt_with_keys:
  assumes laws: "hmac_laws ctx H" "cipher_laws ctx E" and wf: "wf_message_keys mk"
    and st: "has_sender_chain st" "ucast (sm_version m) = session_version st"
    and ck: "ensures (session_cipher_get_or_create_chain_key ctx st (sm_ratchet_key m) :: ('c, 's, _) M) (\<lambda>(ck, st1). Q ck st1)"
    and mk: "\<And>ck st1. Q ck st1 \<Longrightarrow>
      yields (session_cipher_get_or_create_message_keys ctx st1 (sm_ratchet_key m) ck (sm_counter m) :: ('c, 's, _) M)
        (mk, st2 ck st1)"
    and id: "\<And>ck st1. Q ck st1 \<Longrightarrow>
      remote_identity_public (st2 ck st1) = Some s \<and> local_identity_public (st2 ck st1) = Some r"
    and m: "m = signal_message_of H v (mac_key mk) rk n pn (message_text E (ucast v) mk p) s r"
  shows "ensures (session_cipher_decrypt_from_state_and_signal_message ctx st m :: ('c, 's, _) M)
    (\<lambda>(t, st'). t = Some p \<and>
      (\<exists>ck st1. Q ck st1 \<and> st' = session_state_clear_unacknowledged_pre_key_message (st2 ck st1)))"
proof -
  have pt: "yields (session_cipher_get_plaintext ctx (ucast (sm_version m)) mk (sm_ciphertext m) :: ('c, 's, _) M) (Some p)"
    using yields_get_plaintext [OF laws(2) wf] by (simp add: m signal_message_of_def)
  have mac: "yields (signal_message_verify_mac ctx m (Some s) (Some r) (mac_key mk) :: ('c, 's, _) M) True"
    unfolding m by (rule yields_verify_mac [OF laws(1)])
  show ?thesis
    unfolding session_cipher_decrypt_from_state_and_signal_message_def Let_def
  proof (rule ensures_thenE [OF yields_guardE [OF st(1)]], rule ensures_thenE [OF yields_guardE [OF st(2)]],
      rule ensures_bindE [OF ck], clarify)
    fix ck st1
    assume Q: "Q ck st1"
    show "ensures (bindE (session_cipher_get_or_create_message_keys ctx st1 (sm_ratchet_key m) ck (sm_counter m))
        (\<lambda>(mk, state2). case remote_identity_public state2 of None \<Rightarrow> failE SG_ERR_UNKNOWN
          | Some remote_identity \<Rightarrow> (case local_identity_public state2 of None \<Rightarrow> failE SG_ERR_UNKNOWN
          | Some local_identity \<Rightarrow>
              bindE (signal_message_verify_mac ctx m (Some remote_identity) (Some local_identity) (mac_key mk)) (\<lambda>verified.
              thenE (guardE verified SG_ERR_INVALID_MESSAGE)
              (bindE (session_cipher_get_plaintext ctx (ucast (sm_version m)) mk (sm_ciphertext m)) (\<lambda>plaintext.
               returnE (plaintext, session_state_clear_unacknowledged_pre_key_message state2)))))) :: ('c, 's, _) M)
        (\<lambda>(t, st'). t = Some p \<and>
          (\<exists>ck st1. Q ck st1 \<and> st' = session_state_clear_unacknowledged_pre_key_message (st2 ck st1)))"
      by (rule ensures_bind_yields [OF mk [OF Q]], simp only: prod.case id [OF Q] option.case,
          rule ensures_bind_yields [OF mac], rule ensures_thenE [OF yields_guardE], simp,
          rule ensures_bind_yields [OF pt], rule ensures_returnE, use Q in blast)
  qed
qed

lemma yields_decrypt_with_keys:
  assumes laws: "hmac_laws ctx H" "cipher_laws ctx E" and wf: "wf_message_keys mk"
    and st: "has_sender_chain st" "ucast (sm_version m) = session_version st"
    and ck: "yields (session_cipher_get_or_create_chain_key ctx st (sm_ratchet_key m) :: ('c, 's, _) M) (ck, st1)"
    and mk: "yields (session_cipher_get_or_create_message_keys ctx st1 (sm_ratchet_key m) ck (sm_counter m) :: ('c, 's, _) M)
      (mk, st2)"
    and id: "remote_identity_public st2 = Some s" "local_identity_public st2 = Some r"
    and m: "m = signal_message_of H v (mac_key mk) rk n pn (message_text E (ucast v) mk p) s r"
  shows "yields (session_cipher_decrypt_from_state_and_signal_message ctx st m :: ('c, 's, _) M)
    (Some p, session_state_clear_unacknowledged_pre_key_message st2)"
proof -
  have "ensures (session_cipher_get_or_create_chain_key ctx st (sm_ratchet_key m) :: ('c, 's, _) M)
      (\<lambda>(c, st'). c = ck \<and> st' = st1)"
    using ck by (rule ensures_yields) simp
  from ensures_decrypt_with_keys [where Q = "\<lambda>c st'. c = ck \<and> st' = st1" and ?st2.0 = "\<lambda>_ _. st2", OF laws wf st this _ _ m]
  have "ensures (session_cipher_decrypt_from_state_and_signal_message ctx st m :: ('c, 's, _) M)
      (\<lambda>(t, st'). t = Some p \<and> st' = session_state_clear_unacknowledged_pre_key_message st2)"
    using mk id by simp
  then show ?thesis unfolding yields_def by (rule ensures_mono) auto
qed

lemma yields_known_chain_key:
  "chain_of rk st = Some c \<Longrightarrow> chain_key c = Some ck \<Longrightarrow>
   yields (session_cipher_get_or_create_chain_key ctx st rk) (ck, st)"
  by (simp add: session_cipher_get_or_create_chain_key_def get_receiver_chain_key_of yields_returnE)

lemma wf_kdf_chain: "wf_version v \<Longrightarrow> wf_chain_key v ck \<Longrightarrow> wf_kdf (ck_kdf ck)"
  by (simp add: wf_chain_key_def wf_kdf_of)

lemma ucast_version: "v = 2 \<or> v = 3 \<Longrightarrow> ucast (ucast v :: byte) = (v :: 32 word)"
  by auto

text \<open>The condition for reading: the state belongs to the session of the two identities and has the chain.\<close>

definition reads_chain ::
    "session_state \<Rightarrow> ec_public_key \<Rightarrow> ec_public_key \<Rightarrow> ec_public_key \<Rightarrow> ratchet_chain_key \<Rightarrow> bool" where
  "reads_chain st s r rk ck =
     (wf_session_state st \<and> has_sender_chain st \<and> remote_identity_public st = Some s \<and>
      local_identity_public st = Some r \<and> (\<exists>c. chain_of rk st = Some c \<and> chain_key c = Some ck))"

lemma reads_chain_wf:
  assumes "reads_chain st s r rk ck"
  shows "wf_chain_key (session_version st) ck" and "wf_kdf (ck_kdf ck)"
    and "ucast (ucast (session_version st) :: byte) = session_version st"
proof -
  have v: "wf_version (session_version st)" using assms by (simp add: reads_chain_def wf_session_state_def)
  show wf: "wf_chain_key (session_version st) ck"
    using assms chain_of_wf by (fastforce simp: reads_chain_def wf_receiver_chain_def)
  show "wf_kdf (ck_kdf ck)" by (rule wf_kdf_chain [OF v wf])
  show "ucast (ucast (session_version st) :: byte) = session_version st"
    using v by (auto simp: wf_version_def)
qed

lemma yields_decrypt_next:
  assumes laws: "hmac_laws ctx H" "cipher_laws ctx E" and st: "reads_chain st s r rk ck"
    and d: "d \<le> 2000" "unat (ck_index ck) + d < 2 ^ 32"
  shows "yields (session_cipher_decrypt_from_state_and_signal_message ctx st
      (chain_message H E (session_version st) s r rk pn (chain_step H ck d) p) :: ('c, 's, _) M)
    (Some p, session_state_clear_unacknowledged_pre_key_message (with_chain st rk (read_chain H ck d)))"
proof -
  let ?m = "chain_message H E (session_version st) s r rk pn (chain_step H ck d) p"
  obtain c where c: "chain_of rk st = Some c" "chain_key c = Some ck" using st by (auto simp: reads_chain_def)
  note wf = reads_chain_wf [OF st]
  have m: "sm_ratchet_key ?m = rk" "sm_counter ?m = ck_index ck + of_nat d"
      "ucast (sm_version ?m) = session_version st"
    using wf(3) by (simp_all add: chain_message_def signal_message_of_def Let_def)
  have n: "unat (ck_index ck) + d = unat (ck_index ck + of_nat d)"
    using d by (simp add: unat_word_ariths unsigned_of_nat take_bit_eq_mod)
  show ?thesis
  proof (rule yields_decrypt_with_keys [OF laws wf_chain_message_keys [OF laws(1)]])
    show "yields (session_cipher_get_or_create_chain_key ctx st (sm_ratchet_key ?m) :: ('c, 's, _) M) (ck, st)"
      unfolding m by (rule yields_known_chain_key [OF c])
    show "yields (session_cipher_get_or_create_message_keys ctx st (sm_ratchet_key ?m) ck (sm_counter ?m) :: ('c, 's, _) M)
        (chain_message_keys H (chain_step H ck d), with_chain st rk (read_chain H ck d))"
      unfolding m by (rule yields_new_message_keys [OF laws(1) wf(2) _ _ n d(1)])
        (use st c in \<open>auto simp: reads_chain_def\<close>)
    show "?m = signal_message_of H (ucast (session_version st)) (mac_key (chain_message_keys H (chain_step H ck d))) rk
        (ck_index (chain_step H ck d)) pn (message_text E (ucast (ucast (session_version st) :: byte))
          (chain_message_keys H (chain_step H ck d)) p) s r"
      by (simp add: chain_message_def Let_def wf(3))
  qed (use st m in \<open>auto simp: reads_chain_def\<close>)
qed

text \<open>The clearing of the pre key data changes nothing that reading looks at.\<close>

lemma clear_unacknowledged_simps [simp]:
  "chain_of rk (session_state_clear_unacknowledged_pre_key_message st) = chain_of rk st"
  "session_version (session_state_clear_unacknowledged_pre_key_message st) = session_version st"
  "has_sender_chain (session_state_clear_unacknowledged_pre_key_message st) = has_sender_chain st"
  "sender_chain (session_state_clear_unacknowledged_pre_key_message st) = sender_chain st"
  "root_key (session_state_clear_unacknowledged_pre_key_message st) = root_key st"
  "remote_identity_public (session_state_clear_unacknowledged_pre_key_message st) = remote_identity_public st"
  "local_identity_public (session_state_clear_unacknowledged_pre_key_message st) = local_identity_public st"
  by (simp_all add: session_state_clear_unacknowledged_pre_key_message_def chain_of_def
      session_state_find_receiver_chain_def)

lemma wf_chain_keys: "hmac_laws ctx H \<Longrightarrow> list_all wf_message_keys (chain_keys H ck d)"
  by (auto simp: chain_keys_def list_all_iff intro: wf_chain_message_keys)

lemma read_chain_simps [simp]:
  "sender_ratchet_key (read_chain H ck d c) = sender_ratchet_key c"
  "chain_key (read_chain H ck d c) = Some (chain_step H ck (Suc d))"
  "message_keys (read_chain H ck d c) = dl_trim MAX_MESSAGE_KEYS (message_keys c @ chain_keys H ck d)"
  by (simp_all add: read_chain_def skip_chain_def)

lemma wf_read_chain:
  "hmac_laws ctx H \<Longrightarrow> wf_chain_key v ck \<Longrightarrow> wf_receiver_chain v c \<Longrightarrow> wf_receiver_chain v (read_chain H ck d c)"
  by (simp add: wf_receiver_chain_def read_chain_def skip_chain_def wf_chain_step list_all_dl_trim
      list_all_append wf_chain_keys)

definition after_read ::
    "(bytes \<Rightarrow> bytes \<Rightarrow> bytes) \<Rightarrow> session_state \<Rightarrow> ec_public_key \<Rightarrow> ratchet_chain_key \<Rightarrow> nat \<Rightarrow> session_state" where
  "after_read H st rk ck d =
     session_state_clear_unacknowledged_pre_key_message (with_chain st rk (read_chain H ck d))"

lemma reads_chain_after_read:
  assumes "hmac_laws ctx H" and "reads_chain st s r rk ck"
  shows "reads_chain (after_read H st rk ck d) s r rk (chain_step H ck (Suc d))"
proof -
  have "wf_session_state (with_chain st rk (read_chain H ck d))"
    by (rule wf_with_chain) (use assms reads_chain_wf [OF assms(2)] in \<open>auto simp: reads_chain_def intro: wf_read_chain\<close>)
  then show ?thesis
    using assms(2)
    by (auto simp: reads_chain_def after_read_def chain_of_with_chain intro!: wf_session_setters(7))
qed

lemma after_read_simps [simp]:
  "session_version (after_read H st rk ck d) = session_version st"
  "chain_of rk (after_read H st rk ck d) = map_option (read_chain H ck d) (chain_of rk st)"
  by (simp_all add: after_read_def chain_of_with_chain)

text \<open>Stored keys have different numbers, all below the number of the chain key.\<close>

definition keys_below :: "32 word \<Rightarrow> ratchet_message_keys list \<Rightarrow> bool" where
  "keys_below n mks = (distinct (map counter mks) \<and> (\<forall>mk \<in> set mks. counter mk < n))"

lemma counters_chain_keys: "map counter (chain_keys H ck d) = map (\<lambda>j. ck_index ck + of_nat j) [0..<d]"
  by (simp add: chain_keys_def)

lemma keys_below_chain_keys:
  assumes "keys_below (ck_index ck) mks" and "unat (ck_index ck) + d < 2 ^ 32"
  shows "keys_below (ck_index ck + of_nat d) (mks @ chain_keys H ck d)"
proof -
  have u: "unat (ck_index ck + of_nat j) = unat (ck_index ck) + j" if "j \<le> d" for j
    using assms(2) that by (intro unat_index_add) simp
  have "inj_on (\<lambda>j. ck_index ck + of_nat j) {0..<d}"
    using index_add_inject [OF assms(2)] by (auto intro!: inj_onI)
  then have "distinct (map counter (chain_keys H ck d))"
    by (simp add: counters_chain_keys distinct_map)
  moreover have below: "counter mk < ck_index ck \<and> counter mk < ck_index ck + of_nat d" if "mk \<in> set mks" for mk
    using assms(1) that u [of d] by (auto simp: keys_below_def word_less_nat_alt)
  moreover have above: "ck_index ck \<le> counter mk \<and> counter mk < ck_index ck + of_nat d" if "mk \<in> set (chain_keys H ck d)" for mk
    using that u by (auto simp: chain_keys_def word_le_nat_alt word_less_nat_alt)
  moreover have "counter mk \<noteq> counter mk'" if "mk \<in> set mks" "mk' \<in> set (chain_keys H ck d)" for mk mk'
    using below [OF that(1)] above [OF that(2)] by (metis not_le)
  then have "set (map counter mks) \<inter> set (map counter (chain_keys H ck d)) = {}" by auto
  ultimately show ?thesis
    using assms(1) by (simp add: keys_below_def ball_Un)
qed

lemma keys_below_trim: "keys_below n mks \<Longrightarrow> keys_below n (dl_trim b mks)"
  by (auto simp: keys_below_def dl_trim_drop simp flip: drop_map dest: in_set_dropD)

lemma distinct_dl_delete: "distinct xs \<Longrightarrow> distinct (dl_delete j xs)"
  by (simp add: dl_delete_def set_take_disj_set_drop_if_distinct)

lemma map_dl_delete: "map f (dl_delete j xs) = dl_delete j (map f xs)"
  by (simp add: dl_delete_def take_map drop_map)

lemma keys_below_delete: "keys_below n mks \<Longrightarrow> keys_below n (dl_delete j mks)"
  by (auto simp: keys_below_def map_dl_delete distinct_dl_delete dest: set_dl_delete)

lemma keys_below_Suc:
  assumes "keys_below (i + of_nat d) mks" and "unat (i :: 32 word) + Suc d < 2 ^ 32"
  shows "keys_below (i + of_nat (Suc d)) mks"
proof -
  have "unat (i + of_nat d) < unat (i + of_nat (Suc d))"
    using assms(2) unat_index_add [of i d] unat_index_add [of i "Suc d"] by simp
  then have "i + of_nat d < i + of_nat (Suc d)" by (simp add: word_less_nat_alt del: of_nat_Suc)
  then show ?thesis using assms(1) unfolding keys_below_def by (meson order.strict_trans)
qed

lemma keys_below_read:
  assumes "keys_below (ck_index ck) (message_keys c)" and "unat (ck_index ck) + Suc d < 2 ^ 32"
  shows "keys_below (ck_index (chain_step H ck (Suc d))) (message_keys (read_chain H ck d c))"
proof -
  have "keys_below (ck_index ck + of_nat d) (message_keys c @ chain_keys H ck d)"
    by (rule keys_below_chain_keys [OF assms(1)]) (use assms(2) in simp)
  then have "keys_below (ck_index ck + of_nat (Suc d)) (message_keys c @ chain_keys H ck d)"
    using assms(2) by (rule keys_below_Suc)
  then show ?thesis by (simp add: keys_below_trim del: of_nat_Suc)
qed

text \<open>Reading a message whose keys were stored when a later one was read.\<close>

lemma yields_decrypt_stored:
  assumes laws: "hmac_laws ctx H" "cipher_laws ctx E" and st: "reads_chain st s r rk ck"
    and c: "chain_of rk st = Some c" "keys_below (ck_index ck) (message_keys c)"
    and stored: "chain_message_keys H old \<in> set (message_keys c)"
  shows "\<exists>j. dl_search (\<lambda>mk. counter mk = ck_index old) (message_keys c) = Some j \<and>
    yields (session_cipher_decrypt_from_state_and_signal_message ctx st
        (chain_message H E (session_version st) s r rk pn old p) :: ('c, 's, _) M)
      (Some p, session_state_clear_unacknowledged_pre_key_message
         (with_chain st rk (\<lambda>c. c\<lparr>message_keys := dl_delete j (message_keys c)\<rparr>)))"
proof -
  let ?m = "chain_message H E (session_version st) s r rk pn old p" and ?mk = "chain_message_keys H old"
  obtain j where j: "dl_search (\<lambda>mk. counter mk = ck_index old) (message_keys c) = Some j" "message_keys c ! j = ?mk"
    using dl_search_unique [OF _ stored, of counter] c(2) by (auto simp: keys_below_def)
  note wf = reads_chain_wf [OF st]
  have m: "sm_ratchet_key ?m = rk" "sm_counter ?m = ck_index old" "ucast (sm_version ?m) = session_version st"
    using wf(3) by (simp_all add: chain_message_def signal_message_of_def Let_def)
  have old: "ck_index ck > ck_index old" using c(2) stored by (auto simp: keys_below_def)
  have ck: "chain_key c = Some ck" using st c(1) by (auto simp: reads_chain_def)
  have "yields (session_cipher_decrypt_from_state_and_signal_message ctx st ?m :: ('c, 's, _) M)
      (Some p, session_state_clear_unacknowledged_pre_key_message
         (with_chain st rk (\<lambda>c. c\<lparr>message_keys := dl_delete j (message_keys c)\<rparr>)))"
  proof (rule yields_decrypt_with_keys [OF laws wf_chain_message_keys [OF laws(1), of old]])
    show "yields (session_cipher_get_or_create_chain_key ctx st (sm_ratchet_key ?m) :: ('c, 's, _) M) (ck, st)"
      unfolding m by (rule yields_known_chain_key [OF c(1) ck])
    show "yields (session_cipher_get_or_create_message_keys ctx st (sm_ratchet_key ?m) ck (sm_counter ?m) :: ('c, 's, _) M)
        (?mk, with_chain st rk (\<lambda>c. c\<lparr>message_keys := dl_delete j (message_keys c)\<rparr>))"
      using yields_old_message_keys [OF old c(1) j(1)] unfolding m j(2) .
    show "?m = signal_message_of H (ucast (session_version st)) (mac_key ?mk) rk (ck_index old) pn
        (message_text E (ucast (ucast (session_version st) :: byte)) ?mk p) s r"
      by (simp add: chain_message_def Let_def wf(3))
  qed (use st m in \<open>auto simp: reads_chain_def\<close>)
  with j(1) show ?thesis by blast
qed

section \<open>Messages that are refused\<close>

lemma fails_decrypt:
  assumes "reads_chain st s r rk ck" and "ucast (sm_version m) = session_version st" and "sm_ratchet_key m = rk"
    and "fails (session_cipher_get_or_create_message_keys ctx st rk ck (sm_counter m) :: ('c, 's, _) M) e"
  shows "fails (session_cipher_decrypt_from_state_and_signal_message ctx st m :: ('c, 's, _) M) e"
proof -
  obtain c where c: "chain_of rk st = Some c" "chain_key c = Some ck" and sc: "has_sender_chain st"
    using assms(1) by (auto simp: reads_chain_def)
  show ?thesis
    unfolding session_cipher_decrypt_from_state_and_signal_message_def Let_def assms(3)
    by (rule fails_then_yields [OF yields_guardE [OF sc]], rule fails_then_yields [OF yields_guardE [OF assms(2)]],
        rule fails_bind_yields [OF yields_known_chain_key [OF c]], simp only: prod.case, rule fails_bindE [OF assms(4)])
qed

lemma fails_decrypt_mac:
  assumes laws: "hmac_laws ctx H" and st: "has_sender_chain st" "ucast (sm_version m) = session_version st"
    and ck: "yields (session_cipher_get_or_create_chain_key ctx st (sm_ratchet_key m) :: ('c, 's, _) M) (ck, st1)"
    and mk: "yields (session_cipher_get_or_create_message_keys ctx st1 (sm_ratchet_key m) ck (sm_counter m) :: ('c, 's, _) M)
      (mk, st2)"
    and id: "remote_identity_public st2 = Some s" "local_identity_public st2 = Some r"
    and m: "length (sm_serialized m) \<ge> 8" "drop (length (sm_serialized m) - 8) (sm_serialized m) \<noteq>
      message_mac H (sm_version m) s r (mac_key mk) (take (length (sm_serialized m) - 8) (sm_serialized m))"
  shows "fails (session_cipher_decrypt_from_state_and_signal_message ctx st m :: ('c, 's, _) M) SG_ERR_INVALID_MESSAGE"
proof -
  have mac: "yields (signal_message_verify_mac ctx m (Some s) (Some r) (mac_key mk) :: ('c, 's, _) M) False"
    using yields_verify_mac_iff [OF laws m(1), of s r "mac_key mk"] m(2) by simp
  show ?thesis
    unfolding session_cipher_decrypt_from_state_and_signal_message_def Let_def
    by (rule fails_then_yields [OF yields_guardE [OF st(1)]], rule fails_then_yields [OF yields_guardE [OF st(2)]],
        rule fails_bind_yields [OF ck], simp only: prod.case, rule fails_bind_yields [OF mk],
        simp only: prod.case id option.case, rule fails_bind_yields [OF mac],
        rule fails_thenE, rule fails_guardE, simp)
qed

end
