(* ===== verification/Double_Ratchet.thy ===== *)
theory Double_Ratchet
  imports Session_Cipher_Laws
begin

text \<open>
  The double ratchet as a protocol between two session states: the step that a state takes when it
  reads the first message of a new chain, the relation between the states of the two sides, and the
  conversations that start from an agreement of keys.
\<close>

section \<open>The step of the Diffie-Hellman ratchet\<close>

text \<open>The root key and the chain that a state computes for a ratchet key it has not seen.\<close>

definition turn_chain ::
    "(bytes \<Rightarrow> bytes \<Rightarrow> bytes) \<Rightarrow> (bytes \<Rightarrow> bytes \<Rightarrow> bytes) \<Rightarrow> session_state \<Rightarrow> ec_public_key
      \<Rightarrow> ratchet_root_key \<times> ratchet_chain_key" where
  "turn_chain H DH st rk = root_chain H (the (root_key st)) (DH (private_key (sending_key st)) rk)"

definition turned ::
    "(bytes \<Rightarrow> bytes \<Rightarrow> bytes) \<Rightarrow> (bytes \<Rightarrow> bytes \<Rightarrow> bytes) \<Rightarrow> session_state \<Rightarrow> ec_public_key \<Rightarrow> ec_key_pair
      \<Rightarrow> session_state" where
  "turned H DH st rk kp =
     (let (r1, c1) = turn_chain H DH st rk; (r2, c2) = root_chain H r1 (DH (private_key kp) rk);
          i = ck_index (sending_chain st)
      in st\<lparr>root_key := Some r2, previous_counter := (if i > 0 then i - 1 else i), has_sender_chain := True,
            sender_chain := \<lparr>sender_ratchet_key_pair = Some kp, sender_chain_key = Some c2\<rparr>,
            receiver_chains := dl_trim MAX_RECEIVER_CHAINS (receiver_chains st @
              [\<lparr>sender_ratchet_key = Some rk, chain_key = Some c1, message_keys = []\<rparr>])\<rparr>)"

lemma ensures_turn:
  fixes ctx :: "'c signal_context"
  assumes laws: "hmac_laws ctx H" "curve_laws ctx DH" "random_laws ctx"
    and st: "can_send st" "root_key st = Some root" and rk: "wf_key rk" "chain_of rk st = None"
  shows "ensures (session_cipher_get_or_create_chain_key ctx st rk :: ('c, 's, _) M)
    (\<lambda>(ck, st'). ck = snd (turn_chain H DH st rk) \<and> (\<exists>kp. key_pair_of DH kp \<and> st' = turned H DH st rk kp))"
proof -
  note f = can_send_facts [OF st(1)]
  obtain r1 c1 where t: "turn_chain H DH st rk = (r1, c1)" by force
  then have r1: "root_chain H root (DH (private_key (sending_key st)) rk) = (r1, c1)"
    by (simp add: turn_chain_def st(2))
  have wfr: "wf_root_key (session_version st) root" and v: "wf_version (session_version st)"
    using st by (auto simp: can_send_def wf_session_state_def)
  have kdf: "wf_kdf (rk_kdf root)" "wf_kdf (rk_kdf r1)"
    using wfr root_chain_wf(1) [OF laws(1) wfr r1] wf_kdf_of [OF v] by (simp_all add: wf_root_key_def)
  have pair: "session_state_get_sender_ratchet_key_pair st = Some (sending_key st)"
    using f(3) by (simp add: session_state_get_sender_ratchet_key_pair_def)
  have create: "yields (ratchet_root_key_create_chain ctx r1 (Some rk) (Some (private_key kp)) :: ('c, 's, _) M)
      (root_chain H r1 (DH (private_key kp) rk))" if "key_pair_of DH kp" for kp
    by (rule yields_create_chain [OF laws(1,2) kdf(2) rk(1)]) (simp add: key_pair_of_wf [OF laws(2) that])
  have add: "yields (session_state_add_receiver_chain (session_state_set_root_key st r2) rk c1 :: ('c, 's, _) M)
      (st\<lparr>root_key := Some r2, receiver_chains := dl_trim MAX_RECEIVER_CHAINS (receiver_chains st @
         [\<lparr>sender_ratchet_key = Some rk, chain_key = Some c1, message_keys = []\<rparr>])\<rparr>)" for r2
    unfolding session_state_add_receiver_chain_def session_state_set_root_key_def
    by (rule yields_thenE [OF yields_alloc], rule yields_cong [OF yields_returnE]) simp
  have prev: "session_state_get_sender_chain_key (st\<lparr>root_key := x, receiver_chains := y\<rparr>) = Some (sending_chain st)" for x y
    using f(1) by (simp add: session_state_get_sender_chain_key_def)
  show ?thesis
    unfolding session_cipher_get_or_create_chain_key_def get_receiver_chain_key_of rk(2) bind.simps option.case st(2) pair
    apply (rule ensures_bind_yields [OF yields_create_chain [OF laws(1,2) kdf(1) rk(1) f(5)]])
    apply (simp only: r1 prod.case, rule ensures_bindE [OF ensures_curve_generate_key_pair [OF laws(2,3)]])
    apply (rule ensures_bind_yields [OF create], assumption, simp only: case_prod_beta Let_def)
    apply (rule ensures_bind_yields [OF add], simp only: prev option.case, rule ensures_returnE)
    apply (auto simp: turned_def t Let_def case_prod_beta session_state_set_previous_counter_def
        session_state_set_sender_chain_def intro!: exI)
    done
qed

lemma turned_simps [simp]:
  "session_version (turned H DH st rk kp) = session_version st"
  "has_sender_chain (turned H DH st rk kp)"
  "local_identity_public (turned H DH st rk kp) = local_identity_public st"
  "remote_identity_public (turned H DH st rk kp) = remote_identity_public st"
  "sending_key (turned H DH st rk kp) = kp"
  "root_key (turned H DH st rk kp) = Some (fst (root_chain H (fst (turn_chain H DH st rk)) (DH (private_key kp) rk)))"
  "sending_chain (turned H DH st rk kp) = snd (root_chain H (fst (turn_chain H DH st rk)) (DH (private_key kp) rk))"
  by (simp_all add: turned_def Let_def case_prod_beta sending_key_def sending_chain_def)

lemma compare_same: "wf_key k \<Longrightarrow> ec_public_key_compare (Some k) (Some k) = 0"
  by (subst ec_public_key_compare_eq_0) auto

lemma chain_of_turned:
  assumes "wf_key rk" and "chain_of rk st = None"
  shows "chain_of rk (turned H DH st rk kp) =
    Some \<lparr>sender_ratchet_key = Some rk, chain_key = Some (snd (turn_chain H DH st rk)), message_keys = []\<rparr>"
proof -
  let ?P = "\<lambda>c. ec_public_key_compare (sender_ratchet_key c) (Some rk) = 0"
  let ?c = "\<lparr>sender_ratchet_key = Some rk, chain_key = Some (snd (turn_chain H DH st rk)), message_keys = []\<rparr>"
  have none: "\<forall>c \<in> set (drop k (receiver_chains st)). \<not> ?P c" for k
    using assms(2) by (auto simp: chain_of_def session_state_find_receiver_chain_def dl_search_None dest!: in_set_dropD)
  have trim: "receiver_chains (turned H DH st rk kp) = drop (length (receiver_chains st) - 4) (receiver_chains st) @ [?c]"
    by (simp add: turned_def Let_def case_prod_beta dl_trim_drop MAX_RECEIVER_CHAINS_def)
  have "session_state_find_receiver_chain (turned H DH st rk kp) rk =
      Some (length (drop (length (receiver_chains st) - 4) (receiver_chains st)))"
    using none by (auto simp: session_state_find_receiver_chain_def trim dl_search_append iffD2 [OF dl_search_None]
        compare_same [OF assms(1)] simp del: length_drop)
  then show ?thesis
    by (simp add: chain_of_def trim nth_append del: length_drop)
qed

lemma can_send_turned:
  assumes "hmac_laws ctx H" and "curve_laws ctx DH" and "can_send st" and "root_key st \<noteq> None"
    and "wf_key rk" and "key_pair_of DH kp"
  shows "can_send (turned H DH st rk kp)"
proof -
  obtain root where root: "root_key st = Some root" using assms(4) by auto
  obtain r1 c1 where t: "turn_chain H DH st rk = (r1, c1)" by force
  obtain r2 c2 where r2: "root_chain H r1 (DH (private_key kp) rk) = (r2, c2)" by force
  have wfr: "wf_root_key (session_version st) root"
    using assms(3) root by (auto simp: can_send_def wf_session_state_def)
  note w1 = root_chain_wf [OF assms(1) wfr] 
  have "wf_root_key (session_version st) r1" "wf_chain_key (session_version st) c1"
    using w1 t by (auto simp: turn_chain_def root)
  moreover from this have "wf_root_key (session_version st) r2" "wf_chain_key (session_version st) c2"
    using root_chain_wf [OF assms(1) _ r2] by auto
  ultimately show ?thesis
    using assms(3,5) key_pair_of_wf [OF assms(2,6)]
    by (auto simp: can_send_def turned_def t r2 Let_def wf_session_state_def wf_sender_chain_def wf_pair_def
        wf_receiver_chain_def intro!: list_all_dl_trim)
qed

lemma reads_chain_turned:
  assumes "can_send (turned H DH st rk kp)" and "wf_key rk" and "chain_of rk st = None"
    and "remote_identity_public st = Some s" and "local_identity_public st = Some r"
  shows "reads_chain (turned H DH st rk kp) s r rk (snd (turn_chain H DH st rk))"
  using assms by (auto simp: reads_chain_def can_send_def chain_of_turned)

text \<open>Reading the message at position \<open>d\<close> of a new chain.\<close>

lemma ensures_decrypt_turn:
  fixes ctx :: "'c signal_context"
  assumes laws: "hmac_laws ctx H" "cipher_laws ctx E" "curve_laws ctx DH" "random_laws ctx"
    and st: "can_send st" "root_key st \<noteq> None" "remote_identity_public st = Some s" "local_identity_public st = Some r"
    and rk: "wf_key rk" "chain_of rk st = None" and c1: "c1 = snd (turn_chain H DH st rk)" and d: "d \<le> 2000"
  shows "ensures (session_cipher_decrypt_from_state_and_signal_message ctx st
      (chain_message H E (session_version st) s r rk pn (chain_step H c1 d) p) :: ('c, 's, _) M)
    (\<lambda>(t, st'). t = Some p \<and> (\<exists>kp. key_pair_of DH kp \<and> st' = after_read H (turned H DH st rk kp) rk c1 d))"
proof -
  let ?m = "chain_message H E (session_version st) s r rk pn (chain_step H c1 d) p"
  let ?Q = "\<lambda>ck st'. ck = c1 \<and> (\<exists>kp. key_pair_of DH kp \<and> st' = turned H DH st rk kp)"
  have i: "ck_index c1 = 0" by (simp add: c1 turn_chain_def root_chain_def Let_def)
  have v: "ucast (ucast (session_version st) :: byte) = session_version st"
    using can_send_facts(12) [OF st(1)] by (rule ucast_version)
  have m: "sm_ratchet_key ?m = rk" "sm_counter ?m = of_nat d" "ucast (sm_version ?m) = session_version st"
    using i v by (simp_all add: chain_message_def signal_message_of_def Let_def)
  have n: "unat (ck_index c1) + d = unat (of_nat d :: 32 word)"
    using d by (simp add: i unat_of_nat)
  have Q: "reads_chain st' s r rk c1 \<and> session_version st' = session_version st" if "?Q ck st'" for ck st'
    using that can_send_turned [OF laws(1,3) st(1,2) rk(1)] reads_chain_turned [OF _ rk st(3,4)] c1 by auto
  show ?thesis
  proof (rule ensures_mono [OF ensures_decrypt_with_keys [where Q = ?Q and
        ?st2.0 = "\<lambda>ck st'. with_chain st' rk (read_chain H c1 d)", OF laws(1,2) wf_chain_message_keys [OF laws(1)]]])
    show "ensures (session_cipher_get_or_create_chain_key ctx st (sm_ratchet_key ?m) :: ('c, 's, _) M) (\<lambda>(ck, st1). ?Q ck st1)"
      unfolding m unfolding c1 using ensures_turn [OF laws(1,3,4) st(1) _ rk] st(2) by auto
    show "yields (session_cipher_get_or_create_message_keys ctx st1 (sm_ratchet_key ?m) ck (sm_counter ?m) :: ('c, 's, _) M)
        (chain_message_keys H (chain_step H c1 d), with_chain st1 rk (read_chain H c1 d))" if "?Q ck st1" for ck st1
    proof -
      note w = Q [OF that]
      have "wf_session_state st1" "chain_of rk st1 \<noteq> None" using w by (auto simp: reads_chain_def)
      then show ?thesis
        using yields_new_message_keys [OF laws(1) reads_chain_wf(2) _ _ n d] w that by (fastforce simp: m)
    qed
    show "remote_identity_public (with_chain st1 rk (read_chain H c1 d)) = Some s \<and>
        local_identity_public (with_chain st1 rk (read_chain H c1 d)) = Some r" if "?Q ck st1" for ck st1
      using Q [OF that] by (simp add: reads_chain_def)
    show "?m = signal_message_of H (ucast (session_version st)) (mac_key (chain_message_keys H (chain_step H c1 d))) rk
        (ck_index (chain_step H c1 d)) pn (message_text E (ucast (ucast (session_version st) :: byte))
          (chain_message_keys H (chain_step H c1 d)) p) s r"
      by (simp add: chain_message_def Let_def v)
  qed (use st m in \<open>auto simp: can_send_def after_read_def\<close>)
qed

section \<open>The states of the two sides\<close>

text \<open>
  The reader \<open>b\<close> follows the writer \<open>a\<close>, of whose current chain it has not seen the last \<open>i\<close> messages:
  either it holds a key of the chain, or it does not know the ratchet key and the next step of its
  Diffie-Hellman ratchet gives the root key of the writer and the start of the chain.
\<close>

definition follows ::
    "(bytes \<Rightarrow> bytes \<Rightarrow> bytes) \<Rightarrow> (bytes \<Rightarrow> bytes \<Rightarrow> bytes) \<Rightarrow> session_state \<Rightarrow> nat \<Rightarrow> session_state \<Rightarrow> bool" where
  "follows H DH a i b =
     (can_send a \<and> can_send b \<and> root_key a \<noteq> None \<and> root_key b \<noteq> None \<and> key_pair_of DH (sending_key a) \<and>
      session_version a = session_version b \<and> local_identity_public a = remote_identity_public b \<and>
      remote_identity_public a = local_identity_public b \<and>
      (\<exists>ck. sending_chain a = chain_step H ck i \<and> unat (ck_index ck) + i < 2 ^ 32 \<and>
        (case chain_of (public_key (sending_key a)) b of
           None \<Rightarrow> turn_chain H DH b (public_key (sending_key a)) = (the (root_key a), ck)
         | Some c \<Rightarrow> chain_key c = Some ck)))"

lemma sent_state_simps [simp]:
  "session_version (sent_state H st) = session_version st"
  "local_identity_public (sent_state H st) = local_identity_public st"
  "remote_identity_public (sent_state H st) = remote_identity_public st"
  "root_key (sent_state H st) = root_key st"
  "sending_key (sent_state H st) = sending_key st"
  "sending_chain (sent_state H st) = chain_next H (sending_chain st)"
  "chain_of rk (sent_state H st) = chain_of rk st"
  "turn_chain H' DH (sent_state H st) rk = turn_chain H' DH st rk"
  by (simp_all add: sent_state_def sending_key_def sending_chain_def chain_of_def turn_chain_def
      session_state_find_receiver_chain_def)

lemma after_read_state [simp]:
  "local_identity_public (after_read H st rk ck d) = local_identity_public st"
  "remote_identity_public (after_read H st rk ck d) = remote_identity_public st"
  "root_key (after_read H st rk ck d) = root_key st"
  "sending_key (after_read H st rk ck d) = sending_key st"
  "sending_chain (after_read H st rk ck d) = sending_chain st"
  by (simp_all add: after_read_def sending_key_def sending_chain_def)

lemma can_send_after_read:
  assumes "hmac_laws ctx H" and "can_send st" and "reads_chain st s r rk ck"
  shows "can_send (after_read H st rk ck d)"
  using reads_chain_after_read [OF assms(1,3), of d] assms(2)
  by (auto simp: can_send_def reads_chain_def after_read_def session_state_clear_unacknowledged_pre_key_message_def)

lemma follows_sent:
  assumes "hmac_laws ctx H" and "follows H DH a i b" and "unat (ck_index (sending_chain a)) + 1 < 2 ^ 32"
  shows "follows H DH (sent_state H a) (Suc i) b"
proof -
  obtain ck where ck: "sending_chain a = chain_step H ck i" "unat (ck_index ck) + i < 2 ^ 32"
      "case chain_of (public_key (sending_key a)) b of
         None \<Rightarrow> turn_chain H DH b (public_key (sending_key a)) = (the (root_key a), ck) | Some c \<Rightarrow> chain_key c = Some ck"
    using assms(2) by (auto simp: follows_def)
  then have "unat (ck_index (sending_chain a)) = unat (ck_index ck) + i" by (simp add: unat_index_add)
  then show ?thesis
    using assms ck can_send_sent_state [OF assms(1)]
    by (auto simp: follows_def chain_step_Suc intro!: exI [of _ ck] cong: option.case_cong)
qed

lemma follows_reader_sent: "hmac_laws ctx H \<Longrightarrow> follows H DH b j a \<Longrightarrow> follows H DH b j (sent_state H a)"
  using can_send_sent_state [of ctx H a] by (auto simp: follows_def cong: option.case_cong)

lemma follows_seen:
  assumes "hmac_laws ctx H" and "follows H DH a i b" and "can_send b'" and "root_key b' \<noteq> None"
    and "session_version b' = session_version b" and "local_identity_public b' = local_identity_public b"
    and "remote_identity_public b' = remote_identity_public b"
    and "sending_chain a = chain_step H ck i"
    and "chain_of (public_key (sending_key a)) b' = Some c" and "chain_key c = Some ck"
  shows "follows H DH (sent_state H a) 0 (after_read H b' (public_key (sending_key a)) ck i)"
proof -
  let ?rk = "public_key (sending_key a)"
  have r: "reads_chain b' (the (remote_identity_public b)) (the (local_identity_public b)) ?rk ck"
    using assms by (auto simp: reads_chain_def can_send_def)
  have "can_send (after_read H b' ?rk ck i)" by (rule can_send_after_read [OF assms(1,3) r])
  moreover have "can_send (sent_state H a)" using assms(1,2) by (auto simp: follows_def intro: can_send_sent_state)
  moreover have "unat x < 2 ^ 32" for x :: "32 word" using unsigned_less [of x] by simp
  ultimately show ?thesis
    using assms by (auto simp: follows_def chain_step_Suc intro!: exI [of _ "chain_step H ck (Suc i)"])
qed

lemma follows_back:
  assumes "hmac_laws ctx H" and "follows H DH b j a" and "can_send (after_read H b rk ck i)"
  shows "follows H DH (after_read H b rk ck i) j (sent_state H a)"
  using follows_reader_sent [OF assms(1,2)] assms(3) by (simp add: follows_def cong: option.case_cong)

lemma follows_turned:
  assumes laws: "hmac_laws ctx H" "curve_laws ctx DH" and "follows H DH a i b" and new: "chain_of (public_key (sending_key a)) b = None"
    and b': "b' = after_read H (turned H DH b (public_key (sending_key a)) kp) (public_key (sending_key a)) ck i" "can_send b'"
    and "key_pair_of DH kp" and "chain_of (public_key kp) a = None"
  shows "follows H DH b' 0 (sent_state H a)"
proof -
  let ?rk = "public_key (sending_key a)"
  have f: "key_pair_of DH (sending_key a)" "fst (turn_chain H DH b ?rk) = the (root_key a)"
    using assms by (auto simp: follows_def)
  have "turn_chain H DH a (public_key kp) =
      root_chain H (fst (turn_chain H DH b ?rk)) (DH (private_key kp) ?rk)"
    unfolding turn_chain_def [of H DH a] f(2) agreement_symmetric [OF laws(2) f(1) assms(7)] ..
  moreover have "can_send (sent_state H a)" using assms by (auto simp: follows_def intro: can_send_sent_state)
  moreover have "ck_index (snd (root_chain H r x)) = 0" for r x by (simp add: root_chain_def Let_def)
  ultimately show ?thesis using assms by (auto simp: follows_def intro!: exI)
qed

text \<open>Reading the next message of the writer.\<close>

lemma ensures_read_next:
  fixes ctx :: "'c signal_context"
  assumes laws: "hmac_laws ctx H" "cipher_laws ctx E" "curve_laws ctx DH" "random_laws ctx"
    and f: "follows H DH a i b" "follows H DH b j a" and i: "i \<le> 2000"
  shows "ensures (session_cipher_decrypt_from_state_and_signal_message ctx b (sent_message H E a p) :: ('c, 's, _) M)
    (\<lambda>(t, b'). t = Some p \<and> follows H DH (sent_state H a) 0 b' \<and>
      (chain_of (public_key (sending_key a)) b \<noteq> None \<longrightarrow> follows H DH b' j (sent_state H a)) \<and>
      (chain_of (public_key (sending_key a)) b = None \<longrightarrow> chain_of (public_key (sending_key b')) a = None \<longrightarrow>
        follows H DH b' 0 (sent_state H a)))"
proof -
  let ?rk = "public_key (sending_key a)"
  obtain s r where id: "remote_identity_public b = Some s" "local_identity_public b = Some r"
    using f(1) by (auto simp: follows_def can_send_def)
  have st: "can_send a" "can_send b" "root_key b \<noteq> None" using f(1) by (auto simp: follows_def)
  have rk: "wf_key ?rk" by (rule can_send_facts(4) [OF st(1)])
  obtain ck where ck: "sending_chain a = chain_step H ck i" "unat (ck_index ck) + i < 2 ^ 32"
      "case chain_of ?rk b of None \<Rightarrow> turn_chain H DH b ?rk = (the (root_key a), ck) | Some c \<Rightarrow> chain_key c = Some ck"
    using f(1) by (auto simp: follows_def)
  have m: "sent_message H E a p = chain_message H E (session_version b) s r ?rk (previous_counter a) (chain_step H ck i) p"
    using f(1) id by (simp add: sent_message_def follows_def ck(1))
  show ?thesis
  proof (cases "chain_of ?rk b")
    case (Some c)
    then have reads: "reads_chain b s r ?rk ck" using st id ck(3) by (auto simp: reads_chain_def can_send_def)
    have "follows H DH (sent_state H a) 0 (after_read H b ?rk ck i)"
      by (rule follows_seen [OF laws(1) f(1) st(2,3) _ _ _ ck(1) Some]) (use Some ck(3) in auto)
    moreover have "follows H DH (after_read H b ?rk ck i) j (sent_state H a)"
      by (rule follows_back [OF laws(1) f(2) can_send_after_read [OF laws(1) st(2) reads]])
    ultimately show ?thesis
      unfolding m by (rule_tac ensures_yields [OF yields_decrypt_next [OF laws(1,2) reads i ck(2)]])
        (simp add: Some flip: after_read_def)
  next
    case None
    then have c1: "ck = snd (turn_chain H DH b ?rk)" using ck(3) by simp
    have *: "follows H DH (sent_state H a) 0 (after_read H (turned H DH b ?rk kp) ?rk ck i) \<and>
        can_send (after_read H (turned H DH b ?rk kp) ?rk ck i)" if "key_pair_of DH kp" for kp
    proof -
      have send: "can_send (turned H DH b ?rk kp)" by (rule can_send_turned [OF laws(1,3) st(2,3) rk that])
      have "follows H DH (sent_state H a) 0 (after_read H (turned H DH b ?rk kp) ?rk ck i)"
        by (rule follows_seen [OF laws(1) f(1) send _ _ _ _ ck(1) chain_of_turned [OF rk None]]) (simp_all add: c1)
      then show ?thesis by (simp add: follows_def)
    qed
    show ?thesis
      unfolding m
      by (rule ensures_mono [OF ensures_decrypt_turn [OF laws st(2,3) id rk None c1 i]])
        (use * None in \<open>auto intro: follows_turned [OF laws(1,3) f(1) None refl]\<close>)
  qed
qed

section \<open>Agreement of keys\<close>

lemma follows_alice:
  assumes laws: "hmac_laws ctx H" "curve_laws ctx DH" and m: "matching DH pa pb" and kp: "key_pair_of DH kp"
    and a: "a = alice_session H DH empty_session_state pa kp" and b: "b = bob_session H DH empty_session_state pb"
  shows "follows H DH a 0 b" and "follows H DH b 0 a"
proof -
  have wf: "wf_session_state a" "wf_session_state b"
    unfolding a b using wf_alice_session [OF laws] wf_bob_session [OF laws(1)] matching_wf [OF laws(2) m] kp by blast+
  obtain root chain where d: "derived_keys H (x3dh_secret DH (bob_agreements pb)) = (root, chain)" by force
  note d' = d [folded x3dh_agree [OF laws(2) m]]
  let ?spk = "bob_our_signed_pre_key pb"
  obtain r c where rc: "root_chain H root (DH (private_key kp) (public_key ?spk)) = (r, c)" by force
  have sym: "DH (private_key ?spk) (public_key kp) = DH (private_key kp) (public_key ?spk)"
    and spk: "key_pair_of DH ?spk"
    using m kp agreement_symmetric [OF laws(2)] by (auto simp: matching_def)
  have key: "wf_key (public_key ?spk)" using key_pair_of_wf [OF laws(2) spk] by simp
  have i: "ck_index c = 0" "ck_index chain = 0"
    using rc d by (auto simp: root_chain_def derived_keys_def Let_def)
  have chain_a: "chain_of (public_key ?spk) a =
      Some \<lparr>sender_ratchet_key = Some (public_key ?spk), chain_key = Some chain, message_keys = []\<rparr>"
    using m key by (simp add: a alice_session_def d' rc matching_def chain_of_def session_state_find_receiver_chain_def
        empty_session_state_def dl_trim_short MAX_RECEIVER_CHAINS_def compare_same)
  have fields: "sending_key a = kp" "sending_chain a = c" "root_key a = Some r" "can_send a"
      "sending_key b = ?spk" "sending_chain b = chain" "root_key b = Some root" "can_send b"
    using wf m
    by (auto simp: a b alice_session_def bob_session_def d d' rc matching_def sending_key_def sending_chain_def can_send_def
        empty_session_state_def)
  have chain_b: "chain_of k b = None" for k
    by (simp add: b bob_session_def d chain_of_def session_state_find_receiver_chain_def empty_session_state_def)
  have ids: "session_version a = session_version b" "local_identity_public a = remote_identity_public b"
      "remote_identity_public a = local_identity_public b"
    using m by (auto simp: a b alice_session_def bob_session_def d d' rc matching_def case_prod_beta)
  show "follows H DH a 0 b"
    using kp by (auto simp: follows_def fields ids chain_b i turn_chain_def sym rc intro!: exI [of _ c])
  show "follows H DH b 0 a"
    using spk by (auto simp: follows_def fields ids chain_a i intro!: exI [of _ chain])
qed

section \<open>Conversations\<close>

text \<open>
  A conversation of two sessions. The states, the numbers of messages of their current chains that the
  other side has not seen, and the world change by running the code: the agreement of keys, the
  recording of what the session builder adds to a new state, sending a message that the other side
  does not get yet, and sending one that it reads. A new ratchet key is fresh for the other side.
\<close>

fun message_body :: "ciphertext_message \<Rightarrow> signal_message option" where
  "message_body (Signal_Message m) = Some m"
| "message_body (Pre_Key_Signal_Message m) = Some (pkm_message m)"
| "message_body _ = None"

inductive conversation ::
    "'c signal_context \<Rightarrow> (bytes \<Rightarrow> bytes \<Rightarrow> bytes) \<Rightarrow> session_state \<Rightarrow> nat \<Rightarrow> session_state \<Rightarrow> nat \<Rightarrow> ('c, 's) world \<Rightarrow> bool"
  for ctx DH where
  start: "matching DH pa pb \<Longrightarrow> allocs w = [] \<Longrightarrow>
    ratcheting_session_alice_initialize ctx empty_session_state pa w = (Ok a, w') \<Longrightarrow>
    ratcheting_session_bob_initialize ctx empty_session_state pb w' = (Ok b, w'') \<Longrightarrow>
    conversation ctx DH a 0 b 0 w''"
| pending: "conversation ctx DH a i b j w \<Longrightarrow> session_version a = 3 \<Longrightarrow> wf_key base \<Longrightarrow>
    conversation ctx DH (session_state_set_unacknowledged_pre_key_message a pid sid base) i b j w"
| registered: "conversation ctx DH a i b j w \<Longrightarrow> wf_key base \<Longrightarrow>
    conversation ctx DH (session_state_set_alice_base_key
      (session_state_set_remote_registration_id (session_state_set_local_registration_id a l) r) base) i b j w"
| swap: "conversation ctx DH a i b j w \<Longrightarrow> conversation ctx DH b j a i w"
| unseen: "conversation ctx DH a i b j w \<Longrightarrow> length p \<le> 2 ^ 24 - 16 \<Longrightarrow> i < 2000 \<Longrightarrow>
    session_state_get_sender_chain_key a = Some ck \<Longrightarrow> unat (ck_index ck) + 1 < 2 ^ 32 \<Longrightarrow>
    encrypt_on_state ctx a p w = (Ok (e, a'), w') \<Longrightarrow>
    conversation ctx DH a' (i + 1) b j w'"
| seen: "conversation ctx DH a i b j w \<Longrightarrow> length p \<le> 2 ^ 24 - 16 \<Longrightarrow>
    encrypt_on_state ctx a p w = (Ok (e, a'), w') \<Longrightarrow> message_body e = Some m \<Longrightarrow>
    session_cipher_decrypt_from_state_and_signal_message ctx b m w' = (Ok (t, b'), w'') \<Longrightarrow>
    j' = (if session_state_find_receiver_chain b (sm_ratchet_key m) = None then 0 else j) \<Longrightarrow>
    (session_state_find_receiver_chain b (sm_ratchet_key m) = None \<longrightarrow>
      session_state_find_receiver_chain a (public_key (sending_key b')) = None) \<Longrightarrow>
    conversation ctx DH a' 0 b' j' w''"

lemma message_body_sent: "message_body (sent_envelope H E st p) = Some (sent_message H E st p)"
  by (simp add: sent_envelope_def pre_key_message_of_def Let_def)

lemma chain_of_None: "(chain_of k st = None) = (session_state_find_receiver_chain st k = None)"
  by (simp add: chain_of_def)

lemma follows_same:
  assumes "follows H DH a i b" and "follows H DH b j a" and "can_send a'"
    and "session_version a' = session_version a" and "sender_chain a' = sender_chain a" and "root_key a' = root_key a"
    and "local_identity_public a' = local_identity_public a" and "remote_identity_public a' = remote_identity_public a"
    and "receiver_chains a' = receiver_chains a"
  shows "follows H DH a' i b \<and> follows H DH b j a'"
  using assms
  by (auto simp: follows_def sending_key_def sending_chain_def chain_of_def turn_chain_def
      session_state_find_receiver_chain_def cong: option.case_cong)

lemma conversation_follows:
  assumes laws: "hmac_laws ctx H" "cipher_laws ctx E" "curve_laws ctx DH" "random_laws ctx"
    and "conversation ctx DH a i b j w"
  shows "follows H DH a i b \<and> follows H DH b j a \<and> i \<le> 2000 \<and> j \<le> 2000 \<and> allocs w = []"
  using assms(5)
proof (induction rule: conversation.induct)
  case (start pa pb w a w' b w'')
  note wf = matching_wf [OF laws(3) start(1)]
  obtain kp where a: "key_pair_of DH kp" "a = alice_session H DH empty_session_state pa kp" "allocs w' = []"
    by (rule ensuresE [OF ensures_alice_initialize [OF laws(1,3,4) wf(1), of empty_session_state] start(2)]) (use start(3) in auto)
  have b: "b = bob_session H DH empty_session_state pb" "allocs w'' = []"
    by (rule yieldsE [OF yields_bob_initialize [OF laws(1,3) wf(2), of empty_session_state] a(3)], use start(4) in auto)+
  show ?case using follows_alice [OF laws(1,3) start(1) a(1,2) b(1)] b(2) by simp
next
  case (pending a i b j w base pid sid)
  then have "can_send a" by (simp add: follows_def)
  then have "can_send (session_state_set_unacknowledged_pre_key_message a pid sid base)"
    using pending wf_session_setters(6) [of a base pid sid]
    by (auto simp: can_send_def session_state_set_unacknowledged_pre_key_message_def)
  then show ?case
    using pending follows_same [of H DH a i b j] by (simp add: session_state_set_unacknowledged_pre_key_message_def)
next
  case (registered a i b j w base l r)
  then have "can_send a" by (simp add: follows_def)
  then have "can_send (session_state_set_alice_base_key
      (session_state_set_remote_registration_id (session_state_set_local_registration_id a l) r) base)"
    using registered(2) wf_session_setters(5) [OF wf_session_setters(9) [OF wf_session_setters(10)], of a base l r]
    by (auto simp: can_send_def session_state_set_alice_base_key_def session_state_set_remote_registration_id_def
        session_state_set_local_registration_id_def)
  then show ?case
    using registered follows_same [of H DH a i b j]
    by (simp add: session_state_set_alice_base_key_def session_state_set_remote_registration_id_def
        session_state_set_local_registration_id_def)
next
  case (unseen a i b j w p ck e a' w')
  then have send: "can_send a" by (simp add: follows_def)
  have "(e, a') = (sent_envelope H E a p, sent_state H a) \<and> allocs w' = []"
    by (rule yieldsE [OF yields_encrypt_on_state [OF laws(1,2) send unseen(2)]]) (use unseen in auto)
  then show ?case
    using unseen can_send_facts(1) [OF send] follows_sent [OF laws(1)] follows_reader_sent [OF laws(1)] by auto
next
  case (seen a i b j w p e a' w' m t b' w'' j')
  then have send: "can_send a" by (simp add: follows_def)
  have e: "e = sent_envelope H E a p" "a' = sent_state H a" "allocs w' = []"
    by (rule yieldsE [OF yields_encrypt_on_state [OF laws(1,2) send seen(2)]]; use seen in auto)+
  then have m: "m = sent_message H E a p" using seen(4) by (simp add: message_body_sent)
  have rk: "sm_ratchet_key m = public_key (sending_key a)"
    by (simp add: m sent_message_def chain_message_def signal_message_of_def Let_def)
  have f: "follows H DH a i b" "follows H DH b j a" "i \<le> 2000" using seen by simp_all
  show ?case
    by (rule ensuresE [OF ensures_read_next [OF laws f, of p] e(3)])
       (use seen in \<open>auto simp: e(2) m rk [unfolded m] chain_of_None\<close>)
qed simp

text \<open>What one side writes, the other side reads.\<close>

lemma conversation_reads:
  assumes laws: "hmac_laws ctx H" "cipher_laws ctx E" "curve_laws ctx DH" "random_laws ctx"
    and c: "conversation ctx DH a i b j w" and p: "length p \<le> 2 ^ 24 - 16"
  shows "\<exists>e a' w' m b' w''. encrypt_on_state ctx a p w = (Ok (e, a'), w') \<and> message_body e = Some m \<and>
    session_cipher_decrypt_from_state_and_signal_message ctx b m w' = (Ok (Some p, b'), w'')"
proof -
  have f: "follows H DH a i b" "follows H DH b j a" "i \<le> 2000" "allocs w = []"
    using conversation_follows [OF laws c] by auto
  then have "can_send a" by (simp add: follows_def)
  from yields_encrypt_on_state [OF laws(1,2) this p] f(4)
  obtain w' where w': "encrypt_on_state ctx a p w = (Ok (sent_envelope H E a p, sent_state H a), w')" "allocs w' = []"
    by (rule yieldsE)
  from ensures_read_next [OF laws f(1-3)] w'(2) show ?thesis
    by (rule ensuresE) (use w'(1) in \<open>auto simp: message_body_sent\<close>)
qed

end
