(* ===== verification/Store_Laws.thy ===== *)
theory Store_Laws
  imports Stores
begin

text \<open>
  The contract of the data stores: what signal\_protocol.h documents of the callbacks, as the locale
  \<open>protocol_store\<close>, and what the library's typed access to the stores then does.  The application's data
  is seen through a view that has the serialised objects by their keys.
\<close>

section \<open>Callbacks that serve a view\<close>

record ('k, 'n) store_view =
  sv_sessions :: "'k \<rightharpoonup> bytes"
  sv_pre_keys :: "32 word \<rightharpoonup> bytes"
  sv_signed_pre_keys :: "32 word \<rightharpoonup> bytes"
  sv_identities :: "'n \<rightharpoonup> bytes"
  sv_identity_pair :: "bytes \<times> bytes"
  sv_registration_id :: "32 word"

definition at_view :: "('s \<Rightarrow> bool) \<Rightarrow> ('s \<Rightarrow> 'v) \<Rightarrow> 'v \<Rightarrow> 's \<Rightarrow> bool" where
  "at_view ready view v s = (ready s \<and> view s = v)"

text \<open>The callback is set; on ready data it returns \<open>r\<close> of the view and changes the view by \<open>u\<close>.\<close>

definition serves ::
    "('s \<Rightarrow> bool) \<Rightarrow> ('s \<Rightarrow> 'v) \<Rightarrow> 'f option \<Rightarrow> ('f \<Rightarrow> 's \<Rightarrow> 'a \<times> 's) \<Rightarrow> ('v \<Rightarrow> 'a) \<Rightarrow> ('v \<Rightarrow> 'v) \<Rightarrow> bool" where
  "serves ready view func app r u =
     (\<exists>f. func = Some f \<and> (\<forall>s. ready s \<longrightarrow>
        fst (app f s) = r (view s) \<and> ready (snd (app f s)) \<and> view (snd (app f s)) = u (view s)))"

lemma hoare_serves:
  assumes "serves ready view func app r u"
  shows "hoare (at_view ready view v) (store_call func app) (\<lambda>x s. x = r v \<and> at_view ready view (u v) s)"
  using assms by (auto simp: serves_def at_view_def intro!: hoare_store_call)

lemma hoare_serves_status:
  assumes "serves ready view func app r u" and "0 \<le> r v"
  shows "hoare (at_view ready view v) (status_call func app) (\<lambda>x s. x = r v \<and> at_view ready view (u v) s)"
  using assms by (auto simp: serves_def at_view_def intro!: hoare_status_call)

lemma hoare_bind_at: "hoare P m (\<lambda>x s. x = y \<and> P' s) \<Longrightarrow> hoare P' (f y) Q \<Longrightarrow> hoare P (bindE m f) Q"
  by (erule hoare_bindE) (auto simp: hoare_def)

lemma hoare_then_at: "hoare P m (\<lambda>x s. x = y \<and> P' s) \<Longrightarrow> hoare P' k Q \<Longrightarrow> hoare P (thenE m k) Q"
  unfolding thenE_def by (rule hoare_bind_at)

lemma hoare_guardE: "c \<Longrightarrow> hoare P k Q \<Longrightarrow> hoare P (thenE (guardE c e) k) Q"
  by (rule hoare_then_yields [OF yields_guardE])

lemma hoare_return_at: "hoare P (returnE x) (\<lambda>y s. y = x \<and> P s)"
  by (rule hoare_returnE) simp

text \<open>A program that reports an error and leaves the condition on the data true.\<close>

definition rejects :: "('s \<Rightarrow> bool) \<Rightarrow> ('c, 's, 'a) M \<Rightarrow> int \<Rightarrow> ('s \<Rightarrow> bool) \<Rightarrow> bool" where
  "rejects P m e Q = (\<forall>w. allocs w = [] \<longrightarrow> P (store_data w) \<longrightarrow>
     (\<exists>w'. m w = (Err e, w') \<and> allocs w' = [] \<and> Q (store_data w')))"

lemma rejects_fails: "fails m e \<Longrightarrow> rejects P m e P"
  unfolding fails_def rejects_def by metis

lemma rejects_bindE: "rejects P m e Q \<Longrightarrow> rejects P (bindE m f) e Q"
  by (fastforce simp: rejects_def bindE_def)

lemma rejects_thenE: "rejects P m e Q \<Longrightarrow> rejects P (thenE m k) e Q"
  unfolding thenE_def by (rule rejects_bindE)

lemma rejects_bind_at:
  fixes m :: "('c, 's, 'a) M"
  assumes "hoare P m (\<lambda>x s. x = y \<and> P' s)" and "rejects P' (f y) e Q"
  shows "rejects P (bindE m f) e Q"
  unfolding rejects_def
proof (intro allI impI)
  fix w :: "('c, 's) world"
  assume "allocs w = []" "P (store_data w)"
  then have "wp m (\<lambda>x w'. allocs w' = [] \<and> x = y \<and> P' (store_data w')) w"
    using assms(1) by (auto simp: hoare_def)
  then show "\<exists>w'. bindE m f w = (Err e, w') \<and> allocs w' = [] \<and> Q (store_data w')"
    using assms(2) by (auto simp: wp_def rejects_def bindE_def split: res.splits prod.splits)
qed

lemma rejects_then_at: "hoare P m (\<lambda>x s. x = y \<and> P' s) \<Longrightarrow> rejects P' k e Q \<Longrightarrow> rejects P (thenE m k) e Q"
  unfolding thenE_def by (rule rejects_bind_at)

lemma rejects_tryE: "rejects P m e Q \<Longrightarrow> h e = failE e' \<Longrightarrow> rejects P (tryE m h f) e' Q"
  by (fastforce simp: rejects_def tryE_def failE_def)

lemma rejects_guardE: "\<not> c \<Longrightarrow> rejects P (thenE (guardE c e) k) e P"
  by (rule rejects_thenE [OF rejects_fails [OF fails_guardE]])

lemma hoare_statusE: "0 \<le> r \<Longrightarrow> hoare P k Q \<Longrightarrow> hoare P (thenE (statusE r) k) Q"
  by (rule hoare_then_yields [where y = "()"]) (simp add: statusE_def yields_returnE)

lemma rejects_statusE: "r < 0 \<Longrightarrow> rejects P (thenE (statusE r) k) r P"
  by (rule rejects_thenE [OF rejects_fails]) (simp add: statusE_def fails_failE)

section \<open>The contract\<close>

definition fresh_record :: session_record where
  "fresh_record = \<lparr>record_state = Some empty_session_state, previous_states = [], is_fresh = True\<rparr>"

lemma yields_fresh_record: "yields (session_record_create None) fresh_record"
  unfolding session_record_create_def session_state_create_def option.case fresh_record_def
  by (intro yields_thenE [OF yields_alloc], rule yields_bindE, rule yields_thenE [OF yields_alloc yields_returnE],
      rule yields_returnE)

locale protocol_store =
  fixes store :: "'s signal_protocol_store_context"
    and ready :: "'s \<Rightarrow> bool"
    and view :: "'s \<Rightarrow> ('k, 'n) store_view"
    and session_key :: "signal_protocol_address \<Rightarrow> 'k"
    and identity_key :: "signal_protocol_address \<Rightarrow> 'n"
  assumes load_session: "serves ready view (load_session_func store) (\<lambda>f. f a)
        (\<lambda>v. case sv_sessions v (session_key a) of None \<Rightarrow> (0, None) | Some d \<Rightarrow> (1, Some d)) id"
    and store_session: "serves ready view (store_session_func store) (\<lambda>f. f a d)
        (\<lambda>_. 0) (\<lambda>v. v\<lparr>sv_sessions := (sv_sessions v)(session_key a \<mapsto> d)\<rparr>)"
    and contains_session: "serves ready view (contains_session_func store) (\<lambda>f. f a)
        (\<lambda>v. if sv_sessions v (session_key a) = None then 0 else 1) id"
    and delete_session: "serves ready view (delete_session_func store) (\<lambda>f. f a)
        (\<lambda>v. if sv_sessions v (session_key a) = None then 0 else 1)
        (\<lambda>v. v\<lparr>sv_sessions := (sv_sessions v)(session_key a := None)\<rparr>)"
    and load_pre_key_law: "serves ready view (load_pre_key store) (\<lambda>f. f i)
        (\<lambda>v. case sv_pre_keys v i of None \<Rightarrow> (SG_ERR_INVALID_KEY_ID, None) | Some d \<Rightarrow> (0, Some d)) id"
    and store_pre_key_law: "serves ready view (store_pre_key store) (\<lambda>f. f i d)
        (\<lambda>_. 0) (\<lambda>v. v\<lparr>sv_pre_keys := (sv_pre_keys v)(i \<mapsto> d)\<rparr>)"
    and contains_pre_key_law: "serves ready view (contains_pre_key store) (\<lambda>f. f i)
        (\<lambda>v. if sv_pre_keys v i = None then 0 else 1) id"
    and remove_pre_key_law: "serves ready view (remove_pre_key store) (\<lambda>f. f i)
        (\<lambda>_. 0) (\<lambda>v. v\<lparr>sv_pre_keys := (sv_pre_keys v)(i := None)\<rparr>)"
    and load_signed_pre_key_law: "serves ready view (load_signed_pre_key store) (\<lambda>f. f i)
        (\<lambda>v. case sv_signed_pre_keys v i of None \<Rightarrow> (SG_ERR_INVALID_KEY_ID, None) | Some d \<Rightarrow> (0, Some d)) id"
    and store_signed_pre_key_law: "serves ready view (store_signed_pre_key store) (\<lambda>f. f i d)
        (\<lambda>_. 0) (\<lambda>v. v\<lparr>sv_signed_pre_keys := (sv_signed_pre_keys v)(i \<mapsto> d)\<rparr>)"
    and contains_signed_pre_key_law: "serves ready view (contains_signed_pre_key store) (\<lambda>f. f i)
        (\<lambda>v. if sv_signed_pre_keys v i = None then 0 else 1) id"
    and remove_signed_pre_key_law: "serves ready view (remove_signed_pre_key store) (\<lambda>f. f i)
        (\<lambda>_. 0) (\<lambda>v. v\<lparr>sv_signed_pre_keys := (sv_signed_pre_keys v)(i := None)\<rparr>)"
    and get_identity_key_pair_law: "serves ready view (get_identity_key_pair store) (\<lambda>f. f)
        (\<lambda>v. (0, Some (fst (sv_identity_pair v)), Some (snd (sv_identity_pair v)))) id"
    and get_local_registration_id_law: "serves ready view (get_local_registration_id store) (\<lambda>f. f)
        (\<lambda>v. (0, sv_registration_id v)) id"
    and save_identity_law: "serves ready view (save_identity store) (\<lambda>f. f a (Some d))
        (\<lambda>_. 0) (\<lambda>v. v\<lparr>sv_identities := (sv_identities v)(identity_key a \<mapsto> d)\<rparr>)"
    and is_trusted_identity_law: "serves ready view (is_trusted_identity store) (\<lambda>f. f a d)
        (\<lambda>v. if sv_identities v (identity_key a) = None \<or> sv_identities v (identity_key a) = Some d then 1 else 0) id"
begin

lemma load_session_stored:
  assumes "sv_sessions v (session_key a) = Some (record_bytes r)" and "wf_session_record r"
  shows "hoare (at_view ready view v) (signal_protocol_session_load_session store a)
    (\<lambda>x s. x = r\<lparr>is_fresh := False\<rparr> \<and> at_view ready view v s)"
  unfolding signal_protocol_session_load_session_def
  by (rule hoare_bind_at [OF hoare_serves [OF load_session]])
     (simp add: assms(1) hoare_statusE hoare_yields [OF yields_session_record_deserialize [OF assms(2)]])

lemma load_session_absent:
  assumes "sv_sessions v (session_key a) = None"
  shows "hoare (at_view ready view v) (signal_protocol_session_load_session store a)
    (\<lambda>x s. x = fresh_record \<and> at_view ready view v s)"
  unfolding signal_protocol_session_load_session_def
  by (rule hoare_bind_at [OF hoare_serves [OF load_session]])
     (simp add: assms(1) hoare_statusE hoare_yields [OF yields_fresh_record])

lemma store_session_ok:
  assumes "wf_session_record r"
  shows "hoare (at_view ready view v) (signal_protocol_session_store_session store a r)
    (\<lambda>x s. x = 0 \<and> at_view ready view (v\<lparr>sv_sessions := (sv_sessions v)(session_key a \<mapsto> record_bytes r)\<rparr>) s)"
  unfolding signal_protocol_session_store_session_def
  by (rule hoare_bind_yields [OF yields_session_record_serialize [OF assms]])
     (use hoare_serves_status [OF store_session] in simp)

lemma contains_session_ok:
  "hoare (at_view ready view v) (signal_protocol_session_contains_session store a)
    (\<lambda>x s. x = (if sv_sessions v (session_key a) = None then 0 else 1) \<and> at_view ready view v s)"
  unfolding signal_protocol_session_contains_session_def
  by (rule hoare_post [OF hoare_serves_status [OF contains_session]]) auto

lemma load_pre_key_ok:
  assumes "sv_pre_keys v i = Some (pre_key_bytes pk)" and "wf_pre_key pk"
  shows "hoare (at_view ready view v) (signal_protocol_pre_key_load_key store i) (\<lambda>x s. x = pk \<and> at_view ready view v s)"
  unfolding signal_protocol_pre_key_load_key_def
  by (rule hoare_bind_at [OF hoare_serves [OF load_pre_key_law]])
     (simp add: assms(1) hoare_statusE hoare_bind_yields [OF yields_derefE]
       hoare_yields [OF pre_key_codec.deserialize_ok [OF assms(2)]])

lemma load_pre_key_absent:
  assumes "sv_pre_keys v i = None"
  shows "rejects (at_view ready view v) (signal_protocol_pre_key_load_key store i) SG_ERR_INVALID_KEY_ID (at_view ready view v)"
  unfolding signal_protocol_pre_key_load_key_def
  by (rule rejects_bind_at [OF hoare_serves [OF load_pre_key_law]]) (simp add: assms rejects_statusE SG_ERR_INVALID_KEY_ID_def)

lemma remove_pre_key_ok:
  "hoare (at_view ready view v) (signal_protocol_pre_key_remove_key store i)
    (\<lambda>x s. x = 0 \<and> at_view ready view (v\<lparr>sv_pre_keys := (sv_pre_keys v)(i := None)\<rparr>) s)"
  unfolding signal_protocol_pre_key_remove_key_def using hoare_serves_status [OF remove_pre_key_law] by simp

lemma load_signed_pre_key_ok:
  assumes "sv_signed_pre_keys v i = Some (signed_pre_key_bytes pk)" and "wf_signed_pre_key pk"
  shows "hoare (at_view ready view v) (signal_protocol_signed_pre_key_load_key store i)
    (\<lambda>x s. x = pk \<and> at_view ready view v s)"
  unfolding signal_protocol_signed_pre_key_load_key_def
  by (rule hoare_bind_at [OF hoare_serves [OF load_signed_pre_key_law]])
     (simp add: assms(1) hoare_statusE hoare_bind_yields [OF yields_derefE]
       hoare_yields [OF signed_pre_key_codec.deserialize_ok [OF assms(2)]])

lemma get_key_pair_ok:
  assumes "sv_identity_pair v = (DJB_TYPE # id_public_key kp, id_private_key kp)" and "wf_identity_pair kp"
  shows "hoare (at_view ready view v) (signal_protocol_identity_get_key_pair store) (\<lambda>x s. x = kp \<and> at_view ready view v s)"
proof -
  have k: "wf_key (id_public_key kp)" "wf_key (id_private_key kp)" using assms(2) by (simp_all add: wf_identity_pair_def)
  have create: "hoare P (ratchet_identity_key_pair_create (id_public_key kp) (id_private_key kp)) (\<lambda>x s. x = kp \<and> P s)" for P
    unfolding ratchet_identity_key_pair_create_def
    by (rule hoare_yields, rule yields_thenE [OF yields_alloc], rule yields_cong [OF yields_returnE]) simp
  show ?thesis
    unfolding signal_protocol_identity_get_key_pair_def
    by (rule hoare_bind_at [OF hoare_serves [OF get_identity_key_pair_law]])
     (simp add: assms(1) hoare_statusE hoare_bind_yields [OF yields_derefE] hoare_bind_yields [OF yields_curve_decode_point]
       hoare_bind_yields [OF yields_curve_decode_private_point] k create)
qed

lemma get_registration_id_ok:
  "hoare (at_view ready view v) (signal_protocol_identity_get_local_registration_id store)
    (\<lambda>x s. x = sv_registration_id v \<and> at_view ready view v s)"
  unfolding signal_protocol_identity_get_local_registration_id_def
  by (rule hoare_bind_at [OF hoare_serves [OF get_local_registration_id_law]]) (simp add: hoare_statusE hoare_return_at)

lemma save_identity_ok:
  "hoare (at_view ready view v) (signal_protocol_identity_save_identity store a (Some k))
    (\<lambda>x s. x = 0 \<and> at_view ready view (v\<lparr>sv_identities := (sv_identities v)(identity_key a \<mapsto> DJB_TYPE # k)\<rparr>) s)"
  unfolding signal_protocol_identity_save_identity_def option.case
  by (rule hoare_bind_yields [OF yields_ec_public_key_serialize]) (use hoare_serves_status [OF save_identity_law] in simp)

lemma is_trusted_ok:
  "hoare (at_view ready view v) (signal_protocol_identity_is_trusted_identity store a (Some k))
    (\<lambda>x s. x = (if sv_identities v (identity_key a) = None \<or> sv_identities v (identity_key a) = Some (DJB_TYPE # k)
       then 1 else 0) \<and> at_view ready view v s)"
  unfolding signal_protocol_identity_is_trusted_identity_def
  by (rule hoare_bind_yields [OF yields_ec_public_key_serialize]) 
     (rule hoare_post [OF hoare_serves_status [OF is_trusted_identity_law]], auto)

end

end
