(* ===== verification/Test_Stores.thy ===== *)
theory Test_Stores
  imports Store_Laws
begin

text \<open>
  The in-memory stores of tests/test\_common.c.  A table of uthash.h is an association list in the order
  of insertion, the order in which \<open>HASH_ITER\<close> walks it; \<open>test_allocs\<close> has the results of the next
  allocations of the callbacks.  The stores satisfy the contract \<open>protocol_store\<close>.
\<close>

section \<open>Model\<close>

record test_store =
  test_sessions :: "((64 word \<times> int) \<times> bytes) list"
  test_pre_keys :: "(32 word \<times> bytes) list"
  test_signed_pre_keys :: "(32 word \<times> bytes) list"
  test_identities :: "(64 word \<times> bytes) list"
  test_identity_key_public :: bytes
  test_identity_key_private :: bytes
  test_local_registration_id :: "32 word"
  test_sender_keys :: "((64 word \<times> 64 word \<times> int) \<times> bytes) list"
  test_allocs :: "bool list"

definition test_alloc :: "test_store \<Rightarrow> bool \<times> test_store" where
  "test_alloc s = (case test_allocs s of [] \<Rightarrow> (True, s) | b # bs \<Rightarrow> (b, s\<lparr>test_allocs := bs\<rparr>))"

text \<open>\<open>char\<close> is signed, so a byte of the name is sign-extended.\<close>

definition jenkins_step :: "8 word \<Rightarrow> 64 word \<Rightarrow> 64 word" where
  "jenkins_step c hash =
     (let h1 = hash + scast c; h2 = h1 + push_bit 10 h1 in xor h2 (drop_bit 6 h2))"

definition jenkins_hash :: "bytes \<Rightarrow> 64 word" where
  "jenkins_hash key =
     (let h0 = fold jenkins_step key 0; h1 = h0 + push_bit 3 h0; h2 = xor h1 (drop_bit 11 h1)
      in h2 + push_bit 15 h2)"

text \<open>The tables: \<open>HASH_FIND\<close>, \<open>HASH_ADD\<close>, \<open>HASH_DEL\<close> and the change of a found item.\<close>

definition hash_add :: "'k \<Rightarrow> 'v \<Rightarrow> ('k \<times> 'v) list \<Rightarrow> ('k \<times> 'v) list" where
  "hash_add k v t = t @ [(k, v)]"

definition hash_del :: "'k \<Rightarrow> ('k \<times> 'v) list \<Rightarrow> ('k \<times> 'v) list" where
  "hash_del k t = filter (\<lambda>x. fst x \<noteq> k) t"

definition hash_change :: "'k \<Rightarrow> 'v \<Rightarrow> ('k \<times> 'v) list \<Rightarrow> ('k \<times> 'v) list" where
  "hash_change k v t = map (\<lambda>x. if fst x = k then (k, v) else x) t"

text \<open>The common form of the store callbacks: a copy of the data, then the change of the item that has
  the key, or a new item.\<close>

definition test_put ::
    "(test_store \<Rightarrow> ('k \<times> bytes) list) \<Rightarrow> (('k \<times> bytes) list \<Rightarrow> test_store \<Rightarrow> test_store)
      \<Rightarrow> 'k \<Rightarrow> bytes \<Rightarrow> test_store \<Rightarrow> int \<times> test_store" where
  "test_put get put key data s =
     (case test_alloc s of
        (False, s1) \<Rightarrow> (SG_ERR_NOMEM, s1)
      | (True, s1) \<Rightarrow>
          (case map_of (get s1) key of
             Some _ \<Rightarrow> (0, put (hash_change key data (get s1)) s1)
           | None \<Rightarrow>
               (case test_alloc s1 of
                  (False, s2) \<Rightarrow> (SG_ERR_NOMEM, s2)
                | (True, s2) \<Rightarrow> (0, put (hash_add key data (get s2)) s2))))"

definition test_session_key :: "signal_protocol_address \<Rightarrow> 64 word \<times> int" where
  "test_session_key address = (jenkins_hash (address_name address), device_id address)"

definition test_session_store_load_session ::
    "signal_protocol_address \<Rightarrow> test_store \<Rightarrow> (int \<times> bytes option) \<times> test_store" where
  "test_session_store_load_session address s =
     (case map_of (test_sessions s) (test_session_key address) of
        None \<Rightarrow> ((0, None), s)
      | Some r \<Rightarrow>
          (case test_alloc s of
             (False, s1) \<Rightarrow> ((SG_ERR_NOMEM, None), s1)
           | (True, s1) \<Rightarrow> ((1, Some r), s1)))"

text \<open>The result of \<open>signal_int_list_push_back\<close> is not looked at, so an item may be missing.\<close>

definition push_session :: "int \<Rightarrow> int ut_array \<Rightarrow> (unit, test_store, int ut_array) M" where
  "push_session i l = bindE (signal_int_list_push_back l i) (\<lambda>(_, l'). returnE l')"

definition test_session_store_get_sub_device_sessions ::
    "bytes \<Rightarrow> test_store \<Rightarrow> (int \<times> int list) \<times> test_store" where
  "test_session_store_get_sub_device_sessions name s =
     (let ids = map (\<lambda>x. snd (fst x)) (filter (\<lambda>x. fst (fst x) = jenkins_hash name) (test_sessions s));
          run = bindE signal_int_list_alloc (\<lambda>l. foldE push_session ids l)
      in case run \<lparr>allocs = test_allocs s, crypto_data = (), store_data = s\<rparr> of
           (Ok l, w) \<Rightarrow> ((0, ut_elems l), s\<lparr>test_allocs := allocs w\<rparr>)
         | (_, w) \<Rightarrow> ((SG_ERR_NOMEM, []), s\<lparr>test_allocs := allocs w\<rparr>))"

definition test_session_store_store_session ::
    "signal_protocol_address \<Rightarrow> bytes \<Rightarrow> test_store \<Rightarrow> int \<times> test_store" where
  "test_session_store_store_session address =
     test_put test_sessions (\<lambda>t s. s\<lparr>test_sessions := t\<rparr>) (test_session_key address)"

definition test_session_store_contains_session :: "signal_protocol_address \<Rightarrow> test_store \<Rightarrow> int \<times> test_store" where
  "test_session_store_contains_session address s =
     (if map_of (test_sessions s) (test_session_key address) = None then 0 else 1, s)"

definition test_session_store_delete_session :: "signal_protocol_address \<Rightarrow> test_store \<Rightarrow> int \<times> test_store" where
  "test_session_store_delete_session address s =
     (let key = test_session_key address in
      case map_of (test_sessions s) key of
        None \<Rightarrow> (0, s)
      | Some _ \<Rightarrow> (1, s\<lparr>test_sessions := hash_del key (test_sessions s)\<rparr>))"

definition test_session_store_delete_all_sessions :: "bytes \<Rightarrow> test_store \<Rightarrow> int \<times> test_store" where
  "test_session_store_delete_all_sessions name s =
     (let h = jenkins_hash name; (gone, kept) = partition (\<lambda>x. fst (fst x) = h) (test_sessions s)
      in (int (length gone), s\<lparr>test_sessions := kept\<rparr>))"

text \<open>A failed copy of a key record is returned as a null pointer with the status of success.\<close>

definition test_load_key :: "(32 word \<times> bytes) list \<Rightarrow> 32 word \<Rightarrow> test_store \<Rightarrow> (int \<times> bytes option) \<times> test_store" where
  "test_load_key t i s =
     (case map_of t i of
        None \<Rightarrow> ((SG_ERR_INVALID_KEY_ID, None), s)
      | Some d \<Rightarrow> (case test_alloc s of (ok, s1) \<Rightarrow> ((0, if ok then Some d else None), s1)))"

definition test_pre_key_store_load_pre_key ::
    "32 word \<Rightarrow> test_store \<Rightarrow> (int \<times> bytes option) \<times> test_store" where
  "test_pre_key_store_load_pre_key i s = test_load_key (test_pre_keys s) i s"

definition test_pre_key_store_store_pre_key :: "32 word \<Rightarrow> bytes \<Rightarrow> test_store \<Rightarrow> int \<times> test_store" where
  "test_pre_key_store_store_pre_key = test_put test_pre_keys (\<lambda>t s. s\<lparr>test_pre_keys := t\<rparr>)"

definition test_pre_key_store_contains_pre_key :: "32 word \<Rightarrow> test_store \<Rightarrow> int \<times> test_store" where
  "test_pre_key_store_contains_pre_key i s = (if map_of (test_pre_keys s) i = None then 0 else 1, s)"

definition test_pre_key_store_remove_pre_key :: "32 word \<Rightarrow> test_store \<Rightarrow> int \<times> test_store" where
  "test_pre_key_store_remove_pre_key i s = (0, s\<lparr>test_pre_keys := hash_del i (test_pre_keys s)\<rparr>)"

definition test_signed_pre_key_store_load_signed_pre_key ::
    "32 word \<Rightarrow> test_store \<Rightarrow> (int \<times> bytes option) \<times> test_store" where
  "test_signed_pre_key_store_load_signed_pre_key i s = test_load_key (test_signed_pre_keys s) i s"

definition test_signed_pre_key_store_store_signed_pre_key :: "32 word \<Rightarrow> bytes \<Rightarrow> test_store \<Rightarrow> int \<times> test_store" where
  "test_signed_pre_key_store_store_signed_pre_key =
     test_put test_signed_pre_keys (\<lambda>t s. s\<lparr>test_signed_pre_keys := t\<rparr>)"

definition test_signed_pre_key_store_contains_signed_pre_key :: "32 word \<Rightarrow> test_store \<Rightarrow> int \<times> test_store" where
  "test_signed_pre_key_store_contains_signed_pre_key i s =
     (if map_of (test_signed_pre_keys s) i = None then 0 else 1, s)"

definition test_signed_pre_key_store_remove_signed_pre_key :: "32 word \<Rightarrow> test_store \<Rightarrow> int \<times> test_store" where
  "test_signed_pre_key_store_remove_signed_pre_key i s =
     (0, s\<lparr>test_signed_pre_keys := hash_del i (test_signed_pre_keys s)\<rparr>)"

definition test_identity_key_store_get_identity_key_pair ::
    "test_store \<Rightarrow> (int \<times> bytes option \<times> bytes option) \<times> test_store" where
  "test_identity_key_store_get_identity_key_pair s =
     (case test_alloc s of (ok1, s1) \<Rightarrow>
      case test_alloc s1 of (ok2, s2) \<Rightarrow>
        ((0, if ok1 then Some (test_identity_key_public s) else None,
             if ok2 then Some (test_identity_key_private s) else None), s2))"

definition test_identity_key_store_get_local_registration_id :: "test_store \<Rightarrow> (int \<times> 32 word) \<times> test_store" where
  "test_identity_key_store_get_local_registration_id s = ((0, test_local_registration_id s), s)"

text \<open>The key is copied whatever the pointer is; a null pointer comes with length 0.\<close>

definition test_identity_key_store_save_identity ::
    "signal_protocol_address \<Rightarrow> bytes option \<Rightarrow> test_store \<Rightarrow> int \<times> test_store" where
  "test_identity_key_store_save_identity address key_data =
     test_put test_identities (\<lambda>t s. s\<lparr>test_identities := t\<rparr>) (jenkins_hash (address_name address))
       (case key_data of None \<Rightarrow> [] | Some d \<Rightarrow> d)"

definition test_identity_key_store_is_trusted_identity ::
    "signal_protocol_address \<Rightarrow> bytes \<Rightarrow> test_store \<Rightarrow> int \<times> test_store" where
  "test_identity_key_store_is_trusted_identity address key_data s =
     (case map_of (test_identities s) (jenkins_hash (address_name address)) of
        None \<Rightarrow> (1, s)
      | Some d \<Rightarrow>
          if length d \<noteq> length key_data then (0, s)
          else if memcmp key_data d = 0 then (1, s) else (0, s))"

definition test_sender_key :: "signal_protocol_sender_key_name \<Rightarrow> 64 word \<times> 64 word \<times> int" where
  "test_sender_key name =
     (jenkins_hash (group_id name), jenkins_hash (address_name (sender name)), device_id (sender name))"

definition test_sender_key_store_store_sender_key ::
    "signal_protocol_sender_key_name \<Rightarrow> bytes \<Rightarrow> test_store \<Rightarrow> int \<times> test_store" where
  "test_sender_key_store_store_sender_key name =
     test_put test_sender_keys (\<lambda>t s. s\<lparr>test_sender_keys := t\<rparr>) (test_sender_key name)"

definition test_sender_key_store_load_sender_key ::
    "signal_protocol_sender_key_name \<Rightarrow> test_store \<Rightarrow> (int \<times> bytes option) \<times> test_store" where
  "test_sender_key_store_load_sender_key name s =
     (case map_of (test_sender_keys s) (test_sender_key name) of
        None \<Rightarrow> ((0, None), s)
      | Some r \<Rightarrow>
          (case test_alloc s of
             (False, s1) \<Rightarrow> ((SG_ERR_NOMEM, None), s1)
           | (True, s1) \<Rightarrow> ((1, Some r), s1)))"

definition setup_test_store_context :: "test_store signal_protocol_store_context" where
  "setup_test_store_context =
    \<lparr>load_session_func = Some test_session_store_load_session,
     get_sub_device_sessions_func = Some test_session_store_get_sub_device_sessions,
     store_session_func = Some test_session_store_store_session,
     contains_session_func = Some test_session_store_contains_session,
     delete_session_func = Some test_session_store_delete_session,
     delete_all_sessions_func = Some test_session_store_delete_all_sessions,
     load_pre_key = Some test_pre_key_store_load_pre_key,
     store_pre_key = Some test_pre_key_store_store_pre_key,
     contains_pre_key = Some test_pre_key_store_contains_pre_key,
     remove_pre_key = Some test_pre_key_store_remove_pre_key,
     load_signed_pre_key = Some test_signed_pre_key_store_load_signed_pre_key,
     store_signed_pre_key = Some test_signed_pre_key_store_store_signed_pre_key,
     contains_signed_pre_key = Some test_signed_pre_key_store_contains_signed_pre_key,
     remove_signed_pre_key = Some test_signed_pre_key_store_remove_signed_pre_key,
     get_identity_key_pair = Some test_identity_key_store_get_identity_key_pair,
     get_local_registration_id = Some test_identity_key_store_get_local_registration_id,
     save_identity = Some test_identity_key_store_save_identity,
     is_trusted_identity = Some test_identity_key_store_is_trusted_identity,
     store_sender_key = Some test_sender_key_store_store_sender_key,
     load_sender_key = Some test_sender_key_store_load_sender_key\<rparr>"

text \<open>The context that the tests set up, built with the setters of the library.\<close>

lemma setup_test_store_context_by_setters:
  "yields (bindE signal_protocol_store_context_create (\<lambda>c0.
     bindE (signal_protocol_store_context_set_session_store c0 (Some setup_test_store_context)) (\<lambda>c1.
     bindE (signal_protocol_store_context_set_pre_key_store c1 (Some setup_test_store_context)) (\<lambda>c2.
     bindE (signal_protocol_store_context_set_signed_pre_key_store c2 (Some setup_test_store_context)) (\<lambda>c3.
     bindE (signal_protocol_store_context_set_identity_key_store c3 (Some setup_test_store_context)) (\<lambda>c4.
     signal_protocol_store_context_set_sender_key_store c4 (Some setup_test_store_context))))))) setup_test_store_context"
  unfolding signal_protocol_store_context_create_def signal_protocol_store_context_set_session_store_def
    signal_protocol_store_context_set_pre_key_store_def signal_protocol_store_context_set_signed_pre_key_store_def
    signal_protocol_store_context_set_identity_key_store_def signal_protocol_store_context_set_sender_key_store_def option.case
  by (rule yields_bindE [OF yields_thenE [OF yields_alloc yields_returnE]], intro yields_bindE [OF yields_returnE],
      rule yields_cong [OF yields_returnE]) simp

section \<open>The stores satisfy the contract\<close>

definition test_ready :: "test_store \<Rightarrow> bool" where
  "test_ready s = (test_allocs s = [])"

definition test_view :: "test_store \<Rightarrow> (64 word \<times> int, 64 word) store_view" where
  "test_view s =
    \<lparr>sv_sessions = map_of (test_sessions s), sv_pre_keys = map_of (test_pre_keys s),
     sv_signed_pre_keys = map_of (test_signed_pre_keys s), sv_identities = map_of (test_identities s),
     sv_identity_pair = (test_identity_key_public s, test_identity_key_private s),
     sv_registration_id = test_local_registration_id s\<rparr>"

lemma map_of_hash_add: "map_of t k = None \<Longrightarrow> map_of (hash_add k v t) = (map_of t)(k \<mapsto> v)"
  by (auto simp: hash_add_def map_add_def fun_eq_iff split: option.splits)

lemma map_of_hash_del: "map_of (hash_del k t) = (map_of t)(k := None)"
  by (induction t) (auto simp: hash_del_def)

lemma map_of_hash_change: "map_of t k \<noteq> None \<Longrightarrow> map_of (hash_change k v t) = (map_of t)(k \<mapsto> v)"
proof (induction t)
  case (Cons x t)
  have other: "map_of (hash_change k v t) k' = map_of t k'" if "k' \<noteq> k" for k'
    using that by (induction t) (auto simp: hash_change_def)
  show ?case using Cons other by (cases "fst x = k") (auto simp: hash_change_def fun_eq_iff)
qed simp

lemma test_alloc_ready [simp]: "test_ready s \<Longrightarrow> test_alloc s = (True, s)"
  by (simp add: test_ready_def test_alloc_def)

lemma test_put_ready:
  assumes "test_ready s" and "\<And>t s. get (put t s) = t" and "\<And>t s. test_allocs (put t s) = test_allocs s"
  shows "\<exists>t. test_put get put k d s = (0, put t s) \<and> map_of t = (map_of (get s))(k \<mapsto> d)"
  using assms
  by (cases "map_of (get s) k") (auto simp: test_put_def map_of_hash_add map_of_hash_change)

lemma memcmp_same: "length xs = length ys \<Longrightarrow> (memcmp xs ys = 0) = (xs = ys)"
  by (induction xs ys rule: list_induct2) auto

lemma test_store_updates [simp]:
  "test_ready (s\<lparr>test_sessions := t\<rparr>) = test_ready s"
  "test_ready (s\<lparr>test_pre_keys := u\<rparr>) = test_ready s"
  "test_ready (s\<lparr>test_signed_pre_keys := u\<rparr>) = test_ready s"
  "test_ready (s\<lparr>test_identities := x\<rparr>) = test_ready s"
  "test_view (s\<lparr>test_sessions := t\<rparr>) = (test_view s)\<lparr>sv_sessions := map_of t\<rparr>"
  "test_view (s\<lparr>test_pre_keys := u\<rparr>) = (test_view s)\<lparr>sv_pre_keys := map_of u\<rparr>"
  "test_view (s\<lparr>test_signed_pre_keys := u\<rparr>) = (test_view s)\<lparr>sv_signed_pre_keys := map_of u\<rparr>"
  "test_view (s\<lparr>test_identities := x\<rparr>) = (test_view s)\<lparr>sv_identities := map_of x\<rparr>"
  "sv_sessions (test_view s) = map_of (test_sessions s)"
  "sv_pre_keys (test_view s) = map_of (test_pre_keys s)"
  "sv_signed_pre_keys (test_view s) = map_of (test_signed_pre_keys s)"
  "sv_identities (test_view s) = map_of (test_identities s)"
  by (simp_all add: test_ready_def test_view_def)

lemma serves_test_put:
  assumes "\<And>t s. get (put t s) = t" and "\<And>t s. test_allocs (put t s) = test_allocs s"
    and "\<And>t s. map_of t = (map_of (get s))(k \<mapsto> d) \<Longrightarrow> view (put t s) = u (view s)"
    and "app f = test_put get put k d"
  shows "serves test_ready view (Some f) app (\<lambda>_. 0) u"
  unfolding serves_def
proof (intro exI conjI allI impI; (rule refl)?)
  fix s
  assume s: "test_ready s"
  obtain t where t: "app f s = (0, put t s)" "map_of t = (map_of (get s))(k \<mapsto> d)"
    using test_put_ready [OF s assms(1,2)] assms(4) by metis
  show "fst (app f s) = 0" "test_ready (snd (app f s))" "view (snd (app f s)) = u (view s)"
    using s t assms(2,3) by (simp_all add: test_ready_def)
qed

lemmas test_callbacks =
  setup_test_store_context_def serves_def test_session_store_load_session_def
  test_session_store_contains_session_def test_session_store_delete_session_def
  test_pre_key_store_load_pre_key_def test_pre_key_store_contains_pre_key_def test_pre_key_store_remove_pre_key_def
  test_signed_pre_key_store_load_signed_pre_key_def test_signed_pre_key_store_contains_signed_pre_key_def
  test_signed_pre_key_store_remove_signed_pre_key_def test_load_key_def map_of_hash_del
  test_identity_key_store_get_identity_key_pair_def test_identity_key_store_get_local_registration_id_def

interpretation test_stores: protocol_store setup_test_store_context test_ready test_view test_session_key
  "\<lambda>a. jenkins_hash (address_name a)"
proof unfold_locales
  show "serves test_ready test_view (store_session_func setup_test_store_context) (\<lambda>f. f a d)
      (\<lambda>_. 0) (\<lambda>v. v\<lparr>sv_sessions := (sv_sessions v)(test_session_key a \<mapsto> d)\<rparr>)" for a d
    unfolding setup_test_store_context_def test_session_store_store_session_def
    by (simp, rule serves_test_put [where get = test_sessions and put = "\<lambda>t s. s\<lparr>test_sessions := t\<rparr>"]) auto
  show "serves test_ready test_view (store_pre_key setup_test_store_context) (\<lambda>f. f i d)
      (\<lambda>_. 0) (\<lambda>v. v\<lparr>sv_pre_keys := (sv_pre_keys v)(i \<mapsto> d)\<rparr>)" for i d
    unfolding setup_test_store_context_def test_pre_key_store_store_pre_key_def
    by (simp, rule serves_test_put [where get = test_pre_keys and put = "\<lambda>t s. s\<lparr>test_pre_keys := t\<rparr>"]) auto
  show "serves test_ready test_view (store_signed_pre_key setup_test_store_context) (\<lambda>f. f i d)
      (\<lambda>_. 0) (\<lambda>v. v\<lparr>sv_signed_pre_keys := (sv_signed_pre_keys v)(i \<mapsto> d)\<rparr>)" for i d
    unfolding setup_test_store_context_def test_signed_pre_key_store_store_signed_pre_key_def
    by (simp, rule serves_test_put [where get = test_signed_pre_keys and put = "\<lambda>t s. s\<lparr>test_signed_pre_keys := t\<rparr>"]) auto
  show "serves test_ready test_view (save_identity setup_test_store_context) (\<lambda>f. f a (Some d))
      (\<lambda>_. 0) (\<lambda>v. v\<lparr>sv_identities := (sv_identities v)(jenkins_hash (address_name a) \<mapsto> d)\<rparr>)" for a d
    unfolding setup_test_store_context_def test_identity_key_store_save_identity_def
    by (simp, rule serves_test_put [where get = test_identities and put = "\<lambda>t s. s\<lparr>test_identities := t\<rparr>"]) auto
  show "serves test_ready test_view (is_trusted_identity setup_test_store_context) (\<lambda>f. f a d)
      (\<lambda>v. if sv_identities v (jenkins_hash (address_name a)) = None \<or>
              sv_identities v (jenkins_hash (address_name a)) = Some d then 1 else 0) id" for a d
    by (auto simp: setup_test_store_context_def serves_def test_identity_key_store_is_trusted_identity_def memcmp_same
        split: option.splits)
qed (auto simp: test_callbacks test_view_def split: option.splits)

end
