(* ===== verification/Session_Exchange.thy ===== *)
theory Session_Exchange
  imports Double_Ratchet Test_Stores
begin

text \<open>
  Sessions in a store: sending and reading messages on the stored record, the session that the builder
  stores from a bundle of pre keys, and the session that the reader of the first message builds.  The
  lemmas on the store hold for every store that satisfies \<open>protocol_store\<close>.
\<close>

section \<open>Reading with the current state of a record\<close>

lemma ensures_try_state:
  assumes "wf_session_state st" and "ensures (session_cipher_decrypt_from_state_and_signal_message ctx st m :: ('c, 's, _) M) P"
  shows "ensures (try_state ctx st m :: ('c, 's, _) M) (\<lambda>x. \<exists>y. x = Some y \<and> P y)"
  unfolding try_state_def
  by (rule ensures_bind_yields [OF yields_session_state_copy [OF assms(1)]], rule ensures_tryE [OF assms(2)])
     (auto intro: ensures_returnE)

lemma yields_try_state_invalid:
  assumes "wf_session_state st"
    and "fails (session_cipher_decrypt_from_state_and_signal_message ctx st m :: ('c, 's, _) M) SG_ERR_INVALID_MESSAGE"
  shows "yields (try_state ctx st m :: ('c, 's, _) M) None"
  unfolding try_state_def
  by (rule yields_bindE [OF yields_session_state_copy [OF assms(1)]], rule yields_tryE_fails [OF assms(2)])
     (simp add: yields_returnE)

lemma fails_try_state:
  assumes "wf_session_state st" and "fails (session_cipher_decrypt_from_state_and_signal_message ctx st m :: ('c, 's, _) M) e"
    and "e \<noteq> SG_ERR_INVALID_MESSAGE"
  shows "fails (try_state ctx st m :: ('c, 's, _) M) e"
  unfolding try_state_def
  by (rule fails_bind_yields [OF yields_session_state_copy [OF assms(1)]], rule fails_tryE [OF assms(2)])
     (simp add: assms(3) fails_failE)

lemma ensures_decrypt_current:
  assumes "wf_session_record r" and "record_state r = Some st"
    and "ensures (session_cipher_decrypt_from_state_and_signal_message ctx st m :: ('c, 's, _) M) (\<lambda>(t, st'). P t st')"
  shows "ensures (session_cipher_decrypt_from_record_and_signal_message ctx r m :: ('c, 's, _) M)
    (\<lambda>(t, r'). \<exists>st'. P t st' \<and> r' = r\<lparr>record_state := Some st'\<rparr>)"
proof -
  have wf: "wf_session_state st" using assms(1,2) by (simp add: wf_session_record_def)
  show ?thesis
    unfolding session_cipher_decrypt_from_record_and_signal_message_def assms(2) option.case
    by (rule ensures_bindE [OF ensures_try_state [OF wf assms(3)]])
       (auto simp: session_record_set_state_def intro!: ensures_returnE)
qed

text \<open>A message that no state can read is invalid, whatever the number of archived states.\<close>

lemma fails_try_previous:
  assumes "list_all wf_session_state states"
    and "\<And>st. st \<in> set states \<Longrightarrow>
      fails (session_cipher_decrypt_from_state_and_signal_message ctx st m :: ('c, 's, _) M) SG_ERR_INVALID_MESSAGE"
  shows "fails (try_previous_states ctx r m i states :: ('c, 's, _) M) SG_ERR_INVALID_MESSAGE"
  using assms
proof (induction states arbitrary: i)
  case (Cons st states)
  then show ?case
    by (auto intro!: fails_bind_yields [OF yields_try_state_invalid])
qed (simp add: fails_failE)

lemma fails_decrypt_record:
  assumes "wf_session_record r"
    and "\<And>st. st \<in> set_option (record_state r) \<union> set (previous_states r) \<Longrightarrow>
      fails (session_cipher_decrypt_from_state_and_signal_message ctx st m :: ('c, 's, _) M) SG_ERR_INVALID_MESSAGE"
  shows "fails (session_cipher_decrypt_from_record_and_signal_message ctx r m :: ('c, 's, _) M) SG_ERR_INVALID_MESSAGE"
proof -
  obtain st where st: "record_state r = Some st" "wf_session_state st" "list_all wf_session_state (previous_states r)"
    using assms(1) by (auto simp: wf_session_record_def)
  show ?thesis
    unfolding session_cipher_decrypt_from_record_and_signal_message_def st(1) option.case
    by (rule fails_bind_yields [OF yields_try_state_invalid [OF st(2)]], use assms(2) st(1) in simp, simp,
        rule fails_try_previous [OF st(3)], use assms(2) in simp)
qed

lemma fails_decrypt_record_now:
  assumes "wf_session_record r" and "record_state r = Some st" and "e \<noteq> SG_ERR_INVALID_MESSAGE"
    and "fails (session_cipher_decrypt_from_state_and_signal_message ctx st m :: ('c, 's, _) M) e"
  shows "fails (session_cipher_decrypt_from_record_and_signal_message ctx r m :: ('c, 's, _) M) e"
proof -
  have "wf_session_state st" using assms(1,2) by (simp add: wf_session_record_def)
  then show ?thesis
    unfolding session_cipher_decrypt_from_record_and_signal_message_def assms(2) option.case
    by (rule fails_bindE [OF fails_try_state [OF _ assms(4,3)]])
qed

section \<open>Messages of a stored session\<close>

text \<open>What loading the session gives, for the stored data.\<close>

definition loads_record :: "bytes option \<Rightarrow> session_record \<Rightarrow> bool" where
  "loads_record d r =
     (case d of None \<Rightarrow> r = fresh_record
      | Some x \<Rightarrow> (\<exists>r0. wf_session_record r0 \<and> x = record_bytes r0 \<and> r = r0\<lparr>is_fresh := False\<rparr>))"

lemma loads_record_wf: "loads_record d r \<Longrightarrow> wf_session_record r"
  by (auto simp: loads_record_def wf_session_record_def fresh_record_def wf_empty_session_state split: option.splits)

lemma loads_record_stored: "wf_session_record r \<Longrightarrow> loads_record (Some (record_bytes r)) (r\<lparr>is_fresh := False\<rparr>)"
  by (auto simp: loads_record_def)

context protocol_store
begin

lemma load_session_ok:
  assumes "loads_record (sv_sessions v (session_key a)) r"
  shows "hoare (at_view ready view v) (signal_protocol_session_load_session store a)
    (\<lambda>x s. x = r \<and> at_view ready view v s)"
  using assms load_session_absent [of v a] load_session_stored [of v a]
  by (auto simp: loads_record_def split: option.splits)

lemma encrypt_stored:
  assumes laws: "hmac_laws ctx H" "cipher_laws ctx E"
    and c: "cipher_store c = store" "cipher_global_context c = ctx" "\<not> inside_callback c"
    and r: "loads_record (sv_sessions v (session_key (cipher_remote_address c))) r" "record_state r = Some st"
    and st: "can_send st" and p: "length p \<le> 2 ^ 24 - 16"
  shows "hoare (at_view ready view v) (session_cipher_encrypt c p)
    (\<lambda>e s. e = sent_envelope H E st p \<and> at_view ready view
      (v\<lparr>sv_sessions := (sv_sessions v)(session_key (cipher_remote_address c) \<mapsto>
         record_bytes (r\<lparr>record_state := Some (sent_state H st)\<rparr>))\<rparr>) s)"
proof -
  have wf: "wf_session_record (r\<lparr>record_state := Some (sent_state H st)\<rparr>)"
    using loads_record_wf [OF r(1)] wf_sent_state [OF laws(1) st] by (simp add: wf_session_record_def)
  show ?thesis
    unfolding session_cipher_encrypt_def c(1,2)
    apply (rule hoare_guardE [OF c(3)])
    apply (rule hoare_bind_at [OF load_session_ok [OF r(1)]], simp only: r(2) option.case)
    apply (rule hoare_bind_yields [OF yields_encrypt_on_state [OF laws st p]], simp only: prod.case)
    apply (rule hoare_then_at [OF store_session_ok [OF wf]], rule hoare_return_at)
    done
qed

text \<open>The condition on the callback: it succeeds and leaves the data of the stores alone.\<close>

lemma decrypt_stored:
  assumes c: "cipher_store c = store" "cipher_global_context c = ctx" "\<not> inside_callback c"
    and callback: "\<And>t. hoare (at_view ready view v) (session_cipher_decrypt_callback c t :: ('c, 's, _) M)
      (\<lambda>_. at_view ready view v)"
    and r: "sv_sessions v (session_key (cipher_remote_address c)) \<noteq> None"
      "loads_record (sv_sessions v (session_key (cipher_remote_address c))) r" "record_state r = Some st"
    and read: "ensures (session_cipher_decrypt_from_state_and_signal_message ctx st m :: ('c, 's, _) M)
      (\<lambda>(t, st'). P t st' \<and> wf_session_state st')"
  shows "hoare (at_view ready view v) (session_cipher_decrypt_signal_message c m)
    (\<lambda>t s. \<exists>st'. P t st' \<and> at_view ready view
      (v\<lparr>sv_sessions := (sv_sessions v)(session_key (cipher_remote_address c) \<mapsto>
         record_bytes (r\<lparr>record_state := Some st'\<rparr>))\<rparr>) s)"
proof -
  have wf: "wf_session_record r" by (rule loads_record_wf [OF r(2)])
  have wf': "wf_session_record (r\<lparr>record_state := Some st'\<rparr>)" if "wf_session_state st'" for st'
    using wf that by (simp add: wf_session_record_def)
  show ?thesis
    unfolding session_cipher_decrypt_signal_message_def c(1,2)
    apply (rule hoare_guardE [OF c(3)])
    apply (rule hoare_bind_at [OF contains_session_ok])
    apply (rule hoare_guardE, use r(1) in simp)
    apply (rule hoare_bind_at [OF load_session_ok [OF r(2)]])
    apply (rule hoare_bind_ensures [OF ensures_decrypt_current [OF wf r(3) read]], clarify)
    apply (rule hoare_thenE [OF callback])
    apply (rule hoare_then_at [OF store_session_ok [OF wf']], assumption, rule hoare_returnE, blast)
    done
qed

lemma decrypt_rejected:
  assumes c: "cipher_store c = store" "cipher_global_context c = ctx" "\<not> inside_callback c"
    and r: "sv_sessions v (session_key (cipher_remote_address c)) \<noteq> None"
      "loads_record (sv_sessions v (session_key (cipher_remote_address c))) r"
    and "fails (session_cipher_decrypt_from_record_and_signal_message ctx r m :: ('c, 's, _) M) e"
  shows "rejects (at_view ready view v) (session_cipher_decrypt_signal_message c m) e (at_view ready view v)"
  unfolding session_cipher_decrypt_signal_message_def c(1,2)
  by (rule rejects_then_at [OF hoare_yields [OF yields_guardE [OF c(3)]]],
      rule rejects_bind_at [OF contains_session_ok], rule rejects_then_at [OF hoare_yields [OF yields_guardE]],
      use r(1) in simp, rule rejects_bind_at [OF load_session_ok [OF r(2)]],
      rule rejects_bindE [OF rejects_fails [OF assms(6)]])

lemma decrypt_no_session:
  assumes "cipher_store c = store" "\<not> inside_callback c"
    and "sv_sessions v (session_key (cipher_remote_address c)) = None"
  shows "rejects (at_view ready view v) (session_cipher_decrypt_signal_message c m) SG_ERR_NO_SESSION (at_view ready view v)"
  unfolding session_cipher_decrypt_signal_message_def assms(1)
  by (rule rejects_then_at [OF hoare_yields [OF yields_guardE [OF assms(2)]]],
      rule rejects_bind_at [OF contains_session_ok], rule rejects_guardE, simp add: assms(3))

end

section \<open>The session of the sender of the first message\<close>

definition bundle_parameters ::
    "session_pre_key_bundle \<Rightarrow> ratchet_identity_key_pair \<Rightarrow> ec_key_pair \<Rightarrow> alice_signal_protocol_parameters" where
  "bundle_parameters bundle our base =
     \<lparr>alice_our_identity_key = our, alice_our_base_key = base,
      alice_their_identity_key = the (bundle_identity_key bundle),
      alice_their_signed_pre_key = the (bundle_signed_pre_key bundle),
      alice_their_one_time_pre_key = bundle_pre_key bundle,
      alice_their_ratchet_key = the (bundle_signed_pre_key bundle)\<rparr>"

text \<open>The state after the agreement, with what the builder records in it.\<close>

definition bundle_session ::
    "(bytes \<Rightarrow> bytes \<Rightarrow> bytes) \<Rightarrow> (bytes \<Rightarrow> bytes \<Rightarrow> bytes) \<Rightarrow> session_pre_key_bundle \<Rightarrow> ratchet_identity_key_pair
      \<Rightarrow> 32 word \<Rightarrow> ec_key_pair \<Rightarrow> ec_key_pair \<Rightarrow> session_state" where
  "bundle_session H DH bundle our reg base kp =
     session_state_set_alice_base_key
      (session_state_set_remote_registration_id
        (session_state_set_local_registration_id
          (session_state_set_unacknowledged_pre_key_message
            (alice_session H DH empty_session_state (bundle_parameters bundle our base) kp)
            (map_option (\<lambda>_. bundle_pre_key_id bundle) (bundle_pre_key bundle))
            (bundle_signed_pre_key_id bundle) (public_key base)) reg)
        (bundle_registration_id bundle)) (public_key base)"

definition archived :: "session_record \<Rightarrow> session_record" where
  "archived r =
     (if is_fresh r then r
      else r\<lparr>record_state := Some empty_session_state,
             previous_states := take ARCHIVED_STATES_MAX_LENGTH (the (record_state r) # previous_states r)\<rparr>)"

definition good_bundle :: "'c signal_context \<Rightarrow> session_pre_key_bundle \<Rightarrow> bool" where
  "good_bundle ctx bundle =
     (\<exists>ident spk sig. bundle_identity_key bundle = Some ident \<and> wf_key ident \<and> bundle_signed_pre_key bundle = Some spk \<and>
        wf_key spk \<and> bundle_signed_pre_key_signature bundle = Some sig \<and> length sig = 64 \<and>
        curve25519_verify (curve25519 ctx) sig ident (DJB_TYPE # spk) = 0 \<and> pred_option wf_key (bundle_pre_key bundle))"

lemma yields_archive:
  assumes "loads_record d r"
  shows "yields (if \<not> is_fresh r then session_record_archive_current_state r else returnE r) (archived r)"
proof (cases "is_fresh r")
  case False
  obtain st where "record_state r = Some st" using loads_record_wf [OF assms] by (auto simp: wf_session_record_def)
  then show ?thesis using False yields_archive_current_state [of r st] by (simp add: archived_def)
qed (simp add: archived_def yields_returnE)

lemma archived_simps:
  assumes "loads_record d r"
  shows "record_state (archived r) = Some empty_session_state"
    and "wf_session_state st \<Longrightarrow> wf_session_record ((archived r)\<lparr>record_state := Some st\<rparr>)"
proof -
  show "record_state (archived r) = Some empty_session_state"
    using assms by (auto simp: archived_def loads_record_def fresh_record_def split: option.splits)
  have "list_all wf_session_state (take n (the (record_state r) # previous_states r))" for n
    using loads_record_wf [OF assms] by (fastforce simp: wf_session_record_def list_all_iff dest: in_set_takeD)
  then show "wf_session_record ((archived r)\<lparr>record_state := Some st\<rparr>)" if "wf_session_state st"
    using loads_record_wf [OF assms] that by (simp add: archived_def wf_session_record_def del: take_Cons)
qed

lemma yields_verify_bundle:
  assumes "good_bundle ctx bundle" and "bundle_signed_pre_key bundle = Some spk"
  shows "yields (verify_bundle_signature ctx bundle spk) ()"
proof -
  obtain ident sig where "bundle_identity_key bundle = Some ident" "bundle_signed_pre_key_signature bundle = Some sig"
      "length sig = 64" "curve25519_verify (curve25519 ctx) sig ident (DJB_TYPE # spk) = 0"
    using assms by (auto simp: good_bundle_def)
  then show ?thesis
    unfolding verify_bundle_signature_def
    by (simp, rule_tac yields_bindE [OF yields_ec_public_key_serialize], rule_tac yields_bindE [OF yields_derefE],
        rule_tac yields_bindE [OF yields_curve_verify_signature]) (simp_all add: yields_guardE)
qed

lemma wf_bundle_parameters:
  assumes "curve_laws ctx DH" and "good_bundle ctx' bundle" and "wf_identity_pair our" and "key_pair_of DH base"
  shows "wf_alice_parameters (bundle_parameters bundle our base)"
  using assms(2,3) key_pair_of_wf [OF assms(1,4)]
  by (auto simp: wf_alice_parameters_def bundle_parameters_def good_bundle_def wf_pair_def)

lemma bundle_session_ok:
  assumes "hmac_laws ctx H" and "curve_laws ctx DH" and "good_bundle ctx' bundle" and "wf_identity_pair our"
    and "key_pair_of DH base" and "key_pair_of DH kp"
  shows "can_send (bundle_session H DH bundle our reg base kp)"
proof -
  have base: "wf_key (public_key base)" using key_pair_of_wf [OF assms(2,5)] by simp
  note p = wf_bundle_parameters [OF assms(2-5)]
  let ?a = "alice_session H DH empty_session_state (bundle_parameters bundle our base) kp"
  have "wf_session_state ?a" by (rule wf_alice_session [OF assms(1,2) p assms(6)])
  then have "wf_session_state (bundle_session H DH bundle our reg base kp)"
    unfolding bundle_session_def by (intro wf_session_setters base)
  then show "can_send (bundle_session H DH bundle our reg base kp)"
    by (auto simp: can_send_def bundle_session_def alice_session_def Let_def case_prod_beta
        session_state_set_alice_base_key_def session_state_set_remote_registration_id_def
        session_state_set_local_registration_id_def session_state_set_unacknowledged_pre_key_message_def)
qed

context protocol_store
begin

lemma process_bundle_ok:
  fixes ctx :: "'c signal_context"
  assumes laws: "hmac_laws ctx H" "curve_laws ctx DH" "random_laws ctx" and b: "good_bundle ctx bundle"
    and builder: "builder_store builder = store" "builder_global_context builder = ctx"
      "builder_remote_address builder = a" 
    and trusted: "sv_identities v (identity_key a) \<in> {None, Some (DJB_TYPE # the (bundle_identity_key bundle))}"
    and our: "sv_identity_pair v = (DJB_TYPE # id_public_key our, id_private_key our)" "wf_identity_pair our"
    and r: "loads_record (sv_sessions v (session_key a)) r"
  shows "hoare (at_view ready view v) (session_builder_process_pre_key_bundle builder bundle :: ('c, 's, _) M)
    (\<lambda>_ s. \<exists>base kp. key_pair_of DH base \<and> key_pair_of DH kp \<and> at_view ready view
      (v\<lparr>sv_sessions := (sv_sessions v)(session_key a \<mapsto> record_bytes ((archived r)\<lparr>record_state :=
             Some (bundle_session H DH bundle our (sv_registration_id v) base kp)\<rparr>)),
         sv_identities := (sv_identities v)(identity_key a \<mapsto> DJB_TYPE # the (bundle_identity_key bundle))\<rparr>) s)"
proof -
  obtain ident spk where i: "bundle_identity_key bundle = Some ident" "bundle_signed_pre_key bundle = Some spk"
    using b by (auto simp: good_bundle_def)
  have opk: "(case bundle_pre_key bundle of None \<Rightarrow> None | Some _ \<Rightarrow> Some (bundle_pre_key_id bundle)) =
      map_option (\<lambda>_. bundle_pre_key_id bundle) (bundle_pre_key bundle)" by (cases "bundle_pre_key bundle") auto
  have create: "yields (alice_signal_protocol_parameters_create (Some our) (Some base) (Some ident) (Some spk)
      (bundle_pre_key bundle) (Some spk) :: ('c, 's, _) M) (bundle_parameters bundle our base)" for base
    unfolding alice_signal_protocol_parameters_create_def
    by (simp, rule yields_thenE [OF yields_alloc], rule yields_cong [OF yields_returnE])
       (simp add: bundle_parameters_def i)
  note ok = bundle_session_ok [OF laws(1,2) b our(2)]
  have wf: "wf_session_record ((archived r)\<lparr>record_state := Some (bundle_session H DH bundle our reg base kp)\<rparr>)"
    if "key_pair_of DH base" "key_pair_of DH kp" for reg base kp
    by (rule archived_simps(2) [OF r]) (use ok [OF that] in \<open>simp add: can_send_def\<close>)
  show ?thesis
    unfolding session_builder_process_pre_key_bundle_def Let_def builder i option.case opk
    apply (rule hoare_bind_at [OF is_trusted_ok], rule hoare_guardE, use trusted i in force)
    apply (rule hoare_then_yields [OF yields_verify_bundle [OF b i(2)]])
    apply (rule hoare_bind_at [OF load_session_ok [OF r]])
    apply (rule hoare_bind_ensures [OF ensures_curve_generate_key_pair [OF laws(2,3)]])
    apply (rule hoare_bind_at [OF get_key_pair_ok [OF our]])
    apply (rule hoare_bind_yields [OF create])
    apply (rule hoare_bind_yields [OF yields_archive [OF r]], simp only: archived_simps(1) [OF r])
    apply (rule hoare_bind_yields [OF yields_derefE])
    apply (rule hoare_bind_ensures [OF ensures_alice_initialize [OF laws]], erule wf_bundle_parameters [OF laws(2) b our(2)], clarify)
    apply (rule hoare_bind_at [OF get_registration_id_ok])
    apply (rule hoare_then_at [OF store_session_ok])
    apply (rule wf [unfolded bundle_session_def], assumption+)
    apply (rule hoare_then_at [OF save_identity_ok], rule hoare_returnE)
    apply (auto simp: bundle_session_def)
    done
qed

end

section \<open>The session of the reader of the first message\<close>

definition received_parameters ::
    "ratchet_identity_key_pair \<Rightarrow> ec_key_pair \<Rightarrow> ec_key_pair option \<Rightarrow> pre_key_signal_message
      \<Rightarrow> bob_signal_protocol_parameters" where
  "received_parameters our spk opk m =
     \<lparr>bob_our_identity_key = our, bob_our_signed_pre_key = spk, bob_our_one_time_pre_key = opk,
      bob_our_ratchet_key = spk, bob_their_identity_key = pkm_identity_key m, bob_their_base_key = pkm_base_key m\<rparr>"

definition received_session ::
    "(bytes \<Rightarrow> bytes \<Rightarrow> bytes) \<Rightarrow> (bytes \<Rightarrow> bytes \<Rightarrow> bytes) \<Rightarrow> bob_signal_protocol_parameters \<Rightarrow> 32 word
      \<Rightarrow> pre_key_signal_message \<Rightarrow> session_state" where
  "received_session H DH p reg m =
     session_state_set_alice_base_key
      (session_state_set_remote_registration_id
        (session_state_set_local_registration_id (bob_session H DH empty_session_state p) reg)
        (pkm_registration_id m)) (pkm_base_key m)"

lemma wf_received_session:
  "hmac_laws ctx H \<Longrightarrow> wf_bob_parameters p \<Longrightarrow> wf_key (pkm_base_key m) \<Longrightarrow>
   wf_session_state (received_session H DH p reg m)"
  unfolding received_session_def by (intro wf_session_setters wf_bob_session)

lemma yields_no_session:
  assumes "wf_session_record r" and "wf_key base"
    and "\<And>st. st \<in> set_option (record_state r) \<union> set (previous_states r) \<Longrightarrow> alice_base_key st \<noteq> Some base"
  shows "yields (session_record_has_session_state r v (Some base)) False"
proof -
  obtain st where st: "record_state r = Some st" using assms(1) by (auto simp: wf_session_record_def)
  have "ec_public_key_compare (alice_base_key s) (Some base) \<noteq> 0" if "s \<in> insert st (set (previous_states r))" for s
  proof -
    have "wf_session_state s" using that assms(1) st by (auto simp: wf_session_record_def list_all_iff)
    then show ?thesis
      using that assms(2,3) st by (subst ec_public_key_compare_eq_0) (auto simp: wf_session_state_def)
  qed
  then show ?thesis
    unfolding session_record_has_session_state_def st Let_def
    by (intro yields_bindE [OF yields_derefE] yields_cong [OF yields_returnE]) (auto simp: list_ex_iff)
qed

text \<open>The pre keys that a message names are stored.\<close>

definition stored_keys ::
    "('k, 'n) store_view \<Rightarrow> pre_key_signal_message \<Rightarrow> session_signed_pre_key \<Rightarrow> session_pre_key option \<Rightarrow> bool" where
  "stored_keys v m spk opk =
     (sv_signed_pre_keys v (pkm_signed_pre_key_id m) = Some (signed_pre_key_bytes spk) \<and> wf_signed_pre_key spk \<and>
      rel_option (\<lambda>i pk. sv_pre_keys v i = Some (pre_key_bytes pk) \<and> wf_pre_key pk) (pkm_pre_key_id m) opk)"

definition removed_id :: "pre_key_signal_message \<Rightarrow> 32 word option" where
  "removed_id m =
     (case pkm_pre_key_id m of None \<Rightarrow> None | Some i \<Rightarrow> if i \<noteq> PRE_KEY_MEDIUM_MAX_VALUE then Some i else None)"

context protocol_store
begin

lemma load_one_time_key:
  assumes "stored_keys v m spk opk"
  shows "hoare (at_view ready view v) (optE (signal_protocol_pre_key_load_key store) (pkm_pre_key_id m))
    (\<lambda>x s. x = opk \<and> at_view ready view v s)"
proof (cases opk)
  case None
  then show ?thesis using assms by (auto simp: stored_keys_def optE_def option_rel_Some2 hoare_return_at)
next
  case (Some pk)
  then obtain i where i: "pkm_pre_key_id m = Some i" "sv_pre_keys v i = Some (pre_key_bytes pk)" "wf_pre_key pk"
    using assms by (auto simp: stored_keys_def option_rel_Some2)
  show ?thesis
    unfolding i(1) optE_def option.case Some
    by (rule hoare_bind_at [OF load_pre_key_ok [OF i(2,3)]], rule hoare_return_at)
qed

lemma process_message_ok:
  fixes ctx :: "'c signal_context"
  assumes laws: "hmac_laws ctx H" "curve_laws ctx DH"
    and builder: "builder_store builder = store" "builder_global_context builder = ctx"
      "builder_remote_address builder = a"
    and m: "wf_key (pkm_identity_key m)" "wf_key (pkm_base_key m)" and keys: "stored_keys v m spk opk"
    and trusted: "sv_identities v (identity_key a) \<in> {None, Some (DJB_TYPE # pkm_identity_key m)}"
    and our: "sv_identity_pair v = (DJB_TYPE # id_public_key our, id_private_key our)" "wf_identity_pair our"
    and r: "loads_record (sv_sessions v (session_key a)) r"
    and new: "\<And>st. st \<in> set_option (record_state r) \<union> set (previous_states r) \<Longrightarrow> alice_base_key st \<noteq> Some (pkm_base_key m)"
    and p: "p = received_parameters our (signed_pre_key_pair spk) (map_option pre_key_pair opk) m"
  shows "hoare (at_view ready view v) (session_builder_process_pre_key_signal_message builder r m :: ('c, 's, _) M)
    (\<lambda>x s. x = ((archived r)\<lparr>record_state := Some (received_session H DH p (sv_registration_id v) m)\<rparr>, removed_id m) \<and>
      at_view ready view (v\<lparr>sv_identities := (sv_identities v)(identity_key a \<mapsto> DJB_TYPE # pkm_identity_key m)\<rparr>) s)"
proof -
  have spk: "sv_signed_pre_keys v (pkm_signed_pre_key_id m) = Some (signed_pre_key_bytes spk)" "wf_signed_pre_key spk"
    using keys by (auto simp: stored_keys_def)
  have opk: "pred_option wf_pre_key opk" using keys by (auto simp: stored_keys_def option_rel_Some2 split: option.splits
    elim: option.rel_cases)
  have wfp: "wf_bob_parameters p"
    using our(2) spk(2) opk m
    by (auto simp: p received_parameters_def wf_bob_parameters_def wf_signed_pre_key_def option.pred_map comp_def
        wf_pre_key_def elim!: option.pred_mono_strong)
  have create: "yields (bob_signal_protocol_parameters_create (Some our) (Some (signed_pre_key_pair spk))
      (map_option pre_key_pair opk) (Some (signed_pre_key_pair spk)) (Some (pkm_identity_key m))
      (Some (pkm_base_key m)) :: ('c, 's, _) M) p"
    unfolding bob_signal_protocol_parameters_create_def
    by (simp, rule yields_thenE [OF yields_alloc], rule yields_cong [OF yields_returnE])
       (simp add: p received_parameters_def)
  have v3: "hoare (at_view ready view v) (session_builder_process_pre_key_signal_message_v3 builder r m)
      (\<lambda>x s. x = ((archived r)\<lparr>record_state := Some (received_session H DH p (sv_registration_id v) m)\<rparr>, removed_id m) \<and>
        at_view ready view v s)"
    unfolding session_builder_process_pre_key_signal_message_v3_def builder Let_def
    apply (rule hoare_bind_yields [OF yields_no_session [OF loads_record_wf [OF r] m(2) new]], assumption, simp only: if_False)
    apply (rule hoare_bind_at [OF load_signed_pre_key_ok [OF spk]])
    apply (rule hoare_bind_at [OF get_key_pair_ok [OF our]])
    apply (rule hoare_bind_at [OF load_one_time_key [OF keys]])
    apply (rule hoare_bind_yields [OF create])
    apply (rule hoare_bind_yields [OF yields_archive [OF r]], simp only: archived_simps(1) [OF r])
    apply (rule hoare_bind_yields [OF yields_derefE])
    apply (rule hoare_bind_yields [OF yields_bob_initialize [OF laws wfp]])
    apply (rule hoare_bind_at [OF get_registration_id_ok], rule hoare_returnE)
    apply (simp add: received_session_def removed_id_def)
    done
  show ?thesis
    unfolding session_builder_process_pre_key_signal_message_def builder
    apply (rule hoare_bind_at [OF is_trusted_ok], rule hoare_guardE, use trusted in force)
    apply (rule hoare_bind_at [OF v3], simp only: prod.case)
    apply (rule hoare_then_at [OF save_identity_ok], rule hoare_return_at)
    done
qed

text \<open>An identity that differs from the known one is refused before anything else is done.\<close>

lemma process_message_untrusted:
  assumes builder: "builder_store builder = store" "builder_remote_address builder = a"
    and "sv_identities v (identity_key a) = Some k" and "k \<noteq> DJB_TYPE # pkm_identity_key m"
  shows "rejects (at_view ready view v) (session_builder_process_pre_key_signal_message builder r m)
    SG_ERR_UNTRUSTED_IDENTITY (at_view ready view v)"
  unfolding session_builder_process_pre_key_signal_message_def builder
  by (rule rejects_bind_at [OF is_trusted_ok], rule rejects_guardE) (use assms(3,4) in simp)

lemma process_bundle_untrusted:
  assumes builder: "builder_store builder = store" "builder_remote_address builder = a"
    and "sv_identities v (identity_key a) = Some k" and "bundle_identity_key bundle = Some ident" and "k \<noteq> DJB_TYPE # ident"
  shows "rejects (at_view ready view v) (session_builder_process_pre_key_bundle builder bundle)
    SG_ERR_UNTRUSTED_IDENTITY (at_view ready view v)"
  unfolding session_builder_process_pre_key_bundle_def Let_def builder assms(4)
  by (rule rejects_bind_at [OF is_trusted_ok], rule rejects_guardE) (use assms(3,5) in simp)

lemma process_bundle_bad_signature:
  fixes ctx :: "'c signal_context"
  assumes builder: "builder_store builder = store" "builder_remote_address builder = a" "builder_global_context builder = ctx"
    and "sv_identities v (identity_key a) \<in> {None, Some (DJB_TYPE # ident)}" and "bundle_identity_key bundle = Some ident"
    and "bundle_signed_pre_key bundle = Some spk" and "bundle_signed_pre_key_signature bundle = Some sig" and "length sig = 64"
    and "curve25519_verify (curve25519 ctx) sig ident (DJB_TYPE # spk) \<noteq> 0"
  shows "rejects (at_view ready view v) (session_builder_process_pre_key_bundle builder bundle :: ('c, 's, _) M)
    SG_ERR_INVALID_KEY (at_view ready view v)"
proof -
  have "fails (verify_bundle_signature ctx bundle spk :: ('c, 's, _) M) SG_ERR_INVALID_KEY"
    unfolding verify_bundle_signature_def assms(5,7)
    by (rule fails_bind_yields [OF yields_ec_public_key_serialize], rule fails_bind_yields [OF yields_derefE],
        rule fails_bind_yields [OF yields_curve_verify_signature [OF assms(8)]]) (simp add: assms(9) fails_guardE)
  then show ?thesis
    unfolding session_builder_process_pre_key_bundle_def Let_def builder assms(5,6) option.case
    by (rule_tac rejects_bind_at [OF is_trusted_ok], rule_tac rejects_then_at [OF hoare_yields [OF yields_guardE]])
       (use assms(4) in \<open>force intro: rejects_thenE rejects_fails\<close>)+
qed

lemma decrypt_first:
  fixes ctx :: "'c signal_context"
  assumes laws: "hmac_laws ctx H" "curve_laws ctx DH"
    and c: "cipher_store c = store" "cipher_global_context c = ctx" "\<not> inside_callback c" "cipher_remote_address c = a"
      "cipher_builder c = \<lparr>builder_store = store, builder_remote_address = a, builder_global_context = ctx\<rparr>"
    and callback: "\<And>t v. hoare (at_view ready view v) (session_cipher_decrypt_callback c t :: ('c, 's, _) M)
      (\<lambda>_. at_view ready view v)"
    and m: "wf_key (pkm_identity_key m)" "wf_key (pkm_base_key m)" and keys: "stored_keys v m spk opk"
    and trusted: "sv_identities v (identity_key a) \<in> {None, Some (DJB_TYPE # pkm_identity_key m)}"
    and our: "sv_identity_pair v = (DJB_TYPE # id_public_key our, id_private_key our)" "wf_identity_pair our"
    and r: "loads_record (sv_sessions v (session_key a)) r"
    and new: "\<And>st. st \<in> set_option (record_state r) \<union> set (previous_states r) \<Longrightarrow> alice_base_key st \<noteq> Some (pkm_base_key m)"
    and p: "p = received_parameters our (signed_pre_key_pair spk) (map_option pre_key_pair opk) m" "wf_bob_parameters p"
    and read: "ensures (session_cipher_decrypt_from_state_and_signal_message ctx
        (received_session H DH p (sv_registration_id v) m) (pkm_message m) :: ('c, 's, _) M)
      (\<lambda>(t, st'). P t st' \<and> wf_session_state st')"
  shows "hoare (at_view ready view v) (session_cipher_decrypt_pre_key_signal_message c m :: ('c, 's, _) M)
    (\<lambda>t s. \<exists>st'. P t st' \<and> at_view ready view
      (v\<lparr>sv_identities := (sv_identities v)(identity_key a \<mapsto> DJB_TYPE # pkm_identity_key m),
         sv_sessions := (sv_sessions v)(session_key a \<mapsto> record_bytes ((archived r)\<lparr>record_state := Some st'\<rparr>)),
         sv_pre_keys := (case removed_id m of None \<Rightarrow> sv_pre_keys v | Some i \<Rightarrow> (sv_pre_keys v)(i := None))\<rparr>) s)"
proof -
  let ?st = "received_session H DH p (sv_registration_id v) m"
  let ?r = "(archived r)\<lparr>record_state := Some ?st\<rparr>"
  let ?v = "v\<lparr>sv_identities := (sv_identities v)(identity_key a \<mapsto> DJB_TYPE # pkm_identity_key m)\<rparr>"
  have wf: "wf_session_record ?r"
    by (rule archived_simps(2) [OF r wf_received_session [OF laws(1) p(2) m(2)]])
  have wf': "wf_session_record (?r\<lparr>record_state := Some st'\<rparr>)" if "wf_session_state st'" for st'
    using archived_simps(2) [OF r that] by simp
  have process: "hoare (at_view ready view v)
      (session_builder_process_pre_key_signal_message (cipher_builder c) r m :: ('c, 's, _) M)
      (\<lambda>x s. x = (?r, removed_id m) \<and> at_view ready view ?v s)"
    by (rule process_message_ok [OF laws _ _ _ m keys trusted our r new p(1)]) (auto simp: c)
  have remove: "hoare (at_view ready view v') (case removed_id m of None \<Rightarrow> returnE 0
        | Some i \<Rightarrow> signal_protocol_pre_key_remove_key store i)
      (\<lambda>x s. x = 0 \<and> at_view ready view (v'\<lparr>sv_pre_keys := (case removed_id m of None \<Rightarrow> sv_pre_keys v'
        | Some i \<Rightarrow> (sv_pre_keys v')(i := None))\<rparr>) s)" for v'
    using remove_pre_key_ok by (cases "removed_id m") (simp_all add: hoare_return_at)
  show ?thesis
    unfolding session_cipher_decrypt_pre_key_signal_message_def c(1,2,4)
    apply (rule hoare_guardE [OF c(3)])
    apply (rule hoare_bind_at [OF load_session_ok [OF r]])
    apply (rule hoare_bind_at [OF process], simp only: prod.case)
    apply (rule hoare_bind_ensures [OF ensures_decrypt_current [OF wf _ read]], simp, clarify)
    apply (rule hoare_thenE [OF callback])
    apply (rule hoare_then_at [OF store_session_ok [OF wf']], assumption)
    apply (rule hoare_then_at [OF remove], rule hoare_returnE)
    apply (rule exI, rule conjI, assumption, simp cong: option.case_cong)
    done
qed

text \<open>When the message of the new session cannot be read, no session is stored and the one-time pre key is
  kept; the identity of the sender has been stored by then.\<close>

lemma decrypt_first_rejected:
  fixes ctx :: "'c signal_context"
  assumes laws: "hmac_laws ctx H" "curve_laws ctx DH"
    and c: "cipher_store c = store" "cipher_global_context c = ctx" "\<not> inside_callback c" "cipher_remote_address c = a"
      "cipher_builder c = \<lparr>builder_store = store, builder_remote_address = a, builder_global_context = ctx\<rparr>"
    and m: "wf_key (pkm_identity_key m)" "wf_key (pkm_base_key m)" and keys: "stored_keys v m spk opk"
    and trusted: "sv_identities v (identity_key a) \<in> {None, Some (DJB_TYPE # pkm_identity_key m)}"
    and our: "sv_identity_pair v = (DJB_TYPE # id_public_key our, id_private_key our)" "wf_identity_pair our"
    and r: "loads_record (sv_sessions v (session_key a)) r"
    and new: "\<And>st. st \<in> set_option (record_state r) \<union> set (previous_states r) \<Longrightarrow> alice_base_key st \<noteq> Some (pkm_base_key m)"
    and p: "p = received_parameters our (signed_pre_key_pair spk) (map_option pre_key_pair opk) m"
    and bad: "fails (session_cipher_decrypt_from_record_and_signal_message ctx
        ((archived r)\<lparr>record_state := Some (received_session H DH p (sv_registration_id v) m)\<rparr>) (pkm_message m)
        :: ('c, 's, _) M) e"
  shows "rejects (at_view ready view v) (session_cipher_decrypt_pre_key_signal_message c m :: ('c, 's, _) M) e
    (at_view ready view (v\<lparr>sv_identities := (sv_identities v)(identity_key a \<mapsto> DJB_TYPE # pkm_identity_key m)\<rparr>))"
proof -
  let ?r = "(archived r)\<lparr>record_state := Some (received_session H DH p (sv_registration_id v) m)\<rparr>"
  let ?v = "v\<lparr>sv_identities := (sv_identities v)(identity_key a \<mapsto> DJB_TYPE # pkm_identity_key m)\<rparr>"
  have process: "hoare (at_view ready view v)
      (session_builder_process_pre_key_signal_message (cipher_builder c) r m :: ('c, 's, _) M)
      (\<lambda>x s. x = (?r, removed_id m) \<and> at_view ready view ?v s)"
    by (rule process_message_ok [OF laws _ _ _ m keys trusted our r new p]) (auto simp: c)
  show ?thesis
    unfolding session_cipher_decrypt_pre_key_signal_message_def c(1,2,4)
    by (rule rejects_then_at [OF hoare_yields [OF yields_guardE [OF c(3)]]],
        rule rejects_bind_at [OF load_session_ok [OF r]], rule rejects_bind_at [OF process], simp only: prod.case,
        rule rejects_bindE [OF rejects_fails [OF bad]])
qed

end

section \<open>The first message\<close>

text \<open>The states of both sides follow each other once the bundle belongs to the stored keys.\<close>

lemma follows_bundle:
  assumes laws: "hmac_laws ctx H" "curve_laws ctx DH" and b: "good_bundle ctx' bundle" and ours: "wf_identity_pair ia"
    and match: "matching DH (bundle_parameters bundle ia base) p" and kp: "key_pair_of DH kp"
    and m: "wf_key (pkm_base_key m)" and base: "key_pair_of DH base"
  shows "follows H DH (bundle_session H DH bundle ia ra base kp) 0 (received_session H DH p rb m)"
    and "follows H DH (received_session H DH p rb m) 0 (bundle_session H DH bundle ia ra base kp)"
proof -
  let ?a0 = "alice_session H DH empty_session_state (bundle_parameters bundle ia base) kp"
  let ?b0 = "bob_session H DH empty_session_state p"
  note f0 = follows_alice [OF laws match kp refl refl]
  have "can_send ?b0" using f0 by (simp add: follows_def)
  moreover have "wf_session_state (received_session H DH p rb m)"
    by (rule wf_received_session [OF laws(1) matching_wf(2) [OF laws(2) match] m])
  ultimately have b': "can_send (received_session H DH p rb m)"
    by (auto simp: can_send_def received_session_def session_state_set_alice_base_key_def
        session_state_set_remote_registration_id_def session_state_set_local_registration_id_def)
  have f1: "follows H DH (received_session H DH p rb m) 0 ?a0" "follows H DH ?a0 0 (received_session H DH p rb m)"
    by (rule follows_same [OF f0(2,1) b', THEN conjunct1] follows_same [OF f0(2,1) b', THEN conjunct2];
        simp add: received_session_def session_state_set_alice_base_key_def
        session_state_set_remote_registration_id_def session_state_set_local_registration_id_def)+
  have "follows H DH (bundle_session H DH bundle ia ra base kp) 0 (received_session H DH p rb m) \<and>
      follows H DH (received_session H DH p rb m) 0 (bundle_session H DH bundle ia ra base kp)"
    by (rule follows_same [OF f1(2,1) bundle_session_ok [OF laws b ours base kp]])
       (simp_all add: bundle_session_def session_state_set_alice_base_key_def
        session_state_set_unacknowledged_pre_key_message_def
        session_state_set_remote_registration_id_def session_state_set_local_registration_id_def)
  then show "follows H DH (bundle_session H DH bundle ia ra base kp) 0 (received_session H DH p rb m)"
    and "follows H DH (received_session H DH p rb m) 0 (bundle_session H DH bundle ia ra base kp)" by auto
qed

text \<open>A bundle has the public parts of the keys of the store that it comes from.\<close>

definition published ::
    "'c signal_context \<Rightarrow> session_pre_key_bundle \<Rightarrow> ratchet_identity_key_pair \<Rightarrow> session_signed_pre_key
      \<Rightarrow> session_pre_key option \<Rightarrow> bool" where
  "published ctx bundle ident spk opk =
     (bundle_identity_key bundle = Some (id_public_key ident) \<and>
      bundle_signed_pre_key_id bundle = signed_pre_key_id spk \<and>
      bundle_signed_pre_key bundle = Some (public_key (signed_pre_key_pair spk)) \<and>
      bundle_signed_pre_key_signature bundle = Some (signed_pre_key_signature spk) \<and>
      length (signed_pre_key_signature spk) = 64 \<and>
      curve25519_verify (curve25519 ctx) (signed_pre_key_signature spk) (id_public_key ident)
        (DJB_TYPE # public_key (signed_pre_key_pair spk)) = 0 \<and>
      bundle_pre_key bundle = map_option (\<lambda>pk. public_key (pre_key_pair pk)) opk \<and>
      pred_option (\<lambda>pk. bundle_pre_key_id bundle = pre_key_id pk) opk)"

text \<open>The data of a store: the identity keys, the peer as it is known, and the pre keys.\<close>

definition own_identity :: "test_store \<Rightarrow> ratchet_identity_key_pair \<Rightarrow> bool" where
  "own_identity s ident =
     (test_identity_key_public s = DJB_TYPE # id_public_key ident \<and> test_identity_key_private s = id_private_key ident)"

definition accepts_identity :: "test_store \<Rightarrow> signal_protocol_address \<Rightarrow> ec_public_key \<Rightarrow> bool" where
  "accepts_identity s a k =
     (map_of (test_identities s) (jenkins_hash (address_name a)) \<in> {None, Some (DJB_TYPE # k)})"

definition holds_pre_keys :: "test_store \<Rightarrow> session_signed_pre_key \<Rightarrow> session_pre_key option \<Rightarrow> bool" where
  "holds_pre_keys s spk opk =
     (map_of (test_signed_pre_keys s) (signed_pre_key_id spk) = Some (signed_pre_key_bytes spk) \<and> wf_signed_pre_key spk \<and>
      pred_option (\<lambda>pk. map_of (test_pre_keys s) (pre_key_id pk) = Some (pre_key_bytes pk) \<and> wf_pre_key pk) opk)"

definition pre_key_pairs :: "(bytes \<Rightarrow> bytes \<Rightarrow> bytes) \<Rightarrow> session_signed_pre_key \<Rightarrow> session_pre_key option \<Rightarrow> bool" where
  "pre_key_pairs DH spk opk =
     (key_pair_of DH (signed_pre_key_pair spk) \<and> pred_option (\<lambda>pk. key_pair_of DH (pre_key_pair pk)) opk)"

lemma published_good:
  assumes "curve_laws ctx DH" and "published ctx bundle ib spk opk" and "identity_pair_of DH ib" and "pre_key_pairs DH spk opk"
  shows "good_bundle ctx bundle"
  using assms key_pair_of_wf [OF assms(1)]
  by (auto simp: good_bundle_def published_def pre_key_pairs_def identity_pair_of_def clamped_def curve_laws_wf
      option.pred_map comp_def elim!: option.pred_mono_strong)

lemma matching_bundle:
  assumes "published ctx bundle ib spk opk" and "identity_pair_of DH ia" and "identity_pair_of DH ib"
    and "pre_key_pairs DH spk opk" and "key_pair_of DH base"
    and "pkm_identity_key m = id_public_key ia" and "pkm_base_key m = public_key base"
  shows "matching DH (bundle_parameters bundle ia base)
    (received_parameters ib (signed_pre_key_pair spk) (map_option pre_key_pair opk) m)"
  using assms
  by (auto simp: matching_def bundle_parameters_def received_parameters_def published_def pre_key_pairs_def
      option.pred_map option.map_comp comp_def)

text \<open>The message that the sender of the first message sends, from the state that the builder has stored.\<close>

definition first_message ::
    "(bytes \<Rightarrow> bytes \<Rightarrow> bytes) \<Rightarrow> (int \<Rightarrow> bytes \<Rightarrow> bytes \<Rightarrow> bytes \<Rightarrow> bytes) \<Rightarrow> session_pre_key_bundle \<Rightarrow> session_state
      \<Rightarrow> ratchet_identity_key_pair \<Rightarrow> 32 word \<Rightarrow> ec_key_pair \<Rightarrow> bytes \<Rightarrow> pre_key_signal_message" where
  "first_message H E bundle st ia reg base p =
     pre_key_message_of reg (map_option (\<lambda>_. bundle_pre_key_id bundle) (bundle_pre_key bundle))
       (bundle_signed_pre_key_id bundle) (public_key base) (id_public_key ia) (sent_message H E st p)"

lemma sent_first_message:
  assumes "st = bundle_session H DH bundle ia reg base kp"
  shows "sent_envelope H E st p = Pre_Key_Signal_Message (first_message H E bundle st ia reg base p)"
proof -
  have st: "has_pending_pre_key st" "local_registration_id st = reg" "local_identity_public st = Some (id_public_key ia)"
      "pending_pre_key st = \<lparr>has_pre_key_id = (bundle_pre_key bundle \<noteq> None),
         pending_pre_key_id = (case bundle_pre_key bundle of None \<Rightarrow> 0 | Some _ \<Rightarrow> bundle_pre_key_id bundle),
         pending_signed_pre_key_id = bundle_signed_pre_key_id bundle, pending_base_key = Some (public_key base)\<rparr>"
    by (auto simp: assms bundle_session_def alice_session_def bundle_parameters_def Let_def case_prod_beta
        session_state_set_alice_base_key_def session_state_set_remote_registration_id_def
        session_state_set_local_registration_id_def session_state_set_unacknowledged_pre_key_message_def
        split: option.splits)
  show ?thesis
    by (cases "bundle_pre_key bundle") (simp_all add: sent_envelope_def st first_message_def Let_def)
qed

lemma yields_cipher_create:
  "yields (session_cipher_create store a ctx) \<lparr>cipher_store = store, cipher_remote_address = a,
     cipher_builder = \<lparr>builder_store = store, builder_remote_address = a, builder_global_context = ctx\<rparr>,
     cipher_global_context = ctx, decrypt_callback = None, inside_callback = False\<rparr>"
  unfolding session_cipher_create_def session_builder_create_def
  by (rule yields_bindE [OF yields_thenE [OF yields_alloc yields_returnE]], rule yields_thenE [OF yields_alloc yields_returnE])

lemma first_message_simps:
  "pkm_identity_key (first_message H E bundle st ia reg base p) = id_public_key ia"
  "pkm_base_key (first_message H E bundle st ia reg base p) = public_key base"
  "pkm_message (first_message H E bundle st ia reg base p) = sent_message H E st p"
  "pkm_signed_pre_key_id (first_message H E bundle st ia reg base p) = bundle_signed_pre_key_id bundle"
  "pkm_pre_key_id (first_message H E bundle st ia reg base p) =
     map_option (\<lambda>_. bundle_pre_key_id bundle) (bundle_pre_key bundle)"
  by (simp_all add: first_message_def pre_key_message_of_def)

context protocol_store
begin

lemma send_first_message:
  assumes laws: "hmac_laws ctx H" "cipher_laws ctx E" and st: "st = bundle_session H DH bundle ia reg base kp" "can_send st"
    and r: "sv_sessions v (session_key a) = Some (record_bytes r)" "wf_session_record r" "record_state r = Some st"
    and p: "length p \<le> 2 ^ 24 - 16"
  shows "hoare (at_view ready view v) (bindE (session_cipher_create store a ctx) (\<lambda>c. session_cipher_encrypt c p))
    (\<lambda>e s. e = Pre_Key_Signal_Message (first_message H E bundle st ia reg base p) \<and> at_view ready view
      (v\<lparr>sv_sessions := (sv_sessions v)(session_key a \<mapsto>
         record_bytes (r\<lparr>is_fresh := False, record_state := Some (sent_state H st)\<rparr>))\<rparr>) s)"
  by (rule hoare_bind_yields [OF yields_cipher_create], rule hoare_post, rule encrypt_stored [OF laws _ _ _ _ _ st(2) p])
     (use r(3) loads_record_stored [OF r(2)] in \<open>auto simp: r(1) sent_first_message [OF st(1)]\<close>)

lemma read_first_message:
  fixes ctx :: "'c signal_context"
  assumes laws: "hmac_laws ctx H" "cipher_laws ctx E" "curve_laws ctx DH" "random_laws ctx"
    and st: "st = bundle_session H DH bundle ia reg base kp" "good_bundle ctx' bundle" "key_pair_of DH base" "key_pair_of DH kp"
    and ids: "identity_pair_of DH ia" "identity_pair_of DH ib" and pairs: "pre_key_pairs DH spk opk"
    and pub: "published ctx' bundle ib spk opk"
    and m: "m = first_message H E bundle st ia reg base p" and p: "length p \<le> 2 ^ 24 - 16"
    and keys: "stored_keys v m spk opk" and none: "sv_sessions v (session_key a) = None"
    and trusted: "sv_identities v (identity_key a) \<in> {None, Some (DJB_TYPE # id_public_key ia)}"
    and our: "sv_identity_pair v = (DJB_TYPE # id_public_key ib, id_private_key ib)"
  shows "hoare (at_view ready view v) (bindE (pre_key_signal_message_deserialize (pkm_serialized m)) (\<lambda>m'.
      bindE (session_cipher_create store a ctx) (\<lambda>c. session_cipher_decrypt_pre_key_signal_message c m')) :: ('c, 's, _) M)
    (\<lambda>t s. t = Some p \<and> (\<exists>st'. follows H DH (sent_state H st) 0 st' \<and> at_view ready view
      (v\<lparr>sv_identities := (sv_identities v)(identity_key a \<mapsto> DJB_TYPE # id_public_key ia),
         sv_sessions := (sv_sessions v)(session_key a \<mapsto> record_bytes (fresh_record\<lparr>record_state := Some st'\<rparr>)),
         sv_pre_keys := (case removed_id m of None \<Rightarrow> sv_pre_keys v | Some i \<Rightarrow> (sv_pre_keys v)(i := None))\<rparr>) s))"
proof -
  let ?p = "received_parameters ib (signed_pre_key_pair spk) (map_option pre_key_pair opk) m"
  let ?b = "received_session H DH ?p (sv_registration_id v) m"
  note ms = first_message_simps [of H E "bundle" st ia reg base p, folded m]
  have keyia: "wf_key (id_public_key ia)" and base: "wf_key (public_key base)" and wfib: "wf_identity_pair ib" "wf_identity_pair ia"
    using ids key_pair_of_wf [OF laws(3) st(3)]
    by (auto simp: identity_pair_of_def wf_identity_pair_def curve_laws_wf [OF laws(3)])
  have match: "matching DH (bundle_parameters bundle ia base) ?p"
    by (rule matching_bundle [OF pub ids pairs st(3)]) (simp_all add: ms)
  note wfp = matching_wf(2) [OF laws(3) match]
  have bm: "wf_key (pkm_base_key m)" using base by (simp add: ms)
  note f = follows_bundle [OF laws(1,3) st(2) wfib(2) match st(4) bm st(3), where ra = reg and rb = "sv_registration_id v",
    folded st(1)]
  have "session_version ?b = 3"
    by (simp add: received_session_def bob_session_def case_prod_beta Let_def session_state_set_alice_base_key_def
        session_state_set_remote_registration_id_def session_state_set_local_registration_id_def)
  with f(1) have send: "can_send st" "session_version st = 3" by (simp_all add: follows_def)
  have inner: "wf_inner_message (sent_message H E st p)"
    unfolding sent_message_def by (rule wf_chain_message(2) [OF laws(1,2) _ can_send_facts(4) [OF send(1)] p]) (simp_all add: send(2))
  have wf: "wf_session_state y" if "follows H DH x 0 y" for x y using that by (simp add: follows_def can_send_def)
  have read: "ensures (session_cipher_decrypt_from_state_and_signal_message ctx ?b (pkm_message m) :: ('c, 's, _) M)
      (\<lambda>(t, st'). (t = Some p \<and> follows H DH (sent_state H st) 0 st') \<and> wf_session_state st')"
    unfolding ms(3)
    by (rule ensures_mono [OF ensures_read_next [OF laws f]]) (simp, blast dest: wf)
  have new: "alice_base_key x \<noteq> Some k" if "x \<in> set_option (record_state fresh_record) \<union> set (previous_states fresh_record)" for x k
    using that by (auto simp: fresh_record_def empty_session_state_def)
  have loads: "loads_record (sv_sessions v (session_key a)) fresh_record" by (simp add: none loads_record_def)
  show ?thesis
    apply (rule hoare_bind_yields)
     apply (simp only: m first_message_def)
     apply (rule yields_pre_key_signal_message_deserialize [OF base keyia inner])
    apply (rule hoare_bind_yields [OF yields_cipher_create])
    apply (unfold first_message_def [symmetric], unfold m [symmetric])
    apply (rule hoare_post [OF decrypt_first [OF laws(1,3) _ _ _ _ _ _ _ _ keys _ our wfib(1) loads new refl wfp read]])
    apply (use trusted base keyia in \<open>auto simp: ms session_cipher_decrypt_callback_def hoare_returnE archived_def fresh_record_def\<close>)
    done
qed

end

lemma exchange_first_message:
  fixes ca :: "'a signal_context" and cb :: "'b signal_context"
  assumes a: "hmac_laws ca H" "cipher_laws ca E" "curve_laws ca DH" "random_laws ca"
    and b: "hmac_laws cb H" "cipher_laws cb E" "curve_laws cb DH" "random_laws cb"
    and ids: "identity_pair_of DH ia" "identity_pair_of DH ib" and pairs: "pre_key_pairs DH spk opk"
    and pub: "published ca bundle ib spk opk"
    and wa: "allocs wa = []" "test_ready (store_data wa)" "own_identity (store_data wa) ia"
      "accepts_identity (store_data wa) bob (id_public_key ib)"
      "loads_record (map_of (test_sessions (store_data wa)) (test_session_key bob)) ra"
    and wb: "allocs wb = []" "test_ready (store_data wb)" "own_identity (store_data wb) ib"
      "accepts_identity (store_data wb) alice (id_public_key ia)"
      "map_of (test_sessions (store_data wb)) (test_session_key alice) = None" "holds_pre_keys (store_data wb) spk opk"
    and p: "length p \<le> 2 ^ 24 - 16"
  shows "\<exists>wa1 wa2 m wb'.
    session_builder_process_pre_key_bundle
      \<lparr>builder_store = setup_test_store_context, builder_remote_address = bob, builder_global_context = ca\<rparr> bundle wa
      = (Ok (), wa1) \<and>
    bindE (session_cipher_create setup_test_store_context bob ca) (\<lambda>c. session_cipher_encrypt c p) wa1
      = (Ok (Pre_Key_Signal_Message m), wa2) \<and>
    bindE (pre_key_signal_message_deserialize (pkm_serialized m)) (\<lambda>m'.
      bindE (session_cipher_create setup_test_store_context alice cb)
        (\<lambda>c. session_cipher_decrypt_pre_key_signal_message c m')) wb = (Ok (Some p), wb') \<and>
    pred_option (\<lambda>pk. pre_key_id pk \<noteq> PRE_KEY_MEDIUM_MAX_VALUE \<longrightarrow>
      map_of (test_pre_keys (store_data wb')) (pre_key_id pk) = None) opk \<and>
    map_of (test_identities (store_data wb')) (jenkins_hash (address_name alice)) = Some (DJB_TYPE # id_public_key ia)"
proof -
  let ?at = "at_view test_ready test_view" and ?va = "test_view (store_data wa)" and ?vb = "test_view (store_data wb)"
  let ?builder = "\<lparr>builder_store = setup_test_store_context, builder_remote_address = bob, builder_global_context = ca\<rparr>"
  have good: "good_bundle ca bundle" by (rule published_good [OF a(3) pub ids(2) pairs])
  have wf: "wf_identity_pair ia"
    using ids(1) by (auto simp: identity_pair_of_def wf_identity_pair_def curve_laws_wf [OF a(3)])
  have va: "sv_identity_pair ?va = (DJB_TYPE # id_public_key ia, id_private_key ia)" "sv_identities ?va = map_of (test_identities (store_data wa))"
    using wa(3) by (simp_all add: test_view_def own_identity_def)
  have ident: "the (bundle_identity_key bundle) = id_public_key ib" using pub by (simp add: published_def)
  obtain wa1 base kp where w1: "session_builder_process_pre_key_bundle ?builder bundle wa = (Ok (), wa1)"
    "allocs wa1 = []" "key_pair_of DH base" "key_pair_of DH kp"
    "?at (?va\<lparr>sv_sessions := (sv_sessions ?va)(test_session_key bob \<mapsto> record_bytes ((archived ra)\<lparr>record_state :=
             Some (bundle_session H DH bundle ia (sv_registration_id ?va) base kp)\<rparr>)),
         sv_identities := (sv_identities ?va)(jenkins_hash (address_name bob) \<mapsto> DJB_TYPE # id_public_key ib)\<rparr>) (store_data wa1)"
    by (rule hoareE [OF test_stores.process_bundle_ok [where builder = ?builder and a = bob and r = ra,
        OF a(1,3,4) good _ _ _ _ va(1) wf] wa(1)])
       (use wa(2,4,5) ident in \<open>auto simp: at_view_def accepts_identity_def va(2)\<close>)
  let ?st = "bundle_session H DH bundle ia (sv_registration_id ?va) base kp"
  have send: "can_send ?st" by (rule bundle_session_ok [OF a(1,3) good wf w1(3,4)])
  then have wfr: "wf_session_record ((archived ra)\<lparr>record_state := Some ?st\<rparr>)"
    by (intro archived_simps(2) [OF wa(5)]) (simp add: can_send_def)
  obtain wa2 where w2: "bindE (session_cipher_create setup_test_store_context bob ca) (\<lambda>c. session_cipher_encrypt c p) wa1
      = (Ok (Pre_Key_Signal_Message (first_message H E bundle ?st ia (sv_registration_id ?va) base p)), wa2)"
    by (rule hoareE [OF test_stores.send_first_message [OF a(1,2) refl send _ wfr _ p, where a = bob] w1(2,5)]) auto
  let ?m = "first_message H E bundle ?st ia (sv_registration_id ?va) base p"
  have keys: "stored_keys ?vb ?m spk opk"
    using wb(6) pub by (cases opk) (auto simp: stored_keys_def first_message_simps holds_pre_keys_def published_def)
  have vb: "sv_identity_pair ?vb = (DJB_TYPE # id_public_key ib, id_private_key ib)"
      "sv_identities ?vb (jenkins_hash (address_name alice)) \<in> {None, Some (DJB_TYPE # id_public_key ia)}"
      "sv_sessions ?vb (test_session_key alice) = None"
    using wb(3-5) by (auto simp: test_view_def own_identity_def accepts_identity_def)
  obtain wb' st' where w3: "bindE (pre_key_signal_message_deserialize (pkm_serialized ?m)) (\<lambda>m'.
      bindE (session_cipher_create setup_test_store_context alice cb)
        (\<lambda>c. session_cipher_decrypt_pre_key_signal_message c m')) wb = (Ok (Some p), wb')"
     "test_view (store_data wb') = ?vb\<lparr>sv_identities := (sv_identities ?vb)(jenkins_hash (address_name alice) \<mapsto> DJB_TYPE # id_public_key ia),
         sv_sessions := (sv_sessions ?vb)(test_session_key alice \<mapsto> record_bytes (fresh_record\<lparr>record_state := Some st'\<rparr>)),
         sv_pre_keys := (case removed_id ?m of None \<Rightarrow> sv_pre_keys ?vb | Some i \<Rightarrow> (sv_pre_keys ?vb)(i := None))\<rparr>"
    by (rule hoareE [OF test_stores.read_first_message [OF b refl good w1(3,4) ids pairs pub refl p keys vb(3,2,1)] wb(1)])
       (use wb(2) in \<open>auto simp: at_view_def\<close>)
  have "sv_pre_keys (test_view (store_data wb')) (pre_key_id pk) = None"
    if "opk = Some pk" "pre_key_id pk \<noteq> PRE_KEY_MEDIUM_MAX_VALUE" for pk
    using that pub by (simp add: w3(2) removed_id_def first_message_simps published_def)
  moreover have "sv_identities (test_view (store_data wb')) (jenkins_hash (address_name alice)) = Some (DJB_TYPE # id_public_key ia)"
    by (simp add: w3(2))
  ultimately show ?thesis using w1(1) w2 w3(1) by (cases opk) (auto simp del: fun_upd_apply)
qed

end
