(* ===== verification/Delivery.thy ===== *)
theory Delivery
  imports Double_Ratchet
begin

text \<open>
  Delivery out of order: the messages of one chain are read in any order, each of them once.
\<close>

section \<open>Reading a list of messages\<close>

primrec read_all ::
    "'c signal_context \<Rightarrow> session_state \<Rightarrow> signal_message list \<Rightarrow> ('c, 's, bytes option list \<times> session_state) M" where
  "read_all ctx st [] = returnE ([], st)"
| "read_all ctx st (m # ms) =
     bindE (session_cipher_decrypt_from_state_and_signal_message ctx st m) (\<lambda>(t, st1).
     bindE (read_all ctx st1 ms) (\<lambda>(ts, st2). returnE (t # ts, st2)))"

text \<open>The first \<open>n\<close> keys of the chain from \<open>ck\<close> have been made, and those of the messages in \<open>S\<close> used.\<close>

definition has_read ::
    "(bytes \<Rightarrow> bytes \<Rightarrow> bytes) \<Rightarrow> session_state \<Rightarrow> ec_public_key \<Rightarrow> ec_public_key \<Rightarrow> ec_public_key \<Rightarrow> ratchet_chain_key
      \<Rightarrow> nat \<Rightarrow> nat set \<Rightarrow> bool" where
  "has_read H st s r rk ck n S =
     (reads_chain st s r rk (chain_step H ck n) \<and>
      (\<exists>c. chain_of rk st = Some c \<and> keys_below (ck_index ck + of_nat n) (message_keys c) \<and>
        length (message_keys c) \<le> n \<and>
        set (message_keys c) = (\<lambda>j. chain_message_keys H (chain_step H ck j)) ` ({..<n} - S)))"

lemma has_read_start:
  "reads_chain st s r rk ck \<Longrightarrow> chain_of rk st = Some c \<Longrightarrow> message_keys c = [] \<Longrightarrow> has_read H st s r rk ck 0 {}"
  by (simp add: has_read_def keys_below_def)

lemma set_chain_keys: "set (chain_keys H ck d) = (\<lambda>j. chain_message_keys H (chain_step H ck j)) ` {..<d}"
  by (auto simp: chain_keys_def)

lemma has_read_next:
  fixes ctx :: "'c signal_context"
  assumes laws: "hmac_laws ctx H" "cipher_laws ctx E" and st: "has_read H st s r rk ck n S" "S \<subseteq> {..<n}"
    and j: "n \<le> j" "j < 2000" "unat (ck_index ck) + 2000 < 2 ^ 32"
  shows "\<exists>st'. session_version st' = session_version st \<and> has_read H st' s r rk ck (Suc j) (insert j S) \<and>
    yields (session_cipher_decrypt_from_state_and_signal_message ctx st
      (chain_message H E (session_version st) s r rk pn (chain_step H ck j) p) :: ('c, 's, _) M) (Some p, st')"
proof -
  let ?d = "j - n" and ?ck = "chain_step H ck n"
  obtain c where c: "chain_of rk st = Some c" "keys_below (ck_index ?ck) (message_keys c)" "length (message_keys c) \<le> n"
      "set (message_keys c) = (\<lambda>j. chain_message_keys H (chain_step H ck j)) ` ({..<n} - S)"
    and rc: "reads_chain st s r rk ?ck"
    using st(1) by (auto simp: has_read_def)
  have i: "unat (ck_index ?ck) + Suc ?d < 2 ^ 32"
    using unat_index_add [of "ck_index ck" n] j by simp
  have eq: "chain_step H ?ck ?d = chain_step H ck j" "chain_step H ?ck (Suc ?d) = chain_step H ck (Suc j)"
    using j(1) by (simp_all add: chain_step_add)
  let ?st = "after_read H st rk ?ck ?d"
  have "yields (session_cipher_decrypt_from_state_and_signal_message ctx st
      (chain_message H E (session_version st) s r rk pn (chain_step H ck j) p) :: ('c, 's, _) M) (Some p, ?st)"
    unfolding after_read_def eq(1) [symmetric] by (rule yields_decrypt_next [OF laws rc]) (use j i in auto)
  moreover have "has_read H ?st s r rk ck (Suc j) (insert j S)"
  proof -
    have keys: "message_keys (read_chain H ?ck ?d c) = message_keys c @ chain_keys H ?ck ?d"
      using c(3) j by (simp add: dl_trim_short MAX_MESSAGE_KEYS_def chain_keys_def)
    have "{..<n} - S \<union> (\<lambda>k. n + k) ` {..<?d} = {..<Suc j} - insert j S"
      using j(1) st(2) by (auto simp: lessThan_atLeast0)
    then have "set (message_keys c @ chain_keys H ?ck ?d) =
        (\<lambda>j. chain_message_keys H (chain_step H ck j)) ` ({..<Suc j} - insert j S)"
      by (simp add: c(4) set_chain_keys chain_step_add image_Un image_image flip: \<open>_ = {..<Suc j} - insert j S\<close>)
    moreover have "length (message_keys c @ chain_keys H ?ck ?d) \<le> Suc j" using c(3) j(1) by (simp add: chain_keys_def)
    moreover have "keys_below (ck_index ck + of_nat (Suc j)) (message_keys c @ chain_keys H ?ck ?d)"
      using keys_below_read [OF c(2) i, where H = H, unfolded keys eq(2)] by simp
    moreover have "reads_chain ?st s r rk (chain_step H ck (Suc j))"
      using reads_chain_after_read [OF laws(1) rc, of ?d] by (simp only: eq(2))
    moreover have "chain_of rk ?st = Some (read_chain H ?ck ?d c)" by (simp add: c(1))
    ultimately show ?thesis unfolding has_read_def by (metis keys)
  qed
  ultimately show ?thesis by (intro exI [of _ ?st]) simp
qed

lemma chain_step_inject:
  assumes "unat (ck_index ck) + 2000 < 2 ^ 32" and "j \<le> 2000" and "k \<le> 2000"
    and "chain_message_keys H (chain_step H ck j) = chain_message_keys H (chain_step H ck k)"
  shows "j = k"
proof -
  have "counter (chain_message_keys H (chain_step H ck j)) = counter (chain_message_keys H (chain_step H ck k))"
    using assms(4) by simp
  then show ?thesis
    using index_add_inject [OF assms(1-3)] by (simp add: chain_message_keys_def Let_def)
qed

lemma has_read_skipped:
  fixes ctx :: "'c signal_context"
  assumes laws: "hmac_laws ctx H" "cipher_laws ctx E" and st: "has_read H st s r rk ck n S" "n \<le> 2000"
    and j: "j < n" "j \<notin> S" "unat (ck_index ck) + 2000 < 2 ^ 32"
  shows "\<exists>st'. session_version st' = session_version st \<and> has_read H st' s r rk ck n (insert j S) \<and>
    yields (session_cipher_decrypt_from_state_and_signal_message ctx st
      (chain_message H E (session_version st) s r rk pn (chain_step H ck j) p) :: ('c, 's, _) M) (Some p, st')"
proof -
  let ?key = "\<lambda>j. chain_message_keys H (chain_step H ck j)" and ?ck = "chain_step H ck n"
  obtain c where c: "chain_of rk st = Some c" "keys_below (ck_index ?ck) (message_keys c)" "length (message_keys c) \<le> n"
      "set (message_keys c) = ?key ` ({..<n} - S)" and rc: "reads_chain st s r rk ?ck"
    using st(1) by (auto simp: has_read_def)
  have stored: "?key j \<in> set (message_keys c)" using c(4) j by auto
  obtain k where k: "dl_search (\<lambda>mk. counter mk = ck_index (chain_step H ck j)) (message_keys c) = Some k"
    and read: "yields (session_cipher_decrypt_from_state_and_signal_message ctx st
        (chain_message H E (session_version st) s r rk pn (chain_step H ck j) p) :: ('c, 's, _) M)
      (Some p, session_state_clear_unacknowledged_pre_key_message
         (with_chain st rk (\<lambda>c. c\<lparr>message_keys := dl_delete k (message_keys c)\<rparr>)))" (is "yields _ (_, ?st)")
    using yields_decrypt_stored [OF laws rc c(1,2) stored] by blast
  have dist: "distinct (map counter (message_keys c))" using c(2) by (simp add: keys_below_def)
  have key: "message_keys c ! k = ?key j" "k < length (message_keys c)"
    using dl_search_unique [OF dist stored] k dl_search_Some [OF k]
    by (auto simp: chain_message_keys_def Let_def)
  have "set (dl_delete k (message_keys c)) = ?key ` ({..<n} - S) - {?key j}"
    using dist key by (simp add: set_dl_delete_distinct distinct_map c(4))
  also have "\<dots> = ?key ` ({..<n} - insert j S)"
    using chain_step_inject [OF j(3)] j(1) st(2) by (auto 0 4 simp: less_imp_le)
  finally have keys: "set (dl_delete k (message_keys c)) = ?key ` ({..<n} - insert j S)" .
  have chain: "chain_of rk ?st = Some (c\<lparr>message_keys := dl_delete k (message_keys c)\<rparr>)"
    by (simp add: chain_of_with_chain c(1))
  have "wf_session_state (with_chain st rk (\<lambda>c. c\<lparr>message_keys := dl_delete k (message_keys c)\<rparr>))"
    by (rule wf_with_chain) (use rc key(2) c(1) in \<open>auto simp: reads_chain_def wf_receiver_chain_def list_all_iff length_dl_delete
        dest: set_dl_delete\<close>)
  then have "reads_chain ?st s r rk ?ck"
    using rc c(1) chain by (auto simp: reads_chain_def intro: wf_session_setters(7))
  then have "has_read H ?st s r rk ck n (insert j S)"
    using chain keys c(2,3) key(2) by (auto simp: has_read_def keys_below_delete length_dl_delete)
  then show ?thesis using read by (intro exI [of _ ?st]) simp
qed

text \<open>Once read, a message is a duplicate.\<close>

lemma has_read_duplicate:
  fixes ctx :: "'c signal_context"
  assumes st: "has_read H st s r rk ck n S" "n \<le> 2000" "S \<subseteq> {..<n}" and j: "j \<in> S" "unat (ck_index ck) + 2000 < 2 ^ 32"
    and m: "ucast (sm_version m) = session_version st" "sm_ratchet_key m = rk" "sm_counter m = ck_index ck + of_nat j"
  shows "fails (session_cipher_decrypt_from_state_and_signal_message ctx st m :: ('c, 's, _) M) SG_ERR_DUPLICATE_MESSAGE"
proof -
  let ?ck = "chain_step H ck n"
  obtain c where c: "chain_of rk st = Some c" "set (message_keys c) = (\<lambda>j. chain_message_keys H (chain_step H ck j)) ` ({..<n} - S)"
    and rc: "reads_chain st s r rk ?ck"
    using st(1) by (auto simp: has_read_def)
  have jn: "j < n" using st(3) j(1) by auto
  have "unat (ck_index ck + of_nat j) = unat (ck_index ck) + j" "unat (ck_index ck + of_nat n) = unat (ck_index ck) + n"
    using unat_index_add [of "ck_index ck"] j(2) jn st(2) by simp_all
  then have "sm_counter m < ck_index ?ck" using jn by (simp add: m(3) word_less_nat_alt)
  moreover have "\<forall>mk \<in> set (message_keys c). counter mk \<noteq> sm_counter m"
  proof -
    have "k = j" if "k < n" "ck_index ck + of_nat k = ck_index ck + of_nat j" for k
      by (rule index_add_inject [OF j(2) _ _ that(2)]) (use that(1) jn st(2) in auto)
    then show ?thesis using j(1) by (auto simp: c(2) m(3) chain_message_keys_def Let_def)
  qed
  ultimately show ?thesis
    using fails_decrypt [OF rc m(1,2) fails_old_message_keys [OF _ c(1)]] by blast
qed

lemma yields_read_all:
  fixes ctx :: "'c signal_context"
  assumes laws: "hmac_laws ctx H" "cipher_laws ctx E"
    and st: "has_read H st s r rk ck n S" "n \<le> 2000" "S \<subseteq> {..<n}"
    and js: "distinct js" "set js \<inter> S = {}" "\<forall>j \<in> set js. j < 2000" and i: "unat (ck_index ck) + 2000 < 2 ^ 32"
  shows "\<exists>st' n'. session_version st' = session_version st \<and> has_read H st' s r rk ck n' (S \<union> set js) \<and> n' \<le> 2000 \<and>
    S \<union> set js \<subseteq> {..<n'} \<and>
    yields (read_all ctx st (map (\<lambda>j. chain_message H E (session_version st) s r rk (pn j) (chain_step H ck j) (p j)) js)
      :: ('c, 's, _) M) (map (\<lambda>j. Some (p j)) js, st')"
  using st js
proof (induction js arbitrary: st n S)
  case Nil
  then show ?case by (auto intro: yields_returnE)
next
  case (Cons j js)
  obtain st1 n1 where st1: "session_version st1 = session_version st" "has_read H st1 s r rk ck n1 (insert j S)"
      "n1 \<le> 2000" "insert j S \<subseteq> {..<n1}"
    and read: "yields (session_cipher_decrypt_from_state_and_signal_message ctx st
      (chain_message H E (session_version st) s r rk (pn j) (chain_step H ck j) (p j)) :: ('c, 's, _) M) (Some (p j), st1)"
  proof (cases "j < n")
    case True
    then show ?thesis
      using has_read_skipped [OF laws Cons.prems(1,2) True _ i, of "pn j" "p j"] Cons.prems that [of _ n] by fastforce
  next
    case False
    then show ?thesis
      using has_read_next [OF laws Cons.prems(1,3) _ _ i, of j "pn j" "p j"] Cons.prems that [of _ "Suc j"] by fastforce
  qed
  obtain st' n' where st': "session_version st' = session_version st1" "has_read H st' s r rk ck n' (insert j S \<union> set js)"
      "n' \<le> 2000" "insert j S \<union> set js \<subseteq> {..<n'}"
    and rest: "yields (read_all ctx st1 (map (\<lambda>j. chain_message H E (session_version st1) s r rk (pn j) (chain_step H ck j) (p j)) js)
      :: ('c, 's, _) M) (map (\<lambda>j. Some (p j)) js, st')"
    using Cons.IH [OF st1(2-4)] Cons.prems(4-6) by auto
  have "yields (read_all ctx st (map (\<lambda>j. chain_message H E (session_version st) s r rk (pn j) (chain_step H ck j) (p j)) (j # js))
      :: ('c, 's, _) M) (map (\<lambda>j. Some (p j)) (j # js), st')"
    unfolding read_all.simps list.map
    by (rule yields_bindE [OF read], simp only: prod.case, rule yields_bindE [OF rest [unfolded st1(1)]], simp only: prod.case,
        rule yields_returnE)
  then show ?case using st' st1(1) by (intro exI [of _ st'] exI [of _ n']) auto
qed

end
