(* ===== verification/Session_Properties.thy ===== *)
theory Session_Properties
  imports Session_Exchange Delivery Sample_Provider
begin

text \<open>
  Properties of sessions: the first message, the double ratchet, delivery out of order, messages and
  identities that are refused, and what is stored.
\<close>

section \<open>Sample sessions\<close>

definition sample_identity :: "byte \<Rightarrow> ratchet_identity_key_pair" where
  "sample_identity b = \<lparr>id_public_key = public_key (sample_pair b), id_private_key = private_key (sample_pair b)\<rparr>"

definition sample_signed_pre_key :: session_signed_pre_key where
  "sample_signed_pre_key = \<lparr>signed_pre_key_id = 22, signed_pre_key_pair = sample_pair 3,
     signed_pre_key_timestamp = 0, signed_pre_key_signature = sample_signature\<rparr>"

definition sample_pre_key :: session_pre_key where
  "sample_pre_key = \<lparr>pre_key_id = 31, pre_key_pair = sample_pair 4\<rparr>"

definition sample_bundle :: session_pre_key_bundle where
  "sample_bundle = \<lparr>bundle_registration_id = 5, bundle_device_id = 1, bundle_pre_key_id = 31,
     bundle_pre_key = Some (public_key (sample_pair 4)), bundle_signed_pre_key_id = 22,
     bundle_signed_pre_key = Some (public_key (sample_pair 3)),
     bundle_signed_pre_key_signature = Some sample_signature,
     bundle_identity_key = Some (id_public_key (sample_identity 2))\<rparr>"

definition sample_address :: "byte \<Rightarrow> signal_protocol_address" where
  "sample_address b = \<lparr>address_name = [b], device_id = 1\<rparr>"

definition sample_store :: "ratchet_identity_key_pair \<Rightarrow> test_store" where
  "sample_store ident =
    \<lparr>test_sessions = [], test_pre_keys = [(31, pre_key_bytes sample_pre_key)],
     test_signed_pre_keys = [(22, signed_pre_key_bytes sample_signed_pre_key)], test_identities = [],
     test_identity_key_public = DJB_TYPE # id_public_key ident, test_identity_key_private = id_private_key ident,
     test_local_registration_id = 9, test_sender_keys = [], test_allocs = []\<rparr>"

definition sample_alice :: session_state where
  "sample_alice = bundle_session sample_hmac sample_donna sample_bundle (sample_identity 1) 9 (sample_pair 5) (sample_pair 6)"

lemma sample_identity_pair: "identity_pair_of sample_donna (sample_identity b)"
  using sample_key_pair [of b] sample_pair_wf [of b]
  by (simp add: identity_pair_of_def sample_identity_def key_pair_of_def)

lemma sample_identity_wf: "wf_identity_pair (sample_identity b)"
  by (simp add: wf_identity_pair_def sample_identity_def)

lemma sample_pre_key_pairs: "pre_key_pairs sample_donna sample_signed_pre_key (Some sample_pre_key)"
  by (simp add: pre_key_pairs_def sample_signed_pre_key_def sample_pre_key_def sample_key_pair)

lemma sample_published: "published sample_context sample_bundle (sample_identity 2) sample_signed_pre_key (Some sample_pre_key)"
  by (simp add: published_def sample_bundle_def sample_signed_pre_key_def sample_pre_key_def sample_context_def
      sample_curve_def sample_signature_def)

lemma sample_good_bundle: "good_bundle sample_context sample_bundle"
  by (rule published_good [OF sample_curve_laws sample_published sample_identity_pair sample_pre_key_pairs])

lemma sample_alice_sends: "can_send sample_alice"
  unfolding sample_alice_def
  by (rule bundle_session_ok [OF sample_hmac_laws sample_curve_laws sample_good_bundle sample_identity_wf
        sample_key_pair sample_key_pair])

lemma sample_store_ready: "test_ready (sample_store i)" "own_identity (sample_store i) i"
  "accepts_identity (sample_store i) a k" "map_of (test_sessions (sample_store i)) x = None"
  "holds_pre_keys (sample_store i) sample_signed_pre_key (Some sample_pre_key)"
  by (simp_all add: test_ready_def sample_store_def own_identity_def accepts_identity_def holds_pre_keys_def
      sample_signed_pre_key_def sample_pre_key_def wf_signed_pre_key_def wf_pre_key_def wf_pair_def sample_signature_def)

section \<open>The first message\<close>

text \<open>C1: a bundle of pre keys that its owner has published starts a session, and the first message on it,
  sent to the owner as bytes, is read as the plaintext that was sent. This holds for every plaintext of up to
  2^24 - 16 bytes and whatever sessions the sender had before. The reader then no longer has the one-time pre key
  (unless its number is the reserved one), and knows the identity of the sender.\<close>

theorem first_message_is_read:
  fixes ca :: "'a signal_context" and cb :: "'b signal_context"
  assumes "hmac_laws ca H" "cipher_laws ca E" "curve_laws ca DH" "random_laws ca"
    and "hmac_laws cb H" "cipher_laws cb E" "curve_laws cb DH" "random_laws cb"
    and "identity_pair_of DH ia" "identity_pair_of DH ib" and "pre_key_pairs DH spk opk"
    and "published ca bundle ib spk opk"
    and "allocs wa = []" "test_ready (store_data wa)" "own_identity (store_data wa) ia"
      "accepts_identity (store_data wa) bob (id_public_key ib)"
      "loads_record (map_of (test_sessions (store_data wa)) (test_session_key bob)) ra"
    and "allocs wb = []" "test_ready (store_data wb)" "own_identity (store_data wb) ib"
      "accepts_identity (store_data wb) alice (id_public_key ia)"
      "map_of (test_sessions (store_data wb)) (test_session_key alice) = None" "holds_pre_keys (store_data wb) spk opk"
    and "length p \<le> 2 ^ 24 - 16"
  shows "\<exists>wa1 wa2 m wb'.
    session_builder_process_pre_key_bundle
      \<lparr>builder_store = setup_test_store_context, builder_remote_address = bob, builder_global_context = ca\<rparr> bundle wa
      = (Ok (), wa1) \<and>
    bindE (session_cipher_create setup_test_store_context bob ca) (\<lambda>c. session_cipher_encrypt c p) wa1
      = (Ok (Pre_Key_Signal_Message m), wa2) \<and>
    bindE (pre_key_signal_message_deserialize (pkm_serialized m)) (\<lambda>m'.
      bindE (session_cipher_create setup_test_store_context alice cb)
        (\<lambda>c. session_cipher_decrypt_pre_key_signal_message c m')) wb = (Ok (Some p), wb') \<and>
    pred_option (\<lambda>pk. pre_key_id pk \<noteq> PRE_KEY_MEDIUM_MAX_VALUE \<longrightarrow>
      map_of (test_pre_keys (store_data wb')) (pre_key_id pk) = None) opk \<and>
    map_of (test_identities (store_data wb')) (jenkins_hash (address_name alice)) = Some (DJB_TYPE # id_public_key ia)"
  using assms by (rule exchange_first_message)

theorem first_message_is_read_witness:
  "\<exists>wa1 wa2 m wb'.
    session_builder_process_pre_key_bundle \<lparr>builder_store = setup_test_store_context,
        builder_remote_address = sample_address 2, builder_global_context = sample_context\<rparr>
      sample_bundle (sample_world (sample_store (sample_identity 1))) = (Ok (), wa1) \<and>
    bindE (session_cipher_create setup_test_store_context (sample_address 2) sample_context)
      (\<lambda>c. session_cipher_encrypt c [1, 2, 3]) wa1 = (Ok (Pre_Key_Signal_Message m), wa2) \<and>
    bindE (pre_key_signal_message_deserialize (pkm_serialized m)) (\<lambda>m'.
      bindE (session_cipher_create setup_test_store_context (sample_address 1) sample_context)
        (\<lambda>c. session_cipher_decrypt_pre_key_signal_message c m'))
      (sample_world (sample_store (sample_identity 2))) = (Ok (Some [1, 2, 3]), wb') \<and>
    map_of (test_pre_keys (store_data wb')) 31 = None"
proof -
  let ?w = "\<lambda>b. sample_world (sample_store (sample_identity b))"
  have w: "allocs (?w b) = []" "store_data (?w b) = sample_store (sample_identity b)" for b
    by (simp_all add: sample_world_def)
  have load: "loads_record None fresh_record" by (simp add: loads_record_def)
  show ?thesis
    using first_message_is_read [OF sample_hmac_laws sample_cipher_laws sample_curve_laws sample_random_laws
      sample_hmac_laws sample_cipher_laws sample_curve_laws sample_random_laws sample_identity_pair [of 1]
      sample_identity_pair [of 2] sample_pre_key_pairs sample_published, where wa = "?w 1" and wb = "?w 2"
      and bob = "sample_address 2" and ra = fresh_record and alice = "sample_address 1" and p = "[1, 2, 3]",
      unfolded w sample_store_ready(4), OF refl sample_store_ready(1-3) load refl sample_store_ready(1-3) refl
      sample_store_ready(5)]
    by (auto simp: sample_pre_key_def PRE_KEY_MEDIUM_MAX_VALUE_def)
qed

section \<open>The double ratchet\<close>

text \<open>C2: in every conversation that starts from an agreement of keys, whatever the order in which the two
  sides send, whatever messages of a chain are not yet read (up to 2000 of them), and however often the ratchet
  turns, the next message of either side is encrypted without error, and the other side reads it as the
  plaintext that was sent.\<close>

theorem conversation_reads_next:
  fixes ctx :: "'c signal_context"
  assumes "hmac_laws ctx H" "cipher_laws ctx E" "curve_laws ctx DH" "random_laws ctx"
    and "conversation ctx DH a i b j w" and "length p \<le> 2 ^ 24 - 16"
  shows "\<exists>e a' w' m b' w''. encrypt_on_state ctx a p w = (Ok (e, a'), w') \<and> message_body e = Some m \<and>
    session_cipher_decrypt_from_state_and_signal_message ctx b m w' = (Ok (Some p, b'), w'')"
  using assms by (rule conversation_reads)

definition sample_alice_parameters :: alice_signal_protocol_parameters where
  "sample_alice_parameters = bundle_parameters sample_bundle (sample_identity 1) (sample_pair 5)"

definition sample_bob_parameters :: bob_signal_protocol_parameters where
  "sample_bob_parameters = \<lparr>bob_our_identity_key = sample_identity 2, bob_our_signed_pre_key = sample_pair 3,
     bob_our_one_time_pre_key = Some (sample_pair 4), bob_our_ratchet_key = sample_pair 3,
     bob_their_identity_key = id_public_key (sample_identity 1), bob_their_base_key = public_key (sample_pair 5)\<rparr>"

lemma sample_matching: "matching sample_donna sample_alice_parameters sample_bob_parameters"
  by (simp add: matching_def sample_alice_parameters_def sample_bob_parameters_def bundle_parameters_def sample_bundle_def
      sample_identity_pair sample_key_pair)

lemma sample_conversation:
  "\<exists>a b w. conversation sample_context sample_donna a 0 b 0 (w :: (sample_memory, unit) world)"
proof -
  note wf = matching_wf [OF sample_curve_laws sample_matching]
  have w: "allocs (sample_world ()) = []" by (simp add: sample_world_def)
  obtain a w1 where a: "ratcheting_session_alice_initialize sample_context empty_session_state sample_alice_parameters
      (sample_world ()) = (Ok a, w1)" "allocs w1 = []"
    by (rule ensuresE [OF ensures_alice_initialize [OF sample_hmac_laws sample_curve_laws sample_random_laws wf(1)] w]) blast
  obtain b w2 where b: "ratcheting_session_bob_initialize sample_context empty_session_state sample_bob_parameters w1 = (Ok b, w2)"
    by (rule yieldsE [OF yields_bob_initialize [OF sample_hmac_laws sample_curve_laws wf(2)] a(2)]) blast
  show ?thesis using conversation.start [OF sample_matching w a(1) b] by blast
qed

theorem conversation_reads_next_witness:
  "\<exists>a b (w :: (sample_memory, unit) world). conversation sample_context sample_donna a 0 b 0 w \<and>
    (\<exists>e a' w' m b' w''. encrypt_on_state sample_context a [7, 8] w = (Ok (e, a'), w') \<and> message_body e = Some m \<and>
      session_cipher_decrypt_from_state_and_signal_message sample_context b m w' = (Ok (Some [7, 8], b'), w''))"
proof -
  obtain a b w where c: "conversation sample_context sample_donna a 0 b 0 (w :: (sample_memory, unit) world)"
    using sample_conversation by blast
  show ?thesis
    using conversation_reads_next [OF sample_hmac_laws sample_cipher_laws sample_curve_laws sample_random_laws c, of "[7, 8]"]
    by (intro exI [of _ a] exI [of _ b] exI [of _ w] conjI c) simp
qed

section \<open>Delivery out of order\<close>

text \<open>C5: on a chain of which no key is stored yet, the messages with numbers below 2000 after the chain key
  are read in whatever order they arrive, each as its plaintext; after that, each of them is refused as a
  duplicate.\<close>

theorem out_of_order_delivery:
  fixes ctx :: "'c signal_context"
  assumes "hmac_laws ctx H" "cipher_laws ctx E" and "reads_chain st s r rk ck" "chain_of rk st = Some c" "message_keys c = []"
    and "distinct js" "\<forall>j \<in> set js. j < 2000" and "unat (ck_index ck) + 2000 < 2 ^ 32"
  shows "\<exists>st'. yields (read_all ctx st
      (map (\<lambda>j. chain_message H E (session_version st) s r rk (pn j) (chain_step H ck j) (p j)) js) :: ('c, 's, _) M)
      (map (\<lambda>j. Some (p j)) js, st') \<and>
    (\<forall>j \<in> set js. fails (session_cipher_decrypt_from_state_and_signal_message ctx st'
      (chain_message H E (session_version st) s r rk (pn j) (chain_step H ck j) (p j)) :: ('c, 's, _) M)
      SG_ERR_DUPLICATE_MESSAGE)"
proof -
  have read: "has_read H st s r rk ck 0 {}" by (rule has_read_start [OF assms(3-5)])
  have "\<exists>st' n. session_version st' = session_version st \<and> has_read H st' s r rk ck n ({} \<union> set js) \<and> n \<le> 2000 \<and>
      {} \<union> set js \<subseteq> {..<n} \<and> yields (read_all ctx st
      (map (\<lambda>j. chain_message H E (session_version st) s r rk (pn j) (chain_step H ck j) (p j)) js) :: ('c, 's, _) M)
      (map (\<lambda>j. Some (p j)) js, st')"
    by (rule yields_read_all [OF assms(1,2) read]) (use assms(6-8) in auto)
  then obtain st' n where st': "session_version st' = session_version st" "has_read H st' s r rk ck n (set js)" "n \<le> 2000"
      "set js \<subseteq> {..<n}" "yields (read_all ctx st
      (map (\<lambda>j. chain_message H E (session_version st) s r rk (pn j) (chain_step H ck j) (p j)) js) :: ('c, 's, _) M)
      (map (\<lambda>j. Some (p j)) js, st')"
    by auto
  have "fails (session_cipher_decrypt_from_state_and_signal_message ctx st'
      (chain_message H E (session_version st) s r rk (pn j) (chain_step H ck j) (p j)) :: ('c, 's, _) M)
      SG_ERR_DUPLICATE_MESSAGE" if "j \<in> set js" for j
    by (rule has_read_duplicate [OF st'(2,3,4) that assms(8)])
       (simp_all add: st'(1) chain_message_def signal_message_of_def Let_def reads_chain_wf(3) [OF assms(3)])
  then show ?thesis using st'(5) by blast
qed

text \<open>The chain of the sample session for the messages of the other side.\<close>

definition sample_root_chain :: "ratchet_root_key \<times> ratchet_chain_key" where
  "sample_root_chain = derived_keys sample_hmac (x3dh_secret sample_donna (alice_agreements sample_alice_parameters))"

lemma sample_alice_chain:
  "chain_of (public_key (sample_pair 3)) sample_alice =
     Some \<lparr>sender_ratchet_key = Some (public_key (sample_pair 3)), chain_key = Some (snd sample_root_chain), message_keys = []\<rparr>"
  by (simp add: sample_alice_def bundle_session_def alice_session_def session_state_set_alice_base_key_def case_prod_beta
      session_state_set_unacknowledged_pre_key_message_def session_state_set_remote_registration_id_def Let_def
      session_state_set_local_registration_id_def sample_root_chain_def sample_alice_parameters_def chain_of_def
      session_state_find_receiver_chain_def empty_session_state_def dl_trim_short MAX_RECEIVER_CHAINS_def compare_same)
     (simp add: bundle_parameters_def sample_bundle_def compare_same)

lemma sample_alice_reads:
  "reads_chain sample_alice (id_public_key (sample_identity 2)) (id_public_key (sample_identity 1))
     (public_key (sample_pair 3)) (snd sample_root_chain)" "session_version sample_alice = 3"
proof -
  have "remote_identity_public sample_alice = Some (id_public_key (sample_identity 2))"
    "local_identity_public sample_alice = Some (id_public_key (sample_identity 1))" "session_version sample_alice = 3"
    by (simp_all add: sample_alice_def bundle_session_def alice_session_def session_state_set_alice_base_key_def case_prod_beta
      session_state_set_unacknowledged_pre_key_message_def session_state_set_remote_registration_id_def Let_def
      session_state_set_local_registration_id_def bundle_parameters_def sample_bundle_def)
  then show "reads_chain sample_alice (id_public_key (sample_identity 2)) (id_public_key (sample_identity 1))
     (public_key (sample_pair 3)) (snd sample_root_chain)" "session_version sample_alice = 3"
    using sample_alice_sends sample_alice_chain by (simp_all add: reads_chain_def can_send_def)
qed

lemma sample_chain_index: "ck_index (snd sample_root_chain) = 0"
  by (simp add: sample_root_chain_def derived_keys_def Let_def)

theorem out_of_order_delivery_witness:
  "\<exists>st'. yields (read_all sample_context sample_alice
      (map (\<lambda>j. chain_message sample_hmac sample_cipher 3 (id_public_key (sample_identity 2)) (id_public_key (sample_identity 1))
         (public_key (sample_pair 3)) 0 (chain_step sample_hmac (snd sample_root_chain) j) [of_nat j]) [2, 0, 1])
      :: (sample_memory, unit, _) M)
      ([Some [2], Some [0], Some [1]], st')"
  using out_of_order_delivery [OF sample_hmac_laws sample_cipher_laws sample_alice_reads(1) sample_alice_chain,
      of "[2, 0, 1]" "\<lambda>_. 0" "\<lambda>j. [of_nat j]", unfolded sample_alice_reads(2)]
  by (auto simp: sample_chain_index)

section \<open>Messages that are refused\<close>

text \<open>A stored session with one state.\<close>

definition only_state :: "session_state \<Rightarrow> session_record" where
  "only_state st = \<lparr>record_state = Some st, previous_states = [], is_fresh = False\<rparr>"

definition session_view :: "signal_protocol_address \<Rightarrow> session_state \<Rightarrow> (64 word \<times> int, 64 word) store_view \<Rightarrow> bool" where
  "session_view a st v = (sv_sessions v (test_session_key a) = Some (record_bytes (only_state st)))"

abbreviation test_cipher :: "signal_protocol_address \<Rightarrow> 'c signal_context \<Rightarrow> ('c, test_store) session_cipher" where
  "test_cipher a ctx \<equiv> \<lparr>cipher_store = setup_test_store_context, cipher_remote_address = a,
     cipher_builder = \<lparr>builder_store = setup_test_store_context, builder_remote_address = a, builder_global_context = ctx\<rparr>,
     cipher_global_context = ctx, decrypt_callback = None, inside_callback = False\<rparr>"

lemma session_view_loads:
  "wf_session_state st \<Longrightarrow> session_view a st v \<Longrightarrow> loads_record (sv_sessions v (test_session_key a)) (only_state st)"
  using loads_record_stored [of "only_state st"] by (simp add: session_view_def only_state_def wf_session_record_def)

lemma rejects_on_state:
  fixes ctx :: "'c signal_context"
  assumes "wf_session_state st" and "session_view a st v"
    and "fails (session_cipher_decrypt_from_state_and_signal_message ctx st m :: ('c, test_store, _) M) e"
  shows "rejects (at_view test_ready test_view v) (session_cipher_decrypt_signal_message (test_cipher a ctx) m) e
    (at_view test_ready test_view v)"
proof -
  have wf: "wf_session_record (only_state st)" using assms(1) by (simp add: wf_session_record_def only_state_def)
  have "fails (session_cipher_decrypt_from_record_and_signal_message ctx (only_state st) m :: ('c, test_store, _) M) e"
  proof (cases "e = SG_ERR_INVALID_MESSAGE")
    case True
    show ?thesis unfolding True by (rule fails_decrypt_record [OF wf]) (use assms(3) True in \<open>simp add: only_state_def\<close>)
  next
    case False
    show ?thesis by (rule fails_decrypt_record_now [OF wf _ False assms(3)]) (simp add: only_state_def)
  qed
  then show ?thesis
    by (rule test_stores.decrypt_rejected [rotated -1])
       (use session_view_loads [OF assms(1,2)] assms(2) in \<open>auto simp: session_view_def\<close>)
qed


text \<open>C20: a message more than 2000 positions ahead of the chain key is refused as invalid without any work
  on keys, and the stores are as they were before.\<close>

theorem far_future_is_rejected:
  fixes ctx :: "'c signal_context"
  assumes "reads_chain st s r rk ck" and "session_view a st v"
    and "ucast (sm_version m) = session_version st" "sm_ratchet_key m = rk" "unat (ck_index ck) + 2000 < unat (sm_counter m)"
  shows "rejects (at_view test_ready test_view v) (session_cipher_decrypt_signal_message (test_cipher a ctx) m)
    SG_ERR_INVALID_MESSAGE (at_view test_ready test_view v)"
  by (rule rejects_on_state [OF _ assms(2) fails_decrypt [OF assms(1,3,4) fails_future_message_keys [OF assms(5)]]])
     (use assms(1) in \<open>simp add: reads_chain_def\<close>)

definition sample_view :: "(64 word \<times> int, 64 word) store_view" where
  "sample_view = (test_view (sample_store (sample_identity 1)))
     \<lparr>sv_sessions := [test_session_key (sample_address 2) \<mapsto> record_bytes (only_state sample_alice)]\<rparr>"

lemma sample_session_view: "session_view (sample_address 2) sample_alice sample_view"
  by (simp add: session_view_def sample_view_def)

definition sample_message :: "32 word \<Rightarrow> bytes \<Rightarrow> signal_message" where
  "sample_message n data = \<lparr>sm_version = 3, sm_ratchet_key = public_key (sample_pair 3), sm_counter = n,
     sm_previous_counter = 0, sm_ciphertext = [], sm_serialized = data\<rparr>"


theorem far_future_is_rejected_witness:
  "rejects (at_view test_ready test_view sample_view)
    (session_cipher_decrypt_signal_message (test_cipher (sample_address 2) sample_context) (sample_message 2001 []))
    SG_ERR_INVALID_MESSAGE (at_view test_ready test_view sample_view)"
  by (rule far_future_is_rejected [OF sample_alice_reads(1) sample_session_view])
     (simp_all add: sample_message_def sample_alice_reads sample_chain_index)

text \<open>C16: an identity key that differs from the one known for the address is refused, both in a first
  message and in a bundle of pre keys; no session is made and the stores are as they were before.\<close>

theorem untrusted_identity_is_refused:
  fixes builder :: "('c, test_store) session_builder"
  assumes "builder_store builder = setup_test_store_context"
    and "sv_identities v (jenkins_hash (address_name (builder_remote_address builder))) = Some k"
    and "bundle_identity_key bundle = Some ident" "k \<noteq> DJB_TYPE # ident" "k \<noteq> DJB_TYPE # pkm_identity_key m"
  shows "rejects (at_view test_ready test_view v) (session_builder_process_pre_key_signal_message builder r m)
      SG_ERR_UNTRUSTED_IDENTITY (at_view test_ready test_view v) \<and>
    rejects (at_view test_ready test_view v) (session_builder_process_pre_key_bundle builder bundle)
      SG_ERR_UNTRUSTED_IDENTITY (at_view test_ready test_view v)"
  using test_stores.process_message_untrusted [OF assms(1) refl assms(2,5)]
    test_stores.process_bundle_untrusted [OF assms(1) refl assms(2-4)] by blast

theorem untrusted_identity_is_refused_witness:
  "rejects (at_view test_ready test_view
       (sample_view\<lparr>sv_identities := [jenkins_hash (address_name (sample_address 2)) \<mapsto> [0]]\<rparr>))
     (session_builder_process_pre_key_bundle \<lparr>builder_store = setup_test_store_context,
        builder_remote_address = sample_address 2, builder_global_context = sample_context\<rparr> sample_bundle)
     SG_ERR_UNTRUSTED_IDENTITY
     (at_view test_ready test_view (sample_view\<lparr>sv_identities := [jenkins_hash (address_name (sample_address 2)) \<mapsto> [0]]\<rparr>))"
  using untrusted_identity_is_refused [of "\<lparr>builder_store = setup_test_store_context,
        builder_remote_address = sample_address 2, builder_global_context = sample_context\<rparr>"
      "sample_view\<lparr>sv_identities := [jenkins_hash (address_name (sample_address 2)) \<mapsto> [0]]\<rparr>" "[0]" sample_bundle
      "id_public_key (sample_identity 2)" "pre_key_message_of 0 None 0 [] [] (sample_message 0 [])"]
  by (auto simp: sample_bundle_def DJB_TYPE_def)





lemma archived_fresh: "archived fresh_record = fresh_record"
  by (simp add: archived_def fresh_record_def)

text \<open>C18: when the message inside a first message cannot be read by the new session, the error is
  returned, no session is stored and the one-time pre key is not removed. The identity key of the sender, which
  was unknown or the same before, has already been stored.\<close>

theorem failed_first_message_keeps_pre_key:
  fixes ctx :: "'c signal_context"
  assumes "hmac_laws ctx H" "curve_laws ctx DH" and "wf_key (pkm_identity_key m)" "wf_key (pkm_base_key m)"
    and "stored_keys v m spk opk" and "sv_sessions v (test_session_key a) = None"
    and "sv_identities v (jenkins_hash (address_name a)) \<in> {None, Some (DJB_TYPE # pkm_identity_key m)}"
    and "sv_identity_pair v = (DJB_TYPE # id_public_key our, id_private_key our)" "wf_identity_pair our"
    and "fails (session_cipher_decrypt_from_record_and_signal_message ctx
      (fresh_record\<lparr>record_state := Some (received_session H DH
        (received_parameters our (signed_pre_key_pair spk) (map_option pre_key_pair opk) m) (sv_registration_id v) m)\<rparr>)
      (pkm_message m) :: ('c, test_store, _) M) e"
  shows "rejects (at_view test_ready test_view v) (session_cipher_decrypt_pre_key_signal_message (test_cipher a ctx) m) e
    (at_view test_ready test_view
      (v\<lparr>sv_identities := (sv_identities v)(jenkins_hash (address_name a) \<mapsto> DJB_TYPE # pkm_identity_key m)\<rparr>))"
proof -
  have "loads_record (sv_sessions v (test_session_key a)) fresh_record" by (simp add: assms(6) loads_record_def)
  moreover have "alice_base_key x \<noteq> Some k" if "x \<in> set_option (record_state fresh_record) \<union> set (previous_states fresh_record)" for x k
    using that by (auto simp: fresh_record_def empty_session_state_def)
  ultimately show ?thesis
    by (intro test_stores.decrypt_first_rejected [where r = fresh_record, OF assms(1,2) _ _ _ _ _ assms(3-5,7-9) _ _ refl])
       (simp_all add: archived_fresh assms(10))
qed

definition sample_first_message :: pre_key_signal_message where
  "sample_first_message = pre_key_message_of 5 (Some 31) 22 (public_key (sample_pair 5)) (public_key (sample_pair 1))
     ((sample_message 0 [])\<lparr>sm_version := 2\<rparr>)"

theorem failed_first_message_keeps_pre_key_witness:
  "rejects (at_view test_ready test_view (test_view (sample_store (sample_identity 2))))
    (session_cipher_decrypt_pre_key_signal_message (test_cipher (sample_address 1) sample_context) sample_first_message)
    SG_ERR_INVALID_MESSAGE
    (at_view test_ready test_view ((test_view (sample_store (sample_identity 2)))
      \<lparr>sv_identities := [jenkins_hash (address_name (sample_address 1)) \<mapsto> DJB_TYPE # public_key (sample_pair 1)]\<rparr>))"
proof -
  let ?v = "test_view (sample_store (sample_identity 2))"
  let ?p = "received_parameters (sample_identity 2) (signed_pre_key_pair sample_signed_pre_key)
    (map_option pre_key_pair (Some sample_pre_key)) sample_first_message"
  have m: "pkm_identity_key sample_first_message = public_key (sample_pair 1)" "wf_key (pkm_base_key sample_first_message)"
      "pkm_message sample_first_message = (sample_message 0 [])\<lparr>sm_version := 2\<rparr>"
    by (simp_all add: sample_first_message_def pre_key_message_of_def)
  have keys: "stored_keys ?v sample_first_message sample_signed_pre_key (Some sample_pre_key)"
    using sample_store_ready(5) [of "sample_identity 2"]
    by (simp add: stored_keys_def holds_pre_keys_def sample_first_message_def pre_key_message_of_def sample_signed_pre_key_def
        sample_pre_key_def)
  let ?b = "received_session sample_hmac sample_donna ?p (sv_registration_id ?v) sample_first_message"
  have "wf_bob_parameters ?p"
    by (simp add: wf_bob_parameters_def received_parameters_def sample_identity_wf m sample_signed_pre_key_def
        sample_pre_key_def wf_pair_def)
  then have "wf_session_state ?b" by (rule wf_received_session [OF sample_hmac_laws _ m(2)])
  then have wf: "wf_session_record (fresh_record\<lparr>record_state := Some ?b\<rparr>)" by (simp add: wf_session_record_def fresh_record_def)
  have v: "session_version ?b = 3" "has_sender_chain ?b"
    by (simp_all add: received_session_def bob_session_def case_prod_beta Let_def session_state_set_alice_base_key_def
        session_state_set_remote_registration_id_def session_state_set_local_registration_id_def)
  have "fails (session_cipher_decrypt_from_state_and_signal_message sample_context ?b (pkm_message sample_first_message)
      :: (sample_memory, test_store, _) M) SG_ERR_INVALID_MESSAGE"
    unfolding session_cipher_decrypt_from_state_and_signal_message_def
    by (rule fails_then_yields [OF yields_guardE [OF v(2)]], rule fails_thenE [OF fails_guardE], unfold v(1))
       (simp add: m(3) sample_message_def)
  then have "fails (session_cipher_decrypt_from_record_and_signal_message sample_context
      (fresh_record\<lparr>record_state := Some ?b\<rparr>) (pkm_message sample_first_message) :: (sample_memory, test_store, _) M)
      SG_ERR_INVALID_MESSAGE"
    by (intro fails_decrypt_record [OF wf]) (simp add: fresh_record_def)
  from failed_first_message_keeps_pre_key [OF sample_hmac_laws sample_curve_laws _ m(2) keys _ _ _ sample_identity_wf this]
  show ?thesis
    by (simp add: m sample_store_def sample_identity_def test_view_def)
qed

section \<open>What is stored\<close>

text \<open>C19: encryption returns the message of the current state of the stored session, wrapped with the data of
  the pre keys as long as the other side has not answered, and stores the state with the next key of the
  sending chain; nothing else in the stores changes.\<close>

theorem encrypt_updates_session:
  fixes ctx :: "'c signal_context"
  assumes "hmac_laws ctx H" "cipher_laws ctx E" and "session_view a st v" and "can_send st" and "length p \<le> 2 ^ 24 - 16"
  shows "hoare (at_view test_ready test_view v) (session_cipher_encrypt (test_cipher a ctx) p)
    (\<lambda>e s. e = sent_envelope H E st p \<and> at_view test_ready test_view
      (v\<lparr>sv_sessions := (sv_sessions v)(test_session_key a \<mapsto> record_bytes (only_state (sent_state H st)))\<rparr>) s)"
proof -
  have "wf_session_state st" using assms(4) by (simp add: can_send_def)
  then have r: "loads_record (sv_sessions v (test_session_key a)) (only_state st)"
    using assms(3) by (rule session_view_loads)
  show ?thesis
    by (rule hoare_post, rule test_stores.encrypt_stored [OF assms(1,2) _ _ _ _ _ assms(4,5)])
       (use r in \<open>auto simp: only_state_def\<close>)
qed

theorem encrypt_updates_session_witness:
  "hoare (at_view test_ready test_view sample_view)
     (session_cipher_encrypt (test_cipher (sample_address 2) sample_context) [1, 2, 3])
     (\<lambda>e s. e = sent_envelope sample_hmac sample_cipher sample_alice [1, 2, 3] \<and> at_view test_ready test_view
       (sample_view\<lparr>sv_sessions := (sv_sessions sample_view)(test_session_key (sample_address 2) \<mapsto>
          record_bytes (only_state (sent_state sample_hmac sample_alice)))\<rparr>) s)"
  by (rule encrypt_updates_session [OF sample_hmac_laws sample_cipher_laws sample_session_view sample_alice_sends]) simp

end
