(* ===== verification/Sender_Keys.thy ===== *)
theory Sender_Keys
  imports Session_State Interfaces
begin

text \<open>
  sender\_key.c, sender\_key\_state.c and sender\_key\_record.c: the keys of a group sender, the state
  of one sender chain with its stored message keys, and the record of up to five states that the stores
  keep for each sender of a group.
\<close>

section \<open>Keys\<close>

record sender_message_key =
  smk_iteration :: "32 word"
  smk_iv :: bytes
  smk_cipher_key :: bytes
  smk_seed :: bytes

record sender_chain_key =
  sck_iteration :: "32 word"
  sck_chain_key :: bytes

text \<open>The memory of a new message key is not cleared.  An error before all three buffers are assigned
  releases buffers through pointers that were never set.\<close>

definition sender_message_key_create ::
    "'c signal_context \<Rightarrow> 32 word \<Rightarrow> bytes option \<Rightarrow> ('c, 's, sender_message_key) M" where
  "sender_message_key_create ctx n seed =
     (case seed of
        None \<Rightarrow> failE SG_ERR_INVAL
      | Some ikm \<Rightarrow>
          thenE alloc
          (tryE
            (bindE (hkdf_create 3) (\<lambda>kdf.
             bindE (hkdf_derive_secrets ctx kdf ikm (replicate 32 0) (Some (ascii ''WhisperGroup'')) 48) (\<lambda>derivative.
             thenE (guardE (length derivative = 48) SG_ERR_UNKNOWN)
             (bindE (new_buffer ikm) (\<lambda>seed_buf.
              bindE (new_buffer (take 16 derivative)) (\<lambda>iv_buf.
              returnE (seed_buf, iv_buf, derivative)))))))
            (\<lambda>_. faultE)
            (\<lambda>(seed_buf, iv_buf, derivative).
              bindE (new_buffer (take 32 (drop 16 derivative))) (\<lambda>key_buf.
              returnE \<lparr>smk_iteration = n, smk_iv = iv_buf, smk_cipher_key = key_buf, smk_seed = seed_buf\<rparr>))))"

definition sender_chain_key_create :: "32 word \<Rightarrow> bytes option \<Rightarrow> ('c, 's, sender_chain_key) M" where
  "sender_chain_key_create n chain =
     (case chain of
        None \<Rightarrow> failE SG_ERR_INVAL
      | Some k \<Rightarrow>
          thenE alloc (bindE (new_buffer k) (\<lambda>k'. returnE \<lparr>sck_iteration = n, sck_chain_key = k'\<rparr>)))"

text \<open>The digest may come without a buffer, which the two constructors refuse.\<close>

definition sender_chain_key_get_derivative ::
    "'c signal_context \<Rightarrow> byte \<Rightarrow> bytes \<Rightarrow> ('c, 's, bytes option) M" where
  "sender_chain_key_get_derivative ctx seed key = hmac_sha256_run ctx Null_unguarded key [[seed]] returnE"

definition sender_chain_key_create_message_key ::
    "'c signal_context \<Rightarrow> sender_chain_key \<Rightarrow> ('c, 's, sender_message_key) M" where
  "sender_chain_key_create_message_key ctx key =
     bindE (sender_chain_key_get_derivative ctx 1 (sck_chain_key key)) (\<lambda>derivative.
     sender_message_key_create ctx (sck_iteration key) derivative)"

definition sender_chain_key_create_next ::
    "'c signal_context \<Rightarrow> sender_chain_key \<Rightarrow> ('c, 's, sender_chain_key) M" where
  "sender_chain_key_create_next ctx key =
     bindE (sender_chain_key_get_derivative ctx 2 (sck_chain_key key)) (\<lambda>derivative.
     sender_chain_key_create (sck_iteration key + 1) derivative)"

section \<open>States\<close>

record sender_key_state =
  sks_key_id :: "32 word"
  sks_chain_key :: sender_chain_key
  sks_signature_public_key :: ec_public_key
  sks_signature_private_key :: "ec_private_key option"
  sks_message_keys :: "sender_message_key list"

definition MAX_SENDER_MESSAGE_KEYS :: nat where "MAX_SENDER_MESSAGE_KEYS = 2000"

definition sender_key_state_create ::
    "32 word \<Rightarrow> sender_chain_key option \<Rightarrow> ec_public_key option \<Rightarrow> ec_private_key option
      \<Rightarrow> ('c, 's, sender_key_state) M" where
  "sender_key_state_create i chain public private =
     (case (chain, public) of
        (Some ck, Some pub) \<Rightarrow>
          thenE alloc
           (returnE \<lparr>sks_key_id = i, sks_chain_key = ck, sks_signature_public_key = pub,
              sks_signature_private_key = private, sks_message_keys = []\<rparr>)
      | _ \<Rightarrow> failE SG_ERR_INVAL)"

definition sender_key_state_has_sender_message_key :: "sender_key_state \<Rightarrow> 32 word \<Rightarrow> bool" where
  "sender_key_state_has_sender_message_key st n =
     (dl_search (\<lambda>k. smk_iteration k = n) (sks_message_keys st) \<noteq> None)"

definition sender_key_state_add_sender_message_key ::
    "sender_key_state \<Rightarrow> sender_message_key \<Rightarrow> ('c, 's, sender_key_state) M" where
  "sender_key_state_add_sender_message_key st message_key =
     thenE alloc
      (returnE (st\<lparr>sks_message_keys := dl_trim MAX_SENDER_MESSAGE_KEYS (sks_message_keys st @ [message_key])\<rparr>))"

definition sender_key_state_remove_sender_message_key ::
    "sender_key_state \<Rightarrow> 32 word \<Rightarrow> sender_message_key option \<times> sender_key_state" where
  "sender_key_state_remove_sender_message_key st n =
     (case dl_search (\<lambda>k. smk_iteration k = n) (sks_message_keys st) of
        None \<Rightarrow> (None, st)
      | Some j \<Rightarrow> (Some (sks_message_keys st ! j), st\<lparr>sks_message_keys := dl_delete j (sks_message_keys st)\<rparr>))"

definition sender_key_state_set_chain_key :: "sender_key_state \<Rightarrow> sender_chain_key \<Rightarrow> sender_key_state" where
  "sender_key_state_set_chain_key st chain = st\<lparr>sks_chain_key := chain\<rparr>"

text \<open>Chain key and message keys lend their buffers to the structure; the signing key is copied.\<close>

definition sender_key_state_serialize_prepare :: "sender_key_state \<Rightarrow> ('c, 's, pb_message) M" where
  "sender_key_state_serialize_prepare st =
     thenE alloc
     (thenE alloc
     (bindE (ec_public_key_serialize_protobuf (Some (sks_signature_public_key st))) (\<lambda>pub.
      bindE (optE (\<lambda>k. ec_private_key_serialize_protobuf (Some k)) (sks_signature_private_key st)) (\<lambda>priv.
      bindE (prepare_list (\<lambda>k. returnE (PBMsg [[V_UINT32 (smk_iteration k)], [V_BYTES (smk_seed k)]] []))
               (sks_message_keys st)) (\<lambda>message_keys.
      returnE (PBMsg
        [[V_UINT32 (sks_key_id st)],
         [V_MESSAGE (PBMsg [[V_UINT32 (sck_iteration (sks_chain_key st))],
            [V_BYTES (sck_chain_key (sks_chain_key st))]] [])],
         [V_MESSAGE (PBMsg [[V_BYTES pub], opt_slot V_BYTES priv] [])],
         map V_MESSAGE message_keys] []))))))"

definition sender_key_state_serialize :: "sender_key_state \<Rightarrow> ('c, 's, bytes) M" where
  "sender_key_state_serialize st =
     thenE alloc
      (bindE (sender_key_state_serialize_prepare st) (\<lambda>m.
       pb_pack textsecure__sender_key_state_structure__descriptor m))"

text \<open>A stored message key has only its seed; the other parts are derived again.  An entry without
  iteration or seed is skipped.\<close>

definition decode_sender_message_key ::
    "'c signal_context \<Rightarrow> pb_message \<Rightarrow> sender_key_state \<Rightarrow> ('c, 's, sender_key_state) M" where
  "decode_sender_message_key ctx m st =
     (case (pb_uint32 0 m, pb_bytes 1 m) of
        (Some n, Some seed) \<Rightarrow>
          bindE (new_buffer seed) (\<lambda>seed_buffer.
          bindE (sender_message_key_create ctx n (Some seed_buffer)) (\<lambda>message_key.
          sender_key_state_add_sender_message_key st message_key))
      | _ \<Rightarrow> returnE st)"

definition decode_sender_chain_key :: "pb_message option \<Rightarrow> ('c, 's, sender_chain_key option) M" where
  "decode_sender_chain_key chain =
     (case chain of
        None \<Rightarrow> returnE None
      | Some m \<Rightarrow>
         (case (pb_uint32 0 m, pb_bytes 1 m) of
            (Some n, Some seed) \<Rightarrow>
              bindE (new_buffer seed) (\<lambda>seed_buffer.
              bindE (sender_chain_key_create n (Some seed_buffer)) (\<lambda>ck. returnE (Some ck)))
          | _ \<Rightarrow> returnE None))"

definition decode_signing_key ::
    "pb_message option \<Rightarrow> ('c, 's, ec_public_key option \<times> ec_private_key option) M" where
  "decode_signing_key signing =
     (case signing of
        None \<Rightarrow> returnE (None, None)
      | Some m \<Rightarrow>
          bindE (optE curve_decode_point (pb_bytes 0 m)) (\<lambda>pub.
          bindE (optE curve_decode_private_point (pb_bytes 1 m)) (\<lambda>priv.
          returnE (pub, priv))))"

definition sender_key_state_deserialize_protobuf ::
    "'c signal_context \<Rightarrow> pb_message \<Rightarrow> ('c, 's, sender_key_state) M" where
  "sender_key_state_deserialize_protobuf ctx m =
     bindE (decode_sender_chain_key (pb_sub 1 m)) (\<lambda>chain.
     bindE (decode_signing_key (pb_sub 2 m)) (\<lambda>(pub, priv).
     (case (pb_uint32 0 m, chain, pub) of
        (Some i, Some ck, Some p) \<Rightarrow>
          bindE (sender_key_state_create i (Some ck) (Some p) priv) (\<lambda>st.
          foldE (decode_sender_message_key ctx) (pb_subs 3 m) st)
      | _ \<Rightarrow> failE SG_ERR_INVALID_PROTO_BUF)))"

definition sender_key_state_deserialize :: "'c signal_context \<Rightarrow> bytes \<Rightarrow> ('c, 's, sender_key_state) M" where
  "sender_key_state_deserialize ctx data =
     bindE (pb_unpack textsecure__sender_key_state_structure__descriptor data)
       (sender_key_state_deserialize_protobuf ctx)"

definition sender_key_state_copy ::
    "'c signal_context \<Rightarrow> sender_key_state \<Rightarrow> ('c, 's, sender_key_state) M" where
  "sender_key_state_copy ctx other_state =
     bindE (sender_key_state_serialize other_state) (sender_key_state_deserialize ctx)"

section \<open>Records\<close>

record sender_key_record =
  sender_key_states :: "sender_key_state list"

definition MAX_STATES :: nat where "MAX_STATES = 5"

text \<open>A bounded list that drops its last element while it is too long.\<close>

fun dl_trim_tail :: "nat \<Rightarrow> 'a list \<Rightarrow> 'a list" where
  "dl_trim_tail bound xs = (if length xs > bound then dl_trim_tail bound (butlast xs) else xs)"

declare dl_trim_tail.simps [simp del]

definition sender_key_record_create :: "('c, 's, sender_key_record) M" where
  "sender_key_record_create = thenE alloc (returnE \<lparr>sender_key_states = []\<rparr>)"

definition sender_key_record_serialize :: "sender_key_record \<Rightarrow> ('c, 's, bytes) M" where
  "sender_key_record_serialize r =
     bindE (prepare_list sender_key_state_serialize_prepare (sender_key_states r)) (\<lambda>states.
     pb_pack textsecure__sender_key_record_structure__descriptor (PBMsg [map V_MESSAGE states] []))"

definition sender_key_record_deserialize :: "'c signal_context \<Rightarrow> bytes \<Rightarrow> ('c, 's, sender_key_record) M" where
  "sender_key_record_deserialize ctx data =
     bindE (pb_unpack textsecure__sender_key_record_structure__descriptor data) (\<lambda>m.
     bindE sender_key_record_create (\<lambda>r.
     bindE (mapE (\<lambda>s. bindE (sender_key_state_deserialize_protobuf ctx s) (\<lambda>st. thenE alloc (returnE st)))
              (pb_subs 0 m)) (\<lambda>states.
     returnE (r\<lparr>sender_key_states := sender_key_states r @ states\<rparr>))))"

definition sender_key_record_copy ::
    "'c signal_context \<Rightarrow> sender_key_record \<Rightarrow> ('c, 's, sender_key_record) M" where
  "sender_key_record_copy ctx other_record =
     bindE (sender_key_record_serialize other_record) (sender_key_record_deserialize ctx)"

definition sender_key_record_is_empty :: "sender_key_record \<Rightarrow> bool" where
  "sender_key_record_is_empty r = (sender_key_states r = [])"

text \<open>A pointer to a state of the record is its position.\<close>

definition sender_key_record_get_sender_key_state :: "sender_key_record \<Rightarrow> ('c, 's, nat) M" where
  "sender_key_record_get_sender_key_state r =
     (if sender_key_states r \<noteq> [] then returnE 0 else failE SG_ERR_INVALID_KEY_ID)"

definition sender_key_record_get_sender_key_state_by_id ::
    "sender_key_record \<Rightarrow> 32 word \<Rightarrow> ('c, 's, nat) M" where
  "sender_key_record_get_sender_key_state_by_id r key_id =
     (case dl_search (\<lambda>st. sks_key_id st = key_id) (sender_key_states r) of
        None \<Rightarrow> failE SG_ERR_INVALID_KEY_ID
      | Some j \<Rightarrow> returnE j)"

definition sender_key_record_add_sender_key_state_impl ::
    "sender_key_record \<Rightarrow> 32 word \<Rightarrow> 32 word \<Rightarrow> bytes option \<Rightarrow> ec_public_key option \<Rightarrow> ec_private_key option
      \<Rightarrow> ('c, 's, sender_key_record) M" where
  "sender_key_record_add_sender_key_state_impl r i n chain public private =
     bindE (sender_chain_key_create n chain) (\<lambda>ck.
     bindE (sender_key_state_create i (Some ck) public private) (\<lambda>st.
     thenE alloc
      (returnE (r\<lparr>sender_key_states := dl_trim_tail MAX_STATES (st # sender_key_states r)\<rparr>))))"

definition sender_key_record_add_sender_key_state ::
    "sender_key_record \<Rightarrow> 32 word \<Rightarrow> 32 word \<Rightarrow> bytes option \<Rightarrow> ec_public_key option
      \<Rightarrow> ('c, 's, sender_key_record) M" where
  "sender_key_record_add_sender_key_state r i n chain signature_key =
     sender_key_record_add_sender_key_state_impl r i n chain signature_key None"

definition sender_key_record_set_sender_key_state ::
    "sender_key_record \<Rightarrow> 32 word \<Rightarrow> 32 word \<Rightarrow> bytes option \<Rightarrow> ec_key_pair \<Rightarrow> ('c, 's, sender_key_record) M" where
  "sender_key_record_set_sender_key_state r i n chain signature_key_pair =
     sender_key_record_add_sender_key_state_impl (r\<lparr>sender_key_states := []\<rparr>) i n chain
       (Some (public_key signature_key_pair)) (Some (private_key signature_key_pair))"

end
