(* ===== verification/Key_Helper.thy ===== *)
theory Key_Helper
  imports Session_Builder
begin

text \<open>
  key\_helper.c: generation of identity keys, registration identifiers, pre keys, signed pre keys and
  sender keys.  A linked list of pre keys is a list, and a node is the list that starts there.  An integer
  that the provider fills with random bytes is read in little-endian order.
\<close>

section \<open>Model\<close>

definition INT32_MAX :: int where "INT32_MAX = 2 ^ 31 - 1"

definition signal_protocol_key_helper_generate_identity_key_pair ::
    "'c signal_context \<Rightarrow> ('c, 's, ratchet_identity_key_pair) M" where
  "signal_protocol_key_helper_generate_identity_key_pair ctx =
     bindE (curve_generate_key_pair ctx) (\<lambda>ec_pair.
     ratchet_identity_key_pair_create (public_key ec_pair) (private_key ec_pair))"

definition random_uint32 :: "'c signal_context \<Rightarrow> ('c, 's, 32 word) M" where
  "random_uint32 ctx = bindE (signal_crypto_random ctx 4) (\<lambda>d. returnE (word_rcat (rev d)))"

definition signal_protocol_key_helper_generate_registration_id ::
    "'c signal_context \<Rightarrow> int \<Rightarrow> ('c, 's, 32 word) M" where
  "signal_protocol_key_helper_generate_registration_id ctx extended_range =
     bindE (derefE (random_func (crypto_provider ctx))) (\<lambda>_.
     bindE (if extended_range = 0 then returnE 16380
            else if extended_range = 1 then returnE (word_of_int (INT32_MAX - 1))
            else failE SG_ERR_INVAL) (\<lambda>range.
     bindE (random_uint32 ctx) (\<lambda>id_value. returnE (id_value mod range + 1))))"

text \<open>The remainder by 0 is undefined; the masked value is not negative, so the sign of \<open>bound\<close> does not
  matter.\<close>

definition signal_protocol_key_helper_get_random_sequence :: "'c signal_context \<Rightarrow> int \<Rightarrow> ('c, 's, int) M" where
  "signal_protocol_key_helper_get_random_sequence ctx bound =
     bindE (random_uint32 ctx) (\<lambda>result_value.
     thenE (assertE (bound \<noteq> 0)) (returnE (uint (result_value AND 0x7FFFFFFF) mod \<bar>bound\<bar>)))"

definition generate_pre_key :: "'c signal_context \<Rightarrow> 32 word \<Rightarrow> 32 word \<Rightarrow> ('c, 's, session_pre_key) M" where
  "generate_pre_key ctx start_index i =
     bindE (curve_generate_key_pair ctx) (\<lambda>ec_pair.
     bindE (session_pre_key_create ((start_index + i) mod (PRE_KEY_MEDIUM_MAX_VALUE - 1) + 1) (Some ec_pair)) (\<lambda>pre_key.
     thenE alloc (returnE pre_key)))"

definition signal_protocol_key_helper_generate_pre_keys ::
    "'c signal_context \<Rightarrow> 32 word \<Rightarrow> 32 word \<Rightarrow> ('c, 's, session_pre_key list) M" where
  "signal_protocol_key_helper_generate_pre_keys ctx start n =
     mapE (\<lambda>i. generate_pre_key ctx (start - 1) (of_nat i)) [0..<unat n]"

definition signal_protocol_key_helper_key_list_element :: "session_pre_key list \<Rightarrow> 'w \<Rightarrow> session_pre_key res \<times> 'w" where
  "signal_protocol_key_helper_key_list_element node = (case node of [] \<Rightarrow> faultE | pk # _ \<Rightarrow> returnE pk)"

definition signal_protocol_key_helper_key_list_next :: "session_pre_key list \<Rightarrow> 'w \<Rightarrow> session_pre_key list res \<times> 'w" where
  "signal_protocol_key_helper_key_list_next node = (case node of [] \<Rightarrow> faultE | _ # rest \<Rightarrow> returnE rest)"

definition signal_protocol_key_helper_generate_signed_pre_key ::
    "'c signal_context \<Rightarrow> ratchet_identity_key_pair \<Rightarrow> 32 word \<Rightarrow> 64 word \<Rightarrow> ('c, 's, session_signed_pre_key) M" where
  "signal_protocol_key_helper_generate_signed_pre_key ctx identity_key_pair i timestamp =
     bindE (curve_generate_key_pair ctx) (\<lambda>ec_pair.
     bindE (ec_public_key_serialize (Some (public_key ec_pair))) (\<lambda>public_buf.
     bindE (curve_calculate_signature ctx (Some (id_private_key identity_key_pair)) public_buf) (\<lambda>signature.
     session_signed_pre_key_create i timestamp (Some ec_pair) (Some signature))))"

definition signal_protocol_key_helper_generate_sender_signing_key :: "'c signal_context \<Rightarrow> ('c, 's, ec_key_pair) M" where
  "signal_protocol_key_helper_generate_sender_signing_key ctx = curve_generate_key_pair ctx"

definition signal_protocol_key_helper_generate_sender_key :: "'c signal_context \<Rightarrow> ('c, 's, bytes) M" where
  "signal_protocol_key_helper_generate_sender_key ctx =
     bindE (signal_buffer_alloc 32) (\<lambda>b.
     if b then signal_crypto_random ctx 32 else failE SG_ERR_NOMEM)"

definition signal_protocol_key_helper_generate_sender_key_id :: "'c signal_context \<Rightarrow> ('c, 's, 32 word) M" where
  "signal_protocol_key_helper_generate_sender_key_id ctx =
     bindE (signal_protocol_key_helper_get_random_sequence ctx INT32_MAX) (\<lambda>value. returnE (word_of_int value))"

section \<open>Lemmas\<close>

lemma ensures_generate_identity_key_pair:
  assumes "curve_laws ctx DH" and "random_laws ctx"
  shows "ensures (signal_protocol_key_helper_generate_identity_key_pair ctx)
    (\<lambda>kp. clamped (id_private_key kp) \<and> id_public_key kp = DH (id_private_key kp) basepoint)"
  unfolding signal_protocol_key_helper_generate_identity_key_pair_def
  by (rule ensures_bindE [OF ensures_curve_generate_key_pair [OF assms]])
     (rule ensures_yields [OF yields_ratchet_creates(3)], simp add: key_pair_of_def)

lemma ensures_random_uint32: "random_laws ctx \<Longrightarrow> ensures (random_uint32 ctx) (\<lambda>_. True)"
  unfolding random_uint32_def
  by (rule ensures_bindE [OF ensures_signal_crypto_random], assumption, rule ensures_returnE) simp

lemma word_mod_succ:
  assumes "0 < (m :: 32 word)" and "m < 0xFFFFFFFF"
  shows "unat (v mod m + 1) = unat v mod unat m + 1"
proof -
  have "unat (v mod m) < unat m" using assms(1) by (simp add: unat_mod_distrib word_less_nat_alt)
  moreover have "unat m < 2 ^ 32 - 1" using assms(2) by (simp add: word_less_nat_alt)
  ultimately show ?thesis
    using unat_index_add [of "v mod m" 1] by (simp add: unat_mod_distrib)
qed

lemma ensures_generate_registration_id:
  assumes "random_laws ctx" and "e = 0 \<or> e = 1"
  shows "ensures (signal_protocol_key_helper_generate_registration_id ctx e)
    (\<lambda>i. 1 \<le> unat i \<and> unat i \<le> (if e = 0 then 16380 else 2 ^ 31 - 2))"
proof -
  obtain f where f: "random_func (crypto_provider ctx) = Some f" using assms(1) by (auto simp: random_laws_def)
  let ?m = "if e = 0 then 16380 else word_of_int (INT32_MAX - 1) :: 32 word"
  have m: "0 < ?m" "?m < 0xFFFFFFFF" "unat ?m = (if e = 0 then 16380 else 2 ^ 31 - 2)"
    by (simp_all add: INT32_MAX_def word_less_nat_alt)
  have range: "yields (if e = 0 then returnE 16380 else if e = 1 then returnE (word_of_int (INT32_MAX - 1))
      else failE SG_ERR_INVAL) ?m"
    using assms(2) by (auto simp: yields_returnE)
  show ?thesis
    unfolding signal_protocol_key_helper_generate_registration_id_def f
    by (rule ensures_bind_yields [OF yields_derefE], rule ensures_bind_yields [OF range],
        rule ensures_bindE [OF ensures_random_uint32 [OF assms(1)]], rule ensures_returnE)
       (unfold word_mod_succ [OF m(1,2)] m(3), auto simp: Suc_le_eq)
qed

lemma ensures_get_random_sequence:
  assumes "random_laws ctx" and "0 < bound"
  shows "ensures (signal_protocol_key_helper_get_random_sequence ctx bound) (\<lambda>v. 0 \<le> v \<and> v < bound)"
  unfolding signal_protocol_key_helper_get_random_sequence_def
  by (rule ensures_bindE [OF ensures_random_uint32 [OF assms(1)]], rule ensures_thenE [OF yields_assertE])
     (use assms(2) in \<open>auto intro!: ensures_returnE\<close>)

definition pre_key_number :: "32 word \<Rightarrow> nat \<Rightarrow> 32 word" where
  "pre_key_number start i = of_nat ((unat start - 1 + i) mod 0xFFFFFE + 1)"

lemma unat_pre_key_number: "unat (pre_key_number start i) = (unat start - 1 + i) mod 0xFFFFFE + 1"
proof -
  have "(unat start - 1 + i) mod 0xFFFFFE < (0xFFFFFE :: nat)" by simp
  then have "(unat start - 1 + i) mod 0xFFFFFE + 1 < (2 :: nat) ^ 32" by simp
  then show ?thesis unfolding pre_key_number_def by (subst unsigned_of_nat) (simp add: take_bit_eq_mod)
qed

lemma pre_key_number:
  assumes "1 \<le> start" and "unat start + i \<le> 2 ^ 32"
  shows "(start - 1 + of_nat i) mod (PRE_KEY_MEDIUM_MAX_VALUE - 1) + 1 = pre_key_number start i"
proof -
  have s: "unat (start - 1) = unat start - 1" using assms(1) by (simp add: unat_sub)
  have "1 \<le> unat start" using assms(1) by (simp add: word_le_nat_alt)
  then have sum: "unat (start - 1 + of_nat i) = unat start - 1 + i"
    using assms(2) s by (subst unat_index_add) auto
  have "unat ((start - 1 + of_nat i) mod (PRE_KEY_MEDIUM_MAX_VALUE - 1) + 1) = (unat start - 1 + i) mod 0xFFFFFE + 1"
    by (subst word_mod_succ) (simp_all add: PRE_KEY_MEDIUM_MAX_VALUE_def word_less_nat_alt sum)
  then show ?thesis
    by (simp only: word_unat_eq_iff unat_pre_key_number)
qed

text \<open>The identifiers go round below the identifier of the last resort key.\<close>

lemma mod_shift_inject:
  fixes a i j M :: nat
  assumes "i < M" and "j < M" and "(a + i) mod M = (a + j) mod M"
  shows "i = j"
proof -
  have "int (a + i) mod int M = int (a + j) mod int M" using assms(3) by (metis of_nat_mod)
  then have "int i mod int M = int j mod int M" by (simp add: mod_eq_dvd_iff)
  then show ?thesis using assms(1,2) by simp
qed

lemma pre_key_number_inject:
  assumes "i < 0xFFFFFE" and "j < 0xFFFFFE" and "pre_key_number start i = pre_key_number start j"
  shows "i = j"
  by (rule mod_shift_inject [OF assms(1,2)])
     (use arg_cong [OF assms(3), of unat] in \<open>simp only: unat_pre_key_number add_right_cancel\<close>)

lemma pre_key_number_range: "1 \<le> pre_key_number start i" "pre_key_number start i < PRE_KEY_MEDIUM_MAX_VALUE"
proof -
  have "(unat start - 1 + i) mod 0xFFFFFE < (0xFFFFFE :: nat)" by simp
  then show "1 \<le> pre_key_number start i" "pre_key_number start i < PRE_KEY_MEDIUM_MAX_VALUE"
    by (simp_all only: word_le_nat_alt word_less_nat_alt unat_pre_key_number) (simp_all add: PRE_KEY_MEDIUM_MAX_VALUE_def)
qed

lemma distinct_pre_key_numbers: "n \<le> 0xFFFFFE \<Longrightarrow> distinct (map (pre_key_number start) [0..<n])"
  unfolding distinct_map by (auto intro!: inj_onI elim!: pre_key_number_inject [rotated 2])

lemma ensures_mapE:
  "(\<And>x. x \<in> set xs \<Longrightarrow> ensures (f x) (P x)) \<Longrightarrow> ensures (mapE f xs) (\<lambda>ys. list_all2 P xs ys)"
  by (induction xs) (auto intro!: ensures_returnE ensures_bindE)

lemma ensures_generate_pre_keys:
  assumes "curve_laws ctx DH" and "random_laws ctx" and "1 \<le> start" and "unat start - 1 + unat n \<le> 2 ^ 32"
  shows "ensures (signal_protocol_key_helper_generate_pre_keys ctx start n)
    (\<lambda>ks. map pre_key_id ks = map (pre_key_number start) [0..<unat n] \<and> (\<forall>k \<in> set ks. key_pair_of DH (pre_key_pair k)))"
proof -
  have "ensures (generate_pre_key ctx (start - 1) (of_nat i)) (\<lambda>k. pre_key_id k = pre_key_number start i \<and> key_pair_of DH (pre_key_pair k))"
    if "i < unat n" for i
    unfolding generate_pre_key_def session_pre_key_create_def
    by (rule ensures_bindE [OF ensures_curve_generate_key_pair [OF assms(1,2)]],
        rule ensures_bind_yields [OF yields_bindE [OF yields_derefE yields_thenE [OF yields_alloc yields_returnE]]],
        rule ensures_thenE [OF yields_alloc ensures_returnE])
       (use that assms(3,4) in \<open>simp add: pre_key_number\<close>)
  then have "ensures (signal_protocol_key_helper_generate_pre_keys ctx start n)
      (\<lambda>ks. list_all2 (\<lambda>i k. pre_key_id k = pre_key_number start i \<and> key_pair_of DH (pre_key_pair k)) [0..<unat n] ks)"
    unfolding signal_protocol_key_helper_generate_pre_keys_def by (intro ensures_mapE) simp
  then show ?thesis
  proof (rule ensures_mono)
    fix ks
    assume ks: "list_all2 (\<lambda>i k. pre_key_id k = pre_key_number start i \<and> key_pair_of DH (pre_key_pair k)) [0..<unat n] ks"
    show "map pre_key_id ks = map (pre_key_number start) [0..<unat n] \<and> (\<forall>k\<in>set ks. key_pair_of DH (pre_key_pair k))"
      using ks by (auto simp: list_all2_conv_all_nth in_set_conv_nth intro!: nth_equalityI)
  qed
qed

lemma ensures_generate_signed_pre_key:
  assumes laws: "curve_laws ctx DH" "signature_laws ctx DH" "random_laws ctx" and k: "clamped (id_private_key kp)"
  shows "ensures (signal_protocol_key_helper_generate_signed_pre_key ctx kp i ts)
    (\<lambda>pk. signed_pre_key_id pk = i \<and> key_pair_of DH (signed_pre_key_pair pk) \<and> length (signed_pre_key_signature pk) = 64 \<and>
      curve25519_verify (curve25519 ctx) (signed_pre_key_signature pk) (DH (id_private_key kp) basepoint)
        (DJB_TYPE # public_key (signed_pre_key_pair pk)) = 0)"
  unfolding signal_protocol_key_helper_generate_signed_pre_key_def
  by (rule ensures_bindE [OF ensures_curve_generate_key_pair [OF laws(1,3)]],
      rule ensures_bind_yields [OF yields_ec_public_key_serialize],
      rule ensures_bindE [OF ensures_curve_calculate_signature [OF laws(2,3) k]],
      unfold session_signed_pre_key_create_def,
      rule ensures_bind_yields [OF yields_derefE], rule ensures_bind_yields [OF yields_derefE],
      rule ensures_thenE [OF yields_assertE], force, rule ensures_thenE [OF yields_guardE],
      force simp: SIZE_MAX_def sizeof_session_signed_pre_key_def,
      rule ensures_thenE [OF yields_alloc], rule ensures_returnE) simp

lemma ensures_generate_sender_key:
  "random_laws ctx \<Longrightarrow> ensures (signal_protocol_key_helper_generate_sender_key ctx) (\<lambda>k. length k = 32)"
  unfolding signal_protocol_key_helper_generate_sender_key_def
  by (rule ensures_bind_yields [OF yields_signal_buffer_alloc], simp, simp add: ensures_signal_crypto_random)

lemma ensures_generate_sender_key_id:
  "random_laws ctx \<Longrightarrow> ensures (signal_protocol_key_helper_generate_sender_key_id ctx) (\<lambda>_. True)"
  unfolding signal_protocol_key_helper_generate_sender_key_id_def
  by (rule ensures_bindE [OF ensures_get_random_sequence], assumption, simp add: INT32_MAX_def, rule ensures_returnE) simp

lemma keeps_key_helper [keeps_rules, intro!]:
  "keeps_store (random_uint32 ctx)"
  "keeps_store (signal_protocol_key_helper_generate_sender_signing_key ctx)"
  "keeps_store (signal_protocol_key_helper_generate_sender_key ctx)"
  by (auto simp: random_uint32_def signal_protocol_key_helper_generate_sender_signing_key_def
      signal_protocol_key_helper_generate_sender_key_def)

end
