(* ===== verification/Group.thy ===== *)
theory Group
  imports Sender_Keys Key_Helper
begin

text \<open>
  group\_session\_builder.c and group\_cipher.c with the sender key store of signal\_protocol.c: a sender
  creates its key and hands it out in distribution messages, the members add it to their record of that
  sender, and messages are encrypted and decrypted on the stored records.  Objects that the source changes
  in place are returned.  The locks around the operations are not modelled: an operation runs alone.
\<close>

section \<open>The sender key store\<close>

definition signal_protocol_sender_key_store_key ::
    "'s signal_protocol_store_context \<Rightarrow> signal_protocol_sender_key_name \<Rightarrow> sender_key_record \<Rightarrow> ('c, 's, int) M" where
  "signal_protocol_sender_key_store_key store name r =
     bindE (derefE (store_sender_key store)) (\<lambda>_.
     bindE (sender_key_record_serialize r) (\<lambda>data.
     status_call (store_sender_key store) (\<lambda>f. f name data)))"

definition signal_protocol_sender_key_load_key ::
    "'c signal_context \<Rightarrow> 's signal_protocol_store_context \<Rightarrow> signal_protocol_sender_key_name
      \<Rightarrow> ('c, 's, sender_key_record) M" where
  "signal_protocol_sender_key_load_key ctx store name =
     bindE (store_call (load_sender_key store) (\<lambda>f. f name)) (\<lambda>(result, buffer).
     thenE (statusE result)
      (if result = 0 then
         (if buffer \<noteq> None then failE SG_ERR_UNKNOWN else sender_key_record_create)
       else if result = 1 then
         (case buffer of None \<Rightarrow> failE (-1) | Some data \<Rightarrow> sender_key_record_deserialize ctx data)
       else failE SG_ERR_UNKNOWN))"

section \<open>Sessions\<close>

record ('c, 's) group_session_builder =
  group_builder_store :: "'s signal_protocol_store_context"
  group_builder_context :: "'c signal_context"

definition group_session_builder_create ::
    "'s signal_protocol_store_context \<Rightarrow> 'c signal_context \<Rightarrow> ('c, 's, ('c, 's) group_session_builder) M" where
  "group_session_builder_create store ctx =
     thenE alloc (returnE \<lparr>group_builder_store = store, group_builder_context = ctx\<rparr>)"

definition group_session_builder_process_session ::
    "('c, 's) group_session_builder \<Rightarrow> signal_protocol_sender_key_name \<Rightarrow> sender_key_distribution_message
      \<Rightarrow> ('c, 's, int) M" where
  "group_session_builder_process_session builder name distribution_message =
     bindE (signal_protocol_sender_key_load_key (group_builder_context builder) (group_builder_store builder) name) (\<lambda>r.
     bindE (sender_key_record_add_sender_key_state r (skd_id distribution_message)
              (skd_iteration distribution_message) (skd_chain_key distribution_message)
              (skd_signature_key distribution_message)) (\<lambda>r'.
     signal_protocol_sender_key_store_key (group_builder_store builder) name r'))"

text \<open>A record without a state gets a new key, which is stored before it is handed out.\<close>

definition group_session_builder_new_state ::
    "('c, 's) group_session_builder \<Rightarrow> signal_protocol_sender_key_name \<Rightarrow> sender_key_record
      \<Rightarrow> ('c, 's, sender_key_record) M" where
  "group_session_builder_new_state builder name r =
     (let ctx = group_builder_context builder in
      bindE (signal_protocol_key_helper_generate_sender_key_id ctx) (\<lambda>sender_key_id.
      bindE (signal_protocol_key_helper_generate_sender_key ctx) (\<lambda>sender_key.
      bindE (signal_protocol_key_helper_generate_sender_signing_key ctx) (\<lambda>sender_signing_key.
      bindE (sender_key_record_set_sender_key_state r sender_key_id 0 (Some sender_key) sender_signing_key) (\<lambda>r'.
      thenE (signal_protocol_sender_key_store_key (group_builder_store builder) name r')
        (returnE r'))))))"

definition group_session_builder_create_session ::
    "('c, 's) group_session_builder \<Rightarrow> signal_protocol_sender_key_name
      \<Rightarrow> ('c, 's, sender_key_distribution_message) M" where
  "group_session_builder_create_session builder name =
     bindE (signal_protocol_sender_key_load_key (group_builder_context builder) (group_builder_store builder) name) (\<lambda>r.
     bindE (if sender_key_record_is_empty r then group_session_builder_new_state builder name r
            else returnE r) (\<lambda>r'.
     bindE (sender_key_record_get_sender_key_state r') (\<lambda>j.
     let state = sender_key_states r' ! j; chain = sks_chain_key state in
     sender_key_distribution_message_create (sks_key_id state) (sck_iteration chain) (sck_chain_key chain)
       (Some (sks_signature_public_key state)))))"

section \<open>Encryption and decryption\<close>

record ('c, 's) group_cipher =
  group_store :: "'s signal_protocol_store_context"
  sender_key_id :: signal_protocol_sender_key_name
  group_global_context :: "'c signal_context"
  group_callback :: "(bool \<Rightarrow> bytes option \<Rightarrow> ('c, 's, unit) M) option"
  group_inside_callback :: bool

definition group_cipher_create ::
    "'s signal_protocol_store_context \<Rightarrow> signal_protocol_sender_key_name \<Rightarrow> 'c signal_context
      \<Rightarrow> ('c, 's, ('c, 's) group_cipher) M" where
  "group_cipher_create store name ctx =
     thenE alloc (returnE \<lparr>group_store = store, sender_key_id = name, group_global_context = ctx,
       group_callback = None, group_inside_callback = False\<rparr>)"

definition group_cipher_set_decryption_callback ::
    "('c, 's) group_cipher \<Rightarrow> (bool \<Rightarrow> bytes option \<Rightarrow> ('c, 's, unit) M) option \<Rightarrow> ('c, 's) group_cipher" where
  "group_cipher_set_decryption_callback cipher callback = cipher\<lparr>group_callback := callback\<rparr>"

text \<open>The part of \<open>group_cipher_encrypt\<close> between loading and storing the record: the message and the state
  with the advanced chain.\<close>

definition group_encrypt_on_state ::
    "'c signal_context \<Rightarrow> sender_key_state \<Rightarrow> bytes \<Rightarrow> ('c, 's, sender_key_message \<times> sender_key_state) M" where
  "group_encrypt_on_state ctx state padded_plaintext =
     (case sks_signature_private_key state of
        None \<Rightarrow> failE SG_ERR_INVALID_KEY
      | Some signing_key_private \<Rightarrow>
     bindE (sender_chain_key_create_message_key ctx (sks_chain_key state)) (\<lambda>sender_key.
     bindE (signal_encrypt ctx SG_CIPHER_AES_CBC_PKCS5 (smk_cipher_key sender_key) (smk_iv sender_key)
              padded_plaintext) (\<lambda>output.
     bindE (derefE output) (\<lambda>ciphertext.
     bindE (sender_key_message_create ctx (sks_key_id state) (smk_iteration sender_key) ciphertext
              (Some signing_key_private)) (\<lambda>result_message.
     bindE (sender_chain_key_create_next ctx (sks_chain_key state)) (\<lambda>next_chain_key.
     returnE (result_message, sender_key_state_set_chain_key state next_chain_key)))))))"

definition group_cipher_encrypt :: "('c, 's) group_cipher \<Rightarrow> bytes \<Rightarrow> ('c, 's, sender_key_message) M" where
  "group_cipher_encrypt cipher padded_plaintext =
     tryE
      (thenE (guardE (\<not> group_inside_callback cipher) SG_ERR_INVAL)
      (bindE (signal_protocol_sender_key_load_key (group_global_context cipher) (group_store cipher)
                (sender_key_id cipher)) (\<lambda>r.
       bindE (sender_key_record_get_sender_key_state r) (\<lambda>j.
       bindE (group_encrypt_on_state (group_global_context cipher) (sender_key_states r ! j) padded_plaintext)
         (\<lambda>(result_message, state').
       thenE (signal_protocol_sender_key_store_key (group_store cipher) (sender_key_id cipher)
                (r\<lparr>sender_key_states := (sender_key_states r)[j := state']\<rparr>))
         (returnE result_message))))))
      (\<lambda>e. failE (if e = SG_ERR_INVALID_KEY_ID then SG_ERR_NO_SESSION else e))
      returnE"

text \<open>The loop that stores the keys of the messages not yet received.  The check before it bounds its
  passes by 2000, so a fuel of 2001 is never used up.\<close>

primrec skip_sender_keys ::
    "nat \<Rightarrow> 'c signal_context \<Rightarrow> 32 word \<Rightarrow> sender_chain_key \<Rightarrow> sender_key_state
      \<Rightarrow> ('c, 's, sender_chain_key \<times> sender_key_state) M" where
  "skip_sender_keys 0 ctx n chain state = faultE"
| "skip_sender_keys (Suc fuel) ctx n chain state =
     (if sck_iteration chain < n then
        bindE (sender_chain_key_create_message_key ctx chain) (\<lambda>message_key.
        bindE (sender_key_state_add_sender_message_key state message_key) (\<lambda>state'.
        bindE (sender_chain_key_create_next ctx chain) (\<lambda>next_chain_key.
        skip_sender_keys fuel ctx n next_chain_key state')))
      else returnE (chain, state))"

definition group_cipher_get_sender_key ::
    "'c signal_context \<Rightarrow> sender_key_state \<Rightarrow> 32 word \<Rightarrow> ('c, 's, sender_message_key \<times> sender_key_state) M" where
  "group_cipher_get_sender_key ctx state n =
     (if sck_iteration (sks_chain_key state) > n then
        (if sender_key_state_has_sender_message_key state n then
           (case sender_key_state_remove_sender_message_key state n of
              (Some result_key, state') \<Rightarrow> returnE (result_key, state')
            | (None, _) \<Rightarrow> failE SG_ERR_UNKNOWN)
         else failE SG_ERR_DUPLICATE_MESSAGE)
      else if n - sck_iteration (sks_chain_key state) > 2000 then failE SG_ERR_INVALID_MESSAGE
      else
        bindE (skip_sender_keys 2001 ctx n (sks_chain_key state) state) (\<lambda>(chain, state1).
        bindE (sender_chain_key_create_next ctx chain) (\<lambda>next_chain_key.
        bindE (sender_chain_key_create_message_key ctx chain) (\<lambda>result_key.
        returnE (result_key, sender_key_state_set_chain_key state1 next_chain_key)))))"

definition group_cipher_decrypt_callback :: "('c, 's) group_cipher \<Rightarrow> bytes option \<Rightarrow> ('c, 's, unit) M" where
  "group_cipher_decrypt_callback cipher plaintext =
     (case group_callback cipher of None \<Rightarrow> returnE () | Some callback \<Rightarrow> callback True plaintext)"

text \<open>The part of \<open>group_cipher_decrypt\<close> on one state of the record.\<close>

definition group_decrypt_on_state ::
    "'c signal_context \<Rightarrow> sender_key_state \<Rightarrow> sender_key_message \<Rightarrow> ('c, 's, bytes option \<times> sender_key_state) M" where
  "group_decrypt_on_state ctx state ciphertext =
     thenE (sender_key_message_verify_signature ctx ciphertext (Some (sks_signature_public_key state)))
     (bindE (group_cipher_get_sender_key ctx state (skm_iteration ciphertext)) (\<lambda>(sender_key, state').
      bindE (signal_decrypt ctx SG_CIPHER_AES_CBC_PKCS5 (smk_cipher_key sender_key) (smk_iv sender_key)
               (skm_ciphertext ciphertext)) (\<lambda>plaintext.
      returnE (plaintext, state'))))"

definition group_cipher_decrypt :: "('c, 's) group_cipher \<Rightarrow> sender_key_message \<Rightarrow> ('c, 's, bytes option) M" where
  "group_cipher_decrypt cipher ciphertext =
     tryE
      (thenE (guardE (\<not> group_inside_callback cipher) SG_ERR_INVAL)
      (bindE (signal_protocol_sender_key_load_key (group_global_context cipher) (group_store cipher)
                (sender_key_id cipher)) (\<lambda>r.
       thenE (guardE (\<not> sender_key_record_is_empty r) SG_ERR_NO_SESSION)
      (bindE (sender_key_record_get_sender_key_state_by_id r (skm_key_id ciphertext)) (\<lambda>j.
       bindE (group_decrypt_on_state (group_global_context cipher) (sender_key_states r ! j) ciphertext)
         (\<lambda>(plaintext, state').
       thenE (group_cipher_decrypt_callback cipher plaintext)
      (thenE (signal_protocol_sender_key_store_key (group_store cipher) (sender_key_id cipher)
                (r\<lparr>sender_key_states := (sender_key_states r)[j := state']\<rparr>))
        (returnE plaintext))))))))
      (\<lambda>e. failE (if e = SG_ERR_INVALID_KEY \<or> e = SG_ERR_INVALID_KEY_ID then SG_ERR_INVALID_MESSAGE else e))
      returnE"

end
