(* ===== verification/Sender_Keys_Laws.thy ===== *)
theory Sender_Keys_Laws
  imports Sender_Keys Session_State_Laws
begin

text \<open>
  Sender keys: what the derivations compute, well-formed states and records, their round trip through
  the serialised form, the stored keys of a state as a \<open>message_key_store\<close>, and the bound on the
  states of a record.
\<close>

section \<open>Derivations\<close>

definition sender_message_key_of :: "(bytes \<Rightarrow> bytes \<Rightarrow> bytes) \<Rightarrow> 32 word \<Rightarrow> bytes \<Rightarrow> sender_message_key" where
  "sender_message_key_of H n seed =
     (let d = rfc5869 H 1 (replicate 32 0) seed (ascii ''WhisperGroup'') 48
      in \<lparr>smk_iteration = n, smk_iv = take 16 d, smk_cipher_key = drop 16 d, smk_seed = seed\<rparr>)"

definition sender_chain_message_key ::
    "(bytes \<Rightarrow> bytes \<Rightarrow> bytes) \<Rightarrow> sender_chain_key \<Rightarrow> sender_message_key" where
  "sender_chain_message_key H ck = sender_message_key_of H (sck_iteration ck) (H (sck_chain_key ck) [1])"

definition sender_chain_next :: "(bytes \<Rightarrow> bytes \<Rightarrow> bytes) \<Rightarrow> sender_chain_key \<Rightarrow> sender_chain_key" where
  "sender_chain_next H ck = \<lparr>sck_iteration = sck_iteration ck + 1, sck_chain_key = H (sck_chain_key ck) [2]\<rparr>"

lemma sender_message_key_of_simps [simp]:
  "smk_iteration (sender_message_key_of H n seed) = n"
  "smk_seed (sender_message_key_of H n seed) = seed"
  by (simp_all add: sender_message_key_of_def Let_def)

lemma sender_chain_simps [simp]:
  "smk_iteration (sender_chain_message_key H ck) = sck_iteration ck"
  "sck_iteration (sender_chain_next H ck) = sck_iteration ck + 1"
  by (simp_all add: sender_chain_message_key_def sender_chain_next_def)

lemma sender_message_key_lengths:
  assumes "hmac_laws ctx H"
  shows "length (smk_iv (sender_message_key_of H n seed)) = 16"
    and "length (smk_cipher_key (sender_message_key_of H n seed)) = 32"
  by (simp_all add: sender_message_key_of_def Let_def rfc5869_length [OF assms])

lemma yields_sender_message_key_create:
  assumes H: "hmac_laws ctx H" and seed: "length seed < 2 ^ 63"
  shows "yields (sender_message_key_create ctx n (Some seed)) (sender_message_key_of H n seed)"
proof -
  let ?d = "rfc5869 H 1 (replicate 32 0) seed (ascii ''WhisperGroup'') 48"
  have d: "length ?d = 48" by (rule rfc5869_length [OF H])
  have kdf: "yields (hkdf_create 3) \<lparr>iteration_start_offset = 1\<rparr>"
    by (rule yields_cong [OF yields_hkdf_create]) simp_all
  have secrets: "yields (hkdf_derive_secrets ctx \<lparr>iteration_start_offset = 1\<rparr> seed (replicate 32 0)
      (Some (ascii ''WhisperGroup'')) 48) ?d"
    by (rule yields_hkdf_derive_secrets [OF H]) simp_all
  show ?thesis
    unfolding sender_message_key_create_def option.case
    by (rule yields_thenE [OF yields_alloc], rule yields_tryE, rule yields_bindE [OF kdf],
        rule yields_bindE [OF secrets], rule yields_thenE [OF yields_guardE [OF d]],
        rule yields_bindE [OF yields_new_buffer [OF seed]], rule yields_bindE [OF yields_new_buffer])
       (auto simp: rfc5869_length [OF H] sender_message_key_of_def Let_def
         intro!: yields_bindE [OF yields_new_buffer] yields_cong [OF yields_returnE] yields_returnE)
qed

lemma yields_sender_chain_key_create [yields_rules]:
  "length k < 2 ^ 63 \<Longrightarrow>
   yields (sender_chain_key_create n (Some k)) \<lparr>sck_iteration = n, sck_chain_key = k\<rparr>"
  unfolding sender_chain_key_create_def option.case
  by (rule yields_thenE [OF yields_alloc], rule yields_bindE [OF yields_new_buffer], assumption,
      rule yields_returnE)

lemma yields_sender_derivative:
  "hmac_laws ctx H \<Longrightarrow> yields (sender_chain_key_get_derivative ctx seed k) (Some (H k [seed]))"
  unfolding sender_chain_key_get_derivative_def
  by (rule yields_hmac_sha256_run, assumption) (simp add: yields_returnE)

lemma yields_create_message_key:
  assumes "hmac_laws ctx H"
  shows "yields (sender_chain_key_create_message_key ctx ck) (sender_chain_message_key H ck)"
  unfolding sender_chain_key_create_message_key_def sender_chain_message_key_def
  by (rule yields_bindE [OF yields_sender_derivative [OF assms]],
      rule yields_sender_message_key_create [OF assms]) (simp add: hmac_laws_length [OF assms])

lemma yields_sender_create_next:
  assumes "hmac_laws ctx H"
  shows "yields (sender_chain_key_create_next ctx ck) (sender_chain_next H ck)"
  unfolding sender_chain_key_create_next_def sender_chain_next_def
  by (rule yields_bindE [OF yields_sender_derivative [OF assms]], rule yields_sender_chain_key_create)
     (simp add: hmac_laws_length [OF assms])

lemma keeps_sender_keys [keeps_rules, intro!]:
  "keeps_store (sender_message_key_create ctx n seed)"
  "keeps_store (sender_chain_key_create n k)"
  "keeps_store (sender_chain_key_get_derivative ctx b key)"
  "keeps_store (sender_chain_key_create_message_key ctx ck)"
  "keeps_store (sender_chain_key_create_next ctx ck)"
  by (auto simp: sender_message_key_create_def sender_chain_key_create_def
      sender_chain_key_get_derivative_def sender_chain_key_create_message_key_def
      sender_chain_key_create_next_def split: option.splits)

section \<open>Well-formed states and records\<close>

text \<open>A stored key is the one its seed gives, the buffers have the lengths the derivations give, and the
  lists are within their bounds.\<close>

definition wf_sender_message_key :: "(bytes \<Rightarrow> bytes \<Rightarrow> bytes) \<Rightarrow> sender_message_key \<Rightarrow> bool" where
  "wf_sender_message_key H k =
     (k = sender_message_key_of H (smk_iteration k) (smk_seed k) \<and> length (smk_seed k) = 32)"

definition wf_sender_key_state :: "(bytes \<Rightarrow> bytes \<Rightarrow> bytes) \<Rightarrow> sender_key_state \<Rightarrow> bool" where
  "wf_sender_key_state H st =
     (length (sck_chain_key (sks_chain_key st)) = 32 \<and> wf_key (sks_signature_public_key st) \<and>
      pred_option wf_key (sks_signature_private_key st) \<and>
      list_all (wf_sender_message_key H) (sks_message_keys st) \<and>
      length (sks_message_keys st) \<le> MAX_SENDER_MESSAGE_KEYS)"

definition wf_sender_key_record :: "(bytes \<Rightarrow> bytes \<Rightarrow> bytes) \<Rightarrow> sender_key_record \<Rightarrow> bool" where
  "wf_sender_key_record H r =
     (list_all (wf_sender_key_state H) (sender_key_states r) \<and> length (sender_key_states r) \<le> MAX_STATES)"

lemma wf_chain_message_key:
  "hmac_laws ctx H \<Longrightarrow> wf_sender_message_key H (sender_chain_message_key H ck)"
  by (simp add: wf_sender_message_key_def sender_chain_message_key_def hmac_laws_length)

section \<open>Serialised form\<close>

definition sender_message_key_structure :: "sender_message_key \<Rightarrow> pb_message" where
  "sender_message_key_structure k = PBMsg [[V_UINT32 (smk_iteration k)], [V_BYTES (smk_seed k)]] []"

definition sender_key_state_structure :: "sender_key_state \<Rightarrow> pb_message" where
  "sender_key_state_structure st = PBMsg
     [[V_UINT32 (sks_key_id st)],
      [V_MESSAGE (PBMsg [[V_UINT32 (sck_iteration (sks_chain_key st))],
         [V_BYTES (sck_chain_key (sks_chain_key st))]] [])],
      [V_MESSAGE (PBMsg [[V_BYTES (DJB_TYPE # sks_signature_public_key st)],
         opt_slot V_BYTES (sks_signature_private_key st)] [])],
      map V_MESSAGE (map sender_message_key_structure (sks_message_keys st))] []"

definition sender_key_state_bytes :: "sender_key_state \<Rightarrow> bytes" where
  "sender_key_state_bytes st =
     protobuf_c_message_pack textsecure__sender_key_state_structure__descriptor (sender_key_state_structure st)"

definition sender_key_record_structure :: "sender_key_record \<Rightarrow> pb_message" where
  "sender_key_record_structure r =
     PBMsg [map V_MESSAGE (map sender_key_state_structure (sender_key_states r))] []"

definition sender_key_record_bytes :: "sender_key_record \<Rightarrow> bytes" where
  "sender_key_record_bytes r =
     protobuf_c_message_pack textsecure__sender_key_record_structure__descriptor (sender_key_record_structure r)"

lemma yields_sender_key_state_prepare:
  assumes "wf_sender_key_state H st"
  shows "yields (sender_key_state_serialize_prepare st) (sender_key_state_structure st)"
proof -
  have keys: "yields (prepare_list (\<lambda>k. returnE (PBMsg [[V_UINT32 (smk_iteration k)], [V_BYTES (smk_seed k)]] []))
      (sks_message_keys st)) (map sender_message_key_structure (sks_message_keys st))"
    by (rule yields_prepare_list)
       (use assms in \<open>auto simp: sender_message_key_structure_def wf_sender_key_state_def
          MAX_SENDER_MESSAGE_KEYS_def yields_returnE\<close>)
  have priv: "yields (optE (\<lambda>k. ec_private_key_serialize_protobuf (Some k)) (sks_signature_private_key st))
      (sks_signature_private_key st)"
    by (cases "sks_signature_private_key st")
       (auto intro!: yields_returnE yields_bindE [OF yields_ec_private_key_serialize_protobuf])
  show ?thesis
    unfolding sender_key_state_serialize_prepare_def sender_key_state_structure_def
    by (rule yields_thenE [OF yields_alloc], rule yields_thenE [OF yields_alloc],
        rule yields_bindE [OF yields_ec_public_key_serialize_protobuf], rule yields_bindE [OF priv],
        rule yields_bindE [OF keys], rule yields_returnE)
qed

lemma yields_decode_sender_message_key:
  assumes "hmac_laws ctx H" and "wf_sender_message_key H k"
    and "length (sks_message_keys st) < MAX_SENDER_MESSAGE_KEYS"
  shows "yields (decode_sender_message_key ctx (sender_message_key_structure k) st)
    (st\<lparr>sks_message_keys := sks_message_keys st @ [k]\<rparr>)"
proof -
  have seed: "length (smk_seed k) < 2 ^ 63" using assms(2) by (simp add: wf_sender_message_key_def)
  have create: "yields (sender_message_key_create ctx (smk_iteration k) (Some (smk_seed k))) k"
    by (rule yields_cong [OF yields_sender_message_key_create [OF assms(1) seed]])
       (use assms(2) in \<open>simp add: wf_sender_message_key_def\<close>)
  show ?thesis
    unfolding decode_sender_message_key_def sender_message_key_structure_def pb_member_defs
    by (simp, rule yields_bindE [OF yields_new_buffer [OF seed]], rule yields_bindE [OF create],
        unfold sender_key_state_add_sender_message_key_def, rule yields_thenE [OF yields_alloc],
        rule yields_cong [OF yields_returnE])
       (use assms(3) in \<open>simp add: dl_trim_short\<close>)
qed

lemma yields_decode_sender_message_keys:
  assumes "hmac_laws ctx H" and "list_all (wf_sender_message_key H) ks"
    and "length (sks_message_keys st @ ks) \<le> MAX_SENDER_MESSAGE_KEYS"
  shows "yields (foldE (decode_sender_message_key ctx) (map sender_message_key_structure ks) st
      :: ('c, 's, sender_key_state) M)
    (st\<lparr>sks_message_keys := sks_message_keys st @ ks\<rparr>)"
  using assms(2,3)
proof (induction ks arbitrary: st)
  case (Cons k ks)
  let ?st = "st\<lparr>sks_message_keys := sks_message_keys st @ [k]\<rparr>"
  have "yields (decode_sender_message_key ctx (sender_message_key_structure k) st) ?st"
    by (rule yields_decode_sender_message_key [OF assms(1)]) (use Cons.prems in auto)
  moreover have "yields (foldE (decode_sender_message_key ctx) (map sender_message_key_structure ks) ?st
      :: ('c, 's, sender_key_state) M)
      (st\<lparr>sks_message_keys := sks_message_keys st @ k # ks\<rparr>)"
    by (rule yields_cong [OF Cons.IH]) (use Cons.prems in auto)
  ultimately show ?case by (auto intro: yields_bindE)
qed (simp add: yields_returnE)

lemma yields_sender_key_state_deserialize_protobuf:
  assumes H: "hmac_laws ctx H" and wf: "wf_sender_key_state H st"
  shows "yields (sender_key_state_deserialize_protobuf ctx (sender_key_state_structure st)) st"
proof -
  have chain: "yields (decode_sender_chain_key (pb_sub 1 (sender_key_state_structure st))) (Some (sks_chain_key st))"
    unfolding decode_sender_chain_key_def sender_key_state_structure_def pb_member_defs
    using wf by (auto simp: wf_sender_key_state_def
        intro!: yields_bindE [OF yields_new_buffer] yields_bindE [OF yields_sender_chain_key_create]
          yields_cong [OF yields_returnE])
  have signing: "yields (decode_signing_key (pb_sub 2 (sender_key_state_structure st)))
      (Some (sks_signature_public_key st), sks_signature_private_key st)"
    unfolding decode_signing_key_def sender_key_state_structure_def pb_member_defs
    using wf by (cases "sks_signature_private_key st")
       (auto simp: wf_sender_key_state_def intro!: yields_bindE yields_returnE yields_curve_decode_point
         yields_curve_decode_private_point)
  let ?st = "st\<lparr>sks_message_keys := []\<rparr>"
  have create: "yields (sender_key_state_create (sks_key_id st) (Some (sks_chain_key st))
      (Some (sks_signature_public_key st)) (sks_signature_private_key st)) ?st"
    unfolding sender_key_state_create_def
    by simp (rule yields_thenE [OF yields_alloc], rule yields_cong [OF yields_returnE], simp)
  have keys: "yields (foldE (decode_sender_message_key ctx) (map sender_message_key_structure (sks_message_keys st)) ?st) st"
    by (rule yields_cong [OF yields_decode_sender_message_keys [OF H]])
       (use wf in \<open>simp_all add: wf_sender_key_state_def\<close>)
  show ?thesis
    unfolding sender_key_state_deserialize_protobuf_def
    by (rule yields_bindE [OF chain], rule yields_bindE [OF signing])
       (auto simp: sender_key_state_structure_def pb_member_defs comp_def intro!: yields_bindE [OF create] keys)
qed

lemma msg_ok_sender_message_key [simp]:
  "msg_ok textsecure__sender_key_state_structure__sender_message_key__descriptor (sender_message_key_structure k)"
  by (simp add: textsecure__sender_key_state_structure__sender_message_key__descriptor_def
      sender_message_key_structure_def)

lemma msg_ok_sender_key_state [simp]:
  "msg_ok textsecure__sender_key_state_structure__descriptor (sender_key_state_structure st)"
  by (auto simp: textsecure__sender_key_state_structure__descriptor_def
      textsecure__sender_key_state_structure__sender_chain_key__descriptor_def
      textsecure__sender_key_state_structure__sender_signing_key__descriptor_def
      sender_key_state_structure_def list_all_iff split: option.splits)

lemma msg_ok_sender_key_record [simp]:
  "msg_ok textsecure__sender_key_record_structure__descriptor (sender_key_record_structure r)"
  by (auto simp: textsecure__sender_key_record_structure__descriptor_def sender_key_record_structure_def list_all_iff)

lemma weight_sender_key_state:
  assumes "wf_sender_key_state H st"
  shows "msg_weight (sender_key_state_structure st) \<le> 100200"
proof -
  have "sum_list (map value_weight (map V_MESSAGE (map sender_message_key_structure (sks_message_keys st)))) \<le> 2000 * (44 + 6)"
    by (rule sum_weights_le)
       (use assms in \<open>auto simp: wf_sender_key_state_def list_all_iff MAX_SENDER_MESSAGE_KEYS_def
          sender_message_key_structure_def wf_sender_message_key_def\<close>)
  moreover have "sum_list (map value_weight (opt_slot V_BYTES (sks_signature_private_key st))) \<le> 32 + 6"
    by (rule weight_opt_bytes) (use assms in \<open>auto simp: wf_sender_key_state_def\<close>)
  ultimately show ?thesis
    using assms by (simp add: sender_key_state_structure_def wf_sender_key_state_def)
qed

lemma fits_wire_sender_keys:
  "wf_sender_key_state H st \<Longrightarrow>
   fits_wire textsecure__sender_key_state_structure__descriptor (sender_key_state_structure st)"
  "wf_sender_key_record H r \<Longrightarrow>
   fits_wire textsecure__sender_key_record_structure__descriptor (sender_key_record_structure r)"
proof -
  show "fits_wire textsecure__sender_key_state_structure__descriptor (sender_key_state_structure st)"
    if "wf_sender_key_state H st"
    using weight_sender_key_state [OF that] by (intro fits_wireI) auto
  assume wf: "wf_sender_key_record H r"
  have "sum_list (map value_weight (map V_MESSAGE (map sender_key_state_structure (sender_key_states r)))) \<le> 5 * (100200 + 6)"
    by (rule sum_weights_le)
       (use wf weight_sender_key_state in \<open>auto simp: wf_sender_key_record_def list_all_iff MAX_STATES_def\<close>)
  then have "msg_weight (sender_key_record_structure r) < 2 ^ 26"
    by (simp add: sender_key_record_structure_def)
  then show "fits_wire textsecure__sender_key_record_structure__descriptor (sender_key_record_structure r)"
    by (intro fits_wireI) simp_all
qed

lemma yields_sender_key_state_serialize:
  "wf_sender_key_state H st \<Longrightarrow> yields (sender_key_state_serialize st) (sender_key_state_bytes st)"
  unfolding sender_key_state_serialize_def sender_key_state_bytes_def
  by (rule yields_thenE [OF yields_alloc], rule yields_bindE [OF yields_sender_key_state_prepare],
      assumption, rule yields_pb_pack) (simp_all add: fits_wire_sender_keys)

lemma yields_sender_key_state_deserialize:
  "hmac_laws ctx H \<Longrightarrow> wf_sender_key_state H st \<Longrightarrow>
   yields (sender_key_state_deserialize ctx (sender_key_state_bytes st)) st"
  unfolding sender_key_state_deserialize_def sender_key_state_bytes_def
  by (rule yields_bindE [OF yields_pb_unpack], simp, simp add: fits_wire_sender_keys,
      rule yields_sender_key_state_deserialize_protobuf)

interpretation sender_key_state_codec:
  object_codec sender_key_state_serialize "sender_key_state_deserialize ctx"
    "\<lambda>st. hmac_laws ctx H \<and> wf_sender_key_state H st" sender_key_state_bytes for ctx H
  by unfold_locales (auto intro: yields_sender_key_state_serialize yields_sender_key_state_deserialize)

lemma yields_sender_key_state_copy:
  "hmac_laws ctx H \<Longrightarrow> wf_sender_key_state H st \<Longrightarrow> yields (sender_key_state_copy ctx st) st"
  unfolding sender_key_state_copy_def by (rule sender_key_state_codec.round_trip) simp

lemma yields_sender_key_record_create [yields_rules]:
  "yields sender_key_record_create \<lparr>sender_key_states = []\<rparr>"
  unfolding sender_key_record_create_def by (rule yields_thenE [OF yields_alloc yields_returnE])

lemma yields_sender_key_record_serialize:
  assumes "wf_sender_key_record H r"
  shows "yields (sender_key_record_serialize r) (sender_key_record_bytes r)"
proof -
  have "yields (prepare_list sender_key_state_serialize_prepare (sender_key_states r))
      (map sender_key_state_structure (sender_key_states r))"
    by (rule yields_prepare_list, rule yields_sender_key_state_prepare [of H])
       (use assms in \<open>auto simp: wf_sender_key_record_def list_all_iff MAX_STATES_def\<close>)
  then show ?thesis
    unfolding sender_key_record_serialize_def sender_key_record_bytes_def
    by (rule yields_bindE, fold sender_key_record_structure_def, intro yields_pb_pack)
       (simp_all add: fits_wire_sender_keys(2) [OF assms])
qed

lemma yields_sender_key_record_deserialize:
  assumes "hmac_laws ctx H" and "wf_sender_key_record H r"
  shows "yields (sender_key_record_deserialize ctx (sender_key_record_bytes r)) r"
proof -
  have states: "yields (mapE (\<lambda>s. bindE (sender_key_state_deserialize_protobuf ctx s) (\<lambda>st. thenE alloc (returnE st)))
      (map sender_key_state_structure (sender_key_states r))) (sender_key_states r)"
    by (rule yields_mapE_inverse, rule yields_bindE,
        rule yields_sender_key_state_deserialize_protobuf [OF assms(1)])
       (use assms(2) in \<open>auto simp: wf_sender_key_record_def list_all_iff
          intro!: yields_thenE [OF yields_alloc yields_returnE]\<close>)
  show ?thesis
    unfolding sender_key_record_deserialize_def sender_key_record_bytes_def
    by (rule yields_bindE [OF yields_pb_unpack], simp, simp add: fits_wire_sender_keys(2) [OF assms(2)],
        rule yields_bindE [OF yields_sender_key_record_create])
       (auto simp: sender_key_record_structure_def pb_member_defs comp_def
         intro!: yields_bindE [OF states] yields_cong [OF yields_returnE])
qed

interpretation sender_key_record_codec:
  object_codec sender_key_record_serialize "sender_key_record_deserialize ctx"
    "\<lambda>r. hmac_laws ctx H \<and> wf_sender_key_record H r" sender_key_record_bytes for ctx H
  by unfold_locales (auto intro: yields_sender_key_record_serialize yields_sender_key_record_deserialize)

lemma yields_sender_key_record_copy:
  "hmac_laws ctx H \<Longrightarrow> wf_sender_key_record H r \<Longrightarrow> yields (sender_key_record_copy ctx r) r"
  unfolding sender_key_record_copy_def by (rule sender_key_record_codec.round_trip) simp

lemma keeps_sender_key_states [keeps_rules, intro!]:
  "keeps_store (sender_key_state_create i ck pub priv)"
  "keeps_store (sender_key_state_add_sender_message_key st k)"
  "keeps_store (sender_key_state_serialize_prepare st)"
  "keeps_store (sender_key_state_serialize st)"
  "keeps_store (decode_sender_message_key ctx m st)"
  "keeps_store (decode_sender_chain_key c)"
  "keeps_store (decode_signing_key c)"
  by (auto simp: sender_key_state_create_def sender_key_state_add_sender_message_key_def
      sender_key_state_serialize_def sender_key_state_serialize_prepare_def decode_sender_message_key_def
      decode_sender_chain_key_def decode_signing_key_def split: option.splits)

lemma keeps_sender_key_record [keeps_rules, intro!]:
  "keeps_store (sender_key_state_deserialize_protobuf ctx m)"
  "keeps_store sender_key_record_create"
  "keeps_store (sender_key_record_serialize r)"
  "keeps_store (sender_key_record_deserialize ctx data)"
  "keeps_store (sender_key_record_get_sender_key_state r)"
  "keeps_store (sender_key_record_get_sender_key_state_by_id r i)"
  "keeps_store (sender_key_record_add_sender_key_state_impl r i n k pub priv)"
  "keeps_store (sender_key_record_add_sender_key_state r i n k pub)"
  "keeps_store (sender_key_record_set_sender_key_state r i n k kp)"
  by (auto simp: sender_key_state_deserialize_protobuf_def sender_key_record_create_def
      sender_key_record_serialize_def sender_key_record_deserialize_def
      sender_key_record_get_sender_key_state_def sender_key_record_get_sender_key_state_by_id_def
      sender_key_record_add_sender_key_state_impl_def sender_key_record_add_sender_key_state_def
      sender_key_record_set_sender_key_state_def split: option.splits prod.splits)

section \<open>The stored keys of a state\<close>

lemma yields_add_sender_message_key:
  "yields (sender_key_state_add_sender_message_key st k)
    (st\<lparr>sks_message_keys := dl_trim MAX_SENDER_MESSAGE_KEYS (sks_message_keys st @ [k])\<rparr>)"
  unfolding sender_key_state_add_sender_message_key_def by (rule yields_thenE [OF yields_alloc yields_returnE])

interpretation sender_message_keys:
  message_key_store "\<lambda>_. True" sks_message_keys smk_iteration sender_key_state_has_sender_message_key
    sender_key_state_add_sender_message_key sender_key_state_remove_sender_message_key MAX_SENDER_MESSAGE_KEYS
proof unfold_locales
  fix st :: sender_key_state and n :: "32 word" and mk :: sender_message_key and j :: nat
  show "sender_key_state_has_sender_message_key st n = (\<exists>mk\<in>set (sks_message_keys st). smk_iteration mk = n)"
    by (auto simp: sender_key_state_has_sender_message_key_def dl_search_None simp flip: not_None_eq)
  show "ensures (sender_key_state_add_sender_message_key st mk)
      (\<lambda>st'. True \<and> sks_message_keys st' = dl_trim MAX_SENDER_MESSAGE_KEYS (sks_message_keys st @ [mk]))"
    by (rule ensures_yields [OF yields_add_sender_message_key]) simp
  show "\<exists>st'. sender_key_state_remove_sender_message_key st n = (Some (sks_message_keys st ! j), st') \<and>
      True \<and> sks_message_keys st' = dl_delete j (sks_message_keys st)"
    if "dl_search (\<lambda>mk. smk_iteration mk = n) (sks_message_keys st) = Some j"
    using that by (simp add: sender_key_state_remove_sender_message_key_def)
  show "sender_key_state_remove_sender_message_key st n = (None, st)"
    if "dl_search (\<lambda>mk. smk_iteration mk = n) (sks_message_keys st) = None"
    using that by (simp add: sender_key_state_remove_sender_message_key_def)
qed (simp add: MAX_SENDER_MESSAGE_KEYS_def)

section \<open>The states of a record\<close>

lemma dl_trim_tail_take: "dl_trim_tail bound xs = take bound xs"
proof (induction xs rule: length_induct)
  case (1 xs)
  then show ?case
    by (subst dl_trim_tail.simps) (cases "xs = []", auto simp: butlast_conv_take min_def)
qed

lemma yields_add_sender_key_state:
  assumes "length k < 2 ^ 63"
  shows "yields (sender_key_record_add_sender_key_state_impl r i n (Some k) (Some pub) priv)
    (r\<lparr>sender_key_states := take MAX_STATES
       (\<lparr>sks_key_id = i, sks_chain_key = \<lparr>sck_iteration = n, sck_chain_key = k\<rparr>,
         sks_signature_public_key = pub, sks_signature_private_key = priv, sks_message_keys = []\<rparr>
        # sender_key_states r)\<rparr>)"
  unfolding sender_key_record_add_sender_key_state_impl_def sender_key_state_create_def dl_trim_tail_take
    prod.case option.case
  by (rule yields_bindE [OF yields_sender_chain_key_create [OF assms]],
      rule yields_bindE [OF yields_thenE [OF yields_alloc yields_returnE]],
      rule yields_thenE [OF yields_alloc yields_returnE])

end
