(* ===== verification/Sender_Messages.thy ===== *)
theory Sender_Messages
  imports Messages_Laws
begin

text \<open>
  The messages of a group: sender key messages with the signature that ends them, and the distribution
  messages that hand a sender key to the members.  Both survive serialisation, a message that was signed
  is accepted and one whose signature does not verify is refused.
\<close>

section \<open>Sender key messages\<close>

definition sender_key_message_body :: "32 word \<Rightarrow> 32 word \<Rightarrow> bytes \<Rightarrow> pb_message" where
  "sender_key_message_body i n ct = PBMsg [[V_UINT32 i], [V_UINT32 n], [V_BYTES ct]] []"

text \<open>The serialised message without its signature.\<close>

definition sender_key_message_bytes :: "32 word \<Rightarrow> 32 word \<Rightarrow> bytes \<Rightarrow> bytes" where
  "sender_key_message_bytes i n ct =
     version_byte CIPHERTEXT_CURRENT_VERSION #
       protobuf_c_message_pack textsecure__sender_key_message__descriptor (sender_key_message_body i n ct)"

definition wf_sender_key_message :: "sender_key_message \<Rightarrow> bool" where
  "wf_sender_key_message m =
     (skm_version m = CIPHERTEXT_CURRENT_VERSION \<and> length (skm_ciphertext m) \<le> MAX_CIPHERTEXT \<and>
      (\<exists>sig. length sig = SIGNATURE_LENGTH \<and>
         skm_serialized m = sender_key_message_bytes (skm_key_id m) (skm_iteration m) (skm_ciphertext m) @ sig))"

definition signature_valid :: "'c signal_context \<Rightarrow> ec_public_key \<Rightarrow> sender_key_message \<Rightarrow> bool" where
  "signature_valid ctx pub m =
     (let n = length (skm_serialized m) - SIGNATURE_LENGTH in
      curve25519_verify (curve25519 ctx) (drop n (skm_serialized m)) pub (take n (skm_serialized m)) = 0)"

lemma current_version: "CIPHERTEXT_CURRENT_VERSION = 2 \<or> CIPHERTEXT_CURRENT_VERSION = 3"
  by (simp add: CIPHERTEXT_CURRENT_VERSION_def)

lemma fits_sender_key_message:
  "length ct \<le> MAX_CIPHERTEXT \<Longrightarrow>
   fits_wire textsecure__sender_key_message__descriptor (sender_key_message_body i n ct)"
  by (rule fits_wireI, simp, simp add: textsecure__sender_key_message__descriptor_def sender_key_message_body_def)
     (simp add: sender_key_message_body_def MAX_CIPHERTEXT_def)

lemma ensures_sender_key_message_create:
  assumes "signature_laws ctx DH" and "random_laws ctx" and "clamped k" and ct: "length ct \<le> MAX_CIPHERTEXT"
  shows "ensures (sender_key_message_create ctx i n ct (Some k))
    (\<lambda>m. wf_sender_key_message m \<and> signature_valid ctx (DH k basepoint) m \<and>
      skm_key_id m = i \<and> skm_iteration m = n \<and> skm_ciphertext m = ct)"
proof -
  let ?m = "\<lparr>skm_version = CIPHERTEXT_CURRENT_VERSION, skm_key_id = i, skm_iteration = n, skm_ciphertext = ct,
    skm_serialized = []\<rparr>"
  have copy: "yields (new_buffer ct) ct"
    by (rule yields_new_buffer_small) (use ct in \<open>simp add: MAX_CIPHERTEXT_def\<close>)
  have pack: "yields (pb_pack_versioned (version_byte CIPHERTEXT_CURRENT_VERSION) SIGNATURE_LENGTH
      textsecure__sender_key_message__descriptor (sender_key_message_body i n ct)) (sender_key_message_bytes i n ct)"
    unfolding sender_key_message_bytes_def
    by (rule yields_pb_pack_versioned) (simp_all add: fits_sender_key_message [OF ct] SIGNATURE_LENGTH_def)
  have "ensures (sender_key_message_serialize ctx ?m (Some k)) (\<lambda>b. \<exists>sig. length sig = 64 \<and>
      b = sender_key_message_bytes i n ct @ sig \<and>
      curve25519_verify (curve25519 ctx) sig (DH k basepoint) (sender_key_message_bytes i n ct) = 0)"
    unfolding sender_key_message_serialize_def
    by (simp, fold sender_key_message_body_def, rule ensures_bind_yields [OF pack], rule ensures_tryE,
        rule ensures_curve_calculate_signature [OF assms(1-3)])
       (auto simp: SIGNATURE_LENGTH_def intro!: ensures_thenE [OF yields_guardE] ensures_returnE)
  then show ?thesis
    unfolding sender_key_message_create_def Let_def
    by (intro ensures_thenE [OF yields_alloc] ensures_bind_yields [OF copy], rule ensures_bindE)
       (auto simp: wf_sender_key_message_def signature_valid_def Let_def SIGNATURE_LENGTH_def ct intro!: ensures_returnE)
qed

lemma yields_sender_key_message_deserialize:
  assumes "wf_sender_key_message m"
  shows "yields (sender_key_message_deserialize (skm_serialized m)) m"
proof -
  let ?D = textsecure__sender_key_message__descriptor
  let ?body = "sender_key_message_body (skm_key_id m) (skm_iteration m) (skm_ciphertext m)"
  obtain sig where sig: "length sig = SIGNATURE_LENGTH"
    and ser: "skm_serialized m = version_byte CIPHERTEXT_CURRENT_VERSION # protobuf_c_message_pack ?D ?body @ sig"
    and v: "skm_version m = CIPHERTEXT_CURRENT_VERSION" and ct: "length (skm_ciphertext m) \<le> MAX_CIPHERTEXT"
    using assms by (auto simp: wf_sender_key_message_def sender_key_message_bytes_def)
  have fits: "fits_wire ?D ?body" by (rule fits_sender_key_message [OF ct])
  have ne: "protobuf_c_message_pack ?D ?body \<noteq> []"
    using uint32_pack_pos
    by (auto simp: textsecure__sender_key_message__descriptor_def sender_key_message_body_def)
  have ser_copy: "yields (new_buffer (skm_serialized m)) (skm_serialized m)"
    using fits sig by (intro yields_new_buffer_small) (simp add: ser fits_wire_def SIGNATURE_LENGTH_def)
  have ct_copy: "yields (new_buffer (skm_ciphertext m)) (skm_ciphertext m)"
    using ct by (intro yields_new_buffer_small) (simp add: MAX_CIPHERTEXT_def)
  have unpack: "yields (pb_unpack ?D (take (length (skm_serialized m) - 1 - SIGNATURE_LENGTH)
      (drop 1 (skm_serialized m)))) ?body"
    using yields_pb_unpack [OF _ fits] sig by (simp add: ser)
  have nibble: "high_nibble (skm_serialized m ! 0) = CIPHERTEXT_CURRENT_VERSION"
    using high_nibble_version_byte [OF current_version] by (simp add: ser)
  have len: "\<not> length (skm_serialized m) \<le> 1 + SIGNATURE_LENGTH"
    using ne sig by (simp add: ser)
  show ?thesis
    unfolding sender_key_message_deserialize_def Let_def nibble if_not_P [OF len]
    by (simp, rule yields_bindE [OF unpack [simplified]],
        simp add: sender_key_message_body_def pb_member_defs, rule yields_thenE [OF yields_alloc],
        rule yields_bindE [OF ct_copy], rule yields_bindE [OF ser_copy], rule yields_cong [OF yields_returnE])
       (simp add: v)
qed

interpretation sender_key_message_codec:
  object_codec "\<lambda>m. returnE (skm_serialized m)" sender_key_message_deserialize wf_sender_key_message skm_serialized
  by unfold_locales (auto intro: yields_returnE yields_sender_key_message_deserialize)

lemma length_sender_key_message: "wf_sender_key_message m \<Longrightarrow> SIGNATURE_LENGTH \<le> length (skm_serialized m)"
  by (auto simp: wf_sender_key_message_def)

lemma verify_sender_key_message:
  assumes len: "SIGNATURE_LENGTH \<le> length (skm_serialized m)"
  shows "signature_valid ctx pub m \<Longrightarrow> yields (sender_key_message_verify_signature ctx m (Some pub)) ()"
    and "\<not> signature_valid ctx pub m \<Longrightarrow>
      fails (sender_key_message_verify_signature ctx m (Some pub)) SG_ERR_INVALID_MESSAGE"
proof -
  have sig: "yields (curve_verify_signature ctx (Some pub)
      (take (length (skm_serialized m) - SIGNATURE_LENGTH) (skm_serialized m))
      (drop (length (skm_serialized m) - SIGNATURE_LENGTH) (skm_serialized m))) (signature_valid ctx pub m)"
    unfolding signature_valid_def Let_def
    by (rule yields_curve_verify_signature) (use len in \<open>simp add: SIGNATURE_LENGTH_def\<close>)
  show "yields (sender_key_message_verify_signature ctx m (Some pub)) ()" if "signature_valid ctx pub m"
    unfolding sender_key_message_verify_signature_def Let_def
    by (rule yields_thenE [OF yields_assertE [OF len]], rule yields_tryE [OF sig], rule yields_guardE) (rule that)
  show "fails (sender_key_message_verify_signature ctx m (Some pub)) SG_ERR_INVALID_MESSAGE"
    if "\<not> signature_valid ctx pub m"
    unfolding sender_key_message_verify_signature_def Let_def
    by (rule fails_then_yields [OF yields_assertE [OF len]], rule fails_try_yields [OF sig], rule fails_guardE)
       (rule that)
qed

lemma keeps_sender_key_message [keeps_rules, intro!]:
  "keeps_store (sender_key_message_deserialize data)"
  "keeps_store (sender_key_distribution_message_deserialize data)"
  "keeps_store (sender_key_message_create ctx i n ct k)"
  by (auto simp: sender_key_message_deserialize_def sender_key_distribution_message_deserialize_def
      sender_key_message_create_def sender_key_message_serialize_def Let_def split: option.splits)

section \<open>Distribution messages\<close>

definition distribution_body :: "32 word \<Rightarrow> 32 word \<Rightarrow> bytes \<Rightarrow> ec_public_key \<Rightarrow> pb_message" where
  "distribution_body i n ck pub = PBMsg [[V_UINT32 i], [V_UINT32 n], [V_BYTES ck], [V_BYTES (DJB_TYPE # pub)]] []"

definition distribution_message_of ::
    "32 word \<Rightarrow> 32 word \<Rightarrow> bytes \<Rightarrow> ec_public_key \<Rightarrow> sender_key_distribution_message" where
  "distribution_message_of i n ck pub =
     \<lparr>skd_id = i, skd_iteration = n, skd_chain_key = Some ck, skd_signature_key = Some pub,
      skd_serialized = Some (version_byte CIPHERTEXT_CURRENT_VERSION #
        protobuf_c_message_pack textsecure__sender_key_distribution_message__descriptor (distribution_body i n ck pub))\<rparr>"

definition wf_distribution_message :: "sender_key_distribution_message \<Rightarrow> bool" where
  "wf_distribution_message m = (\<exists>ck pub. length ck = 32 \<and> wf_key pub \<and>
     m = distribution_message_of (skd_id m) (skd_iteration m) ck pub)"

definition distribution_bytes :: "sender_key_distribution_message \<Rightarrow> bytes" where
  "distribution_bytes m = the (skd_serialized m)"

lemma fits_distribution:
  "length ck = 32 \<Longrightarrow> wf_key pub \<Longrightarrow>
   fits_wire textsecure__sender_key_distribution_message__descriptor (distribution_body i n ck pub)"
  by (rule fits_wireI, simp, simp add: textsecure__sender_key_distribution_message__descriptor_def distribution_body_def)
     (simp add: distribution_body_def)

lemma yields_distribution_message_create:
  assumes ck: "length ck = 32" and pub: "wf_key pub"
  shows "yields (sender_key_distribution_message_create i n ck (Some pub)) (distribution_message_of i n ck pub)"
proof -
  let ?m = "\<lparr>skd_id = i, skd_iteration = n, skd_chain_key = Some ck, skd_signature_key = Some pub, skd_serialized = None\<rparr>"
  have copy: "yields (signal_buffer_create ck) (Some ck)" by (rule yields_signal_buffer_create) (simp add: ck)
  have ser: "yields (sender_key_distribution_message_serialize ?m) (version_byte CIPHERTEXT_CURRENT_VERSION #
      protobuf_c_message_pack textsecure__sender_key_distribution_message__descriptor (distribution_body i n ck pub))"
    unfolding sender_key_distribution_message_serialize_def
    by (simp, rule yields_bindE [OF yields_derefE], rule yields_bindE [OF yields_ec_public_key_serialize_protobuf],
        fold distribution_body_def, rule yields_pb_pack_versioned) (simp_all add: fits_distribution [OF ck pub])
  show ?thesis
    unfolding sender_key_distribution_message_create_def Let_def distribution_message_of_def
    by (auto intro!: yields_thenE [OF yields_alloc] yields_bindE [OF copy] yields_bindE [OF yields_derefE]
        yields_bindE [OF ser] yields_returnE)
qed

lemma yields_distribution_message_deserialize:
  assumes ck: "length ck = 32" and pub: "wf_key pub"
  shows "yields (sender_key_distribution_message_deserialize (distribution_bytes (distribution_message_of i n ck pub)))
    (distribution_message_of i n ck pub)"
proof -
  let ?D = textsecure__sender_key_distribution_message__descriptor and ?body = "distribution_body i n ck pub"
  let ?pack = "protobuf_c_message_pack ?D ?body"
  have fits: "fits_wire ?D ?body" by (rule fits_distribution [OF ck pub])
  have ne: "?pack \<noteq> []"
    by (simp add: textsecure__sender_key_distribution_message__descriptor_def distribution_body_def
        tag_with_wire_type_def binary_data_pack_def Let_def)
  have ck_copy: "yields (new_buffer ck) ck" by (rule yields_new_buffer) (simp add: ck)
  have ser_copy: "yields (new_buffer (version_byte CIPHERTEXT_CURRENT_VERSION # ?pack))
      (version_byte CIPHERTEXT_CURRENT_VERSION # ?pack)"
    by (rule yields_new_buffer_small) (use fits in \<open>simp add: fits_wire_def\<close>)
  have unpack: "yields (pb_unpack ?D ?pack) ?body" by (rule yields_pb_unpack [OF _ fits]) simp
  show ?thesis
    unfolding sender_key_distribution_message_deserialize_def distribution_bytes_def distribution_message_of_def Let_def
    by (simp add: ne high_nibble_version_byte [OF current_version], rule yields_bindE [OF unpack],
        simp add: distribution_body_def pb_member_defs, rule yields_thenE [OF yields_alloc],
        rule yields_bindE [OF ck_copy], rule yields_bindE [OF yields_curve_decode_point [OF pub]],
        fold distribution_body_def, rule yields_bindE [OF ser_copy], rule yields_returnE)
qed

interpretation distribution_codec:
  object_codec "\<lambda>m. derefE (skd_serialized m)" sender_key_distribution_message_deserialize
    wf_distribution_message distribution_bytes
proof unfold_locales
  fix m
  assume "wf_distribution_message m"
  then obtain i n ck pub where m: "m = distribution_message_of i n ck pub" "length ck = 32" "wf_key pub"
    unfolding wf_distribution_message_def by blast
  then show "yields (sender_key_distribution_message_deserialize (distribution_bytes m)) m"
    by (simp add: yields_distribution_message_deserialize)
  show "yields (derefE (skd_serialized m)) (distribution_bytes m)"
    by (simp add: m(1) distribution_message_of_def distribution_bytes_def yields_derefE)
qed

end
