(* ===== verification/Group_Laws.thy ===== *)
theory Group_Laws
  imports Group Sender_Keys_Laws Sender_Messages Test_Stores
begin

text \<open>
  Groups: the messages of a sender chain on one state, in any order and each of them once; the contract of
  the sender key store as a locale, with the operations of the group on any store that satisfies it; and that
  the in-memory stores satisfy it.
\<close>

section \<open>Positions on a sender chain\<close>

definition sender_step :: "(bytes \<Rightarrow> bytes \<Rightarrow> bytes) \<Rightarrow> sender_chain_key \<Rightarrow> nat \<Rightarrow> sender_chain_key" where
  "sender_step H ck j = (sender_chain_next H ^^ j) ck"

abbreviation position_key :: "(bytes \<Rightarrow> bytes \<Rightarrow> bytes) \<Rightarrow> sender_chain_key \<Rightarrow> nat \<Rightarrow> sender_message_key" where
  "position_key H ck j \<equiv> sender_chain_message_key H (sender_step H ck j)"

lemma sender_step_simps [simp]:
  "sender_step H ck 0 = ck"
  "sender_chain_next H (sender_step H ck j) = sender_step H ck (Suc j)"
  "sck_iteration (sender_step H ck j) = sck_iteration ck + of_nat j"
proof -
  show "sender_step H ck 0 = ck" "sender_chain_next H (sender_step H ck j) = sender_step H ck (Suc j)"
    by (simp_all add: sender_step_def)
  show "sck_iteration (sender_step H ck j) = sck_iteration ck + of_nat j"
    by (induction j) (simp_all add: sender_step_def)
qed

lemma sender_step_add: "sender_step H (sender_step H ck n) j = sender_step H ck (n + j)"
  by (simp add: sender_step_def funpow_add add.commute [of n j])

lemma sender_step_next: "sender_step H (sender_chain_next H ck) j = sender_step H ck (Suc j)"
  by (simp add: sender_step_def funpow_swap1)

lemma length_sender_step:
  "hmac_laws ctx H \<Longrightarrow> length (sck_chain_key ck) = 32 \<Longrightarrow> length (sck_chain_key (sender_step H ck j)) = 32"
  by (cases j) (simp_all add: sender_step_def sender_chain_next_def hmac_laws_length)

text \<open>Iterations on a chain do not repeat before the counter wraps.\<close>

lemma position_inject:
  assumes "unat (sck_iteration ck) + 2000 < 2 ^ 32" and "n \<le> 2000"
  shows "inj_on (\<lambda>j. smk_iteration (position_key H ck j)) {..n}" "inj_on (position_key H ck) {..n}"
proof -
  show num: "inj_on (\<lambda>j. smk_iteration (position_key H ck j)) {..n}"
    by (rule inj_onI, rule index_add_inject [OF assms(1)]) (use assms(2) in auto)
  show "inj_on (position_key H ck) {..n}"
    using num unfolding inj_on_def by metis
qed

lemma inj_on_below: "inj_on f {..n} \<Longrightarrow> inj_on f {..<n :: nat}"
  by (auto intro: inj_on_subset)

section \<open>Encryption\<close>

text \<open>A message that carries a plaintext at the position of a chain key.\<close>

definition carries ::
    "'c signal_context \<Rightarrow> (bytes \<Rightarrow> bytes \<Rightarrow> bytes) \<Rightarrow> (int \<Rightarrow> bytes \<Rightarrow> bytes \<Rightarrow> bytes \<Rightarrow> bytes) \<Rightarrow> 32 word \<Rightarrow> ec_public_key
      \<Rightarrow> sender_chain_key \<Rightarrow> bytes \<Rightarrow> sender_key_message \<Rightarrow> bool" where
  "carries ctx H E i pub ck p m =
     (wf_sender_key_message m \<and> signature_valid ctx pub m \<and> skm_key_id m = i \<and> skm_iteration m = sck_iteration ck \<and>
      skm_ciphertext m = E SG_CIPHER_AES_CBC_PKCS5 (smk_cipher_key (sender_chain_message_key H ck))
        (smk_iv (sender_chain_message_key H ck)) p)"

lemma message_key_lengths:
  assumes "hmac_laws ctx H"
  shows "length (smk_cipher_key (sender_chain_message_key H ck)) = 32" "length (smk_iv (sender_chain_message_key H ck)) = 16"
  using sender_message_key_lengths [OF assms] by (simp_all add: sender_chain_message_key_def)

lemma ensures_group_encrypt_on_state:
  assumes laws: "hmac_laws ctx H" "cipher_laws ctx E" "signature_laws ctx DH" "random_laws ctx"
    and k: "sks_signature_private_key st = Some k" "clamped k" and p: "length p \<le> 2 ^ 24 - 16"
  shows "ensures (group_encrypt_on_state ctx st p)
    (\<lambda>(m, st'). carries ctx H E (sks_key_id st) (DH k basepoint) (sks_chain_key st) p m \<and>
      st' = st\<lparr>sks_chain_key := sender_chain_next H (sks_chain_key st)\<rparr>)"
proof -
  let ?k = "sender_chain_message_key H (sks_chain_key st)"
  let ?ct = "E SG_CIPHER_AES_CBC_PKCS5 (smk_cipher_key ?k) (smk_iv ?k) p"
  note len = message_key_lengths [OF laws(1), of "sks_chain_key st"]
  have ct: "length ?ct \<le> MAX_CIPHERTEXT"
    using cipher_laws_length [OF laws(2) len, of SG_CIPHER_AES_CBC_PKCS5 p] p by (simp add: MAX_CIPHERTEXT_def)
  show ?thesis
    unfolding group_encrypt_on_state_def k(1) option.case
    by (rule ensures_bind_yields [OF yields_create_message_key [OF laws(1)]],
        rule ensures_bind_yields [OF yields_signal_encrypt [OF laws(2) len]],
        rule ensures_bind_yields [OF yields_derefE],
        rule ensures_bindE [OF ensures_sender_key_message_create [OF laws(3,4) k(2) ct]],
        rule ensures_bind_yields [OF yields_sender_create_next [OF laws(1)]], rule ensures_returnE)
       (simp add: carries_def sender_key_state_set_chain_key_def)
qed

section \<open>Decryption on one state\<close>

definition skipped_keys :: "(bytes \<Rightarrow> bytes \<Rightarrow> bytes) \<Rightarrow> sender_chain_key \<Rightarrow> nat \<Rightarrow> sender_message_key list" where
  "skipped_keys H ck d = map (position_key H ck) [0..<d]"

lemma skipped_keys_Suc: "skipped_keys H ck (Suc d) = sender_chain_message_key H ck # skipped_keys H (sender_chain_next H ck) d"
  by (simp add: skipped_keys_def upt_conv_Cons map_Suc_upt [symmetric] sender_step_next del: upt_Suc)

lemma yields_skip_sender_keys:
  assumes "hmac_laws ctx H" and "unat (sck_iteration ck) + d < 2 ^ 32" and "d < fuel"
    and "length (sks_message_keys st) \<le> MAX_SENDER_MESSAGE_KEYS"
  shows "yields (skip_sender_keys fuel ctx (sck_iteration ck + of_nat d) ck st :: ('c, 's, _) M)
    (sender_step H ck d, st\<lparr>sks_message_keys := dl_trim MAX_SENDER_MESSAGE_KEYS (sks_message_keys st @ skipped_keys H ck d)\<rparr>)"
  using assms(2-)
proof (induction d arbitrary: fuel ck st)
  case 0
  then show ?case by (cases fuel) (auto simp: skipped_keys_def dl_trim_short intro: yields_returnE)
next
  case (Suc d)
  then obtain f where fuel: "fuel = Suc f" "d < f" by (cases fuel) auto
  let ?st = "st\<lparr>sks_message_keys := dl_trim MAX_SENDER_MESSAGE_KEYS (sks_message_keys st @ [sender_chain_message_key H ck])\<rparr>"
  have less: "sck_iteration ck < sck_iteration ck + of_nat (Suc d)"
    using unat_index_add [OF Suc.prems(1)] by (simp add: word_less_nat_alt)
  have next_it: "unat (sck_iteration (sender_chain_next H ck)) + d < 2 ^ 32"
    using unat_index_add [of "sck_iteration ck" 1] Suc.prems(1) by simp
  have "yields (skip_sender_keys f ctx (sck_iteration (sender_chain_next H ck) + of_nat d) (sender_chain_next H ck) ?st :: ('c, 's, _) M)
      (sender_step H (sender_chain_next H ck) d, ?st\<lparr>sks_message_keys :=
        dl_trim MAX_SENDER_MESSAGE_KEYS (sks_message_keys ?st @ skipped_keys H (sender_chain_next H ck) d)\<rparr>)"
    by (rule Suc.IH [OF next_it fuel(2)]) simp
  then have "yields (skip_sender_keys f ctx (sck_iteration ck + of_nat (Suc d)) (sender_chain_next H ck) ?st :: ('c, 's, _) M)
      (sender_step H ck (Suc d), st\<lparr>sks_message_keys :=
        dl_trim MAX_SENDER_MESSAGE_KEYS (sks_message_keys st @ skipped_keys H ck (Suc d))\<rparr>)"
    by (simp add: sender_step_next skipped_keys_Suc dl_trim_append ac_simps)
  then show ?case
    unfolding fuel(1) skip_sender_keys.simps if_P [OF less]
    by (intro yields_bindE [OF yields_create_message_key [OF assms(1)]] yields_bindE [OF yields_add_sender_message_key]
        yields_bindE [OF yields_sender_create_next [OF assms(1)]])
qed

text \<open>The state after the message \<open>d\<close> positions ahead.\<close>

definition read_ahead :: "(bytes \<Rightarrow> bytes \<Rightarrow> bytes) \<Rightarrow> sender_key_state \<Rightarrow> nat \<Rightarrow> sender_key_state" where
  "read_ahead H st d = st\<lparr>sks_message_keys := dl_trim MAX_SENDER_MESSAGE_KEYS (sks_message_keys st @ skipped_keys H (sks_chain_key st) d),
     sks_chain_key := sender_step H (sks_chain_key st) (Suc d)\<rparr>"

lemma yields_get_sender_key_ahead:
  assumes laws: "hmac_laws ctx H" and d: "d \<le> 2000" "unat (sck_iteration (sks_chain_key st)) + d < 2 ^ 32"
    and st: "length (sks_message_keys st) \<le> MAX_SENDER_MESSAGE_KEYS"
  shows "yields (group_cipher_get_sender_key ctx st (sck_iteration (sks_chain_key st) + of_nat d))
    (position_key H (sks_chain_key st) d, read_ahead H st d)"
proof -
  let ?ck = "sks_chain_key st"
  have "\<not> sck_iteration ?ck + of_nat d < sck_iteration ?ck"
    using unat_index_add [OF d(2)] by (simp add: word_less_nat_alt)
  moreover have "\<not> 2000 < (of_nat d :: 32 word)"
    using d(1) by (simp add: word_less_nat_alt unsigned_of_nat take_bit_eq_mod)
  moreover have skip: "yields (skip_sender_keys 2001 ctx (sck_iteration ?ck + of_nat d) ?ck st)
      (sender_step H ?ck d, st\<lparr>sks_message_keys := dl_trim MAX_SENDER_MESSAGE_KEYS (sks_message_keys st @ skipped_keys H ?ck d)\<rparr>)"
    by (rule yields_skip_sender_keys [OF laws d(2) _ st]) (use d(1) in simp)
  ultimately show ?thesis
    unfolding group_cipher_get_sender_key_def
    by (auto simp: read_ahead_def sender_key_state_set_chain_key_def intro!: yields_bindE [OF skip] yields_returnE
        yields_bindE [OF yields_sender_create_next [OF laws]] yields_bindE [OF yields_create_message_key [OF laws]])
qed

lemma yields_get_sender_key_stored:
  assumes "n < sck_iteration (sks_chain_key st)" and "dl_search (\<lambda>k. smk_iteration k = n) (sks_message_keys st) = Some i"
  shows "yields (group_cipher_get_sender_key ctx st n)
    (sks_message_keys st ! i, st\<lparr>sks_message_keys := dl_delete i (sks_message_keys st)\<rparr>)"
  using assms by (simp add: group_cipher_get_sender_key_def sender_key_state_has_sender_message_key_def
      sender_key_state_remove_sender_message_key_def yields_returnE)

lemma fails_get_sender_key_used:
  assumes "n < sck_iteration (sks_chain_key st)" and "dl_search (\<lambda>k. smk_iteration k = n) (sks_message_keys st) = None"
  shows "fails (group_cipher_get_sender_key ctx st n) SG_ERR_DUPLICATE_MESSAGE"
  using assms by (simp add: group_cipher_get_sender_key_def sender_key_state_has_sender_message_key_def fails_failE)

lemma fails_get_sender_key_far:
  assumes "unat (sck_iteration (sks_chain_key st)) + 2000 < unat n"
  shows "fails (group_cipher_get_sender_key ctx st n) SG_ERR_INVALID_MESSAGE"
proof -
  have "sck_iteration (sks_chain_key st) \<le> n" using assms by (simp add: word_le_nat_alt)
  then have "\<not> n < sck_iteration (sks_chain_key st)" "2000 < n - sck_iteration (sks_chain_key st)"
    using assms by (simp_all add: word_less_nat_alt unat_sub)
  then show ?thesis by (simp add: group_cipher_get_sender_key_def fails_failE)
qed

lemma yields_group_decrypt_on_state:
  assumes laws: "hmac_laws ctx H" "cipher_laws ctx E" and m: "carries ctx H E i (sks_signature_public_key st) ck p m"
    and key: "yields (group_cipher_get_sender_key ctx st (sck_iteration ck) :: ('c, 's, _) M) (sender_chain_message_key H ck, st')"
  shows "yields (group_decrypt_on_state ctx st m :: ('c, 's, _) M) (Some p, st')"
proof -
  have m': "wf_sender_key_message m" "signature_valid ctx (sks_signature_public_key st) m" "skm_iteration m = sck_iteration ck"
    "skm_ciphertext m = E SG_CIPHER_AES_CBC_PKCS5 (smk_cipher_key (sender_chain_message_key H ck)) (smk_iv (sender_chain_message_key H ck)) p"
    using m by (simp_all add: carries_def)
  show ?thesis
    unfolding group_decrypt_on_state_def m'(3)
    by (rule yields_thenE [OF verify_sender_key_message(1) [OF length_sender_key_message [OF m'(1)] m'(2)]], rule yields_bindE [OF key],
        simp only: prod.case m'(4),
        rule yields_bindE [OF yields_signal_decrypt [OF laws(2) message_key_lengths [OF laws(1)]]], rule yields_returnE)
qed

lemma fails_group_decrypt_on_state:
  assumes "SIGNATURE_LENGTH \<le> length (skm_serialized m)" and "signature_valid ctx (sks_signature_public_key st) m"
    and "fails (group_cipher_get_sender_key ctx st (skm_iteration m) :: ('c, 's, _) M) e"
  shows "fails (group_decrypt_on_state ctx st m :: ('c, 's, _) M) e"
  unfolding group_decrypt_on_state_def
  by (rule fails_then_yields [OF verify_sender_key_message(1) [OF assms(1,2)]], rule fails_bindE [OF assms(3)])

lemma fails_group_decrypt_forged:
  "SIGNATURE_LENGTH \<le> length (skm_serialized m) \<Longrightarrow> \<not> signature_valid ctx (sks_signature_public_key st) m \<Longrightarrow>
   fails (group_decrypt_on_state ctx st m) SG_ERR_INVALID_MESSAGE"
  unfolding group_decrypt_on_state_def by (rule fails_thenE [OF verify_sender_key_message(2)])

text \<open>On a well-formed state every iteration is served or refused, and the state stays well-formed.\<close>

lemma wf_read_ahead:
  assumes "hmac_laws ctx H" and "wf_sender_key_state H st"
  shows "wf_sender_key_state H (read_ahead H st d)"
proof -
  have "length (sck_chain_key (sender_step H (sks_chain_key st) (Suc d))) = 32"
    by (rule length_sender_step [OF assms(1)]) (use assms(2) in \<open>simp add: wf_sender_key_state_def\<close>)
  moreover have "list_all (wf_sender_message_key H) (sks_message_keys st @ skipped_keys H (sks_chain_key st) d)"
    using assms(2) wf_chain_message_key [OF assms(1)] by (auto simp: wf_sender_key_state_def skipped_keys_def list_all_iff)
  ultimately show ?thesis
    using assms(2) by (simp add: wf_sender_key_state_def read_ahead_def list_all_dl_trim)
qed

lemma get_sender_key_cases:
  fixes ctx :: "'c signal_context"
  assumes H: "hmac_laws ctx H" and wf: "wf_sender_key_state H st"
  shows "(\<exists>k st'. yields (group_cipher_get_sender_key ctx st n :: ('c, 's, _) M) (k, st') \<and> wf_sender_key_state H st' \<and>
       wf_sender_message_key H k \<and> smk_iteration k = n) \<or>
     fails (group_cipher_get_sender_key ctx st n :: ('c, 's, _) M) SG_ERR_DUPLICATE_MESSAGE \<or>
     fails (group_cipher_get_sender_key ctx st n :: ('c, 's, _) M) SG_ERR_INVALID_MESSAGE" (is "?ok \<or> ?dup \<or> ?inv")
proof (cases "n < sck_iteration (sks_chain_key st)")
  case True
  show ?thesis
  proof (cases "dl_search (\<lambda>k. smk_iteration k = n) (sks_message_keys st)")
    case None
    then show ?thesis using fails_get_sender_key_used [OF True] by blast
  next
    case (Some i)
    have "wf_sender_key_state H (st\<lparr>sks_message_keys := dl_delete i (sks_message_keys st)\<rparr>)"
      using wf dl_search_Some [OF Some]
      by (auto simp: wf_sender_key_state_def list_all_iff length_dl_delete dest: set_dl_delete)
    moreover have "wf_sender_message_key H (sks_message_keys st ! i)" "smk_iteration (sks_message_keys st ! i) = n"
      using wf dl_search_Some [OF Some] by (auto simp: wf_sender_key_state_def list_all_length)
    ultimately have ?ok using yields_get_sender_key_stored [OF True Some] by blast
    then show ?thesis ..
  qed
next
  case False
  let ?it = "sck_iteration (sks_chain_key st)" and ?d = "unat n - unat (sck_iteration (sks_chain_key st))"
  have le: "unat ?it \<le> unat n" using False by (simp add: word_less_nat_alt)
  have lt: "unat n < 2 ^ 32" using unsigned_less [of n] by simp
  show ?thesis
  proof (cases "unat ?it + 2000 < unat n")
    case True
    then show ?thesis using fails_get_sender_key_far by blast
  next
    case near: False
    have n: "n = ?it + of_nat ?d"
      by (rule word_unat_eq_iff [THEN iffD2]) (use le lt in \<open>subst unat_index_add, simp_all\<close>)
    have "yields (group_cipher_get_sender_key ctx st (?it + of_nat ?d) :: ('c, 's, _) M)
        (position_key H (sks_chain_key st) ?d, read_ahead H st ?d)"
      by (rule yields_get_sender_key_ahead [OF H])
         (use near le lt wf in \<open>simp_all add: wf_sender_key_state_def\<close>)
    then have ?ok
      using wf_read_ahead [OF H wf, of ?d] wf_chain_message_key [OF H] n by (metis sender_chain_simps(1) sender_step_simps(3))
    then show ?thesis ..
  qed
qed

section \<open>Delivery out of order\<close>

text \<open>Of the chain from \<open>ck\<close> the first \<open>n\<close> keys have been made, and those of the messages in \<open>S\<close> used.\<close>

definition group_read ::
    "(bytes \<Rightarrow> bytes \<Rightarrow> bytes) \<Rightarrow> 32 word \<Rightarrow> ec_public_key \<Rightarrow> sender_chain_key \<Rightarrow> nat \<Rightarrow> nat set \<Rightarrow> sender_key_state \<Rightarrow> bool" where
  "group_read H i pub ck n S st =
     (sks_key_id st = i \<and> sks_signature_public_key st = pub \<and> wf_sender_key_state H st \<and> sks_chain_key st = sender_step H ck n \<and>
      key_window (position_key H ck) n S (sks_message_keys st) \<and> n \<le> 2000 \<and> S \<subseteq> {..<n})"

definition fresh_state :: "32 word \<Rightarrow> sender_chain_key \<Rightarrow> ec_public_key \<Rightarrow> ec_private_key option \<Rightarrow> sender_key_state" where
  "fresh_state i ck pub priv = \<lparr>sks_key_id = i, sks_chain_key = ck, sks_signature_public_key = pub,
     sks_signature_private_key = priv, sks_message_keys = []\<rparr>"

lemma group_read_start:
  "length (sck_chain_key ck) = 32 \<Longrightarrow> wf_key pub \<Longrightarrow> pred_option wf_key priv \<Longrightarrow>
   group_read H i pub ck 0 {} (fresh_state i ck pub priv)"
  by (simp add: group_read_def fresh_state_def wf_sender_key_state_def key_window_start)

lemma group_read_ahead:
  assumes H: "hmac_laws ctx H" and st: "group_read H i pub ck n S st" and j: "n \<le> j" "j < 2000"
    and it: "unat (sck_iteration ck) + 2000 < 2 ^ 32"
  shows "group_read H i pub ck (Suc j) (insert j S) (read_ahead H st (j - n))"
proof -
  have ck: "sks_chain_key st = sender_step H ck n" using st by (simp add: group_read_def)
  have kw: "key_window (position_key H ck) n S (sks_message_keys st)" "S \<subseteq> {..<n}" "wf_sender_key_state H st"
    using st by (simp_all add: group_read_def)
  have keys: "skipped_keys H (sks_chain_key st) (j - n) = map (position_key H ck) [n..<j]"
    by (rule nth_equalityI) (use j(1) in \<open>simp_all add: skipped_keys_def ck sender_step_add\<close>)
  have "inj_on (position_key H ck) {..j}" by (rule position_inject [OF it]) (use j in simp)
  from key_window_append [OF kw(1) j(1) kw(2) this]
  have win: "key_window (position_key H ck) (Suc j) (insert j S) (sks_message_keys st @ map (position_key H ck) [n..<j])" .
  have trim: "dl_trim MAX_SENDER_MESSAGE_KEYS (sks_message_keys st @ map (position_key H ck) [n..<j]) =
      sks_message_keys st @ map (position_key H ck) [n..<j]"
    using key_window_length [OF win] j(2) by (intro dl_trim_short) (simp add: MAX_SENDER_MESSAGE_KEYS_def)
  have len: "length (sks_message_keys st @ map (position_key H ck) [n..<j]) \<le> MAX_SENDER_MESSAGE_KEYS"
    using key_window_length [OF win] j(2) by (simp add: MAX_SENDER_MESSAGE_KEYS_def)
  have "sender_step H (sks_chain_key st) (Suc (j - n)) = sender_step H ck (Suc j)"
    using j(1) by (simp add: ck sender_step_add)
  then have ra: "read_ahead H st (j - n) = st\<lparr>sks_message_keys := sks_message_keys st @ map (position_key H ck) [n..<j],
      sks_chain_key := sender_step H ck (Suc j)\<rparr>"
    by (simp only: read_ahead_def keys trim)
  have "length (sck_chain_key (sender_step H (sks_chain_key st) (Suc (j - n)))) = 32"
    by (rule length_sender_step [OF H]) (use kw(3) in \<open>simp add: wf_sender_key_state_def\<close>)
  then have "wf_sender_key_state H (read_ahead H st (j - n))"
    using kw(3) len wf_chain_message_key [OF H] by (auto simp: read_ahead_def wf_sender_key_state_def keys trim list_all_iff)
  moreover have "insert j S \<subseteq> {..<Suc j}" using kw(2) j(1) by auto
  ultimately show ?thesis
    using win j(2) st unfolding group_read_def ra by simp
qed

lemma group_read_next:
  assumes laws: "hmac_laws ctx H" "cipher_laws ctx E" and st: "group_read H i pub ck n S st" and j: "n \<le> j" "j < 2000"
    and it: "unat (sck_iteration ck) + 2000 < 2 ^ 32" and m: "carries ctx H E i pub (sender_step H ck j) p m"
  shows "yields (group_decrypt_on_state ctx st m :: ('c, 's, _) M) (Some p, read_ahead H st (j - n))"
proof -
  have ck: "sks_chain_key st = sender_step H ck n" and wf: "wf_sender_key_state H st" and pub: "sks_signature_public_key st = pub"
    using st by (simp_all add: group_read_def)
  have pos: "sender_step H (sks_chain_key st) (j - n) = sender_step H ck j" using j(1) by (simp add: ck sender_step_add)
  have at: "sck_iteration (sks_chain_key st) + of_nat (j - n) = sck_iteration (sender_step H ck j)"
    by (metis pos sender_step_simps(3))
  have "unat (sck_iteration (sks_chain_key st)) = unat (sck_iteration ck) + n"
    unfolding ck sender_step_simps by (rule unat_index_add) (use it j in simp)
  then have "yields (group_cipher_get_sender_key ctx st (sck_iteration (sks_chain_key st) + of_nat (j - n)) :: ('c, 's, _) M)
      (position_key H (sks_chain_key st) (j - n), read_ahead H st (j - n))"
    using it j wf by (intro yields_get_sender_key_ahead [OF laws(1)]) (simp_all add: wf_sender_key_state_def)
  then show ?thesis unfolding at pos by (rule yields_group_decrypt_on_state [OF laws m [folded pub]])
qed

lemma group_position_less:
  assumes "unat (sck_iteration ck) + 2000 < 2 ^ 32" and "j < n" and "n \<le> 2000"
  shows "sck_iteration (sender_step H ck j) < sck_iteration (sender_step H ck n)"
  using assms unat_index_add [of "sck_iteration ck" j] unat_index_add [of "sck_iteration ck" n]
  by (simp add: word_less_nat_alt)

lemma group_read_skipped:
  assumes laws: "hmac_laws ctx H" "cipher_laws ctx E" and st: "group_read H i pub ck n S st" and j: "j < n" "j \<notin> S"
    and it: "unat (sck_iteration ck) + 2000 < 2 ^ 32" and m: "carries ctx H E i pub (sender_step H ck j) p m"
  shows "\<exists>st'. group_read H i pub ck n (insert j S) st' \<and> yields (group_decrypt_on_state ctx st m :: ('c, 's, _) M) (Some p, st')"
proof -
  have kw: "key_window (position_key H ck) n S (sks_message_keys st)" and n: "n \<le> 2000" and pub: "sks_signature_public_key st = pub"
    and ck: "sks_chain_key st = sender_step H ck n"
    using st by (simp_all add: group_read_def)
  obtain k where k: "dl_search (\<lambda>x. smk_iteration x = smk_iteration (position_key H ck j)) (sks_message_keys st) = Some k"
      "sks_message_keys st ! k = position_key H ck j"
      "key_window (position_key H ck) n (insert j S) (dl_delete k (sks_message_keys st))"
    by (rule key_window_take [OF kw j inj_on_below [OF position_inject(1) [OF it n]]])
  let ?st = "st\<lparr>sks_message_keys := dl_delete k (sks_message_keys st)\<rparr>"
  have "yields (group_cipher_get_sender_key ctx st (sck_iteration (sender_step H ck j)) :: ('c, 's, _) M) (position_key H ck j, ?st)"
    using yields_get_sender_key_stored [OF _ k(1)] group_position_less [OF it j(1) n, of H] by (simp add: k(2) ck)
  then have "yields (group_decrypt_on_state ctx st m :: ('c, 's, _) M) (Some p, ?st)"
    by (rule yields_group_decrypt_on_state [OF laws m [folded pub]])
  moreover have "wf_sender_key_state H ?st"
    using st key_window_length [OF k(3)] n
    by (auto simp: group_read_def wf_sender_key_state_def list_all_iff MAX_SENDER_MESSAGE_KEYS_def dest: set_dl_delete)
  then have "group_read H i pub ck n (insert j S) ?st" using st k(3) j(1) by (simp add: group_read_def)
  ultimately show ?thesis by blast
qed

lemma group_read_one:
  assumes laws: "hmac_laws ctx H" "cipher_laws ctx E" and st: "group_read H i pub ck n S st" and j: "j < 2000" "j \<notin> S"
    and it: "unat (sck_iteration ck) + 2000 < 2 ^ 32" and m: "carries ctx H E i pub (sender_step H ck j) p m"
  shows "\<exists>st' n'. group_read H i pub ck n' (insert j S) st' \<and> yields (group_decrypt_on_state ctx st m :: ('c, 's, _) M) (Some p, st')"
proof (cases "j < n")
  case True
  then show ?thesis using group_read_skipped [OF laws st True j(2) it m] by blast
next
  case False
  then show ?thesis
    using group_read_ahead [OF laws(1) st _ j(1) it] group_read_next [OF laws st _ j(1) it m] by (meson not_le)
qed

lemma group_read_duplicate:
  assumes st: "group_read H i pub ck n S st" and j: "j \<in> S" and it: "unat (sck_iteration ck) + 2000 < 2 ^ 32"
    and m: "carries ctx H E i pub (sender_step H ck j) p m"
  shows "fails (group_decrypt_on_state ctx st m) SG_ERR_DUPLICATE_MESSAGE"
proof -
  have kw: "key_window (position_key H ck) n S (sks_message_keys st)" and n: "n \<le> 2000" "S \<subseteq> {..<n}"
    and pub: "sks_signature_public_key st = pub" and ck: "sks_chain_key st = sender_step H ck n"
    using st by (simp_all add: group_read_def)
  have jn: "j < n" using n(2) j by auto
  have "dl_search (\<lambda>k. smk_iteration k = smk_iteration (position_key H ck j)) (sks_message_keys st) = None"
    by (rule key_window_used [OF kw j jn inj_on_below [OF position_inject(1) [OF it n(1)]]])
  then have "fails (group_cipher_get_sender_key ctx st (skm_iteration m)) SG_ERR_DUPLICATE_MESSAGE"
    using m group_position_less [OF it jn n(1), of H] by (intro fails_get_sender_key_used) (simp_all add: ck carries_def)
  then show ?thesis
    by (intro fails_group_decrypt_on_state) (use m pub in \<open>simp_all add: carries_def length_sender_key_message\<close>)
qed

section \<open>The contract of the sender key store\<close>

definition states_record :: "sender_key_state list \<Rightarrow> sender_key_record" where
  "states_record sts = \<lparr>sender_key_states = sts\<rparr>"

lemma sender_key_states_record [simp]: "sender_key_states (states_record sts) = sts"
  by (simp add: states_record_def)

text \<open>What a store has for a sender is read as these states.\<close>

definition loads_states :: "bytes option \<Rightarrow> sender_key_state list \<Rightarrow> bool" where
  "loads_states d sts = (case d of None \<Rightarrow> sts = [] | Some b \<Rightarrow> b = sender_key_record_bytes (states_record sts))"

lemma take_states: "take MAX_STATES (st # sts) = st # take (MAX_STATES - 1) sts"
  by (simp add: MAX_STATES_def take_Cons')

lemma wf_take_states:
  "wf_sender_key_record H (states_record sts) \<Longrightarrow> wf_sender_key_state H st \<Longrightarrow>
   wf_sender_key_record H (states_record (take MAX_STATES (st # sts)))"
  unfolding wf_sender_key_record_def list_all_iff by (auto dest!: in_set_takeD)

abbreviation new_group_cipher ::
    "'s signal_protocol_store_context \<Rightarrow> signal_protocol_sender_key_name \<Rightarrow> 'c signal_context \<Rightarrow> ('c, 's) group_cipher" where
  "new_group_cipher store a ctx \<equiv> \<lparr>group_store = store, sender_key_id = a, group_global_context = ctx,
     group_callback = None, group_inside_callback = False\<rparr>"

text \<open>Reading a list of messages as they arrive.\<close>

definition group_read_all :: "('c, 's) group_cipher \<Rightarrow> bytes list \<Rightarrow> ('c, 's, bytes option list) M" where
  "group_read_all cipher ds = mapE (\<lambda>d. bindE (sender_key_message_deserialize d) (group_cipher_decrypt cipher)) ds"

locale sender_key_store =
  fixes store :: "'s signal_protocol_store_context"
    and ready :: "'s \<Rightarrow> bool"
    and view :: "'s \<Rightarrow> ('k \<rightharpoonup> bytes)"
    and key :: "signal_protocol_sender_key_name \<Rightarrow> 'k"
  assumes load_law: "serves ready view (load_sender_key store) (\<lambda>f. f a)
        (\<lambda>v. case v (key a) of None \<Rightarrow> (0, None) | Some d \<Rightarrow> (1, Some d)) id"
    and store_law: "serves ready view (store_sender_key store) (\<lambda>f. f a d) (\<lambda>_. 0) (\<lambda>v. v(key a \<mapsto> d))"
begin

lemma load_ok:
  assumes "hmac_laws ctx H" and "loads_states (v (key a)) sts" and "wf_sender_key_record H (states_record sts)"
  shows "hoare (at_view ready view v) (signal_protocol_sender_key_load_key ctx store a)
    (\<lambda>x s. x = states_record sts \<and> at_view ready view v s)"
proof (cases "v (key a)")
  case None
  then show ?thesis
    using assms(2) unfolding signal_protocol_sender_key_load_key_def
    by (intro hoare_bind_at [OF hoare_serves [OF load_law]])
       (simp add: loads_states_def states_record_def hoare_statusE hoare_yields [OF yields_sender_key_record_create])
next
  case (Some d)
  then have "d = sender_key_record_bytes (states_record sts)" using assms(2) by (simp add: loads_states_def)
  with Some show ?thesis
    unfolding signal_protocol_sender_key_load_key_def
    by (intro hoare_bind_at [OF hoare_serves [OF load_law]])
       (simp add: hoare_statusE hoare_yields [OF yields_sender_key_record_deserialize [OF assms(1,3)]])
qed

lemma store_ok:
  assumes "wf_sender_key_record H r"
  shows "hoare (at_view ready view v) (signal_protocol_sender_key_store_key store a r)
    (\<lambda>x s. x = 0 \<and> at_view ready view (v(key a \<mapsto> sender_key_record_bytes r)) s)"
proof -
  obtain f where f: "store_sender_key store = Some f" using store_law [of a "[]"] by (auto simp: serves_def)
  show ?thesis
    unfolding signal_protocol_sender_key_store_key_def f
    by (rule hoare_bind_yields [OF yields_derefE], rule hoare_bind_yields [OF yields_sender_key_record_serialize [OF assms]])
       (use hoare_serves_status [OF store_law, unfolded f] in simp)
qed

lemma process_ok:
  assumes "hmac_laws ctx H" and "loads_states (v (key a)) sts" and "wf_sender_key_record H (states_record sts)"
    and "length ck = 32" and "wf_key pub"
  shows "hoare (at_view ready view v)
    (group_session_builder_process_session \<lparr>group_builder_store = store, group_builder_context = ctx\<rparr> a
      (distribution_message_of i n ck pub))
    (\<lambda>x s. x = 0 \<and> at_view ready view (v(key a \<mapsto> sender_key_record_bytes (states_record
       (take MAX_STATES (fresh_state i \<lparr>sck_iteration = n, sck_chain_key = ck\<rparr> pub None # sts))))) s)"
proof -
  let ?r = "states_record (take MAX_STATES (fresh_state i \<lparr>sck_iteration = n, sck_chain_key = ck\<rparr> pub None # sts))"
  have wf: "wf_sender_key_record H ?r"
    by (rule wf_take_states [OF assms(3)]) (simp add: fresh_state_def wf_sender_key_state_def assms(4,5))
  have add: "yields (sender_key_record_add_sender_key_state (states_record sts) i n (Some ck) (Some pub)) ?r"
    unfolding sender_key_record_add_sender_key_state_def
    by (rule yields_cong [OF yields_add_sender_key_state]) (simp_all add: assms(4) states_record_def fresh_state_def)
  show ?thesis
    unfolding group_session_builder_process_session_def
    by (simp add: distribution_message_of_def, rule hoare_bind_at [OF load_ok [where v = v and a = a, OF assms(1-3)]],
        rule hoare_bind_yields [OF add], rule store_ok [OF wf])
qed

lemma new_state_ok:
  assumes "curve_laws ctx DH" and "random_laws ctx"
  shows "hoare (at_view ready view v)
    (group_session_builder_new_state \<lparr>group_builder_store = store, group_builder_context = ctx\<rparr> a (states_record []))
    (\<lambda>r s. \<exists>i ck k. length ck = 32 \<and> clamped k \<and>
       r = states_record [fresh_state i \<lparr>sck_iteration = 0, sck_chain_key = ck\<rparr> (DH k basepoint) (Some k)] \<and>
       at_view ready view (v(key a \<mapsto> sender_key_record_bytes r)) s)"
  unfolding group_session_builder_new_state_def Let_def signal_protocol_key_helper_generate_sender_signing_key_def
proof (simp, rule hoare_bind_ensures [OF ensures_generate_sender_key_id [OF assms(2)]],
    rule hoare_bind_ensures [OF ensures_generate_sender_key [OF assms(2)]],
    rule hoare_bind_ensures [OF ensures_curve_generate_key_pair [OF assms]])
  fix i and ck :: bytes and kp
  assume ck: "length ck = 32" and kp: "key_pair_of DH kp"
  let ?r = "states_record [fresh_state i \<lparr>sck_iteration = 0, sck_chain_key = ck\<rparr> (public_key kp) (Some (private_key kp))]"
  have wf: "wf_sender_key_record undefined ?r"
    using ck key_pair_of_wf [OF assms(1) kp]
    by (simp add: wf_sender_key_record_def wf_sender_key_state_def fresh_state_def MAX_STATES_def)
  have set: "yields (sender_key_record_set_sender_key_state (states_record []) i 0 (Some ck) kp) ?r"
    unfolding sender_key_record_set_sender_key_state_def
    by (rule yields_cong [OF yields_add_sender_key_state]) (simp_all add: ck states_record_def fresh_state_def MAX_STATES_def)
  show "hoare (at_view ready view v)
      (bindE (sender_key_record_set_sender_key_state (states_record []) i 0 (Some ck) kp) (\<lambda>r'.
         thenE (signal_protocol_sender_key_store_key store a r') (returnE r')))
      (\<lambda>r s. \<exists>i ck. length ck = 32 \<and> (\<exists>k. clamped k \<and>
         r = states_record [fresh_state i \<lparr>sck_iteration = 0, sck_chain_key = ck\<rparr> (DH k basepoint) (Some k)] \<and>
         at_view ready view (v(key a \<mapsto> sender_key_record_bytes r)) s))"
    by (rule hoare_bind_yields [OF set], rule hoare_then_at [OF store_ok [OF wf]], rule hoare_returnE)
       (use ck kp in \<open>auto simp: key_pair_of_def\<close>)
qed

lemma create_session_ok:
  assumes "hmac_laws ctx H" and "curve_laws ctx DH" and "random_laws ctx" and "v (key a) = None"
  shows "hoare (at_view ready view v)
    (group_session_builder_create_session \<lparr>group_builder_store = store, group_builder_context = ctx\<rparr> a)
    (\<lambda>m s. \<exists>i ck k. length ck = 32 \<and> clamped k \<and> m = distribution_message_of i 0 ck (DH k basepoint) \<and>
       at_view ready view (v(key a \<mapsto> sender_key_record_bytes (states_record
         [fresh_state i \<lparr>sck_iteration = 0, sck_chain_key = ck\<rparr> (DH k basepoint) (Some k)]))) s)"
proof -
  have load: "loads_states (v (key a)) []" "wf_sender_key_record H (states_record [])"
    by (simp_all add: loads_states_def assms(4) wf_sender_key_record_def)
  have create: "hoare P (bindE (sender_key_record_get_sender_key_state (states_record [fresh_state i \<lparr>sck_iteration = 0, sck_chain_key = ck\<rparr> pub k]))
      (\<lambda>j. let state = sender_key_states (states_record [fresh_state i \<lparr>sck_iteration = 0, sck_chain_key = ck\<rparr> pub k]) ! j; chain = sks_chain_key state
        in sender_key_distribution_message_create (sks_key_id state) (sck_iteration chain) (sck_chain_key chain)
             (Some (sks_signature_public_key state)))) (\<lambda>m s. m = distribution_message_of i 0 ck pub \<and> P s)"
    if "length ck = 32" "wf_key pub" for P i ck pub k
    by (rule hoare_yields)
       (simp add: sender_key_record_get_sender_key_state_def fresh_state_def, rule yields_bindE [OF yields_returnE],
        simp add: yields_distribution_message_create [OF that])
  show ?thesis
    unfolding group_session_builder_create_session_def
    by (simp, rule hoare_bind_at [OF load_ok [where v = v and a = a, OF assms(1) load]],
        simp add: sender_key_record_is_empty_def, rule hoare_bindE [OF new_state_ok [OF assms(2,3)]],
        intro hoare_ex hoare_pure, hypsubst, rule hoare_post [OF create])
       (auto simp: clamped_def curve_laws_wf [OF assms(2)])
qed

lemma encrypt_ok:
  assumes laws: "hmac_laws ctx H" "cipher_laws ctx E" "signature_laws ctx DH" "random_laws ctx"
    and v: "v (key a) = Some (sender_key_record_bytes (states_record (st # sts)))" "wf_sender_key_record H (states_record (st # sts))"
    and k: "sks_signature_private_key st = Some k" "clamped k" and p: "length p \<le> 2 ^ 24 - 16"
  shows "hoare (at_view ready view v) (group_cipher_encrypt (new_group_cipher store a ctx) p)
    (\<lambda>m s. carries ctx H E (sks_key_id st) (DH k basepoint) (sks_chain_key st) p m \<and>
      at_view ready view (v(key a \<mapsto> sender_key_record_bytes (states_record
        (st\<lparr>sks_chain_key := sender_chain_next H (sks_chain_key st)\<rparr> # sts)))) s)"
proof -
  let ?st = "st\<lparr>sks_chain_key := sender_chain_next H (sks_chain_key st)\<rparr>"
  have load: "loads_states (v (key a)) (st # sts)" using v(1) by (simp add: loads_states_def)
  have wf: "wf_sender_key_record H (states_record (?st # sts))"
    using v(2) by (simp add: wf_sender_key_record_def wf_sender_key_state_def sender_chain_next_def hmac_laws_length [OF laws(1)])
  have head: "yields (sender_key_record_get_sender_key_state (states_record (st # sts))) 0"
    by (simp add: sender_key_record_get_sender_key_state_def yields_returnE)
  have store: "hoare (at_view ready view v)
      (case x of (m, st') \<Rightarrow> thenE (signal_protocol_sender_key_store_key store a
         (states_record (st # sts)\<lparr>sender_key_states := (sender_key_states (states_record (st # sts)))[0 := st']\<rparr>)) (returnE m))
      (\<lambda>m s. carries ctx H E (sks_key_id st) (DH k basepoint) (sks_chain_key st) p m \<and>
        at_view ready view (v(key a \<mapsto> sender_key_record_bytes (states_record (?st # sts)))) s)"
    if "case x of (m, st') \<Rightarrow> carries ctx H E (sks_key_id st) (DH k basepoint) (sks_chain_key st) p m \<and> st' = ?st" for x
    using that
    by (auto simp: states_record_def intro!: hoare_then_at [OF store_ok [OF wf], unfolded states_record_def] hoare_returnE)
  show ?thesis
    unfolding group_cipher_encrypt_def
    by (rule hoare_try_return, simp, rule hoare_then_yields [OF yields_guardE], simp,
        rule hoare_bind_at [OF load_ok [where v = v and a = a, OF laws(1) load v(2)]], rule hoare_bind_yields [OF head],
        rule hoare_bind_ensures, simp, rule ensures_group_encrypt_on_state [OF laws k p], rule store)
qed

lemma encrypt_all_ok:
  assumes laws: "hmac_laws ctx H" "cipher_laws ctx E" "signature_laws ctx DH" "random_laws ctx" and k: "clamped k"
    and st: "length (sck_chain_key ck) = 32" "wf_key (DH k basepoint)"
    and v: "v (key a) = Some (sender_key_record_bytes (states_record [fresh_state i ck (DH k basepoint) (Some k)]))"
    and ps: "\<forall>p \<in> set ps. length p \<le> 2 ^ 24 - 16"
  shows "hoare (at_view ready view v) (mapE (group_cipher_encrypt (new_group_cipher store a ctx)) ps)
    (\<lambda>ms s. length ms = length ps \<and> (\<forall>j < length ps. carries ctx H E i (DH k basepoint) (sender_step H ck j) (ps ! j) (ms ! j)))"
  using st(1) v ps
proof (induction ps arbitrary: ck v)
  case Nil
  then show ?case by (simp add: hoare_returnE)
next
  case (Cons p ps)
  let ?Q = "\<lambda>ck (ms :: sender_key_message list) (s :: 's).
    length ms = length ps \<and> (\<forall>j < length ps. carries ctx H E i (DH k basepoint) (sender_step H ck j) (ps ! j) (ms ! j))"
  let ?v = "v(key a \<mapsto> sender_key_record_bytes (states_record [fresh_state i (sender_chain_next H ck) (DH k basepoint) (Some k)]))"
  have wf: "wf_sender_key_record H (states_record [fresh_state i ck (DH k basepoint) (Some k)])"
    using Cons.prems(1) st(2) k
    by (simp add: wf_sender_key_record_def wf_sender_key_state_def fresh_state_def MAX_STATES_def clamped_def)
  have enc: "hoare (at_view ready view v) (group_cipher_encrypt (new_group_cipher store a ctx) p)
      (\<lambda>m s. carries ctx H E i (DH k basepoint) ck p m \<and> at_view ready view ?v s)"
    using encrypt_ok [where v = v and a = a, OF laws Cons.prems(2) wf, of k p] k Cons.prems(3) by (simp add: fresh_state_def)
  have "length (sck_chain_key (sender_chain_next H ck)) = 32"
    by (simp add: sender_chain_next_def hmac_laws_length [OF laws(1)])
  then have rest: "hoare (at_view ready view ?v) (mapE (group_cipher_encrypt (new_group_cipher store a ctx)) ps) (?Q (sender_chain_next H ck))"
    using Cons.prems(3) by (intro Cons.IH) auto
  show ?case
    unfolding mapE.simps
    by (rule hoare_bindE [OF enc], rule hoare_pure, rule hoare_bindE [OF rest], rule hoare_returnE)
       (auto simp: All_less_Suc2 sender_step_next)
qed

lemma decrypt_ok:
  fixes ctx :: "'c signal_context"
  assumes laws: "hmac_laws ctx H"
    and v: "v (key a) = Some (sender_key_record_bytes (states_record (st # sts)))" "wf_sender_key_record H (states_record (st # sts))"
    and m: "skm_key_id m = sks_key_id st" "yields (group_decrypt_on_state ctx st m :: ('c, 's, _) M) (t, st')"
      "wf_sender_key_state H st'"
  shows "hoare (at_view ready view v) (group_cipher_decrypt (new_group_cipher store a ctx) m)
    (\<lambda>x s. x = t \<and> at_view ready view (v(key a \<mapsto> sender_key_record_bytes (states_record (st' # sts)))) s)"
proof -
  have load: "loads_states (v (key a)) (st # sts)" using v(1) by (simp add: loads_states_def)
  have wf: "wf_sender_key_record H (states_record (st' # sts))"
    using v(2) m(3) by (simp add: wf_sender_key_record_def)
  have found: "yields (sender_key_record_get_sender_key_state_by_id (states_record (st # sts)) (skm_key_id m)) 0"
    by (simp add: sender_key_record_get_sender_key_state_by_id_def m(1) yields_returnE)
  have upd: "states_record (st # sts)\<lparr>sender_key_states := (sender_key_states (states_record (st # sts)))[0 := st']\<rparr> = states_record (st' # sts)"
    by (simp add: states_record_def)
  show ?thesis
    unfolding group_cipher_decrypt_def group_cipher_decrypt_callback_def
    by (rule hoare_try_return, simp, rule hoare_then_yields [OF yields_guardE], simp,
        rule hoare_bind_at [OF load_ok [where v = v and a = a, OF laws(1) load v(2)]],
        rule hoare_then_yields [OF yields_guardE], simp add: sender_key_record_is_empty_def,
        rule hoare_bind_yields [OF found], rule hoare_bind_yields, simp, rule m(2),
        simp only: prod.case upd, rule hoare_then_yields [OF yields_returnE],
        rule hoare_then_at [OF store_ok [OF wf]], rule hoare_return_at)
qed

lemma decrypt_refused:
  fixes ctx :: "'c signal_context"
  assumes laws: "hmac_laws ctx H" and v: "loads_states (v (key a)) sts" "wf_sender_key_record H (states_record sts)"
    and rest: "\<And>h :: nat \<Rightarrow> _ \<Rightarrow> ('c, 's, bytes option) M. fails
      (bindE (sender_key_record_get_sender_key_state_by_id (states_record sts) (skm_key_id m)) (\<lambda>j.
         bindE (group_decrypt_on_state ctx (sts ! j) m) (h j))) e" and "sts \<noteq> []"
  shows "rejects (at_view ready view v) (group_cipher_decrypt (new_group_cipher store a ctx) m)
    (if e = SG_ERR_INVALID_KEY \<or> e = SG_ERR_INVALID_KEY_ID then SG_ERR_INVALID_MESSAGE else e) (at_view ready view v)"
  unfolding group_cipher_decrypt_def
  by (rule rejects_tryE [where e = e], simp, rule rejects_then_at [OF hoare_yields [OF yields_guardE]], simp,
      rule rejects_bind_at [OF load_ok [where v = v and a = a, OF laws v]],
      rule rejects_then_at [OF hoare_yields [OF yields_guardE]], simp add: sender_key_record_is_empty_def assms(5), simp,
      rule rejects_fails [OF rest]) simp

lemma decrypt_rejected:
  fixes ctx :: "'c signal_context"
  assumes laws: "hmac_laws ctx H" and v: "loads_states (v (key a)) sts" "wf_sender_key_record H (states_record sts)"
    and m: "dl_search (\<lambda>st. sks_key_id st = skm_key_id m) sts = Some j"
      "fails (group_decrypt_on_state ctx (sts ! j) m :: ('c, 's, _) M) e" "e \<noteq> SG_ERR_INVALID_KEY" "e \<noteq> SG_ERR_INVALID_KEY_ID"
  shows "rejects (at_view ready view v) (group_cipher_decrypt (new_group_cipher store a ctx) m) e (at_view ready view v)"
proof -
  have get: "yields (sender_key_record_get_sender_key_state_by_id (states_record sts) (skm_key_id m)) j"
    by (simp add: sender_key_record_get_sender_key_state_by_id_def m(1) yields_returnE)
  have rest: "fails (bindE (sender_key_record_get_sender_key_state_by_id (states_record sts) (skm_key_id m)) (\<lambda>j.
      bindE (group_decrypt_on_state ctx (sts ! j) m) (h j)) :: ('c, 's, bytes option) M) e" for h
    by (rule fails_bind_yields [OF get], rule fails_bindE [OF m(2)])
  have "sts \<noteq> []" using m(1) by auto
  with decrypt_refused [where v = v and a = a, OF laws v rest] m(3,4) show ?thesis by simp
qed

lemma decrypt_unknown_key:
  fixes ctx :: "'c signal_context"
  assumes laws: "hmac_laws ctx H" and v: "loads_states (v (key a)) sts" "wf_sender_key_record H (states_record sts)"
    and m: "dl_search (\<lambda>st. sks_key_id st = skm_key_id m) sts = None"
  shows "rejects (at_view ready view v) (group_cipher_decrypt (new_group_cipher store a ctx) m)
    (if sts = [] then SG_ERR_NO_SESSION else SG_ERR_INVALID_MESSAGE) (at_view ready view v)"
proof (cases "sts = []")
  case True
  then show ?thesis
    unfolding group_cipher_decrypt_def
    by (intro rejects_tryE [where e = SG_ERR_NO_SESSION], simp, intro rejects_then_at [OF hoare_yields [OF yields_guardE]], simp,
        intro rejects_bind_at [OF load_ok [where v = v and a = a, OF laws v]] rejects_guardE)
       (simp_all add: sender_key_record_is_empty_def sg_err_defs)
next
  case False
  have get: "fails (sender_key_record_get_sender_key_state_by_id (states_record sts) (skm_key_id m)) SG_ERR_INVALID_KEY_ID"
    by (simp add: sender_key_record_get_sender_key_state_by_id_def m fails_failE)
  from False decrypt_refused [where v = v and a = a, OF laws v fails_bindE [OF get] False] show ?thesis by simp
qed

lemma encrypt_refused:
  fixes ctx :: "'c signal_context"
  assumes laws: "hmac_laws ctx H" and v: "loads_states (v (key a)) sts" "wf_sender_key_record H (states_record sts)"
    and st: "sts = [] \<or> sks_signature_private_key (hd sts) = None"
  shows "rejects (at_view ready view v) (group_cipher_encrypt (new_group_cipher store a ctx) p)
    (if sts = [] then SG_ERR_NO_SESSION else SG_ERR_INVALID_KEY) (at_view ready view v)"
proof (cases sts)
  case Nil
  have "fails (bindE (sender_key_record_get_sender_key_state (states_record [])) f :: ('c, 's, 'x) M) SG_ERR_INVALID_KEY_ID" for f
    by (rule fails_bindE) (simp add: sender_key_record_get_sender_key_state_def fails_failE)
  then show ?thesis
    unfolding group_cipher_encrypt_def
    by (intro rejects_tryE [where e = SG_ERR_INVALID_KEY_ID], simp, intro rejects_then_at [OF hoare_yields [OF yields_guardE]],
        simp, intro rejects_bind_at [OF load_ok [where v = v and a = a, OF laws v]] rejects_fails)
       (simp_all add: Nil)
next
  case (Cons st sts')
  have head: "yields (sender_key_record_get_sender_key_state (states_record sts)) 0"
    by (simp add: Cons sender_key_record_get_sender_key_state_def yields_returnE)
  have "fails (group_encrypt_on_state ctx (sender_key_states (states_record sts) ! 0) p) SG_ERR_INVALID_KEY"
    using st by (simp add: Cons group_encrypt_on_state_def fails_failE)
  then show ?thesis
    unfolding group_cipher_encrypt_def
    by (intro rejects_tryE [where e = SG_ERR_INVALID_KEY], simp, intro rejects_then_at [OF hoare_yields [OF yields_guardE]],
        simp, intro rejects_bind_at [OF load_ok [where v = v and a = a, OF laws v]] rejects_fails
          fails_bind_yields [OF head] fails_bindE)
       (simp_all add: Cons sg_err_defs)
qed

lemma read_all_ok:
  fixes ctx :: "'c signal_context"
  assumes laws: "hmac_laws ctx H" "cipher_laws ctx E"
    and v: "v (key a) = Some (sender_key_record_bytes (states_record (st # sts)))" "wf_sender_key_record H (states_record (st # sts))"
    and st: "group_read H i pub ck n S st" and it: "unat (sck_iteration ck) + 2000 < 2 ^ 32"
    and js: "distinct js" "set js \<inter> S = {}" "\<forall>j \<in> set js. j < 2000 \<and> carries ctx H E i pub (sender_step H ck j) (p j) (m j)"
  shows "hoare (at_view ready view v) (group_read_all (new_group_cipher store a ctx) (map (\<lambda>j. skm_serialized (m j)) js))
    (\<lambda>ts s. ts = map (\<lambda>j. Some (p j)) js \<and> (\<exists>n' st'. group_read H i pub ck n' (S \<union> set js) st' \<and>
      wf_sender_key_record H (states_record (st' # sts)) \<and>
      at_view ready view (v(key a \<mapsto> sender_key_record_bytes (states_record (st' # sts)))) s))"
  using v st js
proof (induction js arbitrary: v st n S)
  case Nil
  have upd: "v(key a \<mapsto> sender_key_record_bytes (states_record (st # sts))) = v"
    by (rule fun_upd_idem) (rule Nil.prems(1))
  show ?case
    unfolding group_read_all_def list.map mapE.simps
    by (rule hoare_returnE, intro conjI exI [of _ n] exI [of _ st]) (simp_all only: upd Nil.prems list.set Un_empty_right)
next
  case (Cons j js)
  have m: "carries ctx H E i pub (sender_step H ck j) (p j) (m j)" using Cons.prems(6) by simp
  obtain st1 n1 where st1: "group_read H i pub ck n1 (insert j S) st1"
      "yields (group_decrypt_on_state ctx st (m j) :: ('c, 's, _) M) (Some (p j), st1)"
    using group_read_one [OF laws Cons.prems(3) _ _ it m] Cons.prems(5,6) by auto
  have wf1: "wf_sender_key_state H st1" using st1(1) by (simp add: group_read_def)
  have id: "skm_key_id (m j) = sks_key_id st" using m Cons.prems(3) by (simp add: carries_def group_read_def)
  let ?v = "v(key a \<mapsto> sender_key_record_bytes (states_record (st1 # sts)))"
  have wf: "wf_sender_key_record H (states_record (st1 # sts))"
    using Cons.prems(2) wf1 by (simp add: wf_sender_key_record_def)
  have parse: "yields (sender_key_message_deserialize (skm_serialized (m j))) (m j)"
    by (rule yields_sender_key_message_deserialize) (use m in \<open>simp add: carries_def\<close>)
  have rest: "hoare (at_view ready view ?v) (group_read_all (new_group_cipher store a ctx) (map (\<lambda>j. skm_serialized (m j)) js))
    (\<lambda>ts s. ts = map (\<lambda>j. Some (p j)) js \<and> (\<exists>n' st'. group_read H i pub ck n' (insert j S \<union> set js) st' \<and>
      wf_sender_key_record H (states_record (st' # sts)) \<and>
      at_view ready view (?v(key a \<mapsto> sender_key_record_bytes (states_record (st' # sts)))) s))"
    by (rule Cons.IH [OF _ wf st1(1)]) (use Cons.prems in auto)
  show ?case
    unfolding group_read_all_def list.map mapE.simps
    by (rule hoare_bind_at, rule hoare_bind_yields [OF parse], rule decrypt_ok [where v = v and a = a, OF laws(1) Cons.prems(1,2) id st1(2) wf1],
        rule hoare_bindE [OF rest [unfolded group_read_all_def fun_upd_upd Un_insert_left]], rule hoare_returnE)
       (auto simp del: fun_upd_apply)
qed

end

interpretation test_sender_keys:
  sender_key_store setup_test_store_context test_ready "\<lambda>s. map_of (test_sender_keys s)" test_sender_key
proof unfold_locales
  fix a d
  show "serves test_ready (\<lambda>s. map_of (test_sender_keys s)) (load_sender_key setup_test_store_context) (\<lambda>f. f a)
      (\<lambda>v. case v (test_sender_key a) of None \<Rightarrow> (0, None) | Some d \<Rightarrow> (1, Some d)) id"
    by (auto simp: serves_def setup_test_store_context_def test_sender_key_store_load_sender_key_def split: option.splits)
  show "serves test_ready (\<lambda>s. map_of (test_sender_keys s)) (store_sender_key setup_test_store_context) (\<lambda>f. f a d)
      (\<lambda>_. 0) (\<lambda>v. v(test_sender_key a \<mapsto> d))"
    unfolding setup_test_store_context_def test_sender_key_store_store_sender_key_def
    by (simp, rule serves_test_put [where get = test_sender_keys and put = "\<lambda>t s. s\<lparr>test_sender_keys := t\<rparr>"]) auto
qed

section \<open>A sender and a member\<close>

lemma yields_group_cipher_create: "yields (group_cipher_create store a ctx) (new_group_cipher store a ctx)"
  unfolding group_cipher_create_def by (rule yields_thenE [OF yields_alloc yields_returnE])

lemma carries_same_curve: "curve25519 cb = curve25519 ca \<Longrightarrow> carries cb = carries ca"
  by (intro ext) (simp add: carries_def signature_valid_def)

abbreviation sender_view :: "test_store \<Rightarrow> (64 word \<times> 64 word \<times> int \<rightharpoonup> bytes)" where
  "sender_view s \<equiv> map_of (test_sender_keys s)"

abbreviation test_group_builder :: "'c signal_context \<Rightarrow> ('c, test_store) group_session_builder" where
  "test_group_builder ctx \<equiv> \<lparr>group_builder_store = setup_test_store_context, group_builder_context = ctx\<rparr>"

lemma group_send:
  fixes ca :: "'a signal_context"
  assumes laws: "hmac_laws ca H" "cipher_laws ca E" "curve_laws ca DH" "signature_laws ca DH" "random_laws ca"
    and wa: "allocs wa = []" "test_ready (store_data wa)" "sender_view (store_data wa) (test_sender_key name) = None"
    and ps: "\<forall>p \<in> set ps. length p \<le> 2 ^ 24 - 16"
  obtains i ck k wa1 ms wa2 where "length ck = 32" and "wf_key (DH k basepoint)"
    and "group_session_builder_create_session (test_group_builder ca) name wa = (Ok (distribution_message_of i 0 ck (DH k basepoint)), wa1)"
    and "bindE (group_cipher_create setup_test_store_context name ca) (\<lambda>c. mapE (group_cipher_encrypt c) ps) wa1 = (Ok ms, wa2)"
    and "length ms = length ps"
    and "\<forall>j < length ps. carries ca H E i (DH k basepoint) (sender_step H \<lparr>sck_iteration = 0, sck_chain_key = ck\<rparr> j) (ps ! j) (ms ! j)"
proof -
  let ?v = "sender_view (store_data wa)" and ?ck = "\<lambda>ck. \<lparr>sck_iteration = 0, sck_chain_key = ck\<rparr>"
  obtain d wa1 where d: "group_session_builder_create_session (test_group_builder ca) name wa = (Ok d, wa1)" "allocs wa1 = []"
    and ex: "\<exists>i ck k. length ck = 32 \<and> clamped k \<and> d = distribution_message_of i 0 ck (DH k basepoint) \<and>
       at_view test_ready sender_view (?v(test_sender_key name \<mapsto> sender_key_record_bytes (states_record
         [fresh_state i (?ck ck) (DH k basepoint) (Some k)]))) (store_data wa1)"
    by (rule hoareE [OF test_sender_keys.create_session_ok [where v = ?v and a = name, OF laws(1,3,5) wa(3)] wa(1)])
       (use wa(2) in \<open>auto simp: at_view_def\<close>)
  obtain i ck k where ck: "length ck = 32" "clamped k" "d = distribution_message_of i 0 ck (DH k basepoint)"
    and view: "at_view test_ready sender_view (?v(test_sender_key name \<mapsto> sender_key_record_bytes (states_record
         [fresh_state i (?ck ck) (DH k basepoint) (Some k)]))) (store_data wa1)" (is "at_view _ _ ?v1 _")
    using ex by blast
  have pub: "wf_key (DH k basepoint)" using ck(2) by (simp add: clamped_def curve_laws_wf [OF laws(3)])
  have enc: "hoare (at_view test_ready sender_view ?v1)
      (bindE (group_cipher_create setup_test_store_context name ca) (\<lambda>c. mapE (group_cipher_encrypt c) ps))
      (\<lambda>ms s. length ms = length ps \<and> (\<forall>j < length ps. carries ca H E i (DH k basepoint) (sender_step H (?ck ck) j) (ps ! j) (ms ! j)))"
    by (rule hoare_bind_yields [OF yields_group_cipher_create],
        rule test_sender_keys.encrypt_all_ok [OF laws(1,2,4,5) ck(2) _ pub _ ps]) (simp_all add: ck(1))
  obtain ms wa2 where "bindE (group_cipher_create setup_test_store_context name ca) (\<lambda>c. mapE (group_cipher_encrypt c) ps) wa1 = (Ok ms, wa2)"
    "length ms = length ps" "\<forall>j < length ps. carries ca H E i (DH k basepoint) (sender_step H (?ck ck) j) (ps ! j) (ms ! j)"
    by (rule hoareE [OF enc d(2) view]) blast
  then show thesis using that [OF ck(1) pub d(1) [unfolded ck(3)]] by blast
qed

lemma group_receive:
  fixes cb :: "'b signal_context"
  assumes laws: "hmac_laws cb H" "cipher_laws cb E"
    and wb: "allocs wb = []" "test_ready (store_data wb)" "wf_sender_key_record H (states_record sts)"
      "loads_states (sender_view (store_data wb) (test_sender_key name)) sts"
    and ck: "length ck = 32" "wf_key pub"
    and js: "distinct js" "\<forall>j \<in> set js. j < 2000 \<and> carries cb H E i pub (sender_step H \<lparr>sck_iteration = 0, sck_chain_key = ck\<rparr> j) (p j) (m j)"
  obtains wb1 wb2 n st sts' where
      "bindE (sender_key_distribution_message_deserialize (distribution_bytes (distribution_message_of i 0 ck pub)))
         (group_session_builder_process_session (test_group_builder cb) name) wb = (Ok 0, wb1)"
    and "bindE (group_cipher_create setup_test_store_context name cb) (\<lambda>c. group_read_all c (map (\<lambda>j. skm_serialized (m j)) js)) wb1
      = (Ok (map (\<lambda>j. Some (p j)) js), wb2)"
    and "allocs wb2 = []" and "test_ready (store_data wb2)"
    and "group_read H i pub \<lparr>sck_iteration = 0, sck_chain_key = ck\<rparr> n (set js) st"
    and "wf_sender_key_record H (states_record (st # sts'))"
    and "sender_view (store_data wb2) (test_sender_key name) = Some (sender_key_record_bytes (states_record (st # sts')))"
proof -
  let ?v = "sender_view (store_data wb)" and ?ck = "\<lparr>sck_iteration = 0, sck_chain_key = ck\<rparr>" and ?key = "test_sender_key name"
  let ?st = "fresh_state i ?ck pub None" and ?sts = "take (MAX_STATES - 1) sts"
  let ?v1 = "?v(?key \<mapsto> sender_key_record_bytes (states_record (?st # ?sts)))"
  have sts: "take MAX_STATES (?st # sts) = ?st # ?sts" by (rule take_states)
  have start: "group_read H i pub ?ck 0 {} ?st" by (rule group_read_start) (simp_all add: ck)
  have wf: "wf_sender_key_record H (states_record (?st # ?sts))"
    using wf_take_states [OF wb(3), of ?st] start unfolding sts by (simp add: group_read_def)
  have process: "hoare (at_view test_ready sender_view ?v)
      (bindE (sender_key_distribution_message_deserialize (distribution_bytes (distribution_message_of i 0 ck pub)))
        (group_session_builder_process_session (test_group_builder cb) name))
      (\<lambda>x s. x = 0 \<and> at_view test_ready sender_view ?v1 s)"
    by (rule hoare_bind_yields [OF yields_distribution_message_deserialize [OF ck]])
       (rule test_sender_keys.process_ok [where v = ?v and a = name and i = i and n = 0, OF laws(1) wb(4,3) ck, unfolded sts])
  obtain wb1 where wb1: "bindE (sender_key_distribution_message_deserialize (distribution_bytes (distribution_message_of i 0 ck pub)))
         (group_session_builder_process_session (test_group_builder cb) name) wb = (Ok 0, wb1)" "allocs wb1 = []"
      "at_view test_ready sender_view ?v1 (store_data wb1)"
    by (rule hoareE [OF process wb(1)]) (use wb(2) in \<open>auto simp: at_view_def\<close>)
  have read: "hoare (at_view test_ready sender_view ?v1)
      (bindE (group_cipher_create setup_test_store_context name cb) (\<lambda>c. group_read_all c (map (\<lambda>j. skm_serialized (m j)) js)))
      (\<lambda>ts s. ts = map (\<lambda>j. Some (p j)) js \<and> (\<exists>n' st'. group_read H i pub ?ck n' ({} \<union> set js) st' \<and>
        wf_sender_key_record H (states_record (st' # ?sts)) \<and>
        at_view test_ready sender_view (?v1(?key \<mapsto> sender_key_record_bytes (states_record (st' # ?sts)))) s))"
    by (rule hoare_bind_yields [OF yields_group_cipher_create],
        rule test_sender_keys.read_all_ok [OF laws _ wf start]) (use js in simp_all)
  obtain wb2 n st where
      "bindE (group_cipher_create setup_test_store_context name cb) (\<lambda>c. group_read_all c (map (\<lambda>j. skm_serialized (m j)) js)) wb1
        = (Ok (map (\<lambda>j. Some (p j)) js), wb2)" "allocs wb2 = []" "group_read H i pub ?ck n (set js) st"
      "wf_sender_key_record H (states_record (st # ?sts))"
      "at_view test_ready sender_view (?v1(?key \<mapsto> sender_key_record_bytes (states_record (st # ?sts)))) (store_data wb2)"
    by (rule hoareE [OF read wb1(2,3)]) auto
  then show thesis using that [OF wb1(1)] by (simp add: at_view_def)
qed

lemma group_exchange:
  fixes ca :: "'a signal_context" and cb :: "'b signal_context"
  assumes a: "hmac_laws ca H" "cipher_laws ca E" "curve_laws ca DH" "signature_laws ca DH" "random_laws ca"
    and b: "hmac_laws cb H" "cipher_laws cb E" "curve25519 cb = curve25519 ca"
    and wa: "allocs wa = []" "test_ready (store_data wa)" "sender_view (store_data wa) (test_sender_key name) = None"
    and wb: "allocs wb = []" "test_ready (store_data wb)" "wf_sender_key_record H (states_record sts)"
      "loads_states (sender_view (store_data wb) (test_sender_key name)) sts"
    and ps: "\<forall>p \<in> set ps. length p \<le> 2 ^ 24 - 16" "length ps \<le> 2000" and js: "distinct js" "set js \<subseteq> {..<length ps}"
  shows "\<exists>d wa1 ms wa2 wb1 wb2.
    group_session_builder_create_session (test_group_builder ca) name wa = (Ok d, wa1) \<and>
    bindE (group_cipher_create setup_test_store_context name ca) (\<lambda>c. mapE (group_cipher_encrypt c) ps) wa1 = (Ok ms, wa2) \<and>
    length ms = length ps \<and>
    bindE (sender_key_distribution_message_deserialize (distribution_bytes d))
      (group_session_builder_process_session (test_group_builder cb) name) wb = (Ok 0, wb1) \<and>
    bindE (group_cipher_create setup_test_store_context name cb)
      (\<lambda>c. group_read_all c (map (\<lambda>j. skm_serialized (ms ! j)) js)) wb1 = (Ok (map (\<lambda>j. Some (ps ! j)) js), wb2) \<and>
    (\<forall>j \<in> set js. \<exists>w. group_cipher_decrypt (new_group_cipher setup_test_store_context name cb) (ms ! j) wb2
       = (Err SG_ERR_DUPLICATE_MESSAGE, w) \<and> sender_view (store_data w) = sender_view (store_data wb2))"
proof -
  obtain i ck k wa1 ms wa2 where send: "length ck = 32" "wf_key (DH k basepoint)"
      "group_session_builder_create_session (test_group_builder ca) name wa = (Ok (distribution_message_of i 0 ck (DH k basepoint)), wa1)"
      "bindE (group_cipher_create setup_test_store_context name ca) (\<lambda>c. mapE (group_cipher_encrypt c) ps) wa1 = (Ok ms, wa2)"
      "length ms = length ps"
      "\<forall>j < length ps. carries ca H E i (DH k basepoint) (sender_step H \<lparr>sck_iteration = 0, sck_chain_key = ck\<rparr> j) (ps ! j) (ms ! j)"
    by (rule group_send [OF a wa ps(1)])
  let ?ck = "\<lparr>sck_iteration = 0, sck_chain_key = ck\<rparr>" and ?pub = "DH k basepoint"
  have msgs: "\<forall>j \<in> set js. j < 2000 \<and> carries cb H E i ?pub (sender_step H ?ck j) (ps ! j) (ms ! j)"
    using send(6) js(2) ps(2) by (auto simp: carries_same_curve [OF b(3)])
  obtain wb1 wb2 n st sts' where recv:
      "bindE (sender_key_distribution_message_deserialize (distribution_bytes (distribution_message_of i 0 ck ?pub)))
         (group_session_builder_process_session (test_group_builder cb) name) wb = (Ok 0, wb1)"
      "bindE (group_cipher_create setup_test_store_context name cb) (\<lambda>c. group_read_all c (map (\<lambda>j. skm_serialized (ms ! j)) js)) wb1
        = (Ok (map (\<lambda>j. Some (ps ! j)) js), wb2)"
    and after: "allocs wb2 = []" "test_ready (store_data wb2)" "group_read H i ?pub ?ck n (set js) st"
      "wf_sender_key_record H (states_record (st # sts'))"
      "sender_view (store_data wb2) (test_sender_key name) = Some (sender_key_record_bytes (states_record (st # sts')))"
    by (rule group_receive [OF b(1,2) wb send(1,2) js(1) msgs])
  have dup: "\<exists>w. group_cipher_decrypt (new_group_cipher setup_test_store_context name cb) (ms ! j) wb2
       = (Err SG_ERR_DUPLICATE_MESSAGE, w) \<and> sender_view (store_data w) = sender_view (store_data wb2)" if j: "j \<in> set js" for j
  proof -
    have m: "carries cb H E i ?pub (sender_step H ?ck j) (ps ! j) (ms ! j)" using msgs j by blast
    have "fails (group_decrypt_on_state cb st (ms ! j) :: ('b, test_store, _) M) SG_ERR_DUPLICATE_MESSAGE"
      by (rule group_read_duplicate [OF after(3) j _ m]) simp
    then have "rejects (at_view test_ready sender_view (sender_view (store_data wb2)))
        (group_cipher_decrypt (new_group_cipher setup_test_store_context name cb) (ms ! j)) SG_ERR_DUPLICATE_MESSAGE
        (at_view test_ready sender_view (sender_view (store_data wb2)))"
      by (intro test_sender_keys.decrypt_rejected [where v = "sender_view (store_data wb2)" and a = name and j = 0, OF b(1) _ after(4)])
         (use m after(3,5) in \<open>simp_all add: carries_def group_read_def sg_err_defs loads_states_def\<close>)
    then show ?thesis using after(1,2) by (auto simp: rejects_def at_view_def)
  qed
  show ?thesis
    using send(3,4,5) recv dup by blast
qed

lemma process_and_read:
  fixes ctx :: "'c signal_context"
  assumes laws: "hmac_laws ctx H" "cipher_laws ctx E"
    and v: "loads_states (v (test_sender_key name)) sts" "wf_sender_key_record H (states_record sts)"
    and ck: "length ck = 32" "wf_key pub" and j: "unat n + 2000 < 2 ^ 32" "j < 2000"
    and m: "carries ctx H E i pub (sender_step H \<lparr>sck_iteration = n, sck_chain_key = ck\<rparr> j) p m"
  shows "hoare (at_view test_ready sender_view v)
    (thenE (group_session_builder_process_session (test_group_builder ctx) name (distribution_message_of i n ck pub))
       (group_cipher_decrypt (new_group_cipher setup_test_store_context name ctx) m))
    (\<lambda>t s. t = Some p \<and> (\<exists>v sts. loads_states (v (test_sender_key name)) sts \<and> wf_sender_key_record H (states_record sts) \<and>
      at_view test_ready sender_view v s))"
proof -
  let ?ck = "\<lparr>sck_iteration = n, sck_chain_key = ck\<rparr>" and ?key = "test_sender_key name"
  let ?st = "fresh_state i ?ck pub None" and ?sts = "take (MAX_STATES - 1) sts"
  let ?v = "v(?key \<mapsto> sender_key_record_bytes (states_record (?st # ?sts)))"
  have sts: "take MAX_STATES (?st # sts) = ?st # ?sts" by (rule take_states)
  have start: "group_read H i pub ?ck 0 {} ?st" by (rule group_read_start) (simp_all add: ck)
  have wf: "wf_sender_key_record H (states_record (?st # ?sts))"
    using wf_take_states [OF v(2), of ?st] start unfolding sts by (simp add: group_read_def)
  obtain st' n' where st': "group_read H i pub ?ck n' {j} st'" "yields (group_decrypt_on_state ctx ?st m :: ('c, test_store, _) M) (Some p, st')"
    using group_read_one [OF laws start j(2) _ _ m] j(1) by auto
  have wf': "wf_sender_key_record H (states_record (st' # ?sts))"
    using wf st'(1) by (simp add: wf_sender_key_record_def group_read_def)
  have loads: "loads_states ((?v(?key \<mapsto> sender_key_record_bytes (states_record (st' # ?sts)))) ?key) (st' # ?sts)"
    by (simp add: loads_states_def)
  have "hoare (at_view test_ready sender_view ?v) (group_cipher_decrypt (new_group_cipher setup_test_store_context name ctx) m)
      (\<lambda>t s. t = Some p \<and> at_view test_ready sender_view (?v(?key \<mapsto> sender_key_record_bytes (states_record (st' # ?sts)))) s)"
    by (rule test_sender_keys.decrypt_ok [where v = ?v and a = name, OF laws(1) _ wf _ st'(2)])
       (use m st'(1) in \<open>simp_all add: carries_def fresh_state_def group_read_def\<close>)
  from hoare_then_at [OF test_sender_keys.process_ok [where v = v and a = name and i = i and n = n, OF laws(1) v ck, unfolded sts] this]
  show ?thesis
    by (rule hoare_post) (use wf' loads in blast)
qed

end
