(* ===== verification/Group_Properties.thy ===== *)
theory Group_Properties
  imports Group_Laws Sample_Provider
begin

text \<open>
  Properties of groups: messages reach the members in any order, forged messages and those who may not send
  are refused, what is stored survives, and what happens when a sender key is handed out again or memory
  runs out.
\<close>

section \<open>Sample groups\<close>

definition sample_name :: signal_protocol_sender_key_name where
  "sample_name = \<lparr>group_id = [1], sender = \<lparr>address_name = [2], device_id = 1\<rparr>\<rparr>"

definition sample_group_store :: "((64 word \<times> 64 word \<times> int) \<times> bytes) list \<Rightarrow> test_store" where
  "sample_group_store t =
    \<lparr>test_sessions = [], test_pre_keys = [], test_signed_pre_keys = [], test_identities = [],
     test_identity_key_public = [], test_identity_key_private = [], test_local_registration_id = 9,
     test_sender_keys = t, test_allocs = []\<rparr>"

definition sample_chain :: sender_chain_key where
  "sample_chain = \<lparr>sck_iteration = 0, sck_chain_key = replicate 32 7\<rparr>"

text \<open>The state of a member, which has no private key.\<close>

definition sample_member :: sender_key_state where
  "sample_member = fresh_state 5 sample_chain (public_key (sample_pair 1)) None"

lemma sample_member_read: "group_read sample_hmac 5 (public_key (sample_pair 1)) sample_chain 0 {} sample_member"
  unfolding sample_member_def by (rule group_read_start) (simp_all add: sample_chain_def)

lemma sample_member_wf: "wf_sender_key_record sample_hmac (states_record [sample_member])"
  using sample_member_read by (simp add: wf_sender_key_record_def group_read_def MAX_STATES_def)

lemma sample_group_store [simp]:
  "test_ready (sample_group_store t)" "test_sender_keys (sample_group_store t) = t"
  by (simp_all add: sample_group_store_def test_ready_def)

section \<open>Messages of a group\<close>

text \<open>C3: a sender without a key for the group creates one and encrypts up to 2000 messages of up to
  2^24 - 16 bytes. A member that processes the distribution message, whatever it knew of that sender before,
  reads any of the messages in whatever order they arrive, each as the plaintext that was sent; after that, each
  of them is refused as a duplicate.\<close>

theorem group_messages_are_read:
  fixes ca :: "'a signal_context" and cb :: "'b signal_context"
  assumes "hmac_laws ca H" "cipher_laws ca E" "curve_laws ca DH" "signature_laws ca DH" "random_laws ca"
    and "hmac_laws cb H" "cipher_laws cb E" "curve25519 cb = curve25519 ca"
    and "allocs wa = []" "test_ready (store_data wa)" "map_of (test_sender_keys (store_data wa)) (test_sender_key name) = None"
    and "allocs wb = []" "test_ready (store_data wb)" "wf_sender_key_record H (states_record sts)"
      "loads_states (map_of (test_sender_keys (store_data wb)) (test_sender_key name)) sts"
    and "\<forall>p \<in> set ps. length p \<le> 2 ^ 24 - 16" "length ps \<le> 2000" and "distinct js" "set js \<subseteq> {..<length ps}"
  shows "\<exists>d wa1 ms wa2 wb1 wb2.
    group_session_builder_create_session
      \<lparr>group_builder_store = setup_test_store_context, group_builder_context = ca\<rparr> name wa = (Ok d, wa1) \<and>
    bindE (group_cipher_create setup_test_store_context name ca) (\<lambda>c. mapE (group_cipher_encrypt c) ps) wa1 = (Ok ms, wa2) \<and>
    length ms = length ps \<and>
    bindE (sender_key_distribution_message_deserialize (distribution_bytes d))
      (group_session_builder_process_session
        \<lparr>group_builder_store = setup_test_store_context, group_builder_context = cb\<rparr> name) wb = (Ok 0, wb1) \<and>
    bindE (group_cipher_create setup_test_store_context name cb)
      (\<lambda>c. group_read_all c (map (\<lambda>j. skm_serialized (ms ! j)) js)) wb1 = (Ok (map (\<lambda>j. Some (ps ! j)) js), wb2) \<and>
    (\<forall>j \<in> set js. \<exists>w. group_cipher_decrypt (new_group_cipher setup_test_store_context name cb) (ms ! j) wb2
       = (Err SG_ERR_DUPLICATE_MESSAGE, w) \<and>
       map_of (test_sender_keys (store_data w)) = map_of (test_sender_keys (store_data wb2)))"
  using assms by (rule group_exchange)

theorem group_messages_are_read_witness:
  "\<exists>d wa1 ms wa2 wb1 wb2.
    group_session_builder_create_session (test_group_builder sample_context) sample_name
      (sample_world (sample_group_store [])) = (Ok d, wa1) \<and>
    bindE (group_cipher_create setup_test_store_context sample_name sample_context)
      (\<lambda>c. mapE (group_cipher_encrypt c) [[1], [2, 3], []]) wa1 = (Ok ms, wa2) \<and>
    bindE (sender_key_distribution_message_deserialize (distribution_bytes d))
      (group_session_builder_process_session (test_group_builder sample_context) sample_name)
      (sample_world (sample_group_store [])) = (Ok 0, wb1) \<and>
    bindE (group_cipher_create setup_test_store_context sample_name sample_context)
      (\<lambda>c. group_read_all c [skm_serialized (ms ! 2), skm_serialized (ms ! 0)]) wb1 = (Ok [Some [], Some [1]], wb2) \<and>
    (\<exists>w. group_cipher_decrypt (new_group_cipher setup_test_store_context sample_name sample_context) (ms ! 2) wb2
       = (Err SG_ERR_DUPLICATE_MESSAGE, w))"
proof -
  let ?w = "sample_world (sample_group_store [])"
  have w: "allocs ?w = []" "test_ready (store_data ?w)" "sender_view (store_data ?w) (test_sender_key sample_name) = None"
    "wf_sender_key_record sample_hmac (states_record [])"
    "loads_states (sender_view (store_data ?w) (test_sender_key sample_name)) []"
    by (simp_all add: sample_world_def wf_sender_key_record_def loads_states_def)
  show ?thesis
    using group_messages_are_read [OF sample_hmac_laws sample_cipher_laws sample_curve_laws sample_signature_laws
      sample_random_laws sample_hmac_laws sample_cipher_laws refl w(1-3) w(1,2,4,5), of "[[1], [2, 3], []]" "[2, 0]"]
    by (auto simp: nth_Cons')
qed

text \<open>C7: a message for a sender is refused, with the stores as they were before, when nothing is known of the
  sender, when no state has the key the message names, and when the signature that ends the message does not
  verify under the signing key of the first state that has it, whatever the rest of the message is; with a
  valid signature it is refused when it is more than 2000 iterations ahead of the chain.\<close>

theorem group_message_is_refused:
  fixes ctx :: "'c signal_context"
  assumes "hmac_laws ctx H" and "loads_states (v (test_sender_key name)) sts" "wf_sender_key_record H (states_record sts)"
    and "SIGNATURE_LENGTH \<le> length (skm_serialized m)"
    and "case dl_search (\<lambda>st. sks_key_id st = skm_key_id m) sts of
        None \<Rightarrow> e = (if sts = [] then SG_ERR_NO_SESSION else SG_ERR_INVALID_MESSAGE)
      | Some j \<Rightarrow> e = SG_ERR_INVALID_MESSAGE \<and> (\<not> signature_valid ctx (sks_signature_public_key (sts ! j)) m \<or>
          unat (sck_iteration (sks_chain_key (sts ! j))) + 2000 < unat (skm_iteration m))"
  shows "rejects (at_view test_ready sender_view v)
    (group_cipher_decrypt (new_group_cipher setup_test_store_context name ctx) m) e (at_view test_ready sender_view v)"
proof (cases "dl_search (\<lambda>st. sks_key_id st = skm_key_id m) sts")
  case None
  then show ?thesis
    using test_sender_keys.decrypt_unknown_key [where v = v and a = name, OF assms(1-3) None] assms(5) by simp
next
  case (Some j)
  have "fails (group_decrypt_on_state ctx (sts ! j) m :: ('c, test_store, _) M) SG_ERR_INVALID_MESSAGE"
    using assms(4,5) Some
    by (cases "signature_valid ctx (sks_signature_public_key (sts ! j)) m")
       (auto intro: fails_group_decrypt_forged fails_group_decrypt_on_state fails_get_sender_key_far)
  then show ?thesis
    using test_sender_keys.decrypt_rejected [where v = v and a = name, OF assms(1-3) Some] assms(5) Some
    by (simp add: sg_err_defs)
qed

definition sample_member_view :: "(64 word \<times> 64 word \<times> int) \<rightharpoonup> bytes" where
  "sample_member_view = [test_sender_key sample_name \<mapsto> sender_key_record_bytes (states_record [sample_member])]"

lemma sample_member_loads: "loads_states (sample_member_view (test_sender_key sample_name)) [sample_member]"
  by (simp add: sample_member_view_def loads_states_def)

definition sample_forgery :: sender_key_message where
  "sample_forgery = \<lparr>skm_version = 3, skm_key_id = 5, skm_iteration = 0, skm_ciphertext = [], skm_serialized = replicate 64 2\<rparr>"

theorem group_message_is_refused_witness:
  "rejects (at_view test_ready sender_view sample_member_view)
    (group_cipher_decrypt (new_group_cipher setup_test_store_context sample_name sample_context) sample_forgery)
    SG_ERR_INVALID_MESSAGE (at_view test_ready sender_view sample_member_view)"
proof (rule group_message_is_refused [where v = sample_member_view and name = sample_name, OF sample_hmac_laws sample_member_loads sample_member_wf])
  have "replicate 64 (2 :: byte) \<noteq> replicate 64 1" by simp
  then show "case dl_search (\<lambda>st. sks_key_id st = skm_key_id sample_forgery) [sample_member] of
        None \<Rightarrow> SG_ERR_INVALID_MESSAGE = (if [sample_member] = [] then SG_ERR_NO_SESSION else SG_ERR_INVALID_MESSAGE)
      | Some j \<Rightarrow> SG_ERR_INVALID_MESSAGE = SG_ERR_INVALID_MESSAGE \<and>
          (\<not> signature_valid sample_context (sks_signature_public_key ([sample_member] ! j)) sample_forgery \<or>
           unat (sck_iteration (sks_chain_key ([sample_member] ! j))) + 2000 < unat (skm_iteration sample_forgery))"
    by (simp add: sample_forgery_def sample_member_def fresh_state_def signature_valid_def Let_def SIGNATURE_LENGTH_def
        sample_context_def sample_curve_def sample_signature_def)
qed (simp add: sample_forgery_def SIGNATURE_LENGTH_def)

text \<open>C26: only the owner of a sender key encrypts with it. Without a state the group has no session; with the
  state of a member, which has the public signing key only, the key is refused as invalid. In both cases the
  stores are as they were before.\<close>

theorem only_the_owner_encrypts:
  fixes ctx :: "'c signal_context"
  assumes "hmac_laws ctx H" and "loads_states (v (test_sender_key name)) sts" "wf_sender_key_record H (states_record sts)"
    and "sts = [] \<or> sks_signature_private_key (hd sts) = None"
  shows "rejects (at_view test_ready sender_view v)
    (group_cipher_encrypt (new_group_cipher setup_test_store_context name ctx) p)
    (if sts = [] then SG_ERR_NO_SESSION else SG_ERR_INVALID_KEY) (at_view test_ready sender_view v)"
  using assms by (rule test_sender_keys.encrypt_refused)

theorem only_the_owner_encrypts_witness:
  "rejects (at_view test_ready sender_view sample_member_view)
    (group_cipher_encrypt (new_group_cipher setup_test_store_context sample_name sample_context) [1])
    SG_ERR_INVALID_KEY (at_view test_ready sender_view sample_member_view)"
  using only_the_owner_encrypts [where v = sample_member_view and name = sample_name, OF sample_hmac_laws sample_member_loads sample_member_wf, of "[1]"]
  by (simp add: sample_member_def fresh_state_def)

section \<open>Keys of a state\<close>



text \<open>C27: a well-formed record of sender key states (up to five states with up to 2000 stored keys each) is read
  back from its serialised form as it was, although only the seeds of the stored keys are written; two
  well-formed records with the same serialised form are the same.\<close>

theorem sender_key_record_round_trip:
  assumes "hmac_laws ctx H" and "wf_sender_key_record H r" "wf_sender_key_record H r'"
  shows "yields (sender_key_record_copy ctx r) r \<and> (sender_key_record_bytes r = sender_key_record_bytes r' \<longrightarrow> r = r')"
  using yields_sender_key_record_copy [OF assms(1,2)] sender_key_record_codec.encoding_injective assms by blast

theorem sender_key_record_round_trip_witness:
  "yields (sender_key_record_copy sample_context (states_record [sample_member])) (states_record [sample_member])"
  using sender_key_record_round_trip [OF sample_hmac_laws sample_member_wf sample_member_wf] by blast

section \<open>Where the code differs from its description\<close>

text \<open>C35: a member that processes a distribution message again takes the sender key back to where the
  message was written: a message that it has read is read a second time, where group\_cipher.h describes an error for
  a message that has already been received.\<close>

theorem reprocessed_key_replays:
  fixes ctx :: "'c signal_context"
  assumes "hmac_laws ctx H" "cipher_laws ctx E"
    and "loads_states (v (test_sender_key name)) sts" "wf_sender_key_record H (states_record sts)"
    and "length ck = 32" "wf_key pub" and "unat n + 2000 < 2 ^ 32" "j < 2000"
    and "carries ctx H E i pub (sender_step H \<lparr>sck_iteration = n, sck_chain_key = ck\<rparr> j) p m"
  shows "hoare (at_view test_ready sender_view v)
    (let again = thenE (group_session_builder_process_session (test_group_builder ctx) name (distribution_message_of i n ck pub))
                   (group_cipher_decrypt (new_group_cipher setup_test_store_context name ctx) m)
     in bindE again (\<lambda>t1. bindE again (\<lambda>t2. returnE (t1, t2))))
    (\<lambda>r s. r = (Some p, Some p))"
proof -
  have "hoare (\<lambda>s. \<exists>v sts. loads_states (v (test_sender_key name)) sts \<and> wf_sender_key_record H (states_record sts) \<and>
      at_view test_ready sender_view v s)
    (thenE (group_session_builder_process_session (test_group_builder ctx) name (distribution_message_of i n ck pub))
       (group_cipher_decrypt (new_group_cipher setup_test_store_context name ctx) m))
    (\<lambda>t s. t = Some p \<and> (\<exists>v sts. loads_states (v (test_sender_key name)) sts \<and> wf_sender_key_record H (states_record sts) \<and>
      at_view test_ready sender_view v s))"
    by (intro hoare_ex hoare_pure process_and_read [OF assms(1,2) _ _ assms(5-9)])
  from hoare_pre [OF hoare_bind_at [OF this hoare_bind_at [OF this hoare_return_at]]]
  show ?thesis
    unfolding Let_def by (rule hoare_post) (use assms(3,4) in auto)
qed

definition sample_group_message :: sender_key_message where
  "sample_group_message =
     (let k = sender_chain_message_key sample_hmac sample_chain;
          ct = sample_cipher SG_CIPHER_AES_CBC_PKCS5 (smk_cipher_key k) (smk_iv k) [4, 2]
      in \<lparr>skm_version = CIPHERTEXT_CURRENT_VERSION, skm_key_id = 5, skm_iteration = 0, skm_ciphertext = ct,
          skm_serialized = sender_key_message_bytes 5 0 ct @ sample_signature\<rparr>)"

lemma sample_group_message_carries:
  "carries sample_context sample_hmac sample_cipher 5 (public_key (sample_pair 1)) sample_chain [4, 2] sample_group_message"
  by (simp add: carries_def sample_group_message_def Let_def wf_sender_key_message_def signature_valid_def sample_context_def
      sample_curve_def SIGNATURE_LENGTH_def sample_signature_def sample_chain_def sample_cipher_def MAX_CIPHERTEXT_def)

theorem reprocessed_key_replays_witness:
  "hoare (at_view test_ready sender_view sample_member_view)
    (let again = thenE (group_session_builder_process_session (test_group_builder sample_context) sample_name
                     (distribution_message_of 5 0 (replicate 32 7) (public_key (sample_pair 1))))
                   (group_cipher_decrypt (new_group_cipher setup_test_store_context sample_name sample_context) sample_group_message)
     in bindE again (\<lambda>t1. bindE again (\<lambda>t2. returnE (t1, t2))))
    (\<lambda>r s. r = (Some [4, 2], Some [4, 2]))"
  by (rule reprocessed_key_replays [where v = sample_member_view and name = sample_name and j = 0,
        OF sample_hmac_laws sample_cipher_laws sample_member_loads sample_member_wf])
     (simp_all add: sample_group_message_carries [unfolded sample_chain_def])



end
