(* ===== verification/Digest.thy ===== *)
theory Digest
  imports Curve Vpool "HOL-Library.List_Lexorder"
begin

text \<open>
  What fingerprint.c and device_consistency.c share: a run of the provider's SHA-512 context, the
  decimal encoding of a digest, the C library's string comparison, and sorted lists of public keys.
\<close>

section \<open>Definitions\<close>

text \<open>The life of a digest context: it is cleaned up when the pointer was set, whatever the status.\<close>

definition sha512_scope ::
    "'c signal_context \<Rightarrow> (ptr option \<Rightarrow> ('c, 's, 'a) M) \<Rightarrow> ('c, 's, 'a) M" where
  "sha512_scope ctx body =
     bindE (signal_sha512_digest_init ctx) (\<lambda>(r, h).
     finallyE (thenE (statusE r) (body h))
       (case h of None \<Rightarrow> returnE () | Some h' \<Rightarrow> signal_sha512_digest_cleanup ctx h'))"

definition sha512_update :: "'c signal_context \<Rightarrow> ptr option \<Rightarrow> bytes \<Rightarrow> ('c, 's, unit) M" where
  "sha512_update ctx h data = bindE (derefE h) (\<lambda>h'. signal_sha512_digest_update ctx h' data)"

definition sha512_final :: "'c signal_context \<Rightarrow> ptr option \<Rightarrow> ('c, 's, bytes option) M" where
  "sha512_final ctx h = bindE (derefE h) (signal_sha512_digest_final ctx)"

text \<open>Five bytes as a 64-bit number, and the five digits that \<open>"%05d"\<close> prints of its last ones.\<close>

definition digest_chunk :: "bytes \<Rightarrow> nat \<Rightarrow> 64 word" where
  "digest_chunk data i =
     push_bit 32 (ucast (data ! i) AND 0xFF) OR
     push_bit 24 (ucast (data ! (i + 1)) AND 0xFF) OR
     push_bit 16 (ucast (data ! (i + 2)) AND 0xFF) OR
     push_bit 8 (ucast (data ! (i + 3)) AND 0xFF) OR
     (ucast (data ! (i + 4)) AND 0xFF)"

definition print_05d :: "nat \<Rightarrow> bytes" where
  "print_05d n = map (\<lambda>k. of_nat (48 + n div 10 ^ k mod 10)) [4, 3, 2, 1, 0]"

definition encoded_chunks :: "bytes \<Rightarrow> nat \<Rightarrow> bytes" where
  "encoded_chunks data len =
     concat (map (\<lambda>j. print_05d (unat (digest_chunk data (5 * j) mod 100000))) [0..<len div 5])"

text \<open>A C string is the list of its bytes before the terminating zero.\<close>

fun strcmp :: "bytes \<Rightarrow> bytes \<Rightarrow> int" where
  "strcmp (x # xs) (y # ys) = (if x = y then strcmp xs ys else if x < y then -1 else 1)"
| "strcmp [] [] = 0"
| "strcmp [] (y # ys) = -1"
| "strcmp (x # xs) [] = 1"

text \<open>The documented behaviour of the digest callbacks for a digest function \<open>D\<close>: \<open>R c h d\<close> reads that
  in memory \<open>c\<close> the context \<open>h\<close> was fed \<open>d\<close> since it was made or last finalised.\<close>

definition sha512_contract ::
    "'c signal_context \<Rightarrow> (bytes \<Rightarrow> bytes) \<Rightarrow> ('c \<Rightarrow> ptr \<Rightarrow> bytes \<Rightarrow> bool) \<Rightarrow> bool" where
  "sha512_contract ctx D R = (\<exists>ini upd fin cln.
     sha512_digest_init_func (crypto_provider ctx) = Some ini \<and>
     sha512_digest_update_func (crypto_provider ctx) = Some upd \<and>
     sha512_digest_final_func (crypto_provider ctx) = Some fin \<and>
     sha512_digest_cleanup_func (crypto_provider ctx) = Some cln \<and>
     (\<forall>c. \<exists>h c'. ini c = ((0, Some h), c') \<and> R c' h []) \<and>
     (\<forall>c h d x. R c h d \<longrightarrow> (\<exists>c'. upd h x c = (0, c') \<and> R c' h (d @ x))) \<and>
     (\<forall>c h d. R c h d \<longrightarrow> (\<exists>c'. fin h c = ((0, Some (D d)), c') \<and> R c' h [])))"

definition sha512_laws :: "'c signal_context \<Rightarrow> (bytes \<Rightarrow> bytes) \<Rightarrow> bool" where
  "sha512_laws ctx D = ((\<exists>R. sha512_contract ctx D R) \<and> (\<forall>d. length (D d) = 64))"

section \<open>Running a digest\<close>

text \<open>\<open>digests R h d m x d'\<close>: with \<open>d\<close> fed to the context, \<open>m\<close> returns \<open>x\<close> and leaves \<open>d'\<close> fed to it.\<close>

definition digests ::
    "('c \<Rightarrow> ptr \<Rightarrow> bytes \<Rightarrow> bool) \<Rightarrow> ptr \<Rightarrow> bytes \<Rightarrow> ('c, 's, 'a) M \<Rightarrow> 'a \<Rightarrow> bytes \<Rightarrow> bool" where
  "digests R h d m x d' = (\<forall>w. allocs w = [] \<longrightarrow> R (crypto_data w) h d \<longrightarrow>
     wp m (\<lambda>y w'. y = x \<and> allocs w' = [] \<and> store_data w' = store_data w \<and> R (crypto_data w') h d') w)"

named_theorems digests_rules \<open>composition of digest runs\<close>

lemma digests_bindE [digests_rules]:
  assumes "digests R h d m x d'" and "digests R h d' (f x) y d''"
  shows "digests R h d (bindE m f) y d''"
  using assms unfolding digests_def by (fastforce elim: wp_mono)

lemma digests_thenE [digests_rules]:
  "digests R h d m x d' \<Longrightarrow> digests R h d' k y d'' \<Longrightarrow> digests R h d (thenE m k) y d''"
  unfolding thenE_def by (rule digests_bindE)

lemma digests_quiet: "quiet m x \<Longrightarrow> digests R h d m x d"
  by (simp add: digests_def quiet_def wp_def)

lemma digests_returnE [digests_rules]: "digests R h d (returnE x) x d"
  by (simp add: digests_quiet)

lemma digests_derefE [digests_rules]: "digests R h d (derefE (Some x)) x d"
  by (simp add: digests_def)

lemma digests_alloc [digests_rules]: "digests R h d alloc () d"
  by (simp add: digests_def)

lemma digests_buffer_alloc: "n < 2 ^ 63 \<Longrightarrow> digests R h d (signal_buffer_alloc n) True d"
  unfolding signal_buffer_alloc_def by (simp add: SIZE_MAX_bound digests_def)

lemma digests_update [digests_rules]:
  "sha512_contract ctx D R \<Longrightarrow> digests R h d (sha512_update ctx (Some h) x) () (d @ x)"
  unfolding digests_def
proof (intro allI impI)
  fix w :: "('a, 'b) world"
  assume *: "sha512_contract ctx D R" "allocs w = []" "R (crypto_data w) h d"
  then obtain upd c' where "sha512_digest_update_func (crypto_provider ctx) = Some upd"
      "upd h x (crypto_data w) = (0, c')" "R c' h (d @ x)"
    unfolding sha512_contract_def by metis
  then show "wp (sha512_update ctx (Some h) x) (\<lambda>y w'. y = () \<and> allocs w' = [] \<and>
      store_data w' = store_data w \<and> R (crypto_data w') h (d @ x)) w"
    using *(2) by (simp add: sha512_update_def signal_sha512_digest_update_def)
qed

lemma digests_final [digests_rules]:
  "sha512_contract ctx D R \<Longrightarrow> digests R h d (sha512_final ctx (Some h)) (Some (D d)) []"
  unfolding digests_def
proof (intro allI impI)
  fix w :: "('a, 'b) world"
  assume *: "sha512_contract ctx D R" "allocs w = []" "R (crypto_data w) h d"
  then obtain fin c' where "sha512_digest_final_func (crypto_provider ctx) = Some fin"
      "fin h (crypto_data w) = ((0, Some (D d)), c')" "R c' h []"
    unfolding sha512_contract_def by metis
  then show "wp (sha512_final ctx (Some h)) (\<lambda>y w'. y = Some (D d) \<and> allocs w' = [] \<and>
      store_data w' = store_data w \<and> R (crypto_data w') h []) w"
    using *(2) by (simp add: sha512_final_def signal_sha512_digest_final_def)
qed

lemma yields_sha512_scope:
  assumes laws: "sha512_laws ctx D"
    and body: "\<And>R h. sha512_contract ctx D R \<Longrightarrow> \<exists>d. digests R h [] (body (Some h)) x d"
  shows "yields (sha512_scope ctx body) x"
  unfolding yields_def ensures_def
proof (intro allI impI)
  fix w :: "('a, 'b) world"
  assume w: "allocs w = []"
  obtain R where R: "sha512_contract ctx D R" using laws unfolding sha512_laws_def by blast
  obtain ini cln h c' where fs: "sha512_digest_init_func (crypto_provider ctx) = Some ini"
      "sha512_digest_cleanup_func (crypto_provider ctx) = Some cln"
    and h: "ini (crypto_data w) = ((0, Some h), c')" "R c' h []"
    using R unfolding sha512_contract_def by metis
  obtain d where d: "digests R h [] (body (Some h)) x d" using body [OF R] by blast
  have "wp (body (Some h)) (\<lambda>y. wp (signal_sha512_digest_cleanup ctx h)
      (\<lambda>_ w'. y = x \<and> allocs w' = [] \<and> store_data w' = store_data w)) (w\<lparr>crypto_data := c'\<rparr>)"
    by (rule wp_mono [OF d [unfolded digests_def, rule_format]])
       (use w h in \<open>auto simp: signal_sha512_digest_cleanup_def fs\<close>)
  then show "wp (sha512_scope ctx body) (\<lambda>y w'. y = x \<and> allocs w' = [] \<and> store_data w' = store_data w) w"
    by (simp add: sha512_scope_def signal_sha512_digest_init_def fs h)
qed

text \<open>A loop that feeds a list of inputs.\<close>

lemma digests_feed:
  assumes "sha512_contract ctx D R" and "\<And>x. x \<in> set xs \<Longrightarrow> quiet (f x) (g x)"
  shows "digests R h d (foldE (\<lambda>x _. bindE (f x) (sha512_update ctx (Some h))) xs ()) ()
    (d @ concat (map g xs))"
  using assms(2)
proof (induction xs arbitrary: d)
  case (Cons x xs)
  have "digests R h d (bindE (f x) (sha512_update ctx (Some h))) () (d @ g x)"
    by (rule digests_bindE [OF digests_quiet [OF Cons.prems]], simp, rule digests_update [OF assms(1)])
  moreover have "digests R h (d @ g x) (foldE (\<lambda>x _. bindE (f x) (sha512_update ctx (Some h))) xs ()) ()
      ((d @ g x) @ concat (map g xs))"
    by (rule Cons.IH) (simp add: Cons.prems)
  ultimately show ?case by (simp add: digests_bindE)
qed (simp add: digests_returnE)

section \<open>Decimal text\<close>

text \<open>The number that five bytes denote, most significant first.\<close>

definition big_endian :: "bytes \<Rightarrow> nat" where
  "big_endian bs = foldl (\<lambda>n b. n * 256 + unat b) 0 bs"

definition decimal_groups :: "nat \<Rightarrow> bytes \<Rightarrow> bytes" where
  "decimal_groups n data =
     concat (map (\<lambda>j. print_05d (big_endian (take 5 (drop (5 * j) data)) mod 100000)) [0..<n])"

lemma byte_mask: "(ucast (b :: byte) :: 64 word) AND 0xFF = ucast b"
proof -
  have "(ucast b :: 64 word) AND mask 8 = take_bit 8 (ucast b)" by (simp add: take_bit_eq_mask)
  also have "\<dots> = ucast b"
    by (rule bit_word_eqI) (auto simp: bit_simps dest: bit_imp_le_length)
  finally show ?thesis by (simp add: mask_eq_exp_minus_1)
qed

lemma or_disjoint_plus:
  fixes a b :: "64 word"
  assumes "unat b < 2 ^ n"
  shows "push_bit n a OR b = push_bit n a + b"
proof -
  have "take_bit n b = b"
    using assms by (simp add: word_unat_eq_iff unsigned_take_bit_eq take_bit_nat_eq_self)
  then have "\<not> bit b k" if "n \<le> k" for k
    using that by (metis bit_take_bit_iff linorder_not_le)
  then have "push_bit n a AND b = 0"
    by (intro bit_word_eqI) (auto simp: bit_simps)
  then show ?thesis by (rule disjunctive_add_eq_or [symmetric])
qed

lemma unat_push_or:
  fixes a b :: "64 word"
  assumes "unat a < 2 ^ 8" and "unat b < 2 ^ n" and "n \<le> 56"
  shows "unat (push_bit n a OR b) = unat a * 2 ^ n + unat b"
proof -
  have "unat a * 2 ^ n + unat b < 2 ^ 8 * (2 :: nat) ^ n"
  proof -
    have "(unat a + 1) * 2 ^ n \<le> 2 ^ 8 * (2 :: nat) ^ n"
      by (rule mult_right_mono) (use assms(1) in simp_all)
    then show ?thesis using assms(2) unfolding distrib_right by linarith
  qed
  also have "\<dots> \<le> 2 ^ 64"
    using power_increasing [of "8 + n" 64 "2 :: nat"] assms(3) by (simp add: power_add)
  finally have *: "unat a * 2 ^ n + unat b < 2 ^ 64" .
  have "push_bit n a OR b = word_of_nat (unat a * 2 ^ n + unat b)"
    unfolding or_disjoint_plus [OF assms(2)] by (simp add: push_bit_eq_mult)
  moreover have "unat (word_of_nat (unat a * 2 ^ n + unat b) :: 64 word) = unat a * 2 ^ n + unat b"
    unfolding unat_of_nat by (rule mod_less) (use * in simp)
  ultimately show ?thesis by metis
qed

lemma unat_digest_chunk:
  assumes "i + 5 \<le> length data"
  shows "unat (digest_chunk data i) = big_endian (take 5 (drop i data))"
proof -
  have five: "take 5 (drop i data) = [data ! i, data ! (i + 1), data ! (i + 2), data ! (i + 3), data ! (i + 4)]"
    using assms by (intro nth_equalityI) (auto simp: less_Suc_eq numeral_eq_Suc add.commute)
  have byte: "unat (ucast b :: 64 word) = unat b" "unat b < 256" for b :: byte
    using unsigned_less [of b, where 'a = nat] by (simp_all add: unsigned_ucast_eq take_bit_nat_eq_self)
  let ?b = "\<lambda>k. ucast (data ! (i + k)) :: 64 word"
  have "unat (push_bit 8 (?b 3) OR ?b 4) = unat (data ! (i + 3)) * 2 ^ 8 + unat (data ! (i + 4))" (is "_ = ?n2")
    by (subst unat_push_or) (simp_all add: byte)
  moreover have "?n2 < 2 ^ 16" using byte(2) [of "data ! (i + 3)"] byte(2) [of "data ! (i + 4)"] by simp
  ultimately have "unat (push_bit 16 (?b 2) OR push_bit 8 (?b 3) OR ?b 4) = unat (data ! (i + 2)) * 2 ^ 16 + ?n2"
      (is "_ = ?n3")
    by (subst unat_push_or) (simp_all add: byte)
  moreover have "?n3 < 2 ^ 24" using \<open>?n2 < 2 ^ 16\<close> byte(2) [of "data ! (i + 2)"] by simp
  ultimately have "unat (push_bit 24 (?b 1) OR push_bit 16 (?b 2) OR push_bit 8 (?b 3) OR ?b 4) =
      unat (data ! (i + 1)) * 2 ^ 24 + ?n3" (is "_ = ?n4")
    by (subst unat_push_or) (simp_all add: byte)
  moreover have "?n4 < 2 ^ 32" using \<open>?n3 < 2 ^ 24\<close> byte(2) [of "data ! (i + 1)"] by simp
  ultimately have "unat (push_bit 32 (?b 0) OR push_bit 24 (?b 1) OR push_bit 16 (?b 2) OR push_bit 8 (?b 3) OR ?b 4) =
      unat (data ! i) * 2 ^ 32 + ?n4"
    by (subst unat_push_or) (simp_all add: byte)
  then show ?thesis
    by (simp add: digest_chunk_def byte_mask or.assoc five big_endian_def)
qed

lemma encoded_chunks_eq:
  assumes "5 * n \<le> length data"
  shows "encoded_chunks data (5 * n) = decimal_groups n data"
proof -
  have "unat (digest_chunk data (5 * j) mod 100000) = big_endian (take 5 (drop (5 * j) data)) mod 100000"
    if "j < n" for j
  proof -
    have "unat (digest_chunk data (5 * j)) = big_endian (take 5 (drop (5 * j) data))"
      by (rule unat_digest_chunk) (use assms that in linarith)
    moreover have "unat (100000 :: 64 word) = 100000" by simp
    ultimately show ?thesis by (simp only: unat_mod)
  qed
  then show ?thesis
    unfolding encoded_chunks_def decimal_groups_def by (intro arg_cong [where f = concat] map_cong) simp_all
qed

lemma length_decimal_groups: "length (decimal_groups n data) = 5 * n"
  by (induction n) (simp_all add: decimal_groups_def print_05d_def)

lemma print_05d_digits: "b \<in> set (print_05d n) \<Longrightarrow> 48 \<le> b \<and> b \<le> 57"
proof -
  have "48 \<le> (of_nat (48 + m mod 10) :: byte) \<and> (of_nat (48 + m mod 10) :: byte) \<le> 57" for m :: nat
  proof -
    have "unat (of_nat (48 + m mod 10) :: byte) = 48 + m mod 10"
      by (subst unat_of_nat) (simp add: take_bit_nat_eq_self)
    then show ?thesis unfolding word_le_nat_alt by simp
  qed
  then show "b \<in> set (print_05d n) \<Longrightarrow> 48 \<le> b \<and> b \<le> 57"
    unfolding print_05d_def set_map by blast
qed

lemma decimal_groups_digits: "b \<in> set (decimal_groups n data) \<Longrightarrow> 48 \<le> b \<and> b \<le> 57"
  by (auto simp only: decimal_groups_def set_concat set_map dest!: print_05d_digits)

section \<open>Comparisons as orders\<close>

lemma strcmp_order: "strcmp xs ys = (if xs = ys then 0 else if xs < ys then -1 else 1)"
  by (induction xs ys rule: strcmp.induct) auto

lemma strcmp_eq_0: "strcmp xs ys = 0 \<longleftrightarrow> xs = ys"
  by (simp add: strcmp_order)

lemma strcmp_le: "strcmp xs ys \<le> 0 \<longleftrightarrow> xs \<le> ys"
  by (auto simp: strcmp_order)

lemma memcmp_order: "length xs = length ys \<Longrightarrow> memcmp xs ys = (if xs = ys then 0 else if xs < ys then -1 else 1)"
  by (induction xs ys rule: list_induct2) auto

lemma insert_by_memcmp_insort:
  "wf_key k \<Longrightarrow> list_all wf_key ks \<Longrightarrow> insert_by_memcmp k ks = insort k ks"
  by (induction ks) (auto simp: ec_public_key_memcmp_def memcmp_order)

lemma wf_key_insort: "wf_key k \<Longrightarrow> list_all wf_key ks \<Longrightarrow> list_all wf_key (insort k ks)"
  by (induction ks) auto

lemma sort_by_memcmp_sort:
  assumes "list_all wf_key ks"
  shows "sort_by_memcmp ks = sort ks"
proof -
  have "foldr insert_by_memcmp ks [] = sort ks \<and> list_all wf_key (sort ks)"
    using assms by (induction ks) (simp_all add: insert_by_memcmp_insort wf_key_insort)
  then show ?thesis unfolding sort_by_memcmp_def by blast
qed

lemma sort_by_memcmp_cong:
  "list_all wf_key ks \<Longrightarrow> mset ks = mset ks' \<Longrightarrow> sort_by_memcmp ks = sort_by_memcmp ks'"
proof -
  assume wf: "list_all wf_key ks" and eq: "mset ks = mset ks'"
  have "list_all wf_key ks'" using wf mset_eq_setD [OF eq] by (simp add: list_all_iff)
  moreover have "sort ks = sort ks'" by (rule properties_for_sort) (simp_all add: eq)
  ultimately show ?thesis by (simp only: sort_by_memcmp_sort wf)
qed

section \<open>Lists of public keys\<close>

definition key_list_bytes :: "ec_public_key list \<Rightarrow> bytes" where
  "key_list_bytes ks = concat (map (\<lambda>k. DJB_TYPE # k) (sort_by_memcmp ks))"

lemma key_list_bytes_cong:
  "list_all wf_key ks \<Longrightarrow> mset ks = mset ks' \<Longrightarrow> key_list_bytes ks = key_list_bytes ks'"
  unfolding key_list_bytes_def by (simp only: sort_by_memcmp_cong)

lemma ensures_ec_public_key_list_copy: "ensures (ec_public_key_list_copy l) (\<lambda>a. ut_ok a \<and> ut_elems a = ut_elems l)"
  unfolding ec_public_key_list_copy_def ec_public_key_list_alloc_def
proof (rule ensures_copy_array)
  fix acc :: "ec_public_key ut_array" and x
  assume "ut_ok acc"
  then show "ensures (ec_public_key_list_push_back acc x) (\<lambda>a. ut_ok a \<and> ut_elems a = ut_elems acc @ [x])"
    unfolding ec_public_key_list_push_back_def
    by (intro ensures_bindE [OF ensures_utarray_push_back]) (auto intro: ensures_returnE)
qed

end
