(* ===== verification/Fingerprint.thy ===== *)
theory Fingerprint
  imports Digest Proto_Schemas
begin

text \<open>
  fingerprint.c: the numeric and the scannable fingerprint of a pair of identities.  The numeric one is
  the iterated hash of each identity printed as 30 digits, the two halves in the order of \<open>strcmp\<close>; the
  scannable one is exchanged as a protocol buffer and compared crosswise.  A stable identifier is a C
  string, given by its bytes before the terminating zero.
\<close>

section \<open>Definitions\<close>

record displayable_fingerprint =
  dfp_local :: bytes
  dfp_remote :: bytes
  dfp_text :: bytes

record scannable_fingerprint =
  sfp_version :: "32 word"
  sfp_local_identifier :: "bytes option"
  sfp_local_fingerprint :: "bytes option"
  sfp_remote_identifier :: "bytes option"
  sfp_remote_fingerprint :: "bytes option"

record fingerprint =
  fp_displayable :: "displayable_fingerprint option"
  fp_scannable :: "scannable_fingerprint option"

record 'c fingerprint_generator =
  fpg_iterations :: int
  fpg_scannable_version :: int
  fpg_context :: "'c signal_context"

definition FINGERPRINT_VERSION :: byte where "FINGERPRINT_VERSION = 0"
definition FINGERPRINT_LENGTH :: nat where "FINGERPRINT_LENGTH = 30"

definition fingerprint_generator_create ::
    "int \<Rightarrow> int \<Rightarrow> 'c signal_context \<Rightarrow> ('c, 's, 'c fingerprint_generator) M" where
  "fingerprint_generator_create iterations scannable_version ctx =
     (if scannable_version < 0 \<or> scannable_version > 1 then failE SG_ERR_INVAL
      else thenE alloc
        (returnE \<lparr>fpg_iterations = iterations, fpg_scannable_version = scannable_version, fpg_context = ctx\<rparr>))"

text \<open>\<open>strdup\<close>, and a string member of a protocol buffer: its bytes up to a zero byte, if it has one.\<close>

definition strdup :: "bytes \<Rightarrow> ('c, 's, bytes) M" where
  "strdup s = thenE alloc (returnE s)"

definition signal_protocol_str_serialize_protobuf :: "bytes \<Rightarrow> pb_value" where
  "signal_protocol_str_serialize_protobuf str = V_BYTES str"

definition signal_protocol_str_deserialize_protobuf :: "bytes \<Rightarrow> ('c, 's, bytes) M" where
  "signal_protocol_str_deserialize_protobuf data = thenE alloc (returnE (takeWhile (\<lambda>b. b \<noteq> 0) data))"

primrec fingerprint_iterate ::
    "nat \<Rightarrow> 'c signal_context \<Rightarrow> ptr option \<Rightarrow> bytes \<Rightarrow> bytes option \<Rightarrow> ('c, 's, bytes option) M" where
  "fingerprint_iterate 0 ctx h identity hash_buffer = returnE hash_buffer"
| "fingerprint_iterate (Suc n) ctx h identity hash_buffer =
     bindE (derefE hash_buffer) (\<lambda>data.
     thenE (sha512_update ctx h data)
    (thenE (sha512_update ctx h identity)
    (bindE (sha512_final ctx h) (fingerprint_iterate n ctx h identity))))"

definition fingerprint_generator_get_fingerprint ::
    "'c fingerprint_generator \<Rightarrow> bytes option \<Rightarrow> bytes \<Rightarrow> ('c, 's, bytes) M" where
  "fingerprint_generator_get_fingerprint gen stable_identifier identity =
     bindE (derefE stable_identifier) (\<lambda>identifier.
     sha512_scope (fpg_context gen) (\<lambda>h.
       bindE (signal_buffer_alloc (2 + length identity + length identifier)) (\<lambda>b.
       if \<not> b then failE SG_ERR_NOMEM
       else
         bindE (fingerprint_iterate (nat (fpg_iterations gen)) (fpg_context gen) h identity
             (Some ([0, FINGERPRINT_VERSION] @ identity @ identifier))) (\<lambda>hash_buffer.
         bindE (derefE hash_buffer) (\<lambda>hash.
         if length hash < FINGERPRINT_LENGTH then failE SG_ERR_UNKNOWN else returnE hash)))))"

definition fingerprint_generator_create_display_string :: "bytes \<Rightarrow> ('c, 's, bytes) M" where
  "fingerprint_generator_create_display_string fp =
     (if length fp < FINGERPRINT_LENGTH then failE SG_ERR_UNKNOWN
      else thenE alloc (returnE (encoded_chunks fp FINGERPRINT_LENGTH)))"

definition displayable_fingerprint_create ::
    "bytes option \<Rightarrow> bytes option \<Rightarrow> ('c, 's, displayable_fingerprint) M" where
  "displayable_fingerprint_create local_fp remote_fp =
     (case (local_fp, remote_fp) of
        (Some l, Some r) \<Rightarrow>
          thenE alloc
         (bindE (strdup l) (\<lambda>l'.
          bindE (strdup r) (\<lambda>r'.
          thenE alloc
           (returnE \<lparr>dfp_local = l', dfp_remote = r',
              dfp_text = (if strcmp l r \<le> 0 then l @ r else r @ l)\<rparr>))))
      | _ \<Rightarrow> failE SG_ERR_INVAL)"

definition scannable_copy :: "32 word \<Rightarrow> bytes \<Rightarrow> ('c, 's, bytes) M" where
  "scannable_copy version fp =
     bindE (if version = 0 then signal_buffer_copy fp else signal_buffer_n_copy fp 32) (\<lambda>b.
     case b of None \<Rightarrow> failE SG_ERR_NOMEM | Some x \<Rightarrow> returnE x)"

definition scannable_fingerprint_create ::
    "32 word \<Rightarrow> bytes option \<Rightarrow> bytes option \<Rightarrow> bytes option \<Rightarrow> bytes option \<Rightarrow> ('c, 's, scannable_fingerprint) M" where
  "scannable_fingerprint_create version local_id local_fp remote_id remote_fp =
     (if version = 0 \<and> (local_id = None \<or> remote_id = None) then failE SG_ERR_INVAL
      else (case (local_fp, remote_fp) of
          (Some l, Some r) \<Rightarrow>
            thenE alloc
           (bindE (optE strdup (if version = 0 then local_id else None)) (\<lambda>lid.
            bindE (scannable_copy version l) (\<lambda>lf.
            bindE (optE strdup (if version = 0 then remote_id else None)) (\<lambda>rid.
            bindE (scannable_copy version r) (\<lambda>rf.
            returnE \<lparr>sfp_version = version, sfp_local_identifier = lid, sfp_local_fingerprint = Some lf,
              sfp_remote_identifier = rid, sfp_remote_fingerprint = Some rf\<rparr>)))))
        | _ \<Rightarrow> failE SG_ERR_INVAL))"

definition fingerprint_create ::
    "displayable_fingerprint option \<Rightarrow> scannable_fingerprint option \<Rightarrow> ('c, 's, fingerprint) M" where
  "fingerprint_create displayable scannable =
     thenE alloc (returnE \<lparr>fp_displayable = displayable, fp_scannable = scannable\<rparr>)"

definition fingerprint_generator_create_for_impl ::
    "'c fingerprint_generator \<Rightarrow> bytes option \<Rightarrow> bytes \<Rightarrow> bytes option \<Rightarrow> bytes \<Rightarrow> ('c, 's, fingerprint) M" where
  "fingerprint_generator_create_for_impl gen local_id local_identity remote_id remote_identity =
     bindE (fingerprint_generator_get_fingerprint gen local_id local_identity) (\<lambda>local_fp.
     bindE (fingerprint_generator_get_fingerprint gen remote_id remote_identity) (\<lambda>remote_fp.
     bindE (fingerprint_generator_create_display_string local_fp) (\<lambda>displayable_local.
     bindE (fingerprint_generator_create_display_string remote_fp) (\<lambda>displayable_remote.
     bindE (displayable_fingerprint_create (Some displayable_local) (Some displayable_remote)) (\<lambda>displayable.
     bindE (if fpg_scannable_version gen = 0 then
              scannable_fingerprint_create 0 local_id (Some local_identity) remote_id (Some remote_identity)
            else if fpg_scannable_version gen = 1 then
              scannable_fingerprint_create 1 None (Some local_fp) None (Some remote_fp)
            else failE SG_ERR_INVAL) (\<lambda>scannable.
     fingerprint_create (Some displayable) (Some scannable)))))))"

definition fingerprint_generator_create_for ::
    "'c fingerprint_generator \<Rightarrow> bytes option \<Rightarrow> ec_public_key option \<Rightarrow> bytes option \<Rightarrow> ec_public_key option
      \<Rightarrow> ('c, 's, fingerprint) M" where
  "fingerprint_generator_create_for gen local_id local_key remote_id remote_key =
     bindE (ec_public_key_serialize local_key) (\<lambda>local_buffer.
     bindE (ec_public_key_serialize remote_key) (\<lambda>remote_buffer.
     fingerprint_generator_create_for_impl gen local_id local_buffer remote_id remote_buffer))"

definition fingerprint_generator_get_logical_key_bytes :: "ec_public_key ut_array \<Rightarrow> ('c, 's, bytes) M" where
  "fingerprint_generator_get_logical_key_bytes unsorted_key_list =
     bindE (ec_public_key_list_copy unsorted_key_list) (\<lambda>copied.
     bindE (foldE (\<lambda>key vp. bindE (ec_public_key_serialize (Some key)) (vpool_append vp))
              (ut_elems (ec_public_key_list_sort copied)) (vpool_init 1024 0)) (\<lambda>vp.
     bindE (vpool_get_data vp) new_buffer))"

definition fingerprint_generator_create_for_list ::
    "'c fingerprint_generator \<Rightarrow> bytes option \<Rightarrow> ec_public_key ut_array \<Rightarrow> bytes option \<Rightarrow> ec_public_key ut_array
      \<Rightarrow> ('c, 's, fingerprint) M" where
  "fingerprint_generator_create_for_list gen local_id local_keys remote_id remote_keys =
     bindE (fingerprint_generator_get_logical_key_bytes local_keys) (\<lambda>local_buffer.
     bindE (fingerprint_generator_get_logical_key_bytes remote_keys) (\<lambda>remote_buffer.
     fingerprint_generator_create_for_impl gen local_id local_buffer remote_id remote_buffer))"

text \<open>One side of the serialised form: absent without a fingerprint, with its identifier in version 0.\<close>

definition logical_fingerprint_value :: "32 word \<Rightarrow> bytes option \<Rightarrow> bytes \<Rightarrow> pb_value" where
  "logical_fingerprint_value version identifier fp =
     V_MESSAGE (PBMsg
       [if version = 0 then opt_slot signal_protocol_str_serialize_protobuf identifier else [], [V_BYTES fp]] [])"

definition scannable_fingerprint_serialize :: "scannable_fingerprint \<Rightarrow> ('c, 's, bytes) M" where
  "scannable_fingerprint_serialize sc =
     pb_pack textsecure__combined_fingerprints__descriptor
       (PBMsg [[V_UINT32 (sfp_version sc)],
          opt_slot (logical_fingerprint_value (sfp_version sc) (sfp_local_identifier sc)) (sfp_local_fingerprint sc),
          opt_slot (logical_fingerprint_value (sfp_version sc) (sfp_remote_identifier sc)) (sfp_remote_fingerprint sc)]
        [])"

definition decode_logical_fingerprint :: "pb_message option \<Rightarrow> ('c, 's, bytes option \<times> bytes option) M" where
  "decode_logical_fingerprint m =
     (case m of None \<Rightarrow> returnE (None, None)
      | Some lf \<Rightarrow>
          bindE (optE signal_protocol_str_deserialize_protobuf (pb_bytes 0 lf)) (\<lambda>identifier.
          bindE (optE new_buffer (pb_bytes 1 lf)) (\<lambda>fp. returnE (identifier, fp))))"

definition scannable_fingerprint_deserialize :: "bytes \<Rightarrow> ('c, 's, scannable_fingerprint) M" where
  "scannable_fingerprint_deserialize data =
     bindE (pb_unpack textsecure__combined_fingerprints__descriptor data) (\<lambda>m.
     bindE (decode_logical_fingerprint (pb_sub 1 m)) (\<lambda>(local_id, local_fp).
     bindE (decode_logical_fingerprint (pb_sub 2 m)) (\<lambda>(remote_id, remote_fp).
     scannable_fingerprint_create (case pb_uint32 0 m of None \<Rightarrow> 0 | Some v \<Rightarrow> v)
       local_id local_fp remote_id remote_fp)))"

text \<open>The result is 1 for a match, 0 for none, or an error; \<open>strcmp\<close> of a null pointer is undefined.\<close>

definition same_identifier :: "bytes option \<Rightarrow> bytes option \<Rightarrow> 'w \<Rightarrow> unit res \<times> 'w" where
  "same_identifier a b =
     bindE (derefE a) (\<lambda>s. bindE (derefE b) (\<lambda>t. guardE (strcmp s t = 0) SG_ERR_FP_IDENT_MISMATCH))"

definition scannable_fingerprint_compare ::
    "scannable_fingerprint \<Rightarrow> scannable_fingerprint \<Rightarrow> 'w \<Rightarrow> int res \<times> 'w" where
  "scannable_fingerprint_compare sc other =
     (if sfp_remote_fingerprint other = None \<or> sfp_local_fingerprint other = None \<or>
         sfp_version other \<noteq> sfp_version sc
      then failE SG_ERR_FP_VERSION_MISMATCH
      else
        thenE (if sfp_version sc = 0 then
                 thenE (same_identifier (sfp_local_identifier sc) (sfp_remote_identifier other))
                   (same_identifier (sfp_remote_identifier sc) (sfp_local_identifier other))
               else returnE ())
        (returnE
          (if signal_buffer_compare (sfp_local_fingerprint sc) (sfp_remote_fingerprint other) \<noteq> 0 then 0
           else if signal_buffer_compare (sfp_remote_fingerprint sc) (sfp_local_fingerprint other) \<noteq> 0 then 0
           else 1)))"

end
