(* ===== verification/Fingerprint_Laws.thy ===== *)
theory Fingerprint_Laws
  imports Fingerprint Interfaces
begin

text \<open>
  Fingerprints: the iterated hash and its decimal text as pure functions, the scannable fingerprint as an
  \<open>object_codec\<close>, and what its comparison decides.
\<close>

section \<open>Reference\<close>

primrec iterated_hash :: "(bytes \<Rightarrow> bytes) \<Rightarrow> bytes \<Rightarrow> nat \<Rightarrow> bytes \<Rightarrow> bytes" where
  "iterated_hash D identity 0 x = x"
| "iterated_hash D identity (Suc n) x = iterated_hash D identity n (D (x @ identity))"

definition identity_hash :: "(bytes \<Rightarrow> bytes) \<Rightarrow> int \<Rightarrow> bytes \<Rightarrow> bytes \<Rightarrow> bytes" where
  "identity_hash D iterations identifier identity =
     iterated_hash D identity (nat iterations) (0 # 0 # identity @ identifier)"

definition identity_digits :: "(bytes \<Rightarrow> bytes) \<Rightarrow> int \<Rightarrow> bytes \<Rightarrow> bytes \<Rightarrow> bytes" where
  "identity_digits D iterations identifier identity =
     decimal_groups 6 (identity_hash D iterations identifier identity)"

text \<open>The 60 digits shown to both users: the smaller half first.\<close>

definition displayed :: "bytes \<Rightarrow> bytes \<Rightarrow> bytes" where
  "displayed a b = min a b @ max a b"

lemma displayed_commute: "displayed a b = displayed b a"
  by (simp add: displayed_def min.commute max.commute)

definition scannable_of :: "32 word \<Rightarrow> bytes \<Rightarrow> bytes \<Rightarrow> bytes \<Rightarrow> bytes \<Rightarrow> scannable_fingerprint" where
  "scannable_of v lid lf rid rf =
     \<lparr>sfp_version = v,
      sfp_local_identifier = (if v = 0 then Some lid else None),
      sfp_local_fingerprint = Some (if v = 0 then lf else take 32 lf),
      sfp_remote_identifier = (if v = 0 then Some rid else None),
      sfp_remote_fingerprint = Some (if v = 0 then rf else take 32 rf)\<rparr>"

definition small_string :: "bytes \<Rightarrow> bool" where
  "small_string s = (0 \<notin> set s \<and> length s \<le> 2 ^ 20)"

definition wf_scannable :: "scannable_fingerprint \<Rightarrow> bool" where
  "wf_scannable sc = (\<exists>v lid lf rid rf. sc = scannable_of v lid lf rid rf \<and>
     small_string lid \<and> small_string rid \<and> length lf \<le> 2 ^ 20 \<and> length rf \<le> 2 ^ 20)"

lemma wf_scannableI:
  "small_string lid \<Longrightarrow> small_string rid \<Longrightarrow> length lf \<le> 2 ^ 20 \<Longrightarrow> length rf \<le> 2 ^ 20 \<Longrightarrow>
   wf_scannable (scannable_of v lid lf rid rf)"
  unfolding wf_scannable_def by blast

section \<open>Hashing\<close>

lemma length_iterated_hash:
  "\<forall>d. length (D d) = 64 \<Longrightarrow> length (iterated_hash D identity n x) = (if n = 0 then length x else 64)"
proof (induction n arbitrary: x)
  case (Suc n)
  then show ?case by (cases n) simp_all
qed simp

lemma digests_iterate:
  assumes "sha512_contract ctx D R"
  shows "digests R h [] (fingerprint_iterate n ctx (Some h) identity (Some x)) (Some (iterated_hash D identity n x)) []"
proof (induction n arbitrary: x)
  case (Suc n)
  show ?case
    unfolding fingerprint_iterate.simps iterated_hash.simps
    by (rule digests_bindE [OF digests_derefE], rule digests_thenE [OF digests_update [OF assms]],
        rule digests_thenE [OF digests_update [OF assms]], rule digests_bindE [OF digests_final [OF assms]])
       (use Suc.IH in simp)
qed (simp add: digests_returnE)

lemma length_identity_hash:
  assumes "sha512_laws ctx D" and "28 \<le> length identity"
  shows "30 \<le> length (identity_hash D n identifier identity)"
  using assms by (simp add: identity_hash_def sha512_laws_def length_iterated_hash)

lemma yields_get_fingerprint:
  assumes "sha512_laws (fpg_context gen) D" and "28 \<le> length identity"
    and "length identity \<le> 2 ^ 61" and "length identifier \<le> 2 ^ 61"
  shows "yields (fingerprint_generator_get_fingerprint gen (Some identifier) identity)
    (identity_hash D (fpg_iterations gen) identifier identity)"
  unfolding fingerprint_generator_get_fingerprint_def
proof (rule yields_bindE [OF yields_derefE], rule yields_sha512_scope [OF assms(1)])
  fix R h
  assume R: "sha512_contract (fpg_context gen) D R"
  have b: "2 + length identity + length identifier < 2 ^ 63" using assms(3,4) by simp
  have len: "\<not> length (identity_hash D (fpg_iterations gen) identifier identity) < FINGERPRINT_LENGTH"
    using length_identity_hash [OF assms(1,2)]
    by (simp add: FINGERPRINT_LENGTH_def linorder_not_less)
  have it: "digests R h [] (fingerprint_iterate (nat (fpg_iterations gen)) (fpg_context gen) (Some h) identity
      (Some ([0, FINGERPRINT_VERSION] @ identity @ identifier)))
      (Some (identity_hash D (fpg_iterations gen) identifier identity)) []"
    using digests_iterate [OF R] by (simp add: identity_hash_def FINGERPRINT_VERSION_def)
  show "\<exists>d. digests R h [] (bindE (signal_buffer_alloc (2 + length identity + length identifier)) (\<lambda>b.
      if \<not> b then failE SG_ERR_NOMEM
      else bindE (fingerprint_iterate (nat (fpg_iterations gen)) (fpg_context gen) (Some h) identity
          (Some ([0, FINGERPRINT_VERSION] @ identity @ identifier))) (\<lambda>hash_buffer.
        bindE (derefE hash_buffer) (\<lambda>hash.
        if length hash < FINGERPRINT_LENGTH then failE SG_ERR_UNKNOWN else returnE hash))))
      (identity_hash D (fpg_iterations gen) identifier identity) d"
    by (rule exI, rule digests_bindE [OF digests_buffer_alloc [OF b]], simp only: not_True_eq_False if_False,
        rule digests_bindE [OF it], rule digests_bindE [OF digests_derefE], simp only: len if_False,
        rule digests_returnE)
qed

lemma yields_display_string:
  "30 \<le> length fp \<Longrightarrow> yields (fingerprint_generator_create_display_string fp) (decimal_groups 6 fp)"
  using encoded_chunks_eq [of 6 fp]
  by (auto simp: fingerprint_generator_create_display_string_def FINGERPRINT_LENGTH_def
      intro!: yields_thenE [OF yields_alloc] yields_returnE)

lemma yields_displayable_create:
  "yields (displayable_fingerprint_create (Some l) (Some r))
     \<lparr>dfp_local = l, dfp_remote = r, dfp_text = displayed l r\<rparr>"
proof -
  have dup: "yields (strdup s) s" for s
    unfolding strdup_def by (intro yields_thenE [OF yields_alloc] yields_returnE)
  show ?thesis
    unfolding displayable_fingerprint_create_def prod.case option.case
    by (rule yields_thenE [OF yields_alloc], rule yields_bindE [OF dup], rule yields_bindE [OF dup],
        rule yields_thenE [OF yields_alloc], rule yields_cong [OF yields_returnE])
       (auto simp: displayed_def strcmp_le)
qed

section \<open>Scannable fingerprints\<close>

lemma yields_strdup_opt: "yields (optE strdup x) x"
  by (cases x) (auto simp: optE_def strdup_def intro!: yields_returnE yields_bindE [OF yields_thenE [OF yields_alloc yields_returnE]])

lemma yields_scannable_copy:
  "length fp \<le> 2 ^ 61 \<Longrightarrow> yields (scannable_copy v fp) (if v = 0 then fp else take 32 fp)"
  unfolding scannable_copy_def signal_buffer_copy_def signal_buffer_n_copy_def
  by (auto intro!: yields_bindE [OF yields_signal_buffer_create] yields_returnE simp: min_def)

lemma yields_scannable_create:
  assumes "length lf \<le> 2 ^ 61" and "length rf \<le> 2 ^ 61"
    and "v = 0 \<Longrightarrow> il = Some lid \<and> ir = Some rid"
  shows "yields (scannable_fingerprint_create v il (Some lf) ir (Some rf)) (scannable_of v lid lf rid rf)"
proof -
  have "\<not> (v = 0 \<and> (il = None \<or> ir = None))" using assms(3) by auto
  then show ?thesis
    unfolding scannable_fingerprint_create_def prod.case option.case
    by (simp only: if_False, intro yields_thenE [OF yields_alloc] yields_bindE [OF yields_strdup_opt]
        yields_bindE [OF yields_scannable_copy [OF assms(1)]] yields_bindE [OF yields_scannable_copy [OF assms(2)]]
        yields_cong [OF yields_returnE])
       (use assms(3) in \<open>auto simp: scannable_of_def\<close>)
qed

definition scannable_structure :: "scannable_fingerprint \<Rightarrow> pb_message" where
  "scannable_structure sc = PBMsg [[V_UINT32 (sfp_version sc)],
     opt_slot (logical_fingerprint_value (sfp_version sc) (sfp_local_identifier sc)) (sfp_local_fingerprint sc),
     opt_slot (logical_fingerprint_value (sfp_version sc) (sfp_remote_identifier sc)) (sfp_remote_fingerprint sc)] []"

definition scannable_bytes :: "scannable_fingerprint \<Rightarrow> bytes" where
  "scannable_bytes sc =
     protobuf_c_message_pack textsecure__combined_fingerprints__descriptor (scannable_structure sc)"

lemma fits_scannable:
  assumes "wf_scannable sc"
  shows "fits_wire textsecure__combined_fingerprints__descriptor (scannable_structure sc)"
proof -
  obtain v lid lf rid rf where sc: "sc = scannable_of v lid lf rid rf"
    and len: "length lid \<le> 2 ^ 20" "length rid \<le> 2 ^ 20" "length lf \<le> 2 ^ 20" "length rf \<le> 2 ^ 20"
    using assms by (auto simp: wf_scannable_def small_string_def)
  show ?thesis
    by (rule fits_wireI, simp,
        simp add: scannable_structure_def sc scannable_of_def logical_fingerprint_value_def
          signal_protocol_str_serialize_protobuf_def
          textsecure__combined_fingerprints__descriptor_def textsecure__logical_fingerprint__descriptor_def)
       (use len in \<open>simp add: min_def scannable_structure_def sc scannable_of_def logical_fingerprint_value_def
          signal_protocol_str_serialize_protobuf_def\<close>)
qed

lemma yields_decode_logical:
  assumes "small_string identifier" and "length fp \<le> 2 ^ 20"
  shows "yields (decode_logical_fingerprint
      (Some (PBMsg [if v = 0 then [V_BYTES identifier] else [], [V_BYTES fp]] [])))
    (if v = (0 :: 32 word) then Some identifier else None, Some fp)"
proof -
  have "takeWhile (\<lambda>b. b \<noteq> 0) identifier = identifier"
    using assms(1) by (auto simp: small_string_def takeWhile_eq_all_conv)
  then have str: "yields (signal_protocol_str_deserialize_protobuf identifier) identifier"
    unfolding signal_protocol_str_deserialize_protobuf_def
    by (simp only:) (rule yields_thenE [OF yields_alloc yields_returnE])
  have buf: "yields (new_buffer fp) fp" by (rule yields_new_buffer) (use assms(2) in simp)
  show ?thesis
    unfolding decode_logical_fingerprint_def pb_member_defs
    by (auto simp: optE_def intro!: yields_bindE [OF yields_bindE [OF str yields_returnE]]
        yields_bindE [OF yields_bindE [OF buf yields_returnE]] yields_bindE [OF yields_returnE] yields_returnE)
qed

interpretation scannable_codec:
  object_codec scannable_fingerprint_serialize scannable_fingerprint_deserialize wf_scannable scannable_bytes
proof unfold_locales
  fix sc :: scannable_fingerprint
  assume wf: "wf_scannable sc"
  show "yields (scannable_fingerprint_serialize sc) (scannable_bytes sc)"
    using yields_pb_pack [OF _ fits_scannable [OF wf]]
    unfolding scannable_fingerprint_serialize_def scannable_bytes_def scannable_structure_def by simp
  obtain v lid lf rid rf where sc: "sc = scannable_of v lid lf rid rf"
    and str: "small_string lid" "small_string rid" and len: "length lf \<le> 2 ^ 20" "length rf \<le> 2 ^ 20"
    using wf by (auto simp: wf_scannable_def)
  let ?l = "if v = 0 then lf else take 32 lf" and ?r = "if v = 0 then rf else take 32 rf"
  have len': "length ?l \<le> 2 ^ 20" "length ?r \<le> 2 ^ 20" using len by auto
  have "yields (scannable_fingerprint_create v (if v = 0 then Some lid else None) (Some ?l)
      (if v = 0 then Some rid else None) (Some ?r)) (scannable_of v lid ?l rid ?r)"
    by (rule yields_scannable_create) (use len' in auto)
  moreover have "scannable_of v lid ?l rid ?r = sc" by (simp add: sc scannable_of_def)
  ultimately have create: "yields (scannable_fingerprint_create v (if v = 0 then Some lid else None) (Some ?l)
      (if v = 0 then Some rid else None) (Some ?r)) sc" by simp
  have m: "scannable_structure sc = PBMsg [[V_UINT32 v],
      [V_MESSAGE (PBMsg [if v = 0 then [V_BYTES lid] else [], [V_BYTES ?l]] [])],
      [V_MESSAGE (PBMsg [if v = 0 then [V_BYTES rid] else [], [V_BYTES ?r]] [])]] []"
    by (simp add: scannable_structure_def sc scannable_of_def logical_fingerprint_value_def
        signal_protocol_str_serialize_protobuf_def opt_slot_def)
  show "yields (scannable_fingerprint_deserialize (scannable_bytes sc)) sc"
    unfolding scannable_fingerprint_deserialize_def scannable_bytes_def
  proof (rule yields_bindE [OF yields_pb_unpack [OF _ fits_scannable [OF wf]]], simp)
    have sub: "pb_uint32 0 (scannable_structure sc) = Some v"
      "pb_sub 1 (scannable_structure sc) = Some (PBMsg [if v = 0 then [V_BYTES lid] else [], [V_BYTES ?l]] [])"
      "pb_sub 2 (scannable_structure sc) = Some (PBMsg [if v = 0 then [V_BYTES rid] else [], [V_BYTES ?r]] [])"
      by (simp_all only: m) (simp_all add: pb_member_defs)
    show "yields (bindE (decode_logical_fingerprint (pb_sub 1 (scannable_structure sc))) (\<lambda>(local_id, local_fp).
        bindE (decode_logical_fingerprint (pb_sub 2 (scannable_structure sc))) (\<lambda>(remote_id, remote_fp).
        scannable_fingerprint_create (case pb_uint32 0 (scannable_structure sc) of None \<Rightarrow> 0 | Some v \<Rightarrow> v)
          local_id local_fp remote_id remote_fp))) sc"
      unfolding sub option.case
      by (rule yields_bindE [OF yields_decode_logical [OF str(1) len'(1)]], unfold prod.case,
          rule yields_bindE [OF yields_decode_logical [OF str(2) len'(2)]], unfold prod.case, rule create)
  qed
qed

text \<open>What the comparison decides between two scannable fingerprints of the same version.\<close>

lemma yields_compare_same:
  assumes "v = 0 \<Longrightarrow> lid = rid' \<and> rid = lid'"
  shows "yields (scannable_fingerprint_compare (scannable_of v lid lf rid rf) (scannable_of v lid' lf' rid' rf'))
    (if (if v = 0 then lf = rf' \<and> rf = lf' else take 32 lf = take 32 rf' \<and> take 32 rf = take 32 lf') then 1 else 0)"
  unfolding scannable_fingerprint_compare_def scannable_of_def same_identifier_def
  by (cases "v = 0") (use assms in \<open>auto simp: strcmp_eq_0 signal_buffer_compare_eq_0
    intro!: yields_thenE yields_returnE yields_guardE yields_bindE [OF yields_derefE]\<close>)

lemma same_identifier_cases:
  "yields (same_identifier (Some a) (Some a)) ()"
  "a \<noteq> b \<Longrightarrow> fails (same_identifier (Some a) (Some b)) SG_ERR_FP_IDENT_MISMATCH"
  unfolding same_identifier_def
  by (intro yields_bindE [OF yields_derefE] yields_guardE, simp add: strcmp_eq_0)
     (intro fails_bind_yields [OF yields_derefE] fails_guardE, simp add: strcmp_eq_0)

lemma fails_compare_identifier:
  assumes "lid \<noteq> rid' \<or> rid \<noteq> lid'"
  shows "fails (scannable_fingerprint_compare (scannable_of 0 lid lf rid rf) (scannable_of 0 lid' lf' rid' rf'))
     SG_ERR_FP_IDENT_MISMATCH"
proof -
  have "fails (thenE (same_identifier (Some lid) (Some rid')) (same_identifier (Some rid) (Some lid'))
      :: ('a, 'b, _) M) SG_ERR_FP_IDENT_MISMATCH"
  proof (cases "lid = rid'")
    case True
    then show ?thesis
      using fails_then_yields [OF same_identifier_cases(1) same_identifier_cases(2)] assms by simp
  next
    case False
    then show ?thesis by (rule fails_thenE [OF same_identifier_cases(2)])
  qed
  then show ?thesis
    unfolding scannable_fingerprint_compare_def by (simp add: scannable_of_def fails_thenE)
qed

lemma fails_compare_version:
  "sfp_version a \<noteq> sfp_version b \<Longrightarrow> fails (scannable_fingerprint_compare a b) SG_ERR_FP_VERSION_MISMATCH"
  by (simp add: scannable_fingerprint_compare_def fails_failE)

section \<open>Generating a fingerprint\<close>

text \<open>What a generator makes of the two identities, seen from the side of the first.\<close>

definition fingerprint_of ::
    "(bytes \<Rightarrow> bytes) \<Rightarrow> int \<Rightarrow> int \<Rightarrow> bytes \<Rightarrow> bytes \<Rightarrow> bytes \<Rightarrow> bytes \<Rightarrow> fingerprint" where
  "fingerprint_of D iterations v lid lkey rid rkey =
     (let l = identity_hash D iterations lid lkey; r = identity_hash D iterations rid rkey in
      \<lparr>fp_displayable = Some \<lparr>dfp_local = decimal_groups 6 l, dfp_remote = decimal_groups 6 r,
         dfp_text = displayed (decimal_groups 6 l) (decimal_groups 6 r)\<rparr>,
       fp_scannable = Some (if v = 0 then scannable_of 0 lid lkey rid rkey else scannable_of 1 lid l rid r)\<rparr>)"

definition fit_identity :: "bytes \<Rightarrow> bytes \<Rightarrow> bool" where
  "fit_identity identifier identity =
     (small_string identifier \<and> 28 \<le> length identity \<and> length identity \<le> 2 ^ 20)"

lemma length_identity_hash_le:
  assumes "sha512_laws ctx D" and "fit_identity identifier identity"
  shows "length (identity_hash D n identifier identity) \<le> 2 ^ 22"
  using assms
  by (simp add: identity_hash_def sha512_laws_def length_iterated_hash fit_identity_def small_string_def)

lemma yields_create_for_impl:
  assumes "sha512_laws (fpg_context gen) D" and v: "fpg_scannable_version gen = 0 \<or> fpg_scannable_version gen = 1"
    and l: "fit_identity lid lkey" and r: "fit_identity rid rkey"
  shows "yields (fingerprint_generator_create_for_impl gen (Some lid) lkey (Some rid) rkey)
    (fingerprint_of D (fpg_iterations gen) (fpg_scannable_version gen) lid lkey rid rkey)"
proof -
  let ?l = "identity_hash D (fpg_iterations gen) lid lkey" and ?r = "identity_hash D (fpg_iterations gen) rid rkey"
  have fp: "yields (fingerprint_generator_get_fingerprint gen (Some lid) lkey) ?l"
    "yields (fingerprint_generator_get_fingerprint gen (Some rid) rkey) ?r"
    by (rule yields_get_fingerprint [OF assms(1)]; use l r in \<open>simp add: fit_identity_def small_string_def\<close>)+
  have ge: "30 \<le> length ?l" "30 \<le> length ?r"
    by (rule length_identity_hash [OF assms(1)]; use l r in \<open>simp add: fit_identity_def\<close>)+
  have le: "length ?l \<le> 2 ^ 61" "length ?r \<le> 2 ^ 61" "length lkey \<le> 2 ^ 61" "length rkey \<le> 2 ^ 61"
    using length_identity_hash_le [OF assms(1) l, of "fpg_iterations gen"]
      length_identity_hash_le [OF assms(1) r, of "fpg_iterations gen"] l r by (simp_all add: fit_identity_def)
  have sc: "yields (if fpg_scannable_version gen = 0 then
        scannable_fingerprint_create 0 (Some lid) (Some lkey) (Some rid) (Some rkey)
      else if fpg_scannable_version gen = 1 then scannable_fingerprint_create 1 None (Some ?l) None (Some ?r)
      else failE SG_ERR_INVAL)
    (if fpg_scannable_version gen = 0 then scannable_of 0 lid lkey rid rkey else scannable_of 1 lid ?l rid ?r)"
    using v le by (auto intro!: yields_scannable_create)
  show ?thesis
    unfolding fingerprint_generator_create_for_impl_def fingerprint_of_def Let_def fingerprint_create_def
    by (rule yields_bindE [OF fp(1)], rule yields_bindE [OF fp(2)], rule yields_bindE [OF yields_display_string [OF ge(1)]],
        rule yields_bindE [OF yields_display_string [OF ge(2)]], rule yields_bindE [OF yields_displayable_create],
        rule yields_bindE [OF sc], rule yields_thenE [OF yields_alloc], rule yields_returnE)
qed

lemma ensures_serialize_keys:
  assumes "vpool_holds vp bs" and "list_all wf_key ks" and "length bs + 33 * length ks < 2 ^ 63"
  shows "ensures (foldE (\<lambda>key vp. bindE (ec_public_key_serialize (Some key)) (vpool_append vp)) ks vp :: ('c, 's, _) M)
    (\<lambda>vp'. vpool_holds vp' (bs @ concat (map (\<lambda>k. DJB_TYPE # k) ks)))"
  using assms
proof (induction ks arbitrary: vp bs)
  case (Cons k ks)
  have "ensures (bindE (ec_public_key_serialize (Some k)) (vpool_append vp) :: ('c, 's, _) M)
      (\<lambda>vp'. vpool_holds vp' (bs @ DJB_TYPE # k))"
    by (rule ensures_bind_yields [OF yields_ec_public_key_serialize], rule ensures_vpool_append_E [OF Cons.prems(1)])
       (use Cons.prems(2,3) in simp)
  then show ?case
    unfolding foldE.simps
  proof (rule ensures_bindE)
    fix vp'
    assume vp': "vpool_holds vp' (bs @ DJB_TYPE # k)"
    show "ensures (foldE (\<lambda>key vp. bindE (ec_public_key_serialize (Some key)) (vpool_append vp)) ks vp' :: ('c, 's, _) M)
        (\<lambda>vp''. vpool_holds vp'' (bs @ concat (map (\<lambda>k. DJB_TYPE # k) (k # ks))))"
      using Cons.IH [OF vp'] Cons.prems(2,3) by simp
  qed
qed (simp add: ensures_returnE)

lemma length_key_list_bytes: "list_all wf_key ks \<Longrightarrow> length (key_list_bytes ks) = 33 * length ks"
proof -
  assume wf: "list_all wf_key ks"
  have "length (concat (map (\<lambda>k. DJB_TYPE # k) xs)) = 33 * length xs" if "list_all wf_key xs" for xs :: "bytes list"
    using that by (induction xs) simp_all
  then show ?thesis using wf by (simp add: key_list_bytes_def sort_by_memcmp_sort list_all_iff)
qed

lemma yields_logical_key_bytes:
  assumes "list_all wf_key (ut_elems l)" and "length (ut_elems l) \<le> 2 ^ 20"
  shows "yields (fingerprint_generator_get_logical_key_bytes l :: ('c, 's, bytes) M) (key_list_bytes (ut_elems l))"
  unfolding fingerprint_generator_get_logical_key_bytes_def yields_def
proof (rule ensures_bindE [OF ensures_ec_public_key_list_copy])
  fix a :: "ec_public_key ut_array"
  let ?ks = "sort_by_memcmp (ut_elems l)"
  assume "ut_ok a \<and> ut_elems a = ut_elems l"
  then have a: "ut_elems (ec_public_key_list_sort a) = ?ks" by (simp add: ec_public_key_list_sort_def)
  have ks: "list_all wf_key ?ks" "length ?ks = length (ut_elems l)"
    using assms(1) by (simp_all add: sort_by_memcmp_sort list_all_iff)
  have len: "length (key_list_bytes (ut_elems l)) < 2 ^ 63"
    using assms(2) by (simp add: length_key_list_bytes [OF assms(1)])
  show "ensures (bindE (foldE (\<lambda>key vp. bindE (ec_public_key_serialize (Some key)) (vpool_append vp))
      (ut_elems (ec_public_key_list_sort a)) (vpool_init 1024 0)) (\<lambda>vp. bindE (vpool_get_data vp) new_buffer) :: ('c, 's, bytes) M)
    (\<lambda>y. y = key_list_bytes (ut_elems l))"
    unfolding a
  proof (rule ensures_bindE [OF ensures_serialize_keys [OF vpool_holds_init ks(1)]])
    fix vp
    assume "vpool_holds vp ([] @ concat (map (\<lambda>k. DJB_TYPE # k) ?ks))"
    then have "vpool_holds vp (key_list_bytes (ut_elems l))" by (simp add: key_list_bytes_def)
    then show "ensures (bindE (vpool_get_data vp) new_buffer :: ('c, 's, bytes) M) (\<lambda>y. y = key_list_bytes (ut_elems l))"
      unfolding yields_def [symmetric]
      by (rule yields_bindE [OF yields_vpool_get_data]) (rule yields_new_buffer [OF len])
  qed (use ks(2) assms(2) in simp)
qed

text \<open>Fingerprints of lists of keys do not depend on the order in which the keys are given.\<close>

lemma yields_create_for_list:
  assumes "sha512_laws (fpg_context gen) D" and "fpg_scannable_version gen = 0 \<or> fpg_scannable_version gen = 1"
    and "small_string lid" "small_string rid"
    and "mset (ut_elems l) = mset lks" "list_all wf_key lks" "lks \<noteq> []" "length lks \<le> 2 ^ 14"
    and "mset (ut_elems r) = mset rks" "list_all wf_key rks" "rks \<noteq> []" "length rks \<le> 2 ^ 14"
  shows "yields (fingerprint_generator_create_for_list gen (Some lid) l (Some rid) r)
    (fingerprint_of D (fpg_iterations gen) (fpg_scannable_version gen) lid (key_list_bytes lks) rid (key_list_bytes rks))"
proof -
  have keys: "yields (fingerprint_generator_get_logical_key_bytes a) (key_list_bytes ks)"
    if "mset (ut_elems a) = mset ks" "list_all wf_key ks" "length ks \<le> 2 ^ 14" for a ks
  proof -
    have "list_all wf_key (ut_elems a)" "length (ut_elems a) = length ks"
      using that(2) mset_eq_setD [OF that(1)] mset_eq_length [OF that(1)] by (simp_all add: list_all_iff)
    then show ?thesis
      using yields_logical_key_bytes [of a] key_list_bytes_cong [OF that(2) that(1) [symmetric]] that(3) by simp
  qed
  have fit: "fit_identity i (key_list_bytes ks)"
    if "small_string i" "list_all wf_key ks" "ks \<noteq> []" "length ks \<le> 2 ^ 14" for i ks
    using that by (cases ks) (auto simp: fit_identity_def length_key_list_bytes)
  show ?thesis
    unfolding fingerprint_generator_create_for_list_def
    by (rule yields_bindE [OF keys [OF assms(5,6,8)]], rule yields_bindE [OF keys [OF assms(9,10,12)]],
        rule yields_create_for_impl [OF assms(1,2) fit [OF assms(3,6,7,8)] fit [OF assms(4,10,11,12)]])
qed

section \<open>Verifying a contact\<close>

text \<open>Each side makes its fingerprint of the two parties; the other side's scannable fingerprint is
  sent over and compared.  The result is the text each side shows and the outcome of the comparison.\<close>

definition exchange_fingerprints ::
    "('c, 's, fingerprint) M \<Rightarrow> ('c, 's, fingerprint) M \<Rightarrow> ('c, 's, bytes \<times> bytes \<times> int) M" where
  "exchange_fingerprints ours theirs =
     bindE ours (\<lambda>a.
     bindE theirs (\<lambda>b.
     bindE (derefE (fp_displayable a)) (\<lambda>da.
     bindE (derefE (fp_displayable b)) (\<lambda>db.
     bindE (derefE (fp_scannable a)) (\<lambda>sa.
     bindE (derefE (fp_scannable b)) (\<lambda>sb.
     bindE (scannable_fingerprint_serialize sb) (\<lambda>data.
     bindE (scannable_fingerprint_deserialize data) (\<lambda>sb'.
     bindE (scannable_fingerprint_compare sa sb') (\<lambda>result.
     returnE (dfp_text da, dfp_text db, result))))))))))"

text \<open>The comparison sees the identities themselves in version 0 and 32 bytes of their hashes in version 1.\<close>

definition compared_part :: "(bytes \<Rightarrow> bytes) \<Rightarrow> int \<Rightarrow> int \<Rightarrow> bytes \<Rightarrow> bytes \<Rightarrow> bytes" where
  "compared_part D iterations v identifier identity =
     (if v = 0 then identity else take 32 (identity_hash D iterations identifier identity))"

lemma yields_exchange_fingerprints:
  assumes "sha512_laws ctx D" and v: "v = 0 \<or> v = 1"
    and fit: "fit_identity ida ka" "fit_identity idb kb" "fit_identity ida ka'" "fit_identity idb kb'"
    and ours: "yields ours (fingerprint_of D n v ida ka idb kb)"
    and theirs: "yields theirs (fingerprint_of D n v idb kb' ida ka')"
  shows "yields (exchange_fingerprints ours theirs)
    (displayed (identity_digits D n ida ka) (identity_digits D n idb kb),
     displayed (identity_digits D n ida ka') (identity_digits D n idb kb'),
     if compared_part D n v ida ka = compared_part D n v ida ka' \<and> compared_part D n v idb kb = compared_part D n v idb kb'
     then 1 else 0)"
proof -
  let ?h = "identity_hash D n"
  let ?sc = "\<lambda>lid lk rid rk. if v = 0 then scannable_of 0 lid lk rid rk else scannable_of 1 lid (?h lid lk) rid (?h rid rk)"
  have wf: "wf_scannable (?sc idb kb' ida ka')"
  proof (cases "v = 0")
    case True
    then show ?thesis using wf_scannableI fit by (simp add: fit_identity_def)
  next
    case False
    have "scannable_of 1 idb (?h idb kb') ida (?h ida ka') = scannable_of 1 idb (take 32 (?h idb kb')) ida (take 32 (?h ida ka'))"
      by (simp add: scannable_of_def)
    then show ?thesis
      using False fit wf_scannableI [of idb ida "take 32 (?h idb kb')" "take 32 (?h ida ka')" 1]
      by (simp add: fit_identity_def min_def)
  qed
  have comp: "yields (scannable_fingerprint_compare (?sc ida ka idb kb) (?sc idb kb' ida ka'))
     (if compared_part D n v ida ka = compared_part D n v ida ka' \<and> compared_part D n v idb kb = compared_part D n v idb kb'
      then 1 else 0)"
  proof (cases "v = 0")
    case True
    then show ?thesis
      by (simp only: if_True simp_thms, intro yields_cong [OF yields_compare_same]) (auto simp: compared_part_def)
  next
    case False
    then show ?thesis
      by (simp only: if_False simp_thms, intro yields_cong [OF yields_compare_same]) (auto simp: compared_part_def)
  qed
  have swap: "displayed (identity_digits D n idb kb') (identity_digits D n ida ka') =
      displayed (identity_digits D n ida ka') (identity_digits D n idb kb')" by (rule displayed_commute)
  show ?thesis
    unfolding exchange_fingerprints_def swap [symmetric]
    by (rule yields_bindE [OF ours], rule yields_bindE [OF theirs], simp only: fingerprint_of_def Let_def fingerprint.simps,
        rule yields_bindE [OF yields_derefE], rule yields_bindE [OF yields_derefE],
        rule yields_bindE [OF yields_derefE], rule yields_bindE [OF yields_derefE],
        rule yields_bindE [OF scannable_codec.serialize_ok [OF wf]], rule yields_bindE [OF scannable_codec.deserialize_ok [OF wf]],
        rule yields_bindE [OF comp], rule yields_cong [OF yields_returnE])
       (simp add: identity_digits_def)
qed

end
