(* ===== verification/Device_Consistency.thy ===== *)
theory Device_Consistency
  imports Digest Pre_Keys
begin

text \<open>
  device_consistency.c: the devices of one user sign a commitment to the list of all their identity keys
  with a verifiable random function, and every device derives the same short code from the outputs.
\<close>

section \<open>Definitions\<close>

record device_consistency_signature =
  dcs_signature :: bytes
  dcs_vrf_output :: bytes

record device_consistency_commitment =
  dcc_generation :: "32 word"
  dcc_serialized :: "bytes option"

record device_consistency_message =
  dcm_signature :: device_consistency_signature
  dcm_generation :: "32 word"
  dcm_serialized :: bytes

definition CODE_VERSION :: "16 word" where "CODE_VERSION = 0"

definition commitment_version :: bytes where
  "commitment_version = ascii ''DeviceConsistencyCommitment_V0''"

definition generation_data :: "32 word \<Rightarrow> bytes" where
  "generation_data generation =
     [ucast (drop_bit 24 generation), ucast (drop_bit 16 generation), ucast (drop_bit 8 generation), ucast generation]"

definition device_consistency_signature_create ::
    "bytes \<Rightarrow> bytes \<Rightarrow> ('c, 's, device_consistency_signature) M" where
  "device_consistency_signature_create sig vrf_output =
     thenE alloc
      (bindE (new_buffer sig) (\<lambda>s.
       bindE (new_buffer vrf_output) (\<lambda>v. returnE \<lparr>dcs_signature = s, dcs_vrf_output = v\<rparr>)))"

definition device_consistency_commitment_create ::
    "32 word \<Rightarrow> ec_public_key ut_array \<Rightarrow> 'c signal_context \<Rightarrow> ('c, 's, device_consistency_commitment) M" where
  "device_consistency_commitment_create generation identity_key_list ctx =
     thenE alloc
      (bindE (ec_public_key_list_copy identity_key_list) (\<lambda>copied.
       sha512_scope ctx (\<lambda>h.
         thenE (sha512_update ctx h commitment_version)
        (thenE (sha512_update ctx h (generation_data generation))
        (thenE (foldE (\<lambda>key _. bindE (ec_public_key_serialize (Some key)) (sha512_update ctx h))
                  (ut_elems (ec_public_key_list_sort copied)) ())
        (bindE (sha512_final ctx h) (\<lambda>serialized.
         returnE \<lparr>dcc_generation = generation, dcc_serialized = serialized\<rparr>)))))))"

definition device_consistency_message_create :: "('c, 's, unit) M" where
  "device_consistency_message_create = alloc"

definition device_consistency_message_create_from_pair ::
    "device_consistency_commitment \<Rightarrow> ec_key_pair \<Rightarrow> 'c signal_context \<Rightarrow> ('c, 's, device_consistency_message) M" where
  "device_consistency_message_create_from_pair commitment kp ctx =
     tryE
      (thenE device_consistency_message_create
      (bindE (derefE (dcc_serialized commitment)) (\<lambda>committed.
       bindE (curve_calculate_vrf_signature ctx (Some (private_key kp)) committed) (\<lambda>sig.
       bindE (curve_verify_vrf_signature ctx (Some (public_key kp)) (Some committed) (Some sig)) (\<lambda>vrf_output.
       bindE (device_consistency_signature_create sig vrf_output) (\<lambda>signature.
       bindE (pb_pack textsecure__device_consistency_code_message__descriptor
           (PBMsg [[V_UINT32 (dcc_generation commitment)], [V_BYTES (dcs_signature signature)]] [])) (\<lambda>serialized.
       returnE \<lparr>dcm_signature = signature, dcm_generation = dcc_generation commitment,
         dcm_serialized = serialized\<rparr>)))))))
      (\<lambda>e. failE (if e = SG_ERR_INVALID_KEY \<or> e = SG_ERR_VRF_SIG_VERIF_FAILED then SG_ERR_UNKNOWN else e))
      returnE"

definition device_consistency_message_create_from_serialized ::
    "device_consistency_commitment \<Rightarrow> bytes \<Rightarrow> ec_public_key option \<Rightarrow> 'c signal_context
      \<Rightarrow> ('c, 's, device_consistency_message) M" where
  "device_consistency_message_create_from_serialized commitment serialized identity_key ctx =
     tryE
      (thenE device_consistency_message_create
      (bindE (pb_unpack textsecure__device_consistency_code_message__descriptor serialized) (\<lambda>m.
       (case (pb_uint32 0 m, pb_bytes 1 m) of
          (Some generation, Some sig) \<Rightarrow>
            bindE (derefE (dcc_serialized commitment)) (\<lambda>committed.
            bindE (curve_verify_vrf_signature ctx identity_key (Some committed) (data_pointer sig)) (\<lambda>vrf_output.
            bindE (device_consistency_signature_create sig vrf_output) (\<lambda>signature.
            bindE (new_buffer serialized) (\<lambda>data.
            returnE \<lparr>dcm_signature = signature, dcm_generation = generation, dcm_serialized = data\<rparr>))))
        | _ \<Rightarrow> failE SG_ERR_INVALID_PROTO_BUF))))
      (\<lambda>e. failE (if e = SG_ERR_INVALID_PROTO_BUF \<or> e = SG_ERR_INVALID_KEY \<or> e = SG_ERR_VRF_SIG_VERIF_FAILED
                then SG_ERR_INVALID_MESSAGE else e))
      returnE"

definition device_consistency_signature_list_alloc :: "('c, 's, device_consistency_signature ut_array) M" where
  "device_consistency_signature_list_alloc = thenE alloc utarray_new"

definition device_consistency_signature_list_push_back ::
    "device_consistency_signature ut_array \<Rightarrow> device_consistency_signature
      \<Rightarrow> ('c, 's, device_consistency_signature ut_array) M" where
  "device_consistency_signature_list_push_back l x =
     bindE (utarray_push_back l x) (\<lambda>(ok, l'). if ok then returnE l' else failE SG_ERR_NOMEM)"

definition device_consistency_signature_list_copy ::
    "device_consistency_signature ut_array \<Rightarrow> ('c, 's, device_consistency_signature ut_array) M" where
  "device_consistency_signature_list_copy l =
     bindE device_consistency_signature_list_alloc (\<lambda>result_list.
     bindE (utarray_reserve (length (ut_elems l)) result_list) (\<lambda>(ok, result_list').
     if \<not> ok then failE SG_ERR_NOMEM
     else foldE (\<lambda>p acc. device_consistency_signature_list_push_back acc p) (ut_elems l) result_list'))"

definition device_consistency_signature_list_at ::
    "device_consistency_signature ut_array \<Rightarrow> nat \<Rightarrow> 'w \<Rightarrow> device_consistency_signature res \<times> 'w" where
  "device_consistency_signature_list_at l index =
     thenE (assertE (index < length (ut_elems l))) (returnE (ut_elems l ! index))"

definition device_consistency_signature_list_sort_comparator ::
    "device_consistency_signature \<Rightarrow> device_consistency_signature \<Rightarrow> int" where
  "device_consistency_signature_list_sort_comparator sig1 sig2 =
     (let len1 = length (dcs_vrf_output sig1); len2 = length (dcs_vrf_output sig2) in
      if len1 = len2 then memcmp (dcs_vrf_output sig1) (dcs_vrf_output sig2)
      else if len1 < len2 then -1 else 1)"

text \<open>\<open>utarray_sort\<close> is the C library's \<open>qsort\<close>; signatures that compare equal have the same output, which
  is all that is read of the sorted list.\<close>

fun insert_by_output ::
    "device_consistency_signature \<Rightarrow> device_consistency_signature list \<Rightarrow> device_consistency_signature list" where
  "insert_by_output s [] = [s]"
| "insert_by_output s (x # xs) =
     (if device_consistency_signature_list_sort_comparator s x \<le> 0 then s # x # xs else x # insert_by_output s xs)"

definition device_consistency_signature_list_sort ::
    "device_consistency_signature ut_array \<Rightarrow> device_consistency_signature ut_array" where
  "device_consistency_signature_list_sort l = l\<lparr>ut_elems := foldr insert_by_output (ut_elems l) []\<rparr>"

definition device_consistency_code_generate_for ::
    "device_consistency_commitment \<Rightarrow> device_consistency_signature ut_array \<Rightarrow> 'c signal_context
      \<Rightarrow> ('c, 's, bytes) M" where
  "device_consistency_code_generate_for commitment signatures ctx =
     bindE (device_consistency_signature_list_copy signatures) (\<lambda>copied.
     sha512_scope ctx (\<lambda>h.
       thenE (sha512_update ctx h [ucast (drop_bit 8 CODE_VERSION), ucast CODE_VERSION])
      (bindE (derefE (dcc_serialized commitment)) (\<lambda>committed.
       thenE (sha512_update ctx h committed)
      (thenE (foldE (\<lambda>signature _. bindE (returnE (dcs_vrf_output signature)) (sha512_update ctx h))
                (ut_elems (device_consistency_signature_list_sort copied)) ())
      (bindE (sha512_final ctx h) (\<lambda>hash_buffer.
       bindE (derefE hash_buffer) (\<lambda>hash.
       if length hash < 10 then failE SG_ERR_UNKNOWN
       else
         thenE alloc
        (thenE alloc (returnE (take 6 (encoded_chunks hash 10))))))))))))"

end
