(* ===== verification/Device_Consistency_Laws.thy ===== *)
theory Device_Consistency_Laws
  imports Device_Consistency Key_Helper "HOL-Library.Product_Lexorder"
begin

text \<open>
  Device consistency: the commitment and the code as pure functions of what is committed to, whatever
  the order of the lists, and the way of a signature from one device to another.
\<close>

section \<open>Reference\<close>

text \<open>The documented behaviour of the verifiable random function: a signature made with a private key
  verifies with its public key, and its output \<open>V\<close> depends on the key and the message only.\<close>

definition vrf_laws :: "'c signal_context \<Rightarrow> (bytes \<Rightarrow> bytes \<Rightarrow> bytes) \<Rightarrow> (bytes \<Rightarrow> bytes \<Rightarrow> bytes) \<Rightarrow> bool" where
  "vrf_laws ctx DH V =
     ((\<forall>k msg rnd. clamped k \<longrightarrow> length rnd = 64 \<longrightarrow>
        (\<exists>sig. generalized_xveddsa_25519_sign (curve25519 ctx) k msg rnd = (0, sig) \<and> length sig = VRF_SIGNATURE_LEN \<and>
           generalized_xveddsa_25519_verify (curve25519 ctx) sig (DH k basepoint) msg = (0, V (DH k basepoint) msg))) \<and>
      (\<forall>p msg. length (V p msg) = 32))"

definition commitment_of :: "(bytes \<Rightarrow> bytes) \<Rightarrow> 32 word \<Rightarrow> ec_public_key list \<Rightarrow> bytes" where
  "commitment_of D generation keys =
     D (commitment_version @ generation_data generation @ key_list_bytes keys)"

definition sorted_outputs :: "bytes list \<Rightarrow> bytes list" where
  "sorted_outputs outs = map snd (sort (map (\<lambda>v. (length v, v)) outs))"

definition consistency_code :: "(bytes \<Rightarrow> bytes) \<Rightarrow> bytes \<Rightarrow> bytes list \<Rightarrow> bytes" where
  "consistency_code D committed outs =
     take 6 (decimal_groups 2 (D (0 # 0 # committed @ concat (sorted_outputs outs))))"

section \<open>Sorting\<close>

definition output_key :: "device_consistency_signature \<Rightarrow> nat \<times> bytes" where
  "output_key s = (length (dcs_vrf_output s), dcs_vrf_output s)"

lemma comparator_order:
  "device_consistency_signature_list_sort_comparator a b \<le> 0 \<longleftrightarrow> output_key a \<le> output_key b"
  by (auto simp: device_consistency_signature_list_sort_comparator_def output_key_def memcmp_order Let_def)

lemma insert_by_output_insort:
  "map output_key (insert_by_output s xs) = insort (output_key s) (map output_key xs)"
  by (induction xs) (auto simp: comparator_order)

lemma sorted_signature_outputs:
  "map dcs_vrf_output (foldr insert_by_output xs []) = sorted_outputs (map dcs_vrf_output xs)"
proof -
  have "map output_key (foldr insert_by_output xs []) = sort (map output_key xs)"
    by (induction xs) (simp_all add: insert_by_output_insort)
  then have "map snd (map output_key (foldr insert_by_output xs [])) = map snd (sort (map output_key xs))"
    by (rule arg_cong)
  then show ?thesis by (simp add: sorted_outputs_def output_key_def [abs_def] comp_def)
qed

lemma sorted_outputs_cong: "mset outs = mset outs' \<Longrightarrow> sorted_outputs outs = sorted_outputs outs'"
  unfolding sorted_outputs_def
  by (intro arg_cong [where f = "map snd"] properties_for_sort) simp_all

section \<open>Commitments\<close>

lemma commitment_of_cong:
  "list_all wf_key ks \<Longrightarrow> mset ks = mset ks' \<Longrightarrow> commitment_of D g ks = commitment_of D g ks'"
  unfolding commitment_of_def by (simp only: key_list_bytes_cong)

lemma yields_commitment_create:
  assumes "sha512_laws ctx D"
  shows "yields (device_consistency_commitment_create g l ctx)
    \<lparr>dcc_generation = g, dcc_serialized = Some (commitment_of D g (ut_elems l))\<rparr>"
  unfolding device_consistency_commitment_create_def
proof (rule yields_thenE [OF yields_alloc], unfold yields_def, rule ensures_bindE [OF ensures_ec_public_key_list_copy],
    fold yields_def)
  fix a :: "ec_public_key ut_array"
  assume "ut_ok a \<and> ut_elems a = ut_elems l"
  then have a: "ut_elems (ec_public_key_list_sort a) = sort_by_memcmp (ut_elems l)"
    by (simp add: ec_public_key_list_sort_def)
  show "yields (sha512_scope ctx (\<lambda>h. thenE (sha512_update ctx h commitment_version)
      (thenE (sha512_update ctx h (generation_data g))
      (thenE (foldE (\<lambda>key _. bindE (ec_public_key_serialize (Some key)) (sha512_update ctx h))
          (ut_elems (ec_public_key_list_sort a)) ())
      (bindE (sha512_final ctx h) (\<lambda>serialized. returnE \<lparr>dcc_generation = g, dcc_serialized = serialized\<rparr>))))))
    \<lparr>dcc_generation = g, dcc_serialized = Some (commitment_of D g (ut_elems l))\<rparr>"
    unfolding a
  proof (rule yields_sha512_scope [OF assms])
    fix R h
    assume R: "sha512_contract ctx D R"
    let ?d = "(([] @ commitment_version) @ generation_data g) @ concat (map (\<lambda>k. DJB_TYPE # k) (sort_by_memcmp (ut_elems l)))"
    have d: "Some (D ?d) = Some (commitment_of D g (ut_elems l))" by (simp add: commitment_of_def key_list_bytes_def)
    show "\<exists>d. digests R h [] (thenE (sha512_update ctx (Some h) commitment_version)
        (thenE (sha512_update ctx (Some h) (generation_data g))
        (thenE (foldE (\<lambda>key _. bindE (ec_public_key_serialize (Some key)) (sha512_update ctx (Some h)))
            (sort_by_memcmp (ut_elems l)) ())
        (bindE (sha512_final ctx (Some h)) (\<lambda>serialized. returnE \<lparr>dcc_generation = g, dcc_serialized = serialized\<rparr>)))))
        \<lparr>dcc_generation = g, dcc_serialized = Some (commitment_of D g (ut_elems l))\<rparr> d"
      unfolding d [symmetric]
      by (rule exI, rule digests_thenE [OF digests_update [OF R]], rule digests_thenE [OF digests_update [OF R]],
          rule digests_thenE [OF digests_feed [OF R, where g = "\<lambda>k. DJB_TYPE # k"]], rule quiet_ec_public_key_serialize,
          rule digests_bindE [OF digests_final [OF R]], rule digests_returnE)
  qed
qed

section \<open>The code\<close>

lemma ensures_signature_list_push_back:
  "ut_ok acc \<Longrightarrow> ensures (device_consistency_signature_list_push_back acc x)
     (\<lambda>a. ut_ok a \<and> ut_elems a = ut_elems acc @ [x])"
  unfolding device_consistency_signature_list_push_back_def
  by (intro ensures_bindE [OF ensures_utarray_push_back]) (auto intro: ensures_returnE)

lemma ensures_signature_list_copy:
  "ensures (device_consistency_signature_list_copy l) (\<lambda>a. ut_ok a \<and> ut_elems a = ut_elems l)"
  unfolding device_consistency_signature_list_copy_def device_consistency_signature_list_alloc_def
  by (rule ensures_copy_array) (rule ensures_signature_list_push_back)

lemma yields_code_generate_for:
  assumes "sha512_laws ctx D"
  shows "yields (device_consistency_code_generate_for \<lparr>dcc_generation = g, dcc_serialized = Some committed\<rparr> l ctx)
    (consistency_code D committed (map dcs_vrf_output (ut_elems l)))"
  unfolding device_consistency_code_generate_for_def yields_def
proof (rule ensures_bindE [OF ensures_signature_list_copy], fold yields_def)
  fix a :: "device_consistency_signature ut_array"
  let ?xs = "foldr insert_by_output (ut_elems l) []"
  assume "ut_ok a \<and> ut_elems a = ut_elems l"
  then have a: "ut_elems (device_consistency_signature_list_sort a) = ?xs"
    by (simp add: device_consistency_signature_list_sort_def)
  let ?d = "(([] @ [ucast (drop_bit 8 CODE_VERSION), ucast CODE_VERSION]) @ committed) @ concat (map dcs_vrf_output ?xs)"
  have d: "consistency_code D committed (map dcs_vrf_output (ut_elems l)) = take 6 (encoded_chunks (D ?d) 10)"
    using encoded_chunks_eq [of 2 "D ?d"] assms
    by (simp add: consistency_code_def sorted_signature_outputs CODE_VERSION_def sha512_laws_def)
  have len: "\<not> length (D ?d) < 10" using assms by (simp add: sha512_laws_def)
  show "yields (sha512_scope ctx (\<lambda>h.
      thenE (sha512_update ctx h [ucast (drop_bit 8 CODE_VERSION), ucast CODE_VERSION])
      (bindE (derefE (dcc_serialized \<lparr>dcc_generation = g, dcc_serialized = Some committed\<rparr>)) (\<lambda>committed.
       thenE (sha512_update ctx h committed)
      (thenE (foldE (\<lambda>signature _. bindE (returnE (dcs_vrf_output signature)) (sha512_update ctx h))
                (ut_elems (device_consistency_signature_list_sort a)) ())
      (bindE (sha512_final ctx h) (\<lambda>hash_buffer. bindE (derefE hash_buffer) (\<lambda>hash.
       if length hash < 10 then failE SG_ERR_UNKNOWN
       else thenE alloc (thenE alloc (returnE (take 6 (encoded_chunks hash 10))))))))))))
    (consistency_code D committed (map dcs_vrf_output (ut_elems l)))"
    unfolding a d device_consistency_commitment.simps
  proof (rule yields_sha512_scope [OF assms], rule exI)
    fix R h
    assume R: "sha512_contract ctx D R"
    show "digests R h [] (thenE (sha512_update ctx (Some h) [ucast (drop_bit 8 CODE_VERSION), ucast CODE_VERSION])
      (bindE (derefE (Some committed)) (\<lambda>committed.
       thenE (sha512_update ctx (Some h) committed)
      (thenE (foldE (\<lambda>signature _. bindE (returnE (dcs_vrf_output signature)) (sha512_update ctx (Some h))) ?xs ())
      (bindE (sha512_final ctx (Some h)) (\<lambda>hash_buffer. bindE (derefE hash_buffer) (\<lambda>hash.
       if length hash < 10 then failE SG_ERR_UNKNOWN
       else thenE alloc (thenE alloc (returnE (take 6 (encoded_chunks hash 10)))))))))))
      (take 6 (encoded_chunks (D ?d) 10)) []"
      by (rule digests_thenE [OF digests_update [OF R]], rule digests_bindE [OF digests_derefE],
          rule digests_thenE [OF digests_update [OF R]],
          rule digests_thenE [OF digests_feed [OF R, where g = dcs_vrf_output]], rule quiet_returnE,
          rule digests_bindE [OF digests_final [OF R]], rule digests_bindE [OF digests_derefE], simp only: len if_False,
          intro digests_thenE [OF digests_alloc] digests_returnE)
  qed
qed

section \<open>Messages\<close>

definition consistency_body :: "32 word \<Rightarrow> bytes \<Rightarrow> pb_message" where
  "consistency_body g sig = PBMsg [[V_UINT32 g], [V_BYTES sig]] []"

definition consistency_message_of :: "32 word \<Rightarrow> bytes \<Rightarrow> bytes \<Rightarrow> device_consistency_message" where
  "consistency_message_of g sig out =
     \<lparr>dcm_signature = \<lparr>dcs_signature = sig, dcs_vrf_output = out\<rparr>, dcm_generation = g,
      dcm_serialized = protobuf_c_message_pack textsecure__device_consistency_code_message__descriptor
        (consistency_body g sig)\<rparr>"

lemma fits_consistency:
  "length sig = VRF_SIGNATURE_LEN \<Longrightarrow>
   fits_wire textsecure__device_consistency_code_message__descriptor (consistency_body g sig)"
  by (rule fits_wireI, simp, simp add: textsecure__device_consistency_code_message__descriptor_def consistency_body_def)
     (simp add: consistency_body_def VRF_SIGNATURE_LEN_def)

lemma yields_signature_create:
  "length sig \<le> 2 ^ 28 \<Longrightarrow> length out \<le> 2 ^ 28 \<Longrightarrow>
   yields (device_consistency_signature_create sig out) \<lparr>dcs_signature = sig, dcs_vrf_output = out\<rparr>"
  unfolding device_consistency_signature_create_def
  by (rule yields_thenE [OF yields_alloc], rule yields_bindE [OF yields_new_buffer_small], assumption,
      rule yields_bindE [OF yields_new_buffer_small], assumption, rule yields_returnE)

text \<open>What a device accepts as a signature of \<open>committed\<close> by \<open>p\<close>.\<close>

definition vrf_accepts :: "'c signal_context \<Rightarrow> bytes \<Rightarrow> bytes \<Rightarrow> bytes \<Rightarrow> bytes \<Rightarrow> bool" where
  "vrf_accepts ctx p committed sig out =
     (length sig = VRF_SIGNATURE_LEN \<and>
      generalized_xveddsa_25519_verify (curve25519 ctx) sig p committed = (0, out))"

lemma yields_verify_vrf:
  "vrf_accepts ctx p committed sig out \<Longrightarrow>
   yields (curve_verify_vrf_signature ctx (Some p) (Some committed) (Some sig)) out"
  unfolding curve_verify_vrf_signature_def vrf_accepts_def option.case prod.case
  by (auto intro!: yields_bindE [OF yields_signal_buffer_alloc] yields_returnE)

lemma ensures_calculate_vrf:
  assumes "vrf_laws ctx DH V" and "random_laws ctx" and "clamped k"
  shows "ensures (curve_calculate_vrf_signature ctx (Some k) msg)
    (\<lambda>sig. vrf_accepts ctx (DH k basepoint) msg sig (V (DH k basepoint) msg))"
  unfolding curve_calculate_vrf_signature_def
proof (rule ensures_bindE [OF ensures_signal_crypto_random [OF assms(2)]])
  fix rnd :: bytes
  assume "length rnd = 64"
  then obtain sig where sig: "generalized_xveddsa_25519_sign (curve25519 ctx) k msg rnd = (0, sig)"
      "vrf_accepts ctx (DH k basepoint) msg sig (V (DH k basepoint) msg)"
    using assms(1,3) unfolding vrf_laws_def vrf_accepts_def by blast
  show "ensures (bindE (signal_buffer_alloc VRF_SIGNATURE_LEN) (\<lambda>b. if \<not> b then failE SG_ERR_NOMEM
      else bindE (derefE (Some k)) (\<lambda>k. case generalized_xveddsa_25519_sign (curve25519 ctx) k msg rnd of
        (r, sig) \<Rightarrow> if r \<noteq> 0 then failE SG_ERR_UNKNOWN else returnE sig)))
    (\<lambda>sig. vrf_accepts ctx (DH k basepoint) msg sig (V (DH k basepoint) msg))"
    by (rule ensures_bind_yields [OF yields_signal_buffer_alloc], simp add: VRF_SIGNATURE_LEN_def,
        simp only: not_True_eq_False if_False, rule ensures_bind_yields [OF yields_derefE])
       (simp add: sig ensures_returnE)
qed

lemma ensures_create_from_pair:
  assumes "vrf_laws ctx DH V" and "random_laws ctx" and "key_pair_of DH kp"
  shows "ensures (device_consistency_message_create_from_pair \<lparr>dcc_generation = g, dcc_serialized = Some committed\<rparr> kp ctx)
    (\<lambda>m. \<exists>sig. m = consistency_message_of g sig (V (public_key kp) committed) \<and>
       vrf_accepts ctx (public_key kp) committed sig (V (public_key kp) committed))"
proof -
  have kp: "clamped (private_key kp)" "DH (private_key kp) basepoint = public_key kp"
    using assms(3) by (simp_all add: key_pair_of_def)
  have step: "yields (bindE (curve_verify_vrf_signature ctx (Some (public_key kp)) (Some committed) (Some sig)) (\<lambda>vrf_output.
       bindE (device_consistency_signature_create sig vrf_output) (\<lambda>signature.
       bindE (pb_pack textsecure__device_consistency_code_message__descriptor
           (PBMsg [[V_UINT32 g], [V_BYTES (dcs_signature signature)]] [])) (\<lambda>serialized.
       returnE \<lparr>dcm_signature = signature, dcm_generation = g, dcm_serialized = serialized\<rparr>))))
     (consistency_message_of g sig (V (public_key kp) committed))"
    if acc: "vrf_accepts ctx (public_key kp) committed sig (V (public_key kp) committed)" for sig
  proof -
    have len: "length sig = VRF_SIGNATURE_LEN" using acc by (simp add: vrf_accepts_def)
    have out: "length (V (public_key kp) committed) = 32" using assms(1) by (simp add: vrf_laws_def)
    show ?thesis
      unfolding consistency_message_of_def
      by (rule yields_bindE [OF yields_verify_vrf [OF acc]], rule yields_bindE [OF yields_signature_create],
          simp add: len VRF_SIGNATURE_LEN_def, simp add: out, unfold device_consistency_signature.simps,
          fold consistency_body_def, rule yields_bindE [OF yields_pb_pack [OF _ fits_consistency [OF len]]], simp,
          rule yields_returnE)
  qed
  show ?thesis
    unfolding device_consistency_message_create_from_pair_def device_consistency_message_create_def
      device_consistency_commitment.simps
    by (rule ensures_tryE [where P = "\<lambda>m. \<exists>sig. m = consistency_message_of g sig (V (public_key kp) committed) \<and>
         vrf_accepts ctx (public_key kp) committed sig (V (public_key kp) committed)"],
        rule ensures_thenE [OF yields_alloc], rule ensures_bind_yields [OF yields_derefE],
        rule ensures_bindE [OF ensures_calculate_vrf [OF assms(1,2) kp(1), unfolded kp(2)]],
        rule ensures_yields, rule step, assumption, blast) (rule ensures_returnE)
qed

lemma yields_create_from_serialized:
  assumes "vrf_accepts ctx p committed sig out" and "length out = 32"
  shows "yields (device_consistency_message_create_from_serialized \<lparr>dcc_generation = g', dcc_serialized = Some committed\<rparr>
      (dcm_serialized (consistency_message_of g sig out)) (Some p) ctx) (consistency_message_of g sig out)"
proof -
  have len: "length sig = VRF_SIGNATURE_LEN" using assms(1) by (simp add: vrf_accepts_def)
  have ptr: "data_pointer sig = Some sig" using len by (auto simp: data_pointer_def VRF_SIGNATURE_LEN_def)
  let ?data = "protobuf_c_message_pack textsecure__device_consistency_code_message__descriptor (consistency_body g sig)"
  have data: "length ?data \<le> 2 ^ 28"
    using fits_consistency [OF len, of g] by (simp add: fits_wire_def)
  have slots: "pb_uint32 0 (consistency_body g sig) = Some g" "pb_bytes 1 (consistency_body g sig) = Some sig"
    by (simp_all add: consistency_body_def pb_member_defs)
  show ?thesis
    unfolding device_consistency_message_create_from_serialized_def device_consistency_message_create_def
      consistency_message_of_def device_consistency_message.simps device_consistency_commitment.simps
    by (rule yields_tryE, rule yields_thenE [OF yields_alloc],
        rule yields_bindE [OF yields_pb_unpack [OF _ fits_consistency [OF len]]], simp, unfold slots option.case prod.case ptr,
        rule yields_bindE [OF yields_derefE], rule yields_bindE [OF yields_verify_vrf [OF assms(1)]],
        rule yields_bindE [OF yields_signature_create], simp add: len VRF_SIGNATURE_LEN_def, simp add: assms(2),
        rule yields_bindE [OF yields_new_buffer_small [OF data]], rule yields_returnE, rule yields_returnE)
qed

section \<open>A round between the devices\<close>

text \<open>Every device commits to the keys, in the order in which it has them, and signs; a device verifies the
  messages against its own commitment and collects the signatures in the order \<open>ix\<close>.\<close>

definition device_messages ::
    "'c signal_context \<Rightarrow> 32 word \<Rightarrow> (ec_key_pair \<Rightarrow> ec_public_key ut_array) \<Rightarrow> ec_key_pair list \<Rightarrow> ('c, 's, bytes list) M" where
  "device_messages ctx g key_list kps =
     mapE (\<lambda>kp.
       bindE (device_consistency_commitment_create g (key_list kp) ctx) (\<lambda>commitment.
       bindE (device_consistency_message_create_from_pair commitment kp ctx) (\<lambda>m. returnE (dcm_serialized m)))) kps"

definition device_code ::
    "'c signal_context \<Rightarrow> 32 word \<Rightarrow> ec_public_key ut_array \<Rightarrow> nat list \<Rightarrow> ec_key_pair list \<Rightarrow> bytes list \<Rightarrow> ('c, 's, bytes) M" where
  "device_code ctx g keys ix kps datas =
     bindE (device_consistency_commitment_create g keys ctx) (\<lambda>commitment.
     bindE (mapE (\<lambda>(kp, data). device_consistency_message_create_from_serialized commitment data (Some (public_key kp)) ctx)
              (zip kps datas)) (\<lambda>ms.
     bindE device_consistency_signature_list_alloc (\<lambda>l.
     bindE (foldE (\<lambda>i acc. device_consistency_signature_list_push_back acc (dcm_signature (ms ! i))) ix l) (\<lambda>signatures.
     device_consistency_code_generate_for commitment signatures ctx))))"

lemma ensures_device_messages:
  assumes laws: "sha512_laws ctx D" "vrf_laws ctx DH V" "random_laws ctx"
    and kps: "list_all (key_pair_of DH) kps"
    and c: "\<And>kp. kp \<in> set kps \<Longrightarrow> commitment_of D g (ut_elems (key_list kp)) = c"
  shows "ensures (device_messages ctx g key_list kps)
    (list_all2 (\<lambda>kp data. \<exists>sig. data = dcm_serialized (consistency_message_of g sig (V (public_key kp) c)) \<and>
       vrf_accepts ctx (public_key kp) c sig (V (public_key kp) c)) kps)"
  unfolding device_messages_def
proof (rule ensures_mapE)
  fix kp
  assume "kp \<in> set kps"
  then have kp: "key_pair_of DH kp" and com: "commitment_of D g (ut_elems (key_list kp)) = c"
    using kps c by (auto simp: list_all_iff)
  show "ensures (bindE (device_consistency_commitment_create g (key_list kp) ctx) (\<lambda>commitment.
      bindE (device_consistency_message_create_from_pair commitment kp ctx) (\<lambda>m. returnE (dcm_serialized m))))
    (\<lambda>data. \<exists>sig. data = dcm_serialized (consistency_message_of g sig (V (public_key kp) c)) \<and>
       vrf_accepts ctx (public_key kp) c sig (V (public_key kp) c))"
    by (rule ensures_bind_yields [OF yields_commitment_create [OF laws(1)]], unfold com,
        rule ensures_bindE [OF ensures_create_from_pair [OF laws(2,3) kp]], rule ensures_returnE) blast
qed

lemma ensures_collect_signatures:
  assumes "\<forall>i \<in> set ix. dcs_vrf_output (dcm_signature (ms ! i)) = out i" and "ut_ok l"
  shows "ensures (foldE (\<lambda>i acc. device_consistency_signature_list_push_back acc (dcm_signature (ms ! i))) ix l :: ('c, 's, _) M)
    (\<lambda>a. ut_ok a \<and> map dcs_vrf_output (ut_elems a) = map dcs_vrf_output (ut_elems l) @ map out ix)"
  using assms
proof (induction ix arbitrary: l)
  case (Cons i "is")
  show ?case
    unfolding foldE.simps
  proof (rule ensures_bindE [OF ensures_signature_list_push_back [OF Cons.prems(2)]])
    fix a
    assume "ut_ok a \<and> ut_elems a = ut_elems l @ [dcm_signature (ms ! i)]"
    then show "ensures (foldE (\<lambda>i acc. device_consistency_signature_list_push_back acc (dcm_signature (ms ! i))) is a :: ('c, 's, _) M)
        (\<lambda>a. ut_ok a \<and> map dcs_vrf_output (ut_elems a) = map dcs_vrf_output (ut_elems l) @ map out (i # is))"
      using Cons.IH [of a] Cons.prems(1) by simp
  qed
qed (simp add: ensures_returnE)

lemma yields_device_code:
  assumes laws: "sha512_laws ctx D" "vrf_laws ctx DH V"
    and c: "commitment_of D g (ut_elems keys) = c" and ix: "mset ix = mset [0..<length kps]"
    and datas: "list_all2 (\<lambda>kp data. \<exists>sig. data = dcm_serialized (consistency_message_of g' sig (V (public_key kp) c)) \<and>
       vrf_accepts ctx (public_key kp) c sig (V (public_key kp) c)) kps datas"
  shows "yields (device_code ctx g keys ix kps datas) (consistency_code D c (map (\<lambda>kp. V (public_key kp) c) kps))"
proof -
  let ?out = "\<lambda>i. V (public_key (kps ! i)) c"
  have n: "length datas = length kps" using datas by (simp add: list_all2_lengthD)
  have idx: "i < length kps" if "i \<in> set ix" for i
    using that mset_eq_setD [OF ix] by auto
  have outs: "sorted_outputs (map ?out ix) = sorted_outputs (map (\<lambda>kp. V (public_key kp) c) kps)"
  proof (rule sorted_outputs_cong)
    have "mset (map ?out ix) = mset (map ?out [0..<length kps])" using ix by (simp only: mset_map)
    also have "map ?out [0..<length kps] = map (\<lambda>kp. V (public_key kp) c) (map ((!) kps) [0..<length kps])"
      by (simp only: map_map comp_def)
    also have "map ((!) kps) [0..<length kps] = kps" by (rule map_nth)
    finally show "mset (map ?out ix) = mset (map (\<lambda>kp. V (public_key kp) c) kps)" .
  qed
  have verify: "ensures (mapE (\<lambda>(kp, data). device_consistency_message_create_from_serialized
        \<lparr>dcc_generation = g, dcc_serialized = Some c\<rparr> data (Some (public_key kp)) ctx) (zip kps datas))
      (list_all2 (\<lambda>(kp, data) m. dcs_vrf_output (dcm_signature m) = V (public_key kp) c) (zip kps datas))"
  proof (rule ensures_mapE, clarify)
    fix kp data
    assume "(kp, data) \<in> set (zip kps datas)"
    then obtain sig where "data = dcm_serialized (consistency_message_of g' sig (V (public_key kp) c))"
        "vrf_accepts ctx (public_key kp) c sig (V (public_key kp) c)"
      using datas unfolding list_all2_iff by blast
    moreover have "length (V (public_key kp) c) = 32" using laws(2) by (simp add: vrf_laws_def)
    ultimately show "ensures (device_consistency_message_create_from_serialized
        \<lparr>dcc_generation = g, dcc_serialized = Some c\<rparr> data (Some (public_key kp)) ctx)
        (\<lambda>m. dcs_vrf_output (dcm_signature m) = V (public_key kp) c)"
      by (simp only:) (erule ensures_yields [OF yields_create_from_serialized], assumption,
        simp add: consistency_message_of_def)
  qed
  have new: "ensures device_consistency_signature_list_alloc (\<lambda>l. ut_ok l \<and> ut_elems l = [])"
    unfolding device_consistency_signature_list_alloc_def by (rule ensures_thenE [OF yields_alloc ensures_utarray_new])
  show ?thesis
    unfolding device_code_def
  proof (rule yields_bindE [OF yields_commitment_create [OF laws(1)]], unfold c yields_def,
      rule ensures_bindE [OF verify], rule ensures_bindE [OF new])
    fix ms and l :: "device_consistency_signature ut_array"
    assume ms: "list_all2 (\<lambda>(kp, data) m. dcs_vrf_output (dcm_signature m) = V (public_key kp) c) (zip kps datas) ms"
      and l: "ut_ok l \<and> ut_elems l = []"
    have "dcs_vrf_output (dcm_signature (ms ! i)) = ?out i" if "i \<in> set ix" for i
      using list_all2_nthD [OF ms, of i] idx [OF that] n by simp
    then have "\<forall>i \<in> set ix. dcs_vrf_output (dcm_signature (ms ! i)) = ?out i" by blast
    then show "ensures (bindE (foldE (\<lambda>i acc. device_consistency_signature_list_push_back acc (dcm_signature (ms ! i))) ix l)
        (\<lambda>signatures. device_consistency_code_generate_for \<lparr>dcc_generation = g, dcc_serialized = Some c\<rparr> signatures ctx))
      (\<lambda>y. y = consistency_code D c (map (\<lambda>kp. V (public_key kp) c) kps))"
    proof (rule ensures_bindE [OF ensures_collect_signatures])
      fix a :: "device_consistency_signature ut_array"
      assume "ut_ok a \<and> map dcs_vrf_output (ut_elems a) = map dcs_vrf_output (ut_elems l) @ map ?out ix"
      then show "ensures (device_consistency_code_generate_for \<lparr>dcc_generation = g, dcc_serialized = Some c\<rparr> a ctx)
          (\<lambda>y. y = consistency_code D c (map (\<lambda>kp. V (public_key kp) c) kps))"
        using yields_code_generate_for [OF laws(1), of g c a] l outs
        by (simp add: yields_def consistency_code_def)
    qed (use l in simp)
  qed
qed

end
