(* ===== verification/Identity_Properties.thy ===== *)
theory Identity_Properties
  imports Fingerprint_Laws Device_Consistency_Laws Sample_Provider
begin

text \<open>
  Properties of what a user checks and publishes: the fingerprints of two parties, the consistency code of
  one's own devices, and the batches of pre keys.
\<close>

section \<open>Samples\<close>

lemma sample_sha512_laws: "sha512_laws sample_context sample_sha512"
proof -
  have "sha512_contract sample_context sample_sha512 (\<lambda>c h d. h < length c \<and> snd (c ! h) = d)"
    unfolding sha512_contract_def
    by (intro exI [of _ "sample_init []"] exI [of _ sample_update] exI [of _ "sample_sha512_final sample_sha512"]
          exI [of _ "\<lambda>h c. c"])
       (auto simp: sample_context_def sample_provider_def sample_init_def sample_update_def sample_sha512_final_def)
  then show ?thesis unfolding sha512_laws_def by (auto simp: sample_sha512_def)
qed

lemma sample_vrf_laws: "vrf_laws sample_context sample_donna sample_vrf"
  by (auto simp: vrf_laws_def sample_context_def sample_curve_def sample_vrf_def VRF_SIGNATURE_LEN_def)

section \<open>Fingerprints\<close>

text \<open>C12: two users each make a fingerprint of the same two parties, with any number of iterations and either
  scannable version, and one scans the serialised fingerprint of the other.  Each sees the two 30 digit halves in
  ascending order, so both texts are the same when both hold the same keys.  The comparison gives 1 exactly
  when they hold the same keys (version 0) or the same 32 bytes of the hashes of the keys (version 1), and 0
  otherwise.\<close>

theorem fingerprints_tell_keys_apart:
  fixes ca :: "'c signal_context"
  assumes "sha512_laws ca D" and "v = 0 \<or> v = 1" and "small_string ida" and "small_string idb"
    and "wf_key ka" "wf_key kb" "wf_key ka'" "wf_key kb'"
  shows "yields
      (bindE (fingerprint_generator_create n v ca) (\<lambda>gen.
       exchange_fingerprints
         (fingerprint_generator_create_for gen (Some ida) (Some ka) (Some idb) (Some kb))
         (fingerprint_generator_create_for gen (Some idb) (Some kb') (Some ida) (Some ka'))) :: ('c, 's, _) M)
      (displayed (identity_digits D n ida (DJB_TYPE # ka)) (identity_digits D n idb (DJB_TYPE # kb)),
       displayed (identity_digits D n ida (DJB_TYPE # ka')) (identity_digits D n idb (DJB_TYPE # kb')),
       if compared_part D n v ida (DJB_TYPE # ka) = compared_part D n v ida (DJB_TYPE # ka') \<and>
          compared_part D n v idb (DJB_TYPE # kb) = compared_part D n v idb (DJB_TYPE # kb') then 1 else 0)"
proof -
  let ?gen = "\<lparr>fpg_iterations = n, fpg_scannable_version = v, fpg_context = ca\<rparr>"
  have gen: "yields (fingerprint_generator_create n v ca) ?gen"
    unfolding fingerprint_generator_create_def using assms(2)
    by (auto intro!: yields_thenE [OF yields_alloc] yields_returnE)
  have fit: "fit_identity ida (DJB_TYPE # k)" "fit_identity idb (DJB_TYPE # k)" if "wf_key k" for k
    using that assms(3,4) by (simp_all add: fit_identity_def)
  have create: "yields (fingerprint_generator_create_for ?gen (Some lid) (Some lk) (Some rid) (Some rk))
      (fingerprint_of D n v lid (DJB_TYPE # lk) rid (DJB_TYPE # rk))"
    if "fit_identity lid (DJB_TYPE # lk)" "fit_identity rid (DJB_TYPE # rk)" for lid lk rid rk
    using yields_create_for_impl [of ?gen D, OF _ _ that] assms(1,2)
    unfolding fingerprint_generator_create_for_def
    by (intro yields_bindE [OF yields_ec_public_key_serialize]) simp
  show ?thesis
    by (rule yields_bindE [OF gen], rule yields_exchange_fingerprints [OF assms(1,2)])
       (simp_all add: fit assms create)
qed

theorem fingerprints_tell_keys_apart_witness:
  "yields
      (bindE (fingerprint_generator_create 2 0 sample_context) (\<lambda>gen.
       exchange_fingerprints
         (fingerprint_generator_create_for gen (Some [65]) (Some (replicate 32 1)) (Some [66]) (Some (replicate 32 2)))
         (fingerprint_generator_create_for gen (Some [66]) (Some (replicate 32 2)) (Some [65]) (Some (replicate 32 3))))
       :: (sample_memory, unit, _) M)
      (displayed (identity_digits sample_sha512 2 [65] (DJB_TYPE # replicate 32 1))
         (identity_digits sample_sha512 2 [66] (DJB_TYPE # replicate 32 2)),
       displayed (identity_digits sample_sha512 2 [65] (DJB_TYPE # replicate 32 3))
         (identity_digits sample_sha512 2 [66] (DJB_TYPE # replicate 32 2)), 0)"
  using fingerprints_tell_keys_apart [OF sample_sha512_laws, of 0 "[65]" "[66]" "replicate 32 1" "replicate 32 2"
      "replicate 32 3" "replicate 32 2" 2, where 's = unit]
  by (simp add: small_string_def wf_key_def DJB_KEY_LEN_def compared_part_def)

section \<open>Device consistency\<close>

text \<open>C13: every device of a user that has the same identity keys, in whatever order, and receives the messages
  of all devices, in whatever order, accepts each of them and shows the same code, six digits that depend on the
  generation, the keys and the outputs of the verifiable random function only.\<close>

theorem devices_show_the_same_code:
  fixes ctx :: "'c signal_context"
  assumes "sha512_laws ctx D" "vrf_laws ctx DH V" "random_laws ctx"
    and "list_all (key_pair_of DH) kps" "list_all wf_key keys"
    and "\<forall>kp \<in> set kps. mset (ut_elems (key_list kp)) = mset keys"
    and "mset (ut_elems mine) = mset keys" and "mset ix = mset [0..<length kps]"
  shows "yields (bindE (device_messages ctx g key_list kps) (device_code ctx g mine ix kps) :: ('c, 's, _) M)
      (consistency_code D (commitment_of D g keys) (map (\<lambda>kp. V (public_key kp) (commitment_of D g keys)) kps))"
proof -
  have same: "commitment_of D g ks = commitment_of D g keys" if "mset ks = mset keys" for ks
    using commitment_of_cong [OF assms(5)] that by metis
  have "ensures (device_messages ctx g key_list kps :: ('c, 's, _) M)
    (list_all2 (\<lambda>kp data. \<exists>sig. data = dcm_serialized (consistency_message_of g sig (V (public_key kp) (commitment_of D g keys))) \<and>
       vrf_accepts ctx (public_key kp) (commitment_of D g keys) sig (V (public_key kp) (commitment_of D g keys))) kps)"
    by (rule ensures_device_messages [OF assms(1-4)]) (use assms(6) same in blast)
  then show ?thesis
    unfolding yields_def
    by (rule ensures_bindE) (rule yields_device_code [OF assms(1,2) same [OF assms(7)] assms(8), unfolded yields_def])
qed

theorem devices_show_the_same_code_witness:
  "yields (bindE
      (device_messages sample_context 7 (\<lambda>kp. \<lparr>ut_n = 8, ut_cap = 8, ut_elems = [replicate 32 2, replicate 32 1]\<rparr>)
         [sample_pair 1, sample_pair 2])
      (device_code sample_context 7 \<lparr>ut_n = 8, ut_cap = 8, ut_elems = [replicate 32 1, replicate 32 2]\<rparr> [1, 0]
         [sample_pair 1, sample_pair 2]) :: (sample_memory, unit, _) M)
    (consistency_code sample_sha512 (commitment_of sample_sha512 7 [replicate 32 1, replicate 32 2])
       (map (\<lambda>kp. sample_vrf (public_key kp) (commitment_of sample_sha512 7 [replicate 32 1, replicate 32 2]))
          [sample_pair 1, sample_pair 2]))"
  by (rule devices_show_the_same_code [OF sample_sha512_laws sample_vrf_laws sample_random_laws])
     (simp_all add: sample_key_pair wf_key_def DJB_KEY_LEN_def upt_rec add_mset_commute)

section \<open>Pre keys\<close>

text \<open>C28: a batch of pre keys has valid key pairs and the identifiers that follow the first one, going round
  below the identifier of the last resort key and never using 0; the identifiers of a batch of up to
  0xFFFFFE keys are distinct.\<close>

theorem pre_key_batch:
  assumes "curve_laws ctx DH" "random_laws ctx" and "1 \<le> start" "start < PRE_KEY_MEDIUM_MAX_VALUE" and "unat n \<le> 0xFFFFFE"
  shows "ensures (signal_protocol_key_helper_generate_pre_keys ctx start n)
    (\<lambda>ks. length ks = unat n \<and> distinct (map pre_key_id ks) \<and>
       (\<forall>i < unat n. unat (pre_key_id (ks ! i)) =
          (if unat start + i < 0xFFFFFF then unat start + i else unat start + i - 0xFFFFFE)) \<and>
       (\<forall>k \<in> set ks. 1 \<le> pre_key_id k \<and> pre_key_id k < PRE_KEY_MEDIUM_MAX_VALUE \<and> key_pair_of DH (pre_key_pair k)))"
proof -
  have start: "1 \<le> unat start" "unat start < 0xFFFFFF"
    using assms(3,4) by (simp_all add: word_le_nat_alt word_less_nat_alt PRE_KEY_MEDIUM_MAX_VALUE_def)
  have number: "unat (pre_key_number start i) =
      (if unat start + i < 0xFFFFFF then unat start + i else unat start + i - 0xFFFFFE)" if "i < 0xFFFFFE" for i
  proof (cases "unat start + i < 0xFFFFFF")
    case True
    then show ?thesis using start by (simp add: unat_pre_key_number)
  next
    case False
    then have "0xFFFFFE \<le> unat start - 1 + i" "unat start - 1 + i - 0xFFFFFE < 0xFFFFFE" using start that by auto
    then have "(unat start - 1 + i) mod 0xFFFFFE = unat start - 1 + i - 0xFFFFFE"
      by (simp only: le_mod_geq mod_less)
    then show ?thesis unfolding unat_pre_key_number using False start by simp
  qed
  show ?thesis
  proof (rule ensures_mono [OF ensures_generate_pre_keys [OF assms(1-3)]])
    fix ks
    assume ks: "map pre_key_id ks = map (pre_key_number start) [0..<unat n] \<and> (\<forall>k\<in>set ks. key_pair_of DH (pre_key_pair k))"
    have len: "length ks = unat n" using ks by (metis length_map diff_zero length_upt)
    have nth: "pre_key_id (ks ! i) = pre_key_number start i" if "i < unat n" for i
      using arg_cong [OF conjunct1 [OF ks], of "\<lambda>xs. xs ! i"] that len by simp
    have range: "1 \<le> pre_key_id k \<and> pre_key_id k < PRE_KEY_MEDIUM_MAX_VALUE" if "k \<in> set ks" for k
      using that nth pre_key_number_range len by (metis in_set_conv_nth)
    show "length ks = unat n \<and> distinct (map pre_key_id ks) \<and>
       (\<forall>i < unat n. unat (pre_key_id (ks ! i)) =
          (if unat start + i < 0xFFFFFF then unat start + i else unat start + i - 0xFFFFFE)) \<and>
       (\<forall>k \<in> set ks. 1 \<le> pre_key_id k \<and> pre_key_id k < PRE_KEY_MEDIUM_MAX_VALUE \<and> key_pair_of DH (pre_key_pair k))"
      using ks len range distinct_pre_key_numbers [OF assms(5)] number nth assms(5) by auto
  qed (use start assms(5) in simp)
qed

theorem pre_key_batch_witness:
  "ensures (signal_protocol_key_helper_generate_pre_keys sample_context 0xFFFFFE 2 :: (sample_memory, unit, _) M)
    (\<lambda>ks. length ks = 2 \<and> distinct (map pre_key_id ks) \<and>
       (\<forall>i < 2. unat (pre_key_id (ks ! i)) = (if 0xFFFFFE + i < 0xFFFFFF then 0xFFFFFE + i else i)) \<and>
       (\<forall>k \<in> set ks. 1 \<le> pre_key_id k \<and> pre_key_id k < PRE_KEY_MEDIUM_MAX_VALUE \<and> key_pair_of sample_donna (pre_key_pair k)))"
proof -
  have "unat (0xFFFFFE :: 32 word) = 0xFFFFFE" "unat (2 :: 32 word) = 2" by simp_all
  then show ?thesis
    by (intro ensures_mono [OF pre_key_batch [OF sample_curve_laws sample_random_laws]])
       (auto simp: PRE_KEY_MEDIUM_MAX_VALUE_def)
qed

end
