(* ===== verification/Donna.thy ===== *)
theory Donna
  imports Prelude
begin

text \<open>
  curve25519/curve25519-donna.c: the field arithmetic modulo \<open>2 ^ 255 - 19\<close> on signed 64-bit limbs
  and the Montgomery ladder, function by function.  A \<open>limb\<close> array is a list of 64-bit words, least
  significant first; an array of \<open>s32\<close> is a list of 32-bit words.  Arithmetic on words wraps around;
  \<open>Donna_Field\<close> and \<open>Donna_Contract\<close> show that the limbs hold the integer results.  \<open>>>\<close> on a signed
  operand is \<^const>\<open>signed_drop_bit\<close>, \<open><<\<close> is \<^const>\<open>push_bit\<close> also for negative operands and for \<open>input[4] <<= 6\<close>
  of \<open>fcontract\<close>, which reaches the sign bit (C leaves both undefined; the code asks for two's complement).  A
  cast to \<open>s32\<close> keeps the low 32 bits, a cast back to \<open>limb\<close> extends the sign.  Functions that
  write an \<open>output\<close> array return it; limbs of \<open>output\<close> that the C code leaves alone are left alone.
  \<open>div_s32_by_2_25\<close> is not called.
\<close>

unbundle bit_operations_syntax

type_synonym limb = "64 word"
type_synonym s32 = "32 word"

section \<open>Linear operations\<close>

definition limbwise :: "(limb \<Rightarrow> limb \<Rightarrow> limb) \<Rightarrow> limb list \<Rightarrow> limb list \<Rightarrow> limb list" where
  "limbwise f output inp = map2 f (take 10 output) (take 10 inp) @ drop 10 output"

definition memcpy10 :: "limb list \<Rightarrow> limb list \<Rightarrow> limb list" where
  "memcpy10 output inp = limbwise (\<lambda>x y. y) output inp"

definition fsum :: "limb list \<Rightarrow> limb list \<Rightarrow> limb list" where
  "fsum output inp = limbwise (\<lambda>x y. x + y) output inp"

definition fdifference :: "limb list \<Rightarrow> limb list \<Rightarrow> limb list" where
  "fdifference output inp = limbwise (\<lambda>x y. y - x) output inp"

definition fscalar_product :: "limb list \<Rightarrow> limb list \<Rightarrow> limb \<Rightarrow> limb list" where
  "fscalar_product output inp scalar = limbwise (\<lambda>x y. y * scalar) output inp"

section \<open>Multiplication\<close>

text \<open>The cast \<open>(limb) ((s32) x)\<close>.\<close>

definition s32_limb :: "limb \<Rightarrow> limb" where
  "s32_limb x = scast (ucast x :: s32)"

text \<open>
  The nineteen sums of \<open>fproduct\<close> and \<open>fsquare_inner\<close> over any commutative ring, the coefficients
  given as functions of the index: the code instantiates the ring with the 64-bit words, the
  reference with the integers.
\<close>

definition product_terms :: "(nat \<Rightarrow> 'a::comm_ring_1) \<Rightarrow> (nat \<Rightarrow> 'a) \<Rightarrow> 'a list" where
  "product_terms f g =
     [f 0 * g 0,
      f 0 * g 1 + f 1 * g 0,
      2 * f 1 * g 1 + f 0 * g 2 + f 2 * g 0,
      f 1 * g 2 + f 2 * g 1 + f 0 * g 3 + f 3 * g 0,
      f 2 * g 2 + 2 * (f 1 * g 3 + f 3 * g 1) + f 0 * g 4 + f 4 * g 0,
      f 2 * g 3 + f 3 * g 2 + f 1 * g 4 + f 4 * g 1 + f 0 * g 5 + f 5 * g 0,
      2 * (f 3 * g 3 + f 1 * g 5 + f 5 * g 1) + f 2 * g 4 + f 4 * g 2 + f 0 * g 6 + f 6 * g 0,
      f 3 * g 4 + f 4 * g 3 + f 2 * g 5 + f 5 * g 2 + f 1 * g 6 + f 6 * g 1 + f 0 * g 7 +
        f 7 * g 0,
      f 4 * g 4 + 2 * (f 3 * g 5 + f 5 * g 3 + f 1 * g 7 + f 7 * g 1) + f 2 * g 6 +
        f 6 * g 2 + f 0 * g 8 + f 8 * g 0,
      f 4 * g 5 + f 5 * g 4 + f 3 * g 6 + f 6 * g 3 + f 2 * g 7 + f 7 * g 2 + f 1 * g 8 +
        f 8 * g 1 + f 0 * g 9 + f 9 * g 0,
      2 * (f 5 * g 5 + f 3 * g 7 + f 7 * g 3 + f 1 * g 9 + f 9 * g 1) + f 4 * g 6 +
        f 6 * g 4 + f 2 * g 8 + f 8 * g 2,
      f 5 * g 6 + f 6 * g 5 + f 4 * g 7 + f 7 * g 4 + f 3 * g 8 + f 8 * g 3 + f 2 * g 9 +
        f 9 * g 2,
      f 6 * g 6 + 2 * (f 5 * g 7 + f 7 * g 5 + f 3 * g 9 + f 9 * g 3) + f 4 * g 8 + f 8 * g 4,
      f 6 * g 7 + f 7 * g 6 + f 5 * g 8 + f 8 * g 5 + f 4 * g 9 + f 9 * g 4,
      2 * (f 7 * g 7 + f 5 * g 9 + f 9 * g 5) + f 6 * g 8 + f 8 * g 6,
      f 7 * g 8 + f 8 * g 7 + f 6 * g 9 + f 9 * g 6,
      f 8 * g 8 + 2 * (f 7 * g 9 + f 9 * g 7),
      f 8 * g 9 + f 9 * g 8,
      2 * f 9 * g 9]"

definition fproduct :: "limb list \<Rightarrow> limb list \<Rightarrow> limb list" where
  "fproduct in2 inp = product_terms (\<lambda>i. s32_limb (in2 ! i)) (\<lambda>i. s32_limb (inp ! i))"

text \<open>\<open>output[i] += output[j] << 4; output[i] += output[j] << 1; output[i] += output[j]\<close>\<close>

definition add_times_19 :: "nat \<Rightarrow> nat \<Rightarrow> limb list \<Rightarrow> limb list" where
  "add_times_19 i j output =
     (let output = output[i := output ! i + push_bit 4 (output ! j)];
          output = output[i := output ! i + push_bit 1 (output ! j)]
      in output[i := output ! i + output ! j])"

definition freduce_degree :: "limb list \<Rightarrow> limb list" where
  "freduce_degree output =
     (let output = add_times_19 8 18 output;
          output = add_times_19 7 17 output;
          output = add_times_19 6 16 output;
          output = add_times_19 5 15 output;
          output = add_times_19 4 14 output;
          output = add_times_19 3 13 output;
          output = add_times_19 2 12 output;
          output = add_times_19 1 11 output
      in add_times_19 0 10 output)"

definition div_by_2_26 :: "limb \<Rightarrow> limb" where
  "div_by_2_26 v =
     (let highword = (ucast (drop_bit 32 v) :: 32 word);
          sign = signed_drop_bit 31 highword;
          roundoff = drop_bit 6 sign
      in signed_drop_bit 26 (v + scast roundoff))"

definition div_by_2_25 :: "limb \<Rightarrow> limb" where
  "div_by_2_25 v =
     (let highword = (ucast (drop_bit 32 v) :: 32 word);
          sign = signed_drop_bit 31 highword;
          roundoff = drop_bit 7 sign
      in signed_drop_bit 25 (v + scast roundoff))"

text \<open>One carry of \<open>freduce_coefficients\<close> out of an even and out of an odd limb.\<close>

definition reduce_even :: "nat \<Rightarrow> limb list \<Rightarrow> limb list" where
  "reduce_even i output =
     (let over = div_by_2_26 (output ! i);
          output = output[i := output ! i - push_bit 26 over]
      in output[Suc i := output ! Suc i + over])"

definition reduce_odd :: "nat \<Rightarrow> limb list \<Rightarrow> limb list" where
  "reduce_odd i output =
     (let over = div_by_2_25 (output ! i);
          output = output[i := output ! i - push_bit 25 over]
      in output[Suc i := output ! Suc i + over])"

definition freduce_coefficients :: "limb list \<Rightarrow> limb list" where
  "freduce_coefficients output =
     (let output = output[10 := 0];
          output = fold (\<lambda>i output. reduce_odd (Suc i) (reduce_even i output)) [0, 2, 4, 6, 8] output;
          output = add_times_19 0 10 output;
          output = output[10 := 0]
      in reduce_even 0 output)"

text \<open>\<open>fmul\<close> and \<open>fsquare\<close> copy ten limbs to \<open>output\<close>.\<close>

definition fmul :: "limb list \<Rightarrow> limb list \<Rightarrow> limb list" where
  "fmul inp in2 =
     (let t = fproduct inp in2;
          t = freduce_degree t;
          t = freduce_coefficients t
      in take 10 t)"

definition square_terms :: "(nat \<Rightarrow> 'a::comm_ring_1) \<Rightarrow> 'a list" where
  "square_terms f =
     [f 0 * f 0,
      2 * f 0 * f 1,
      2 * (f 1 * f 1 + f 0 * f 2),
      2 * (f 1 * f 2 + f 0 * f 3),
      f 2 * f 2 + 4 * f 1 * f 3 + 2 * f 0 * f 4,
      2 * (f 2 * f 3 + f 1 * f 4 + f 0 * f 5),
      2 * (f 3 * f 3 + f 2 * f 4 + f 0 * f 6 + 2 * f 1 * f 5),
      2 * (f 3 * f 4 + f 2 * f 5 + f 1 * f 6 + f 0 * f 7),
      f 4 * f 4 + 2 * (f 2 * f 6 + f 0 * f 8 + 2 * (f 1 * f 7 + f 3 * f 5)),
      2 * (f 4 * f 5 + f 3 * f 6 + f 2 * f 7 + f 1 * f 8 + f 0 * f 9),
      2 * (f 5 * f 5 + f 4 * f 6 + f 2 * f 8 + 2 * (f 3 * f 7 + f 1 * f 9)),
      2 * (f 5 * f 6 + f 4 * f 7 + f 3 * f 8 + f 2 * f 9),
      f 6 * f 6 + 2 * (f 4 * f 8 + 2 * (f 5 * f 7 + f 3 * f 9)),
      2 * (f 6 * f 7 + f 5 * f 8 + f 4 * f 9),
      2 * (f 7 * f 7 + f 6 * f 8 + 2 * f 5 * f 9),
      2 * (f 7 * f 8 + f 6 * f 9),
      f 8 * f 8 + 4 * f 7 * f 9,
      2 * f 8 * f 9,
      2 * f 9 * f 9]"

definition fsquare_inner :: "limb list \<Rightarrow> limb list" where
  "fsquare_inner inp = square_terms (\<lambda>i. s32_limb (inp ! i))"

definition fsquare :: "limb list \<Rightarrow> limb list" where
  "fsquare inp =
     (let t = fsquare_inner inp;
          t = freduce_degree t;
          t = freduce_coefficients t
      in take 10 t)"

section \<open>Bytes to limbs and back\<close>

text \<open>The macro \<open>F\<close> of \<open>fexpand\<close>.\<close>

definition expand_limb :: "bytes \<Rightarrow> nat \<Rightarrow> nat \<Rightarrow> limb \<Rightarrow> limb" where
  "expand_limb input start shift m =
     signed_drop_bit shift
       (ucast (input ! start) OR
        push_bit 8 (ucast (input ! (start + 1))) OR
        push_bit 16 (ucast (input ! (start + 2))) OR
        push_bit 24 (ucast (input ! (start + 3)))) AND m"

definition fexpand :: "bytes \<Rightarrow> limb list" where
  "fexpand input =
     [expand_limb input 0 0 0x3ffffff,
      expand_limb input 3 2 0x1ffffff,
      expand_limb input 6 3 0x3ffffff,
      expand_limb input 9 5 0x1ffffff,
      expand_limb input 12 6 0x3ffffff,
      expand_limb input 16 0 0x1ffffff,
      expand_limb input 19 1 0x3ffffff,
      expand_limb input 22 3 0x1ffffff,
      expand_limb input 25 4 0x3ffffff,
      expand_limb input 28 6 0x1ffffff]"

definition s32_eq :: "s32 \<Rightarrow> s32 \<Rightarrow> s32" where
  "s32_eq a b =
     (let a = NOT (a XOR b);
          a = a AND push_bit 16 a;
          a = a AND push_bit 8 a;
          a = a AND push_bit 4 a;
          a = a AND push_bit 2 a;
          a = a AND push_bit 1 a
      in signed_drop_bit 31 a)"

definition s32_gte :: "s32 \<Rightarrow> s32 \<Rightarrow> s32" where
  "s32_gte a b = (let a = a - b in NOT (signed_drop_bit 31 a))"

text \<open>
  The borrow of \<open>fcontract\<close> that makes limb \<open>i\<close>, of \<open>w\<close> bits, non-negative: the carry is taken from
  limb \<open>j\<close>, \<open>k\<close> times.  The three textual copies in the code have \<open>(w, i, i + 1, 1)\<close> with \<open>w\<close> 25 for
  odd and 26 for even \<open>i\<close>, and \<open>(25, 9, 0, 19)\<close>.
\<close>

definition contract_borrow :: "nat \<Rightarrow> nat \<Rightarrow> nat \<Rightarrow> s32 \<Rightarrow> s32 list \<Rightarrow> s32 list" where
  "contract_borrow w i j k input =
     (let mask = signed_drop_bit 31 (input ! i);
          carry = - signed_drop_bit w (input ! i AND mask);
          input = input[i := input ! i + push_bit w carry]
      in input[j := input ! j - carry * k])"

definition contract_borrow_pass :: "s32 list \<Rightarrow> s32 list" where
  "contract_borrow_pass input =
     (let input = fold (\<lambda>i input. if i mod 2 = 1 then contract_borrow 25 i (Suc i) 1 input
                                 else contract_borrow 26 i (Suc i) 1 input) [0..<9] input
      in contract_borrow 25 9 0 19 input)"

definition contract_carry :: "nat \<Rightarrow> s32 \<Rightarrow> nat \<Rightarrow> nat \<Rightarrow> s32 \<Rightarrow> s32 list \<Rightarrow> s32 list" where
  "contract_carry w m i j k input =
     (let carry = signed_drop_bit w (input ! i);
          input = input[i := input ! i AND m]
      in input[j := input ! j + k * carry])"

definition contract_carry_pass :: "s32 list \<Rightarrow> s32 list" where
  "contract_carry_pass input =
     (let input = fold (\<lambda>i input. if i mod 2 = 1 then contract_carry 25 0x1ffffff i (Suc i) 1 input
                                 else contract_carry 26 0x3ffffff i (Suc i) 1 input) [0..<9] input
      in contract_carry 25 0x1ffffff 9 0 19 input)"

text \<open>The comparison with \<open>2 ^ 255 - 19\<close> and the conditional subtraction.\<close>

definition limb_max :: "nat \<Rightarrow> s32" where
  "limb_max i = (if i mod 2 = 1 then 0x1ffffff else 0x3ffffff)"

definition contract_subtract :: "s32 list \<Rightarrow> s32 list" where
  "contract_subtract input =
     (let mask = s32_gte (input ! 0) 0x3ffffed;
          mask = fold (\<lambda>i mask. mask AND s32_eq (input ! i) (limb_max i)) [1..<10] mask;
          input = input[0 := input ! 0 - (mask AND 0x3ffffed)]
      in fold (\<lambda>i input. input[i := input ! i - (mask AND limb_max i)]) [1..<10] input)"

text \<open>The macro \<open>F\<close> of \<open>fcontract\<close>.\<close>

definition contract_bytes :: "s32 \<Rightarrow> nat \<Rightarrow> bytes \<Rightarrow> bytes" where
  "contract_bytes x s output =
     (let output = output[s := output ! s OR ucast (x AND 0xff)];
          output = output[s + 1 := ucast (signed_drop_bit 8 x AND 0xff)];
          output = output[s + 2 := ucast (signed_drop_bit 16 x AND 0xff)]
      in output[s + 3 := ucast (signed_drop_bit 24 x AND 0xff)])"

definition contract_pack :: "s32 list \<Rightarrow> bytes \<Rightarrow> bytes" where
  "contract_pack input output =
     (let output = output[0 := 0];
          output = output[16 := 0];
          output = contract_bytes (input ! 0) 0 output;
          output = contract_bytes (push_bit 2 (input ! 1)) 3 output;
          output = contract_bytes (push_bit 3 (input ! 2)) 6 output;
          output = contract_bytes (push_bit 5 (input ! 3)) 9 output;
          output = contract_bytes (push_bit 6 (input ! 4)) 12 output;
          output = contract_bytes (input ! 5) 16 output;
          output = contract_bytes (push_bit 1 (input ! 6)) 19 output;
          output = contract_bytes (push_bit 3 (input ! 7)) 22 output;
          output = contract_bytes (push_bit 4 (input ! 8)) 25 output
      in contract_bytes (push_bit 6 (input ! 9)) 28 output)"

definition fcontract :: "bytes \<Rightarrow> limb list \<Rightarrow> bytes" where
  "fcontract output input_limbs =
     (let input = map (\<lambda>x. ucast x :: s32) (take 10 input_limbs);
          input = contract_borrow_pass input;
          input = contract_borrow_pass input;
          input = contract_borrow 26 0 1 1 input;
          input = contract_carry_pass input;
          input = contract_carry_pass input;
          input = contract_subtract input
      in contract_pack input output)"

section \<open>The ladder\<close>

text \<open>The arrays of the caller that \<open>fmonty\<close> reads and writes.\<close>

record ladder_arrays =
  nqx :: "limb list"
  nqz :: "limb list"
  nqpqx :: "limb list"
  nqpqz :: "limb list"
  nqx2 :: "limb list"
  nqz2 :: "limb list"
  nqpqx2 :: "limb list"
  nqpqz2 :: "limb list"

text \<open>
  \<open>fmonty (nqx2, nqz2, nqpqx2, nqpqz2, nqx, nqz, nqpqx, nqpqz, qmqp)\<close>, the call of \<open>cmult\<close>: the
  inputs \<open>nqx\<close>, \<open>nqz\<close>, \<open>nqpqx\<close> and \<open>nqpqz\<close> are overwritten with sums and differences.
\<close>

definition fmonty :: "limb list \<Rightarrow> ladder_arrays \<Rightarrow> ladder_arrays" where
  "fmonty qmqp s =
     (let origx = take 10 (nqx s);
          x = fsum (nqx s) (nqz s);
          z = fdifference (nqz s) origx;
          origxprime = take 10 (nqpqx s);
          xprime = fsum (nqpqx s) (nqpqz s);
          zprime = fdifference (nqpqz s) origxprime;
          xxprime = fproduct xprime z;
          zzprime = fproduct x zprime;
          xxprime = freduce_coefficients (freduce_degree xxprime);
          zzprime = freduce_coefficients (freduce_degree zzprime);
          origxprime = take 10 xxprime;
          xxprime = fsum xxprime zzprime;
          zzprime = fdifference zzprime origxprime;
          xxxprime = fsquare xxprime;
          zzzprime = fsquare zzprime;
          zzprime = fproduct zzzprime qmqp;
          zzprime = freduce_coefficients (freduce_degree zzprime);
          x3 = memcpy10 (nqpqx2 s) xxxprime;
          z3 = memcpy10 (nqpqz2 s) zzprime;
          xx = fsquare x;
          zz = fsquare z;
          x2 = fproduct xx zz;
          x2 = freduce_coefficients (freduce_degree x2);
          zz = fdifference zz xx;
          zzz = fscalar_product (replicate 19 0) zz 121665;
          zzz = freduce_coefficients zzz;
          zzz = fsum zzz xx;
          z2 = fproduct zz zzz;
          z2 = freduce_coefficients (freduce_degree z2)
      in \<lparr>nqx = x, nqz = z, nqpqx = xprime, nqpqz = zprime,
          nqx2 = x2, nqz2 = z2, nqpqx2 = x3, nqpqz2 = z3\<rparr>)"

definition swap_conditional :: "limb list \<Rightarrow> limb list \<Rightarrow> limb \<Rightarrow> limb list \<times> limb list" where
  "swap_conditional a b iswap =
     (let swap = (ucast (- iswap) :: s32);
          x = (\<lambda>a b. swap AND (ucast a XOR ucast b))
      in (limbwise (\<lambda>a b. scast (ucast a XOR x a b)) a b,
          limbwise (\<lambda>b a. scast (ucast b XOR x a b)) b a))"

text \<open>The body of the inner loop of \<open>cmult\<close> for one bit; the pointers are rotated at its end.\<close>

definition cmult_bit :: "limb list \<Rightarrow> limb \<Rightarrow> ladder_arrays \<Rightarrow> ladder_arrays" where
  "cmult_bit q b s =
     (let (x, px) = swap_conditional (nqx s) (nqpqx s) b;
          (z, pz) = swap_conditional (nqz s) (nqpqz s) b;
          s = fmonty q (s\<lparr>nqx := x, nqz := z, nqpqx := px, nqpqz := pz\<rparr>);
          (x2, px2) = swap_conditional (nqx2 s) (nqpqx2 s) b;
          (z2, pz2) = swap_conditional (nqz2 s) (nqpqz2 s) b
      in \<lparr>nqx = x2, nqz = z2, nqpqx = px2, nqpqz = pz2,
          nqx2 = nqx s, nqz2 = nqz s, nqpqx2 = nqpqx s, nqpqz2 = nqpqz s\<rparr>)"

primrec cmult_byte :: "limb list \<Rightarrow> nat \<Rightarrow> byte \<Rightarrow> ladder_arrays \<Rightarrow> ladder_arrays" where
  "cmult_byte q 0 byt s = s"
| "cmult_byte q (Suc j) byt s =
     cmult_byte q j (push_bit 1 byt) (cmult_bit q (ucast (drop_bit 7 byt)) s)"

definition cmult :: "bytes \<Rightarrow> limb list \<Rightarrow> limb list \<times> limb list" where
  "cmult n q =
     (let zero = replicate 19 0; one = 1 # replicate 18 0;
          s = \<lparr>nqx = one, nqz = zero, nqpqx = memcpy10 zero q, nqpqz = one,
               nqx2 = zero, nqz2 = one, nqpqx2 = zero, nqpqz2 = one\<rparr>;
          s = fold (\<lambda>i s. cmult_byte q 8 (n ! (31 - i)) s) [0..<32] s
      in (take 10 (nqx s), take 10 (nqz s)))"

section \<open>Inversion\<close>

text \<open>\<open>for (; i < n; i += 2) { fsquare(t0,t1); fsquare(t1,t0); }\<close>\<close>

function square_loop :: "nat \<Rightarrow> nat \<Rightarrow> limb list \<Rightarrow> limb list" where
  "square_loop i n t1 =
     (if i < n then let t0 = fsquare t1; t1 = fsquare t0 in square_loop (i + 2) n t1 else t1)"
  by pat_completeness auto
termination by (relation "measure (\<lambda>(i, n, t1). n - i)") auto

definition crecip :: "limb list \<Rightarrow> limb list" where
  "crecip z =
     (let z2 = fsquare z;
          t1 = fsquare z2;
          t0 = fsquare t1;
          z9 = fmul t0 z;
          z11 = fmul z9 z2;
          t0 = fsquare z11;
          z2_5_0 = fmul t0 z9;

          t0 = fsquare z2_5_0;
          t1 = fsquare t0;
          t0 = fsquare t1;
          t1 = fsquare t0;
          t0 = fsquare t1;
          z2_10_0 = fmul t0 z2_5_0;

          t0 = fsquare z2_10_0;
          t1 = fsquare t0;
          t1 = square_loop 2 10 t1;
          z2_20_0 = fmul t1 z2_10_0;

          t0 = fsquare z2_20_0;
          t1 = fsquare t0;
          t1 = square_loop 2 20 t1;
          t0 = fmul t1 z2_20_0;

          t1 = fsquare t0;
          t0 = fsquare t1;
          t0 = square_loop 2 10 t0;
          z2_50_0 = fmul t0 z2_10_0;

          t0 = fsquare z2_50_0;
          t1 = fsquare t0;
          t1 = square_loop 2 50 t1;
          z2_100_0 = fmul t1 z2_50_0;

          t1 = fsquare z2_100_0;
          t0 = fsquare t1;
          t0 = square_loop 2 100 t0;
          t1 = fmul t0 z2_100_0;

          t0 = fsquare t1;
          t1 = fsquare t0;
          t1 = square_loop 2 50 t1;
          t0 = fmul t1 z2_50_0;

          t1 = fsquare t0;
          t0 = fsquare t1;
          t1 = fsquare t0;
          t0 = fsquare t1;
          t1 = fsquare t0
      in fmul t1 z11)"

text \<open>
  \<open>curve25519_donna\<close>: the return code and the contents of \<open>mypublic\<close>.  The three lines that would
  clamp the scalar are commented out in this copy of the file.
\<close>

definition curve25519_donna_c :: "bytes \<Rightarrow> bytes \<Rightarrow> bytes \<Rightarrow> int \<times> bytes" where
  "curve25519_donna_c mypublic secret basepoint =
     (let e = take 32 secret;
          bp = fexpand basepoint;
          (x, z) = cmult e bp;
          zmone = crecip z;
          z = fmul x zmone
      in (0, fcontract mypublic z))"

end
