(* ===== verification/Donna_Intervals.thy ===== *)
theory Donna_Intervals
  imports Donna
begin

text \<open>
  Numbers in the mixed radix of curve25519-donna.c and an interval analysis of its carry chains.  The
  value of a limb array is a sum of signed limbs with weights \<open>2 ^ expo i\<close>.  Every carry of the code moves a
  multiple of \<open>2 ^ w\<close> from limb \<open>i\<close> to limb \<open>j\<close>; \<open>carry_step\<close> is its effect on bounds of the limbs and
  \<open>tracks\<close> relates an array of machine words to its bounds and to its value modulo \<open>2 ^ 255 - 19\<close>.
\<close>

section \<open>Values of limb arrays\<close>

definition p25519 :: int where
  "p25519 = 2 ^ 255 - 19"

definition expo :: "nat \<Rightarrow> nat" where
  "expo i = (51 * i + 1) div 2"

primrec eval_from :: "nat \<Rightarrow> int list \<Rightarrow> int" where
  "eval_from i [] = 0"
| "eval_from i (x # xs) = x * 2 ^ expo i + eval_from (Suc i) xs"

lemma eval_from_update:
  "j < length xs \<Longrightarrow> eval_from i (xs[j := v]) = eval_from i xs + (v - xs ! j) * 2 ^ expo (i + j)"
proof (induction xs arbitrary: i j)
  case (Cons x xs)
  then show ?case
    by (cases j) (simp_all add: left_diff_distrib)
qed simp

lemma eval_from_append:
  "eval_from i (xs @ ys) = eval_from i xs + eval_from (i + length xs) ys"
  by (induction xs arbitrary: i) (auto simp: algebra_simps)

lemma p25519_pos [simp]: "0 < p25519" "p25519 \<noteq> 0"
  by (simp_all add: p25519_def)

section \<open>Signed words\<close>

lemma sint_of_int_eq_self:
  assumes "- (2 ^ (LENGTH('a) - 1)) \<le> z" "z < 2 ^ (LENGTH('a) - 1)"
  shows "sint (of_int z :: 'a::len word) = z"
  using assms by (simp add: signed_take_bit_int_eq_self sint_sbintrunc')

lemma sint_eqI:
  fixes w :: "'a::len word"
  assumes "w = of_int z" "- (2 ^ (LENGTH('a) - 1)) \<le> z" "z < 2 ^ (LENGTH('a) - 1)"
  shows "sint w = z"
  using assms sint_of_int_eq_self by blast

lemma of_int_push_bit:
  "push_bit n (w :: 'a::len word) = of_int (2 ^ n * sint w)"
  by (simp add: push_bit_eq_mult)

lemma sint_signed_drop_bit:
  "sint (signed_drop_bit n (w :: 'a::len word)) = sint w div 2 ^ n"
  by (simp add: drop_bit_eq_div sint_signed_drop_bit_eq)

lemma signed_drop_bit_of_int:
  "signed_drop_bit n (w :: 'a::len word) = of_int (sint w div 2 ^ n)"
  by (simp flip: sint_signed_drop_bit)

lemma sign_mask:
  fixes w :: "'a::len word"
  assumes "n = LENGTH('a) - 1"
  shows "signed_drop_bit n w = (if sint w < 0 then - 1 else 0)"
proof -
  have "sint w div 2 ^ n = (if sint w < 0 then - 1 else 0)"
    using sint_lt [of w] sint_ge [of w] assms
    by (auto intro!: div_pos_pos_trivial int_div_pos_eq [where r = "sint w + 2 ^ n"])
  then show ?thesis
    by (simp add: signed_drop_bit_of_int)
qed

lemma sint_ucast_s32:
  fixes x :: limb
  assumes "- (2 ^ 31) \<le> sint x" "sint x < 2 ^ 31"
  shows "sint (ucast x :: s32) = sint x"
proof -
  have "(ucast x :: s32) = of_int (sint x)"
    by (simp add: down_cast_same [symmetric] is_down scast_eq)
  then show ?thesis
    using assms by (intro sint_eqI) auto
qed

lemma sint_s32_limb:
  assumes "- (2 ^ 31) \<le> sint x" "sint x < 2 ^ 31"
  shows "s32_limb x = of_int (sint x)"
  using sint_ucast_s32 [OF assms] by (simp add: s32_limb_def scast_eq)

section \<open>Carries\<close>

text \<open>
  How much a carry moves: the quotient rounded towards zero (\<open>div_by_2_26\<close>, \<open>div_by_2_25\<close>), a borrow
  that only serves negative limbs, the quotient rounded down, or the whole limb.
\<close>

datatype carry_kind = Truncate nat | Borrow nat | Floor nat | Whole

fun carry_width :: "carry_kind \<Rightarrow> nat" where
  "carry_width (Truncate w) = w"
| "carry_width (Borrow w) = w"
| "carry_width (Floor w) = w"
| "carry_width Whole = 0"

fun carry_of :: "carry_kind \<Rightarrow> int \<Rightarrow> int" where
  "carry_of (Truncate w) x = (if x < 0 then (x + (2 ^ w - 1)) div 2 ^ w else x div 2 ^ w)"
| "carry_of (Borrow w) x = (if x < 0 then x div 2 ^ w else 0)"
| "carry_of (Floor w) x = x div 2 ^ w"
| "carry_of Whole x = x"

text \<open>Bounds of what a carry leaves behind in a limb of at most \<open>h\<close>.\<close>

fun carry_rest :: "carry_kind \<Rightarrow> int \<Rightarrow> int \<times> int" where
  "carry_rest (Truncate w) h = (- (2 ^ w - 1), 2 ^ w - 1)"
| "carry_rest (Borrow w) h = (0, max h (2 ^ w - 1))"
| "carry_rest (Floor w) h = (0, 2 ^ w - 1)"
| "carry_rest Whole h = (0, 0)"

lemma carry_of_mono:
  assumes "x \<le> y"
  shows "carry_of c x \<le> carry_of c y"
proof -
  have div: "a div 2 ^ w \<le> b div 2 ^ w" if "a \<le> b" for a b :: int and w :: nat
    using that by (simp add: zdiv_mono1)
  have neg: "(a + (2 ^ w - 1)) div 2 ^ w \<le> 0" "a div 2 ^ w \<le> 0" if "a < 0" for a :: int and w :: nat
    using that div [of "a + (2 ^ w - 1)" "2 ^ w - 1" w] div [of a 0 w] by simp_all
  have pos: "0 \<le> b div 2 ^ w" if "\<not> b < 0" for b :: int and w :: nat
    using that div [of 0 b w] by simp
  show ?thesis
  proof (cases c)
    case (Truncate w)
    then show ?thesis
      using assms order_trans [OF neg(1) pos, of x y w] div [of x y w]
        div [of "x + (2 ^ w - 1)" "y + (2 ^ w - 1)" w] by simp
  next
    case (Borrow w)
    then show ?thesis
      using assms neg(2) [of x w] div [of x y w] by simp
  qed (use assms div in simp_all)
qed

lemma carry_rest_bounds:
  assumes "x \<le> h"
  shows "fst (carry_rest c h) \<le> x - carry_of c x * 2 ^ carry_width c \<and>
    x - carry_of c x * 2 ^ carry_width c \<le> snd (carry_rest c h)"
proof -
  have *: "y div 2 ^ w * 2 ^ w = y - y mod 2 ^ w" "0 \<le> y mod 2 ^ w" "y mod 2 ^ w \<le> 2 ^ w - 1"
    for w and y :: int
    using minus_mod_eq_div_mult [of y "2 ^ w"] by (simp_all add: zle_diff1_eq)
  show ?thesis
  proof (cases c)
    case (Truncate w)
    then show ?thesis
      using *(2,3) [of x w] *(2,3) [of "x + (2 ^ w - 1)" w]
      by (simp only: carry_rest.simps carry_of.simps carry_width.simps fst_conv snd_conv *(1)
          split: if_split) linarith
  next
    case (Borrow w)
    then show ?thesis
      using assms *(2,3) [of x w] by (auto simp: *(1) le_max_iff_disj simp del: pos_mod_bound)
  next
    case (Floor w)
    then show ?thesis
      using *(2,3) [of x w] by (simp add: *(1))
  qed simp
qed

section \<open>Steps on bounds\<close>

type_synonym bounds = "(int \<times> int) list"

text \<open>
  A step \<open>(c, i, j, k)\<close> takes the carry \<open>c\<close> out of limb \<open>i\<close> and adds it \<open>k\<close> times to limb \<open>j\<close>.  It is
  admissible when the weights agree modulo \<open>2 ^ 255 - 19\<close> and the limbs stay within \<open>n\<close>-bit signed words.
\<close>

type_synonym carry_step = "carry_kind \<times> nat \<times> nat \<times> int"

definition fits :: "nat \<Rightarrow> int \<times> int \<Rightarrow> bool" where
  "fits n b \<longleftrightarrow> - (2 ^ (n - 1)) \<le> fst b \<and> snd b < 2 ^ (n - 1)"

fun step_bounds :: "carry_step \<Rightarrow> bounds \<Rightarrow> bounds" where
  "step_bounds (c, i, j, k) bs =
     (let (l, h) = bs ! i; cl = carry_of c l; ch = carry_of c h
      in bs[i := (if cl = ch then (l - cl * 2 ^ carry_width c, h - cl * 2 ^ carry_width c)
                  else carry_rest c h),
            j := (fst (bs ! j) + k * cl, snd (bs ! j) + k * ch)])"

fun step_ok :: "nat \<Rightarrow> carry_step \<Rightarrow> bounds \<Rightarrow> bool" where
  "step_ok n (c, i, j, k) bs \<longleftrightarrow>
     i < length bs \<and> j < length bs \<and> i \<noteq> j \<and> 0 \<le> k \<and>
     (k * 2 ^ expo j) mod p25519 = 2 ^ (expo i + carry_width c) mod p25519 \<and>
     fits n (step_bounds (c, i, j, k) bs ! i) \<and> fits n (step_bounds (c, i, j, k) bs ! j)"

fun run_steps :: "nat \<Rightarrow> carry_step list \<Rightarrow> bounds \<Rightarrow> bounds option" where
  "run_steps n [] bs = Some bs"
| "run_steps n (s # ss) bs = (if step_ok n s bs then run_steps n ss (step_bounds s bs) else None)"

section \<open>Arrays of words and their bounds\<close>

definition within :: "bounds \<Rightarrow> int list \<Rightarrow> bool" where
  "within bs xs \<longleftrightarrow> length xs = length bs \<and> (\<forall>i < length bs. fst (bs ! i) \<le> xs ! i \<and> xs ! i \<le> snd (bs ! i))"

lemma within_append:
  "length bs = length xs \<Longrightarrow> within (bs @ cs) (xs @ ys) \<longleftrightarrow> within bs xs \<and> within cs ys"
  unfolding within_def by (auto simp: nth_append) (metis add_diff_cancel_left' add_less_cancel_left not_add_less1)+

lemma within_Nil [simp]: "within [] xs \<longleftrightarrow> xs = []"
  by (auto simp: within_def)

lemma within_Cons [simp]:
  "within (b # bs) (x # xs) \<longleftrightarrow> fst b \<le> x \<and> x \<le> snd b \<and> within bs xs"
  by (auto simp: within_def nth_Cons split: nat.splits)

lemma within_replicate:
  "within (replicate n b) xs \<longleftrightarrow> length xs = n \<and> (\<forall>x \<in> set xs. fst b \<le> x \<and> x \<le> snd b)"
  by (auto simp: within_def all_set_conv_all_nth)

definition tracks :: "bounds \<Rightarrow> int \<Rightarrow> 'a::len word list \<Rightarrow> bool" where
  "tracks bs v ws \<longleftrightarrow>
     length bs \<le> length ws \<and> within bs (map sint (take (length bs) ws)) \<and>
     eval_from 0 (map sint (take (length bs) ws)) mod p25519 = v mod p25519"

text \<open>The effect of a step on an array of integers, and on an array of words.\<close>

fun step_ints :: "carry_step \<Rightarrow> int list \<Rightarrow> int list" where
  "step_ints (c, i, j, k) xs =
     xs[i := xs ! i - carry_of c (xs ! i) * 2 ^ carry_width c, j := xs ! j + k * carry_of c (xs ! i)]"

lemma step_ints_within:
  assumes "within bs xs" "step_ok n s bs"
  shows "within (step_bounds s bs) (step_ints s xs)"
proof (cases s)
  case (fields c i j k)
  define l h where "l = fst (bs ! i)" and "h = snd (bs ! i)"
  have ij: "i < length bs" "j < length bs" "i \<noteq> j" "0 \<le> k" and len: "length xs = length bs"
    using assms fields by (auto simp: within_def)
  have x: "l \<le> xs ! i" "xs ! i \<le> h"
    using assms(1) ij by (auto simp: within_def l_def h_def)
  then have c: "carry_of c l \<le> carry_of c (xs ! i)" "carry_of c (xs ! i) \<le> carry_of c h"
    by (auto intro: carry_of_mono)
  then have kc: "k * carry_of c l \<le> k * carry_of c (xs ! i)" "k * carry_of c (xs ! i) \<le> k * carry_of c h"
    using ij by (auto intro: mult_left_mono)
  show ?thesis
    using assms(1) ij len x c kc carry_rest_bounds [OF x(2), of c]
    by (auto simp: fields within_def nth_list_update split_beta Let_def l_def h_def intro: add_mono)
qed

lemma step_ints_value:
  assumes "length xs = length bs" "step_ok n s bs"
  shows "eval_from 0 (step_ints s xs) mod p25519 = eval_from 0 xs mod p25519"
proof (cases s)
  case (fields c i j k)
  define t where "t = carry_of c (xs ! i)"
  have ij: "i < length xs" "j < length xs" "i \<noteq> j"
    and w: "(k * 2 ^ expo j) mod p25519 = 2 ^ (expo i + carry_width c) mod p25519"
    using assms fields by auto
  have "p25519 dvd k * 2 ^ expo j - 2 ^ (expo i + carry_width c)"
    using w by (simp add: mod_eq_dvd_iff)
  then have "p25519 dvd t * (k * 2 ^ expo j - 2 ^ (expo i + carry_width c))"
    by simp
  moreover have "eval_from 0 (step_ints s xs) - eval_from 0 xs = t * (k * 2 ^ expo j - 2 ^ (expo i + carry_width c))"
    using ij by (simp add: fields eval_from_update t_def power_add algebra_simps)
  ultimately show ?thesis
    by (simp add: mod_eq_dvd_iff)
qed

fun step_words :: "carry_step \<Rightarrow> 'a::len word list \<Rightarrow> 'a word list" where
  "step_words (c, i, j, k) ws =
     ws[i := of_int (sint (ws ! i) - carry_of c (sint (ws ! i)) * 2 ^ carry_width c),
        j := of_int (sint (ws ! j) + k * carry_of c (sint (ws ! i)))]"

lemma length_step [simp]:
  "length (step_bounds s bs) = length bs" "length (step_words s ws) = length ws"
  by (cases s; simp add: split_beta Let_def)+

lemma fits_sint:
  assumes "fits LENGTH('a) b" "fst b \<le> z" "z \<le> snd b"
  shows "sint (of_int z :: 'a::len word) = z"
  using assms by (intro sint_of_int_eq_self) (auto simp: fits_def)

lemma step_words_ints:
  fixes ws :: "'a::len word list"
  assumes "tracks bs v ws" "step_ok LENGTH('a) s bs"
  shows "map sint (take (length bs) (step_words s ws)) = step_ints s (map sint (take (length bs) ws))"
proof (cases s)
  case (fields c i j k)
  let ?xs = "map sint (take (length bs) ws)"
  have len: "length bs \<le> length ws" and ij: "i < length bs" "j < length bs" "i \<noteq> j"
    using assms fields by (auto simp: tracks_def)
  have "within (step_bounds s bs) (step_ints s ?xs)"
    using assms by (intro step_ints_within) (auto simp: tracks_def)
  then have "sint (of_int (step_ints s ?xs ! i) :: 'a word) = step_ints s ?xs ! i"
    "sint (of_int (step_ints s ?xs ! j) :: 'a word) = step_ints s ?xs ! j"
    using assms(2) ij fits_sint [where 'a = 'a, of "step_bounds s bs ! i"]
      fits_sint [where 'a = 'a, of "step_bounds s bs ! j"]
    by (auto simp: fields within_def simp del: step_bounds.simps step_ints.simps)
  then show ?thesis
    using len ij by (simp add: fields take_update_swap map_update)
qed

lemma tracks_step:
  assumes "tracks bs v (ws :: 'a::len word list)" "step_ok LENGTH('a) s bs"
  shows "tracks (step_bounds s bs) v (step_words s ws)"
proof -
  have "within bs (map sint (take (length bs) ws))" "length bs \<le> length ws"
    "eval_from 0 (map sint (take (length bs) ws)) mod p25519 = v mod p25519"
    using assms(1) by (auto simp: tracks_def)
  then show ?thesis
    using step_ints_within [OF _ assms(2)] step_ints_value [OF _ assms(2)]
    by (simp add: tracks_def step_words_ints [OF assms] del: step_ints.simps step_bounds.simps step_words.simps)
qed

lemma tracks_run:
  "tracks bs v (ws :: 'a::len word list) \<Longrightarrow> run_steps LENGTH('a) ss bs = Some bs' \<Longrightarrow>
    tracks bs' v (fold step_words ss ws)"
  by (induction ss arbitrary: bs ws)
    (auto simp del: step_ok.simps step_bounds.simps step_words.simps intro: tracks_step split: if_splits)

lemma length_limb: "LENGTH(64) = 64" and length_s32: "LENGTH(32) = 32"
  by simp_all

section \<open>The carries of the code are steps\<close>

lemma sint_drop_bit_32_neg:
  "sint (ucast (drop_bit 32 v) :: 32 word) < 0 \<longleftrightarrow> sint (v :: 64 word) < 0"
  by (simp add: bit_last_iff [symmetric] bit_unsigned_iff bit_drop_bit_eq)

lemma roundoff_value:
  fixes v :: limb
  assumes "w \<in> {25, 26}"
  shows "(scast (drop_bit (32 - w) (signed_drop_bit 31 (ucast (drop_bit 32 v) :: 32 word))) :: limb) =
    (if sint v < 0 then of_int (2 ^ w - 1) else 0)"
  using assms by (auto simp: sign_mask sint_drop_bit_32_neg mask_eq_exp_minus_1)

lemma div_round:
  fixes v :: limb
  assumes "w \<in> {25, 26}"
  shows "signed_drop_bit w (v + (if sint v < 0 then of_int (2 ^ w - 1) else 0)) =
    of_int (carry_of (Truncate w) (sint v))"
proof -
  have "sint (v + of_int (2 ^ w - 1)) = sint v + (2 ^ w - 1)" if "sint v < 0"
    using that assms sint_ge [of v] by (intro sint_eqI) auto
  then show ?thesis
    by (simp add: signed_drop_bit_of_int)
qed

lemma div_by_2_26_carry: "div_by_2_26 v = of_int (carry_of (Truncate 26) (sint v))"
  using roundoff_value [of 26 v] div_round [of 26 v] by (simp add: div_by_2_26_def Let_def)

lemma div_by_2_25_carry: "div_by_2_25 v = of_int (carry_of (Truncate 25) (sint v))"
  using roundoff_value [of 25 v] div_round [of 25 v] by (simp add: div_by_2_25_def Let_def)

lemma reduce_even_step:
  "Suc i < length ws \<Longrightarrow> reduce_even i ws = step_words (Truncate 26, i, Suc i, 1) ws"
  by (simp add: reduce_even_def div_by_2_26_carry Let_def push_bit_eq_mult mult.commute del: carry_of.simps)

lemma reduce_odd_step:
  "Suc i < length ws \<Longrightarrow> reduce_odd i ws = step_words (Truncate 25, i, Suc i, 1) ws"
  by (simp add: reduce_odd_def div_by_2_25_carry Let_def push_bit_eq_mult mult.commute del: carry_of.simps)

lemma add_times_19_nth:
  "i < length ws \<Longrightarrow> i \<noteq> j \<Longrightarrow> add_times_19 i j ws = ws[i := ws ! i + 19 * ws ! j]"
  by (simp add: add_times_19_def Let_def push_bit_eq_mult algebra_simps)

lemma add_times_19_step:
  "10 < length ws \<Longrightarrow> (add_times_19 0 10 ws)[10 := 0] = step_words (Whole, 10, 0, 19) ws"
  using add_times_19_nth [of 0 ws 10] by (cases ws) (auto simp: list_update_swap [of 0 10])

lemma borrow_carry:
  "signed_drop_bit w (x AND signed_drop_bit 31 x) = of_int (carry_of (Borrow w) (sint (x :: s32)))"
proof -
  have "x AND signed_drop_bit 31 x = (if sint x < 0 then x else 0)"
    by (simp add: sign_mask)
  then show ?thesis
    by (simp add: signed_drop_bit_of_int)
qed

lemma contract_borrow_step:
  assumes "i < length ws" "j < length ws" "i \<noteq> j"
  shows "contract_borrow w i j (of_int k) ws = step_words (Borrow w, i, j, k) ws"
  using assms
  by (simp add: contract_borrow_def Let_def borrow_carry push_bit_eq_mult mult.commute del: carry_of.simps)

lemma and_mask_floor:
  "w < LENGTH('a) \<Longrightarrow> (x :: 'a::len word) AND mask w = of_int (sint x - sint x div 2 ^ w * 2 ^ w)"
  unfolding minus_div_mult_eq_mod take_bit_eq_mod [symmetric]
  by (rule bit_eqI)
    (auto simp: bit_and_iff bit_mask_iff bit_word_of_int_iff bit_take_bit_iff bit_sint_iff)

lemma contract_carry_step:
  assumes "i < length ws" "j < length ws" "i \<noteq> j" "w < 32" "m = mask w"
  shows "contract_carry w m i j (of_int k) ws = step_words (Floor w, i, j, k) ws"
  using assms and_mask_floor [of w "ws ! i"]
  by (simp add: contract_carry_def Let_def signed_drop_bit_of_int)

end
