(* ===== verification/Donna_Field.thy ===== *)
theory Donna_Field
  imports Donna_Intervals
begin

text \<open>
  The field arithmetic of curve25519-donna.c computes modulo \<open>2 ^ 255 - 19\<close> and keeps the bounds its
  comments promise.  \<open>fe B v ws\<close> says that the array \<open>ws\<close> represents \<open>v\<close> with limbs below \<open>B\<close> in
  absolute value; every operation has a rule for it.
\<close>

section \<open>Field elements\<close>

definition fe :: "int \<Rightarrow> int \<Rightarrow> limb list \<Rightarrow> bool" where
  "fe B v ws \<longleftrightarrow>
     10 \<le> length ws \<and> (\<forall>i < 10. \<bar>sint (ws ! i)\<bar> < B) \<and>
     eval_from 0 (map sint (take 10 ws)) mod p25519 = v mod p25519"

definition terms10 :: "(nat \<Rightarrow> 'a) \<Rightarrow> 'a list" where
  "terms10 f = [f 0, f 1, f 2, f 3, f 4, f 5, f 6, f 7, f 8, f 9]"

lemma terms10_cong: "(\<And>i. i < 10 \<Longrightarrow> f i = g i) \<Longrightarrow> terms10 f = terms10 g"
  by (simp add: terms10_def)

lemma eval_10:
  "eval_from 0 [x0, x1, x2, x3, x4, x5, x6, x7, x8, x9] =
     x0 + 2 ^ 26 * x1 + 2 ^ 51 * x2 + 2 ^ 77 * x3 + 2 ^ 102 * x4 + 2 ^ 128 * x5 +
     2 ^ 153 * x6 + 2 ^ 179 * x7 + 2 ^ 204 * x8 + 2 ^ 230 * x9"
  by (simp add: expo_def)

lemma eval_19:
  "eval_from 0 [x0, x1, x2, x3, x4, x5, x6, x7, x8, x9, x10, x11, x12, x13, x14, x15, x16, x17, x18] =
     x0 + 2 ^ 26 * x1 + 2 ^ 51 * x2 + 2 ^ 77 * x3 + 2 ^ 102 * x4 + 2 ^ 128 * x5 +
     2 ^ 153 * x6 + 2 ^ 179 * x7 + 2 ^ 204 * x8 + 2 ^ 230 * x9 + 2 ^ 255 * x10 +
     2 ^ 281 * x11 + 2 ^ 306 * x12 + 2 ^ 332 * x13 + 2 ^ 357 * x14 + 2 ^ 383 * x15 +
     2 ^ 408 * x16 + 2 ^ 434 * x17 + 2 ^ 459 * x18"
  by (simp add: expo_def)

lemma product_terms_of_int:
  "product_terms (\<lambda>i. of_int (f i)) (\<lambda>i. of_int (g i)) = map of_int (product_terms f g)"
  by (simp add: product_terms_def)

lemma product_terms_cong:
  "(\<And>i. i < 10 \<Longrightarrow> f i = f' i) \<Longrightarrow> (\<And>i. i < 10 \<Longrightarrow> g i = g' i) \<Longrightarrow>
    product_terms f g = product_terms f' g'"
  by (simp add: product_terms_def)

lemma length_product_terms [simp]: "length (product_terms f g) = 19"
  by (simp add: product_terms_def)

lemma square_terms_product: "square_terms f = product_terms f f"
  by (simp add: square_terms_def product_terms_def algebra_simps)

lemma product_terms_value:
  "eval_from 0 (product_terms f g) = eval_from 0 (terms10 f) * eval_from 0 (terms10 g)"
  unfolding product_terms_def terms10_def eval_10 eval_19 by algebra

text \<open>Each coefficient adds at most 14 products of limbs, as the comments of the code say.\<close>

definition sums_below :: "int \<Rightarrow> nat \<Rightarrow> int \<Rightarrow> bool" where
  "sums_below M m x \<longleftrightarrow> \<bar>x\<bar> \<le> int m * M"

lemma sums_below_add: "sums_below M m x \<Longrightarrow> sums_below M n y \<Longrightarrow> sums_below M (m + n) (x + y)"
  unfolding sums_below_def by (simp add: distrib_right)

lemma sums_below_double: "sums_below M m x \<Longrightarrow> sums_below M (2 * m) (2 * x)"
  unfolding sums_below_def by (simp add: abs_mult)

lemma sums_below_double_product: "sums_below M m (x * y) \<Longrightarrow> sums_below M (2 * m) (2 * x * y)"
  unfolding sums_below_def by (simp add: abs_mult)

lemma sums_below_mono: "sums_below M m x \<Longrightarrow> m \<le> n \<Longrightarrow> 0 \<le> M \<Longrightarrow> \<bar>x\<bar> \<le> int n * M"
  unfolding sums_below_def by (meson mult_right_mono of_nat_mono order_trans)

lemma product_terms_bound:
  fixes f g :: "nat \<Rightarrow> int"
  assumes f: "\<And>i. i < 10 \<Longrightarrow> \<bar>f i\<bar> \<le> A" and g: "\<And>i. i < 10 \<Longrightarrow> \<bar>g i\<bar> \<le> B"
    and x: "x \<in> set (product_terms f g)"
  shows "\<bar>x\<bar> \<le> int 14 * (A * B)"
proof -
  have leaf: "sums_below (A * B) 1 (f i * g j)" if "i < 10" "j < 10" for i j
    using mult_mono [OF f [OF that(1)] g [OF that(2)]] f [OF that(1)]
    by (simp add: sums_below_def abs_mult)
  have "0 \<le> A * B"
    using f [of 0] g [of 0] by simp
  note rules = sums_below_double_product sums_below_double sums_below_add leaf
  show ?thesis
    using x unfolding product_terms_def list.set insert_iff empty_iff
    by (elim disjE FalseE)
      ((hypsubst, rule sums_below_mono [OF _ _ \<open>0 \<le> A * B\<close>], (rule rules | simp)+)[1])+
qed

section \<open>Sums and differences\<close>

lemma fe_mono: "fe B v ws \<Longrightarrow> B \<le> C \<Longrightarrow> fe C v ws"
  by (force simp: fe_def)

lemma take_terms10: "10 \<le> length ws \<Longrightarrow> map sint (take 10 ws) = terms10 (\<lambda>i. sint (ws ! i))"
  by (rule nth_equalityI) (auto simp: terms10_def less_Suc_eq numeral_eq_Suc)

lemma fe_iff_terms:
  "fe B v ws \<longleftrightarrow> 10 \<le> length ws \<and> (\<forall>i < 10. \<bar>sint (ws ! i)\<bar> < B) \<and>
     eval_from 0 (terms10 (\<lambda>i. sint (ws ! i))) mod p25519 = v mod p25519"
  by (auto simp: fe_def take_terms10)

lemma limbwise_nth:
  assumes "i < 10" "10 \<le> length a" "10 \<le> length b"
  shows "limbwise f a b ! i = f (a ! i) (b ! i)"
  using assms by (simp add: limbwise_def nth_append)

lemma length_limbwise [simp]: "10 \<le> length b \<Longrightarrow> 10 \<le> length a \<Longrightarrow> length (limbwise f a b) = length a"
  by (simp add: limbwise_def)

lemma sint64_eqI: "w = of_int z \<Longrightarrow> \<bar>z\<bar> < 2 ^ 63 \<Longrightarrow> sint (w :: limb) = z"
  by (rule sint_eqI) auto

lemma eval_linear:
  "eval_from 0 (terms10 (\<lambda>i. k * f i + l * g i)) = k * eval_from 0 (terms10 f) + l * eval_from 0 (terms10 g)"
  unfolding terms10_def eval_10 by (simp add: algebra_simps)

lemma fe_limbwise:
  assumes x: "fe A a x" and y: "fe B b y"
    and f: "\<And>i. i < 10 \<Longrightarrow> f (x ! i) (y ! i) = of_int (k * sint (x ! i) + l * sint (y ! i))"
    and C: "\<And>u v. \<bar>u\<bar> < A \<Longrightarrow> \<bar>v\<bar> < B \<Longrightarrow> \<bar>k * u + l * v\<bar> < C" "C \<le> 2 ^ 63"
  shows "fe C (k * a + l * b) (limbwise f x y)"
proof -
  have len: "10 \<le> length x" "10 \<le> length y"
    using x y by (auto simp: fe_def)
  have bnd: "\<bar>k * sint (x ! i) + l * sint (y ! i)\<bar> < C" if "i < 10" for i
    using x y that by (intro C) (auto simp: fe_def)
  have s: "sint (limbwise f x y ! i) = k * sint (x ! i) + l * sint (y ! i)" if "i < 10" for i
    using that bnd [OF that] C(2) len by (intro sint64_eqI) (auto simp: limbwise_nth f)
  have "terms10 (\<lambda>i. sint (limbwise f x y ! i)) = terms10 (\<lambda>i. k * sint (x ! i) + l * sint (y ! i))"
    using s by (rule terms10_cong)
  moreover have "(k * eval_from 0 (terms10 (\<lambda>i. sint (x ! i))) + l * eval_from 0 (terms10 (\<lambda>i. sint (y ! i)))) mod p25519
      = (k * a + l * b) mod p25519"
    using x y unfolding fe_iff_terms by (intro mod_add_cong mod_mult_cong) auto
  ultimately show ?thesis
    using bnd s len by (simp add: fe_iff_terms eval_linear)
qed

lemma fe_fsum: "fe A a x \<Longrightarrow> fe B b y \<Longrightarrow> A + B \<le> 2 ^ 63 \<Longrightarrow> fe (A + B) (a + b) (fsum x y)"
  unfolding fsum_def by (drule fe_limbwise [where k = 1 and l = 1 and C = "A + B"]) auto

lemma fe_fdifference: "fe A a x \<Longrightarrow> fe B b y \<Longrightarrow> A + B \<le> 2 ^ 63 \<Longrightarrow> fe (A + B) (b - a) (fdifference x y)"
  unfolding fdifference_def by (drule fe_limbwise [where k = "- 1" and l = 1 and C = "A + B"]) auto

lemma abs_sint_limb: "\<bar>sint (x :: limb)\<bar> < 2 ^ 63 + 1"
  using sint_lt [of x] sint_ge [of x] by simp

lemma fe_any: "10 \<le> length ws \<Longrightarrow> fe (2 ^ 63 + 1) (eval_from 0 (map sint (take 10 ws))) ws"
  using abs_sint_limb by (simp add: fe_def)

lemma fe_memcpy10:
  assumes "fe B b y" "10 \<le> length x" "B \<le> 2 ^ 63"
  shows "fe B b (memcpy10 x y)"
  using fe_limbwise [OF fe_any [OF assms(2)] assms(1), of "\<lambda>x y. y" 0 1 B] assms(3)
  by (simp add: memcpy10_def)

lemma fe_fscalar_product:
  assumes "fe B b y" "10 \<le> length x" "0 < k" "k * B \<le> 2 ^ 63"
  shows "fe (k * B) (k * b) (fscalar_product x y (of_int k))"
  using fe_limbwise [OF fe_any [OF assms(2)] assms(1), of "\<lambda>x y. y * of_int k" 0 k "k * B"] assms(3,4)
  by (simp add: fscalar_product_def abs_mult mult.commute)

section \<open>Products and their reduction\<close>

text \<open>The long form: nineteen limbs.\<close>

definition long_fe :: "int \<Rightarrow> int \<Rightarrow> limb list \<Rightarrow> bool" where
  "long_fe B v ws \<longleftrightarrow>
     length ws = 19 \<and> (\<forall>i < 19. \<bar>sint (ws ! i)\<bar> < B) \<and>
     eval_from 0 (map sint ws) mod p25519 = v mod p25519"

lemma fproduct_ints:
  assumes "fe (2 ^ 27) a x" "fe (2 ^ 27) b y"
  shows "map sint (fproduct x y) = product_terms (\<lambda>i. sint (x ! i)) (\<lambda>i. sint (y ! i))"
    and "z \<in> set (product_terms (\<lambda>i. sint (x ! i)) (\<lambda>i. sint (y ! i))) \<Longrightarrow> \<bar>z\<bar> < 14 * 2 ^ 54"
proof -
  let ?f = "\<lambda>i. sint (x ! i)" and ?g = "\<lambda>i. sint (y ! i)"
  have b: "\<bar>?f i\<bar> \<le> 2 ^ 27 - 1" "\<bar>?g i\<bar> \<le> 2 ^ 27 - 1" if "i < 10" for i
    using assms that by (auto simp: fe_def)
  show z: "\<bar>z\<bar> < 14 * 2 ^ 54" if "z \<in> set (product_terms ?f ?g)" for z
    using product_terms_bound [OF b that] by simp
  have "fproduct x y = product_terms (\<lambda>i. of_int (?f i)) (\<lambda>i. of_int (?g i))"
    unfolding fproduct_def using b by (intro product_terms_cong sint_s32_limb) (force simp: abs_le_iff)+
  then have "fproduct x y = map of_int (product_terms ?f ?g)"
    by (simp only: product_terms_of_int)
  moreover have "sint (of_int z :: limb) = z" if "z \<in> set (product_terms ?f ?g)" for z
    using z [OF that] by (intro sint64_eqI) auto
  ultimately show "map sint (fproduct x y) = product_terms ?f ?g"
    by (simp add: map_idI)
qed

lemma fproduct_long:
  assumes "fe (2 ^ 27) a x" "fe (2 ^ 27) b y"
  shows "long_fe (14 * 2 ^ 54) (a * b) (fproduct x y)"
proof -
  have len: "length (fproduct x y) = 19"
    by (simp add: fproduct_def)
  have "\<bar>sint (fproduct x y ! i)\<bar> < 14 * 2 ^ 54" if "i < 19" for i
    using fproduct_ints [OF assms] that len by (metis length_map nth_map nth_mem)
  then show ?thesis
    using assms len unfolding long_fe_def fproduct_ints(1) [OF assms] product_terms_value fe_iff_terms
    by (auto intro: mod_mult_cong)
qed

lemma fsquare_inner_fproduct: "fsquare_inner x = fproduct x x"
  by (simp add: fsquare_inner_def fproduct_def square_terms_product)

lemma eval_from_10: "eval_from (10 + i) xs = 2 ^ 255 * eval_from i xs"
proof (induction xs arbitrary: i)
  case (Cons x xs)
  have "expo (10 + i) = 255 + expo i"
    by (simp add: expo_def)
  then show ?case
    using Cons [of "Suc i"] by (simp add: power_add algebra_simps)
qed simp

lemma freduce_degree_nth:
  assumes "length ws = 19"
  shows "length (freduce_degree ws) = 19"
    and "i < 10 \<Longrightarrow> freduce_degree ws ! i = ws ! i + 19 * (if i < 9 then ws ! (10 + i) else 0)"
  using assms by (auto simp: freduce_degree_def Let_def add_times_19_nth less_Suc_eq numeral_eq_Suc)

lemma eval_high_limbs:
  assumes "length ws = 19"
  shows "eval_from 0 (map sint ws) =
    eval_from 0 (terms10 (\<lambda>i. sint (ws ! i))) +
    2 ^ 255 * eval_from 0 (terms10 (\<lambda>i. if i < 9 then sint (ws ! (10 + i)) else 0))"
proof -
  have "map sint (drop 10 ws) @ [0] = terms10 (\<lambda>i. if i < 9 then sint (ws ! (10 + i)) else 0)"
    using assms by (intro nth_equalityI) (auto simp: terms10_def nth_append less_Suc_eq numeral_eq_Suc)
  then have "eval_from 0 (map sint (drop 10 ws)) =
      eval_from 0 (terms10 (\<lambda>i. if i < 9 then sint (ws ! (10 + i)) else 0))"
    by (simp add: eval_from_append flip: \<open>_ = terms10 _\<close>)
  moreover have "eval_from 0 (map sint ws) =
      eval_from 0 (map sint (take 10 ws)) + eval_from (10 + 0) (map sint (drop 10 ws))"
    using eval_from_append [of 0 "map sint (take 10 ws)" "map sint (drop 10 ws)"] assms
    by (simp flip: map_append)
  ultimately show ?thesis
    using assms by (simp only: eval_from_10 take_terms10)
qed

lemma freduce_degree_fe:
  assumes "long_fe (14 * 2 ^ 54) v ws"
  shows "fe (280 * 2 ^ 54) v (freduce_degree ws)"
proof -
  let ?g = "\<lambda>i. if i < 9 then sint (ws ! (10 + i)) else 0"
  have len: "length ws = 19"
    using assms by (simp add: long_fe_def)
  have b: "\<bar>sint (ws ! i)\<bar> < 14 * 2 ^ 54" if "i < 19" for i
    using assms that by (auto simp: long_fe_def)
  have b': "\<bar>sint (ws ! i) + 19 * ?g i\<bar> < 280 * 2 ^ 54" if "i < 10" for i
    using b [of i] b [of "10 + i"] that by auto
  have s: "sint (freduce_degree ws ! i) = 1 * sint (ws ! i) + 19 * ?g i" if "i < 10" for i
    using b' [OF that] that len by (intro sint64_eqI) (auto simp: freduce_degree_nth)
  have "terms10 (\<lambda>i. sint (freduce_degree ws ! i)) = terms10 (\<lambda>i. 1 * sint (ws ! i) + 19 * ?g i)"
    using s by (rule terms10_cong)
  moreover have "eval_from 0 (map sint ws) = eval_from 0 (terms10 (\<lambda>i. 1 * sint (ws ! i) + 19 * ?g i)) +
      p25519 * eval_from 0 (terms10 ?g)"
    unfolding eval_high_limbs [OF len] eval_linear p25519_def by (simp add: algebra_simps)
  ultimately show ?thesis
    using assms b' s len by (simp add: fe_iff_terms long_fe_def freduce_degree_nth(1))
qed

text \<open>The steps of \<open>freduce_coefficients\<close> on eleven limbs.\<close>

definition reduce_steps :: "carry_step list" where
  "reduce_steps =
     concat (map (\<lambda>i. [(Truncate 26, i, Suc i, 1), (Truncate 25, Suc i, Suc (Suc i), 1)]) [0, 2, 4, 6, 8]) @
     [(Whole, 10, 0, 19), (Truncate 26, 0, Suc 0, 1)]"

lemma freduce_coefficients_steps:
  assumes "10 < length ws"
  shows "freduce_coefficients ws = fold step_words reduce_steps (ws[10 := 0])"
  using assms
  by (simp add: freduce_coefficients_def reduce_steps_def Let_def reduce_even_step reduce_odd_step
      add_times_19_step del: step_words.simps)

lemma reduce_steps_bounds:
  defines "b \<equiv> (- (2 ^ 26 - 1), 2 ^ 26 - 1)" and "c \<equiv> (- (2 ^ 25 - 1), 2 ^ 25 - 1)"
  shows "run_steps LENGTH(64) reduce_steps
     (replicate 10 (- (280 * 2 ^ 54 - 1), 280 * 2 ^ 54 - 1) @ [(0, 0)]) =
     Some ([b, (-33596992, 33596992), b, c, b, c, b, c, b, c] @ [(0, 0)])"
  unfolding length_limb b_def c_def by code_simp

lemma tracks_fe_start:
  assumes "fe B v ws" "10 < length ws"
  shows "tracks (replicate 10 (- (B - 1), B - 1) @ [(0, 0)]) v (ws[10 := 0])"
proof -
  have "take 11 (ws[10 := 0]) = take 10 (ws[10 := 0]) @ [ws[10 := 0] ! 10]"
    using assms(2) take_Suc_conv_app_nth [of 10 "ws[10 := 0]"] by simp
  then have t: "map sint (take 11 (ws[10 := 0])) = map sint (take 10 ws) @ [0]"
    using assms(2) by simp
  have "- (B - 1) \<le> x \<and> x \<le> B - 1" if x: "x \<in> set (map sint (take 10 ws))" for x
  proof -
    obtain i where "i < 10" "x = sint (ws ! i)"
      using x by (auto simp: in_set_conv_nth)
    then have "\<bar>x\<bar> < B"
      using assms(1) by (auto simp: fe_def)
    then show ?thesis
      by linarith
  qed
  then have "within (replicate 10 (- (B - 1), B - 1)) (map sint (take 10 ws))"
    using assms(2) by (auto simp: within_replicate)
  then show ?thesis
    using assms by (simp add: tracks_def t within_append fe_def eval_from_append)
qed

lemma tracks_fe_end:
  assumes t: "tracks (bs @ [(0, 0)]) v ws" and bs: "length bs = 10" "\<forall>b \<in> set bs. - B < fst b \<and> snd b < B"
  shows "fe B v ws"
proof -
  have len: "10 < length ws"
    using t bs by (simp add: tracks_def)
  have split: "map sint (take 11 ws) = map sint (take 10 ws) @ [sint (ws ! 10)]"
    using len take_Suc_conv_app_nth [of 10 ws] by simp
  then have w: "within bs (map sint (take 10 ws))" "sint (ws ! 10) = 0"
    using t bs len by (simp_all add: tracks_def within_append)
  have "\<bar>sint (ws ! i)\<bar> < B" if "i < 10" for i
  proof -
    have "fst (bs ! i) \<le> sint (ws ! i)" "sint (ws ! i) \<le> snd (bs ! i)"
      using w(1) that len bs by (auto simp: within_def)
    moreover have "- B < fst (bs ! i)" "snd (bs ! i) < B"
      using bs that by auto
    ultimately show ?thesis
      by (simp add: abs_less_iff)
  qed
  then show ?thesis
    using t bs len w(2) by (simp add: tracks_def fe_def split eval_from_append)
qed

lemma freduce_coefficients_fe:
  assumes "fe (280 * 2 ^ 54) v ws" "10 < length ws"
  shows "fe (2 ^ 26) v (freduce_coefficients ws)"
proof -
  show ?thesis
    unfolding freduce_coefficients_steps [OF assms(2)]
    by (rule tracks_fe_end [OF tracks_run [OF tracks_fe_start [OF assms] reduce_steps_bounds]]) simp_all
qed

text \<open>A product of elements below \<open>2 ^ 27\<close>, reduced, is below \<open>2 ^ 26\<close>.\<close>

lemma fe_reduced_product:
  assumes "fe (2 ^ 27) a x" "fe (2 ^ 27) b y"
  shows "fe (2 ^ 26) (a * b) (freduce_coefficients (freduce_degree (fproduct x y)))"
proof -
  have "length (freduce_degree (fproduct x y)) = 19"
    by (intro freduce_degree_nth) (simp add: fproduct_def)
  then show ?thesis
    using fproduct_long [OF assms] by (intro freduce_coefficients_fe freduce_degree_fe) auto
qed

lemma fe_take: "fe B v ws \<Longrightarrow> fe B v (take 10 ws)"
  by (simp add: fe_def)

lemma fe_fmul: "fe (2 ^ 27) a x \<Longrightarrow> fe (2 ^ 27) b y \<Longrightarrow> fe (2 ^ 26) (a * b) (fmul x y)"
  by (simp add: fmul_def fe_take fe_reduced_product del: power_numeral)

lemma fe_fsquare: "fe (2 ^ 27) a x \<Longrightarrow> fe (2 ^ 26) (a * a) (fsquare x)"
  by (simp add: fsquare_def fe_take fe_reduced_product fsquare_inner_fproduct del: power_numeral)

section \<open>Inversion\<close>

lemma fe_27: "fe (2 ^ 26) a x \<Longrightarrow> fe (2 ^ 27) a x"
  by (erule fe_mono) simp

lemma fe_fsquare_power: "fe (2 ^ 26) (v ^ a) x \<Longrightarrow> fe (2 ^ 26) (v ^ (2 * a)) (fsquare x)"
  using fe_fsquare [OF fe_27] by (simp add: mult_2 power_add del: power_numeral)

lemma fe_fmul_power:
  "fe (2 ^ 26) (v ^ a) x \<Longrightarrow> fe (2 ^ 26) (v ^ b) y \<Longrightarrow> fe (2 ^ 26) (v ^ (a + b)) (fmul x y)"
  using fe_fmul [OF fe_27 fe_27] by (simp add: power_add del: power_numeral)

declare square_loop.simps [simp del]

lemma fe_square_loop:
  "fe (2 ^ 26) (v ^ a) x \<Longrightarrow> even (n - i) \<Longrightarrow> fe (2 ^ 26) (v ^ (2 ^ (n - i) * a)) (square_loop i n x)"
proof (induction i n x arbitrary: a rule: square_loop.induct)
  case (1 i n x)
  show ?case
  proof (cases "i < n")
    case True
    then have n: "n - i = Suc (Suc (n - (i + 2)))"
      using 1(3) by (cases "n = Suc i") auto
    have "fe (2 ^ 26) (v ^ (2 ^ (n - (i + 2)) * (2 * (2 * a)))) (square_loop (i + 2) n (fsquare (fsquare x)))"
      using 1(3) n by (intro 1(1) [OF True] fe_fsquare_power 1(2)) auto
    then show ?thesis
      using True n square_loop.simps [of i n x] by (simp add: mult.assoc mult.left_commute)
  qed (use 1(2) square_loop.simps [of i n x] in simp)
qed

text \<open>The rules for the bindings of \<open>crecip\<close>: each names the exponent of the value just computed.\<close>

lemma let_fsquare:
  "fe (2 ^ 26) (v ^ a) x \<Longrightarrow> (\<And>y. fe (2 ^ 26) (v ^ (2 * a)) y \<Longrightarrow> fe (2 ^ 26) u (f y)) \<Longrightarrow>
    fe (2 ^ 26) u (let y = fsquare x in f y)"
  unfolding Let_def by (blast intro: fe_fsquare_power)

lemma let_fmul:
  "fe (2 ^ 26) (v ^ a) x \<Longrightarrow> fe (2 ^ 26) (v ^ b) x' \<Longrightarrow>
    (\<And>y. fe (2 ^ 26) (v ^ (a + b)) y \<Longrightarrow> fe (2 ^ 26) u (f y)) \<Longrightarrow>
    fe (2 ^ 26) u (let y = fmul x x' in f y)"
  unfolding Let_def by (blast intro: fe_fmul_power)

lemma let_square_loop:
  "fe (2 ^ 26) (v ^ a) x \<Longrightarrow>
    (\<And>y. fe (2 ^ 26) (v ^ (2 ^ (n - i) * a)) y \<Longrightarrow> fe (2 ^ 26) u (f y)) \<Longrightarrow> even (n - i) \<Longrightarrow>
    fe (2 ^ 26) u (let y = square_loop i n x in f y)"
  unfolding Let_def by (blast intro: fe_square_loop)

lemma fe_fmul_exponent:
  "fe (2 ^ 26) (v ^ a) x \<Longrightarrow> fe (2 ^ 26) (v ^ b) y \<Longrightarrow> a + b = c \<Longrightarrow> fe (2 ^ 26) (v ^ c) (fmul x y)"
  using fe_fmul_power by blast

lemma fe_crecip:
  assumes "fe (2 ^ 26) v z"
  shows "fe (2 ^ 26) (v ^ nat (p25519 - 2)) (crecip z)"
proof -
  have "fe (2 ^ 26) (v ^ 1) z"
    using assms by simp
  then show ?thesis
    unfolding crecip_def
    by - ((rule let_fsquare, assumption | rule let_fmul, assumption, assumption |
        rule let_square_loop, assumption)+, rule fe_fmul_exponent, assumption, assumption,
        simp_all add: p25519_def)
qed

end
