(* ===== verification/Donna_Ladder.thy ===== *)
theory Donna_Ladder
  imports Donna_Field
begin

text \<open>
  The ladder of curve25519-donna.c against the Montgomery ladder of RFC 7748, section 5, over the
  integers modulo \<open>2 ^ 255 - 19\<close>.
\<close>

section \<open>The reference\<close>

text \<open>
  One iteration of the ladder of RFC 7748 on \<open>((x_2, z_2), (x_3, z_3))\<close>, \<open>u\<close> the coordinate \<open>x_1\<close>
  of the input point, without the conditional swaps.
\<close>

type_synonym ladder_point = "(int \<times> int) \<times> (int \<times> int)"

definition ladder_step :: "int \<Rightarrow> ladder_point \<Rightarrow> ladder_point" where
  "ladder_step u P =
     (let ((x2, z2), (x3, z3)) = P;
          A = x2 + z2; AA = A * A;
          B = x2 - z2; BB = B * B;
          E = AA - BB;
          C = x3 + z3; D = x3 - z3;
          DA = D * A; CB = C * B
      in ((AA * BB mod p25519, E * (AA + 121665 * E) mod p25519),
          ((DA + CB) * (DA + CB) mod p25519, u * ((DA - CB) * (DA - CB)) mod p25519)))"

definition swap_if :: "bool \<Rightarrow> ladder_point \<Rightarrow> ladder_point" where
  "swap_if b P = (if b then (snd P, fst P) else P)"

primrec ladder :: "int \<Rightarrow> int \<Rightarrow> nat \<Rightarrow> ladder_point \<Rightarrow> ladder_point" where
  "ladder k u 0 P = P"
| "ladder k u (Suc t) P = ladder k u t (swap_if (bit k t) (ladder_step u (swap_if (bit k t) P)))"

text \<open>The scalar has 256 bits here: the code does not clear its highest bit.\<close>

definition x25519 :: "int \<Rightarrow> int \<Rightarrow> int" where
  "x25519 k u = (let ((x2, z2), _) = ladder k u 256 ((1, 0), (u, 1)) in x2 * z2 ^ nat (p25519 - 2) mod p25519)"

section \<open>One step\<close>

definition fe_point :: "ladder_point \<Rightarrow> limb list \<Rightarrow> limb list \<Rightarrow> limb list \<Rightarrow> limb list \<Rightarrow> bool" where
  "fe_point P x z px pz \<longleftrightarrow>
     fe (2 ^ 26) (fst (fst P)) x \<and> fe (2 ^ 26) (snd (fst P)) z \<and>
     fe (2 ^ 26) (fst (snd P)) px \<and> fe (2 ^ 26) (snd (snd P)) pz"

lemma fe_sum_26: "fe (2 ^ 26) a x \<Longrightarrow> fe (2 ^ 26) b y \<Longrightarrow> fe (2 ^ 27) (a + b) (fsum x y)"
  using fe_fsum [of "2 ^ 26" a x "2 ^ 26" b y] by simp

lemma fe_difference_26: "fe (2 ^ 26) a x \<Longrightarrow> fe (2 ^ 26) b y \<Longrightarrow> fe (2 ^ 27) (b - a) (fdifference x y)"
  using fe_fdifference [of "2 ^ 26" a x "2 ^ 26" b y] by simp

lemma fe_scaled:
  assumes "fe (2 ^ 27) b y"
  shows "fe (2 ^ 26) (121665 * b) (freduce_coefficients (fscalar_product (replicate 19 0) y 121665))"
proof -
  have "fe (121665 * 2 ^ 27) (121665 * b) (fscalar_product (replicate 19 0) y (of_int 121665))"
    using assms by (intro fe_fscalar_product) simp_all
  moreover have "length (fscalar_product (replicate 19 0) y 121665) = 19"
    using assms by (simp add: fscalar_product_def fe_def)
  ultimately show ?thesis
    by (intro freduce_coefficients_fe) (auto intro: fe_mono)
qed

lemmas fe_rules = fe_take fe_sum_26 fe_difference_26 fe_scaled fe_reduced_product fe_fsquare fe_27

lemma ladder_step_values:
  "ladder_step u ((x2, z2), (x3, z3)) =
     (let A = x2 + z2; B = x2 - z2; C = x3 + z3; D = x3 - z3; E = A * A - B * B
      in (((A * A) * (B * B) mod p25519, E * (121665 * E + A * A) mod p25519),
          ((C * B + A * D) * (C * B + A * D) mod p25519, (C * B - A * D) * (C * B - A * D) * u mod p25519)))"
  by (simp add: ladder_step_def Let_def algebra_simps)

lemma fe_mod: "fe B v ws \<Longrightarrow> fe B (v mod p25519) ws"
  by (simp add: fe_def)

lemma fmonty_fe:
  assumes P: "fe_point P (nqx s) (nqz s) (nqpqx s) (nqpqz s)" and q: "fe (2 ^ 26) u q"
    and len: "10 \<le> length (nqpqx2 s)" "10 \<le> length (nqpqz2 s)"
  shows "fe_point (ladder_step u P)
    (nqx2 (fmonty q s)) (nqz2 (fmonty q s)) (nqpqx2 (fmonty q s)) (nqpqz2 (fmonty q s))"
proof -
  obtain x2 z2 x3 z3 where [simp]: "P = ((x2, z2), (x3, z3))"
    by (metis surj_pair)
  have fes: "fe (2 ^ 26) x2 (nqx s)" "fe (2 ^ 26) z2 (nqz s)" "fe (2 ^ 26) x3 (nqpqx s)" "fe (2 ^ 26) z3 (nqpqz s)"
    using P by (simp_all add: fe_point_def)
  have le: "(2 :: int) ^ 26 \<le> 2 ^ 63"
    by simp
  show ?thesis
    unfolding fe_point_def fmonty_def Let_def ladder_step_values \<open>P = _\<close> fst_conv snd_conv ladder_arrays.select_convs
    by (intro conjI fe_mod;
        (rule fe_memcpy10 [OF _ len(1) le] fe_memcpy10 [OF _ len(2) le] fe_rules fes q)+)
qed

section \<open>The conditional swap\<close>

lemma s32_round_trip:
  assumes "\<bar>sint w\<bar> < 2 ^ 26"
  shows "scast (ucast w :: s32) = (w :: limb)"
  using sint_s32_limb [of w] assms by (simp add: s32_limb_def abs_less_iff)

lemma swap_mask: "(ucast (- of_bool b :: limb) :: s32) = (if b then - 1 else 0)"
  by (cases b; simp; rule bit_eqI; simp add: bit_unsigned_iff)

lemma fe_swap_conditional:
  assumes x: "fe (2 ^ 26) a x" and y: "fe (2 ^ 26) b y"
  shows "fe (2 ^ 26) (if c then b else a) (fst (swap_conditional x y (of_bool c)))"
    and "fe (2 ^ 26) (if c then a else b) (snd (swap_conditional x y (of_bool c)))"
proof -
  have rt: "scast (ucast (x ! i) :: s32) = x ! i" "scast (ucast (y ! i) :: s32) = y ! i" if "i < 10" for i
    using x y that by (auto simp: fe_def intro!: s32_round_trip)
  note xor = xor.left_commute xor_self_eq xor.right_neutral
  show "fe (2 ^ 26) (if c then b else a) (fst (swap_conditional x y (of_bool c)))"
    using fe_limbwise [OF x y, of _ "of_bool (\<not> c)" "of_bool c" "2 ^ 26"]
    unfolding swap_conditional_def Let_def swap_mask fst_conv by (cases c) (simp_all add: rt xor)
  show "fe (2 ^ 26) (if c then a else b) (snd (swap_conditional x y (of_bool c)))"
    using fe_limbwise [OF y x, of _ "of_bool (\<not> c)" "of_bool c" "2 ^ 26"]
    unfolding swap_conditional_def Let_def swap_mask snd_conv by (cases c) (simp_all add: rt xor)
qed

section \<open>The loops of cmult\<close>

definition ladder_inv :: "ladder_point \<Rightarrow> ladder_arrays \<Rightarrow> bool" where
  "ladder_inv P s \<longleftrightarrow>
     fe_point P (nqx s) (nqz s) (nqpqx s) (nqpqz s) \<and> 10 \<le> length (nqpqx2 s) \<and> 10 \<le> length (nqpqz2 s)"

lemma fe_point_swap:
  assumes "fe_point P x z px pz"
  shows "fe_point (swap_if c P)
    (fst (swap_conditional x px (of_bool c))) (fst (swap_conditional z pz (of_bool c)))
    (snd (swap_conditional x px (of_bool c))) (snd (swap_conditional z pz (of_bool c)))"
  using assms fe_swap_conditional [where c = c]
  by (fastforce simp: fe_point_def swap_if_def split: if_splits)

lemma fe_point_length:
  "fe_point P x z px pz \<Longrightarrow> 10 \<le> length x \<and> 10 \<le> length z \<and> 10 \<le> length px \<and> 10 \<le> length pz"
  by (simp add: fe_point_def fe_def)

lemma fmonty_length:
  assumes "10 \<le> length (nqpqx s)" "10 \<le> length (nqpqz s)"
  shows "length (nqpqx (fmonty q s)) = length (nqpqx s)" "length (nqpqz (fmonty q s)) = length (nqpqz s)"
  using assms by (simp_all add: fmonty_def Let_def fsum_def fdifference_def)

lemma cmult_bit_inv:
  assumes "ladder_inv P s" "fe (2 ^ 26) u q"
  shows "ladder_inv (swap_if c (ladder_step u (swap_if c P))) (cmult_bit q (of_bool c) s)"
proof -
  let ?b = "of_bool c"
  define s' where "s' = s\<lparr>nqx := fst (swap_conditional (nqx s) (nqpqx s) ?b),
    nqz := fst (swap_conditional (nqz s) (nqpqz s) ?b), nqpqx := snd (swap_conditional (nqx s) (nqpqx s) ?b),
    nqpqz := snd (swap_conditional (nqz s) (nqpqz s) ?b)\<rparr>"
  have P: "fe_point (swap_if c P) (nqx s') (nqz s') (nqpqx s') (nqpqz s')"
    using assms(1) fe_point_swap by (simp add: s'_def ladder_inv_def)
  then have "fe_point (ladder_step u (swap_if c P))
      (nqx2 (fmonty q s')) (nqz2 (fmonty q s')) (nqpqx2 (fmonty q s')) (nqpqz2 (fmonty q s'))"
    using assms by (intro fmonty_fe) (auto simp: s'_def ladder_inv_def)
  from fe_point_swap [OF this, of c] show ?thesis
    using fmonty_length [of s' q] fe_point_length [OF P]
    by (simp add: ladder_inv_def cmult_bit_def Let_def split_beta flip: s'_def)
qed

lemma byte_top_bit: "ucast (drop_bit 7 (byt :: byte)) = (of_bool (bit byt 7) :: limb)"
proof (rule bit_eqI)
  fix n
  show "bit (ucast (drop_bit 7 byt) :: limb) n = bit (of_bool (bit byt 7) :: limb) n"
    using bit_imp_le_length [of byt "7 + n"]
    by (cases n) (auto simp: bit_unsigned_iff bit_drop_bit_eq bit_of_bool_iff)
qed

lemma byte_shift_bit: "n < 7 \<Longrightarrow> bit (push_bit 1 (byt :: byte)) (Suc n) = bit byt n"
  by (simp only: bit_push_bit_iff) simp

lemma cmult_byte_inv:
  assumes "ladder_inv P s" "fe (2 ^ 26) u q" "j \<le> 8" "\<forall>m < j. bit k (t + m) = bit byt (8 - j + m)"
  shows "\<exists>P'. ladder_inv P' (cmult_byte q j byt s) \<and> ladder k u (t + j) P = ladder k u t P'"
  using assms
proof (induction j arbitrary: P s byt)
  case (Suc j)
  have top: "ucast (drop_bit 7 byt) = (of_bool (bit k (t + j)) :: limb)"
    using Suc.prems(3,4) by (simp add: byte_top_bit)
  have "bit k (t + m) = bit (push_bit 1 byt) (8 - j + m)" if "m < j" for m
  proof -
    have "8 - j + m = Suc (8 - Suc j + m)" "8 - Suc j + m < 7"
      using that Suc.prems(3) by auto
    then show ?thesis
      using Suc.prems(4) that byte_shift_bit [of "8 - Suc j + m" byt] by (simp del: push_bit_Suc)
  qed
  then have "\<forall>m < j. bit k (t + m) = bit (push_bit 1 byt) (8 - j + m)"
    by blast
  from Suc.IH [OF cmult_bit_inv [OF Suc.prems(1,2)] Suc.prems(2) _ this] show ?case
    using Suc.prems(3) by (simp add: top)
qed auto

section \<open>Little-endian numbers\<close>

primrec le_value :: "bytes \<Rightarrow> int" where
  "le_value [] = 0"
| "le_value (b # bs) = uint b + 256 * le_value bs"

lemma bit_le_value:
  "i < length bs \<Longrightarrow> m < 8 \<Longrightarrow> bit (le_value bs) (8 * i + m) = bit (bs ! i) m"
proof (induction bs arbitrary: i)
  case (Cons b bs)
  have "push_bit 8 (le_value bs) AND uint b = 0"
    by (rule bit_eqI) (auto simp: bit_and_iff bit_push_bit_iff bit_uint_iff)
  then have le: "le_value (b # bs) = push_bit 8 (le_value bs) OR uint b"
    by (simp add: push_bit_eq_mult flip: disjunctive_add_eq_or)
  show ?case
  proof (cases i)
    case 0
    then show ?thesis
      using Cons.prems unfolding le by (simp add: bit_or_iff bit_push_bit_iff bit_uint_iff)
  next
    case (Suc j)
    then have "\<not> bit (uint b) (8 * i + m)"
      by (simp add: bit_uint_iff)
    then show ?thesis
      using Cons Suc unfolding le by (simp add: bit_or_iff bit_push_bit_iff)
  qed
qed simp

lemma cmult_loop_inv:
  assumes "ladder_inv P s" "fe (2 ^ 26) u q" "length n = 32" "i \<le> 32"
  shows "\<exists>P'. ladder_inv P' (fold (\<lambda>i s. cmult_byte q 8 (n ! (31 - i)) s) [0..<i] s) \<and>
    ladder (le_value n) u 256 P = ladder (le_value n) u (256 - 8 * i) P'"
  using assms(4)
proof (induction i)
  case 0
  show ?case using assms(1) by (intro exI [of _ P]) simp
next
  case (Suc i)
  then obtain P' where P': "ladder_inv P' (fold (\<lambda>i s. cmult_byte q 8 (n ! (31 - i)) s) [0..<i] s)"
    "ladder (le_value n) u 256 P = ladder (le_value n) u (256 - 8 * i) P'"
    by auto
  have e: "256 - 8 * Suc i = 8 * (31 - i)" "256 - 8 * i = 8 * (31 - i) + 8"
    using Suc.prems by auto
  have "\<forall>m < 8. bit (le_value n) (8 * (31 - i) + m) = bit (n ! (31 - i)) (8 - 8 + m)"
    using assms(3) by (simp add: bit_le_value)
  from cmult_byte_inv [OF P'(1) assms(2) order_refl this] show ?case
    unfolding P'(2) e by simp
qed

lemma fe_const: "fe (2 ^ 26) 0 (replicate 19 0)" "fe (2 ^ 26) 1 (1 # replicate 18 0)"
  by (auto simp: fe_def nth_Cons expo_def numeral_eq_Suc split: nat.splits)

lemma cmult_fe:
  assumes "fe (2 ^ 26) u q" "length n = 32"
  shows "let P = fst (ladder (le_value n) u 256 ((1, 0), (u, 1)))
    in fe (2 ^ 26) (fst P) (fst (cmult n q)) \<and> fe (2 ^ 26) (snd P) (snd (cmult n q))"
proof -
  define s where "s = \<lparr>nqx = 1 # replicate 18 0, nqz = replicate 19 0, nqpqx = memcpy10 (replicate 19 0) q,
    nqpqz = 1 # replicate 18 0, nqx2 = replicate 19 0, nqz2 = 1 # replicate 18 0, nqpqx2 = replicate 19 0,
    nqpqz2 = 1 # replicate 18 (0 :: limb)\<rparr>"
  have "ladder_inv ((1, 0), (u, 1)) s"
    using fe_const fe_memcpy10 [OF assms(1), of "replicate 19 0"] by (simp add: ladder_inv_def fe_point_def s_def)
  from cmult_loop_inv [OF this assms order_refl] show ?thesis
    by (auto simp: cmult_def Let_def ladder_inv_def fe_point_def fe_take simp flip: s_def)
qed

section \<open>Reading a point\<close>

lemma nth_terms10: "i < 10 \<Longrightarrow> terms10 f ! i = f i"
  by (auto simp: terms10_def less_Suc_eq numeral_eq_Suc)

lemma bit_four_bytes:
  assumes "k < 32" "start + 3 < length bs"
  shows "bit (ucast (bs ! start) OR push_bit 8 (ucast (bs ! (start + 1))) OR
      push_bit 16 (ucast (bs ! (start + 2))) OR push_bit 24 (ucast (bs ! (start + 3))) :: limb) k
    = bit (le_value bs) (8 * start + k)"
proof -
  have top: "\<not> bit b n" if "8 \<le> n" for b :: byte and n
    using that bit_imp_le_length [of b n] by auto
  obtain j m where k: "k = 8 * j + m" "j < 4" "m < 8"
    using assms(1) that [of "k div 8" "k mod 8"] by simp
  have V: "bit (le_value bs) (8 * start + k) = bit (bs ! (start + j)) m"
    using k assms(2) bit_le_value [of "start + j" bs m] by (simp add: algebra_simps)
  consider "j = 0" | "j = 1" | "j = 2" | "j = 3"
    using k by linarith
  then show ?thesis
    unfolding V by cases (use k(3) in \<open>simp_all add: k(1) bit_or_iff bit_push_bit_iff bit_unsigned_iff top
      del: push_bit_numeral\<close>)
qed

lemma expand_limb_value:
  assumes "start + 3 < length bs" "shift + w \<le> 32" "w < 32"
  shows "sint (expand_limb bs start shift (mask w)) = take_bit w (drop_bit (8 * start + shift) (le_value bs))"
proof -
  have b: "bit (expand_limb bs start shift (mask w)) n \<longleftrightarrow> n < w \<and> bit (le_value bs) (8 * start + shift + n)" for n
    using assms bit_four_bytes [of "shift + n" start bs]
    by (auto simp: expand_limb_def bit_and_iff bit_mask_iff bit_signed_drop_bit_iff add.assoc)
  then have "expand_limb bs start shift (mask w) = of_int (take_bit w (drop_bit (8 * start + shift) (le_value bs)))"
    using assms by (intro bit_eqI) (auto simp: bit_word_of_int_iff bit_take_bit_iff bit_drop_bit_eq)
  moreover have "0 \<le> take_bit w (drop_bit (8 * start + shift) (le_value bs))"
    "take_bit w (drop_bit (8 * start + shift) (le_value bs)) < 2 ^ w" "(2 :: int) ^ w < 2 ^ 63"
    using assms by (simp_all add: power_strict_increasing del: power_numeral)
  ultimately show ?thesis
    by (intro sint64_eqI) (simp, linarith)
qed

lemma take_bit_split: "take_bit (e + w) V = take_bit e V + 2 ^ e * take_bit w (drop_bit e (V :: int))"
  using zmod_zmult2_eq [of "2 ^ w" V "2 ^ e"]
  by (simp add: take_bit_eq_mod drop_bit_eq_div power_add)

lemma fexpand_terms:
  assumes "length bs = 32"
  shows "map sint (fexpand bs) = terms10 (\<lambda>i. take_bit (if odd i then 25 else 26) (drop_bit (expo i) (le_value bs)))"
proof -
  have m: "(0x3ffffff :: limb) = mask 26" "(0x1ffffff :: limb) = mask 25"
    by (simp_all add: mask_eq_exp_minus_1)
  show ?thesis
    unfolding fexpand_def terms10_def m list.map using assms
    by (simp only: expand_limb_value) (simp add: expo_def)
qed

lemma fexpand_fe:
  assumes "length bs = 32"
  shows "fe (2 ^ 26) (le_value bs mod 2 ^ 255) (fexpand bs)"
proof -
  let ?V = "le_value bs"
  have "take_bit 255 ?V = eval_from 0 (map sint (fexpand bs))"
    using take_bit_split [of 0 26 ?V] take_bit_split [of 26 25 ?V] take_bit_split [of 51 26 ?V]
      take_bit_split [of 77 25 ?V] take_bit_split [of 102 26 ?V] take_bit_split [of 128 25 ?V]
      take_bit_split [of 153 26 ?V] take_bit_split [of 179 25 ?V] take_bit_split [of 204 26 ?V]
      take_bit_split [of 230 25 ?V]
    unfolding fexpand_terms [OF assms] terms10_def eval_10 by (simp add: expo_def del: power_numeral)
  moreover have "\<bar>sint (fexpand bs ! i)\<bar> < 2 ^ 26" if "i < 10" for i
  proof -
    have "sint (fexpand bs ! i) = map sint (fexpand bs) ! i"
      using that by (subst nth_map) (simp_all add: fexpand_def)
    also have "\<dots> = take_bit (if odd i then 25 else 26) (drop_bit (expo i) ?V)"
      using that by (simp add: fexpand_terms [OF assms] nth_terms10)
    finally show ?thesis
      using take_bit_int_less_exp [of 25 "drop_bit (expo i) ?V"] take_bit_int_less_exp [of 26 "drop_bit (expo i) ?V"]
      by simp
  qed
  ultimately show ?thesis
    by (simp add: fe_def take_bit_eq_mod) (simp add: fexpand_def)
qed

end
