(* ===== verification/Donna_Pack.thy ===== *)
theory Donna_Pack
  imports Donna_Ladder
begin

text \<open>
  The last part of \<open>fcontract\<close> of curve25519-donna.c: ten limbs within their widths become 32
  little-endian bytes of the same value.
\<close>

section \<open>Writing the bytes\<close>

lemma le_value_append: "le_value (xs @ ys) = le_value xs + 256 ^ length xs * le_value ys"
  by (induction xs) (simp_all add: algebra_simps)

lemma le_value_nonneg: "0 \<le> le_value bs"
  by (induction bs) auto

lemma le_value_replicate_0: "le_value (replicate n 0) = 0"
  by (induction n) auto

lemma le_value_bound: "le_value bs < 256 ^ length bs"
proof (induction bs)
  case (Cons b bs)
  then show ?case
    using uint_bounded [of b] by simp
qed simp

lemma byte_of_word:
  assumes "k + 8 \<le> 32"
  shows "uint (ucast (signed_drop_bit k (y :: s32) AND 0xff) :: byte) = uint y div 2 ^ k mod 256"
proof -
  have "uint (ucast (signed_drop_bit k y AND mask 8) :: byte) = take_bit 8 (drop_bit k (uint y))"
    using assms by (intro bit_eqI) (auto simp: bit_uint_iff bit_unsigned_iff bit_and_iff bit_mask_iff
        bit_signed_drop_bit_iff bit_take_bit_iff bit_drop_bit_eq)
  then show ?thesis
    by (simp add: take_bit_eq_mod drop_bit_eq_div mask_eq_exp_minus_1)
qed

lemma uint_or_disjoint:
  assumes "uint a < 2 ^ s" "2 ^ s dvd uint b"
  shows "uint (a OR b :: byte) = uint a + uint b"
proof -
  have "take_bit s (uint a) = uint a" "take_bit s (uint b) = 0"
    using assms by (simp_all add: take_bit_int_eq_self take_bit_eq_mod)
  then have "uint a AND uint b = 0"
    by (intro bit_eqI) (metis bit_0_eq bit_and_iff bit_take_bit_iff bot_apply bot_bool_def)
  then show ?thesis
    by (simp add: uint_or flip: disjunctive_add_eq_or)
qed

text \<open>The first \<open>n\<close> bytes hold \<open>V\<close>; byte 16 is still zero while it has not been written.\<close>

definition packed :: "nat \<Rightarrow> int \<Rightarrow> bytes \<Rightarrow> bool" where
  "packed n V out \<longleftrightarrow> length out = 32 \<and> n \<le> 32 \<and> le_value (take n out) = V \<and> (n \<le> 16 \<longrightarrow> out ! 16 = 0)"

lemma packed_16: "packed 16 V out \<Longrightarrow> packed 17 V out"
  using take_Suc_conv_app_nth [of 16 out] by (simp add: packed_def le_value_append)

lemma four_bytes_value:
  fixes y :: int
  assumes "0 \<le> y" "y < 2 ^ 32"
  shows "y mod 256 + 256 * (y div 2 ^ 8 mod 256 + 256 * (y div 2 ^ 16 mod 256 + 256 * (y div 2 ^ 24 mod 256))) = y"
proof -
  have q: "y div 2 ^ 24 = y div 2 ^ 16 div 256" "y div 2 ^ 16 = y div 2 ^ 8 div 256" "y div 2 ^ 8 = y div 256"
    by (simp_all flip: zdiv_zmult2_eq)
  have top: "y div 2 ^ 24 mod 256 = y div 2 ^ 24"
    using assms by (intro mod_pos_pos_trivial) auto
  show ?thesis
    unfolding top unfolding q mod_mult_div_eq ..
qed

lemma take_four_updates:
  assumes "s + 4 \<le> length out"
  shows "take (s + 4) (out[s := a, s + 1 := b, s + 2 := c, s + 3 := d]) = take s out @ [a, b, c, d]"
proof -
  define xs where "xs = take s out"
  have "drop s out = out ! s # out ! (s + 1) # out ! (s + 2) # out ! (s + 3) # drop (Suc (s + 3)) out"
    using assms Cons_nth_drop_Suc [of s out] Cons_nth_drop_Suc [of "s + 1" out]
      Cons_nth_drop_Suc [of "s + 2" out] Cons_nth_drop_Suc [of "s + 3" out]
    by (simp add: numeral_3_eq_3)
  then obtain e f g h ys where "out = xs @ e # f # g # h # ys"
    unfolding xs_def by (metis append_take_drop_id)
  moreover have "length xs = s"
    using assms by (simp add: xs_def)
  ultimately show ?thesis
    by (simp add: list_update_append flip: xs_def)
qed

lemma uint_push_bit_small:
  fixes x :: s32
  assumes "0 \<le> sint x" "sint x < 2 ^ w" "sh + w \<le> 32"
  shows "uint (push_bit sh x) = 2 ^ sh * sint x" "2 ^ sh * sint x < 2 ^ 32"
proof -
  have "2 ^ sh * sint x < 2 ^ sh * 2 ^ w"
    using assms(2) by simp
  also have "\<dots> \<le> (2 :: int) ^ 32"
    using assms(3) by (simp add: power_increasing flip: power_add del: power_numeral)
  finally show b: "2 ^ sh * sint x < 2 ^ 32" .
  have "push_bit sh x = of_int (2 ^ sh * sint x)"
    by (rule of_int_push_bit)
  then show "uint (push_bit sh x) = 2 ^ sh * sint x"
    using b assms(1) by (simp add: uint_word_of_int_eq take_bit_int_eq_self del: of_int_mult of_int_power)
qed

lemma packed_step:
  assumes p: "packed (s + 1) V out" "V < 2 ^ (8 * s + sh)" "sh \<le> 8"
    and y: "y = push_bit sh x" "0 \<le> sint x" "sint x < 2 ^ w" "sh + w \<le> 32"
    and s: "s + 4 \<le> 16 \<or> 16 \<le> s \<and> s + 4 \<le> 32"
  shows "packed (s + 4) (V + 2 ^ (8 * s + sh) * sint x) (contract_bytes y s out)"
proof -
  let ?o = "uint (out ! s)" and ?lo = "ucast (y AND 0xff) :: byte"
  have len: "length out = 32" and V: "V = le_value (take s out) + 256 ^ s * ?o"
    using p(1) s take_Suc_conv_app_nth [of s out] by (auto simp: packed_def le_value_append)
  have uy: "uint y = 2 ^ sh * sint x" "uint y < 2 ^ 32"
    using uint_push_bit_small [OF y(2-4)] by (simp_all add: y(1))
  have "(2 :: int) ^ (8 * s + sh) = 256 ^ s * 2 ^ sh"
    by (simp add: power_add power_mult)
  then have "256 ^ s * ?o < 256 ^ s * 2 ^ sh"
    using p(2) le_value_nonneg [of "take s out"] V by linarith
  then have os: "?o < 2 ^ sh"
    by simp
  have lo: "uint ?lo = uint y mod 256"
    using byte_of_word [of 0 y] by simp
  have "2 ^ sh dvd uint ?lo"
    unfolding lo uy(1) using p(3) le_imp_power_dvd [of sh 8 "2 :: int"] by (simp add: dvd_mod)
  from uint_or_disjoint [OF os this] have "uint (out ! s OR ?lo) = ?o + uint y mod 256"
    by (simp only: lo)
  then have "le_value [out ! s OR ?lo, ucast (signed_drop_bit 8 y AND 0xff),
      ucast (signed_drop_bit 16 y AND 0xff), ucast (signed_drop_bit 24 y AND 0xff)] = ?o + uint y"
    using byte_of_word [of 8 y] byte_of_word [of 16 y] byte_of_word [of 24 y]
    by (simp only: le_value.simps mult_zero_right add_0_right add.assoc) (simp only: four_bytes_value [OF uint_ge_0 uy(2)])
  moreover have "length (contract_bytes y s out) = 32"
    using len by (simp add: contract_bytes_def Let_def)
  moreover have "contract_bytes y s out ! 16 = 0" if "s + 4 \<le> 16"
    using that p(1) by (simp add: contract_bytes_def Let_def packed_def)
  moreover have "take (s + 4) (contract_bytes y s out) = take s out @ [out ! s OR ?lo,
      ucast (signed_drop_bit 8 y AND 0xff), ucast (signed_drop_bit 16 y AND 0xff), ucast (signed_drop_bit 24 y AND 0xff)]"
    unfolding contract_bytes_def Let_def using s len by (intro take_four_updates) auto
  ultimately have "packed (s + 4) (le_value (take s out) + 256 ^ s * (?o + uint y)) (contract_bytes y s out)"
    using s len by (auto simp only: packed_def le_value_append length_take min.absorb2)
  moreover have "(2 :: int) ^ (8 * s + sh) = 256 ^ s * 2 ^ sh"
    by (simp add: power_add power_mult)
  ultimately show ?thesis
    by (simp add: V uy(1) distrib_left add.assoc mult.assoc)
qed

lemma packed_bound:
  fixes V x :: int
  assumes "V < 2 ^ a" "x < 2 ^ w"
  shows "V + 2 ^ a * x < 2 ^ (a + w)"
proof -
  have "2 ^ a * x \<le> 2 ^ a * (2 ^ w - 1)"
    using assms(2) by (intro mult_left_mono) auto
  then show ?thesis
    using assms(1) by (simp add: power_add algebra_simps)
qed

definition packed_below :: "nat \<Rightarrow> nat \<Rightarrow> int \<Rightarrow> bytes \<Rightarrow> bool" where
  "packed_below n e V out \<longleftrightarrow> packed n V out \<and> V < 2 ^ e"

text \<open>Limb \<open>i\<close> goes to byte \<open>s\<close>, shifted by \<open>sh\<close>; the limbs below it have been written.\<close>

lemma pack_limb:
  assumes "packed_below (s + 1) (expo i) (eval_from 0 (take i (map sint input))) out" "i < length input"
    "0 \<le> sint (input ! i)" "sint (input ! i) < 2 ^ (if odd i then 25 else 26)"
    "expo i = 8 * s + sh" "sh \<le> 6" "s + 4 \<le> 16 \<or> 16 \<le> s \<and> s + 4 \<le> 32"
  shows "packed_below (s + 4) (expo (Suc i)) (eval_from 0 (take (Suc i) (map sint input)))
    (contract_bytes (push_bit sh (input ! i)) s out)"
proof -
  let ?w = "if odd i then 25 else 26 :: nat" and ?V = "eval_from 0 (take i (map sint input))"
  have e: "expo (Suc i) = expo i + ?w"
    by (cases "odd i") (auto simp: expo_def elim!: oddE evenE)
  have V: "eval_from 0 (take (Suc i) (map sint input)) = ?V + 2 ^ expo i * sint (input ! i)"
    using assms(2) by (simp add: take_Suc_conv_app_nth eval_from_append)
  have "packed (s + 4) (?V + 2 ^ (8 * s + sh) * sint (input ! i)) (contract_bytes (push_bit sh (input ! i)) s out)"
    using assms by (intro packed_step [where w = ?w]) (auto simp: packed_below_def)
  moreover have "?V + 2 ^ expo i * sint (input ! i) < 2 ^ (expo i + ?w)"
    using assms(1,4) by (intro packed_bound) (simp add: packed_below_def)
  ultimately show ?thesis
    unfolding packed_below_def V e by (simp add: assms(5))
qed

lemma contract_pack_value:
  assumes len: "length input = 10" "length out = 32"
    and b: "\<And>i. i < 10 \<Longrightarrow> 0 \<le> sint (input ! i) \<and> sint (input ! i) < 2 ^ (if odd i then 25 else 26)"
  shows "length (contract_pack input out) = 32 \<and> le_value (contract_pack input out) = eval_from 0 (map sint input)"
proof -
  define P where "P s i = packed_below s (expo i) (eval_from 0 (take i (map sint input)))" for s i
  have step: "P (s + 4) (Suc i) (contract_bytes (push_bit sh (input ! i)) s out)"
    if "P (s + 1) i out" "i < 10" "expo i = 8 * s + sh" "sh \<le> 6" "s + 4 \<le> 16 \<or> 16 \<le> s \<and> s + 4 \<le> 32"
    for s i out sh
    using that pack_limb [of s i input out sh] b [of i] len(1) by (simp add: P_def)
  have at16: "P 17 i out" if "P 16 i out" for i out
    using that packed_16 by (simp add: P_def packed_below_def)
  define out0 where "out0 = out[0 := 0, 16 := 0]"
  define out1 where "out1 = contract_bytes (input ! 0) 0 out0"
  define out2 where "out2 = contract_bytes (push_bit 2 (input ! 1)) 3 out1"
  define out3 where "out3 = contract_bytes (push_bit 3 (input ! 2)) 6 out2"
  define out4 where "out4 = contract_bytes (push_bit 5 (input ! 3)) 9 out3"
  define out5 where "out5 = contract_bytes (push_bit 6 (input ! 4)) 12 out4"
  define out6 where "out6 = contract_bytes (input ! 5) 16 out5"
  define out7 where "out7 = contract_bytes (push_bit 1 (input ! 6)) 19 out6"
  define out8 where "out8 = contract_bytes (push_bit 3 (input ! 7)) 22 out7"
  define out9 where "out9 = contract_bytes (push_bit 4 (input ! 8)) 25 out8"
  define out10 where "out10 = contract_bytes (push_bit 6 (input ! 9)) 28 out9"
  have "P 1 0 out0"
    using len(2) by (cases out) (auto simp: P_def packed_below_def packed_def out0_def)
  then have "P 4 1 out1"
    unfolding out1_def using step [of 0 0 out0 0] by (simp add: expo_def)
  then have "P 7 2 out2"
    unfolding out2_def using step [of 3 1 out1 2] by (simp add: expo_def flip: numeral_2_eq_2)
  then have "P 10 3 out3"
    unfolding out3_def using step [of 6 2 out2 3] by (simp add: expo_def)
  then have "P 13 4 out4"
    unfolding out4_def using step [of 9 3 out3 5] by (simp add: expo_def)
  then have "P 16 5 out5"
    unfolding out5_def using step [of 12 4 out4 6] by (simp add: expo_def)
  then have "P 17 5 out5"
    by (rule at16)
  then have "P 20 6 out6"
    unfolding out6_def using step [of 16 5 out5 0] by (simp add: expo_def)
  then have "P 23 7 out7"
    unfolding out7_def using step [of 19 6 out6 1] by (simp add: expo_def)
  then have "P 26 8 out8"
    unfolding out8_def using step [of 22 7 out7 3] by (simp add: expo_def)
  then have "P 29 9 out9"
    unfolding out9_def using step [of 25 8 out8 4] by (simp add: expo_def)
  then have "P 32 10 out10"
    unfolding out10_def using step [of 28 9 out9 6] by (simp add: expo_def)
  moreover have "contract_pack input out = out10"
    by (simp add: contract_pack_def Let_def out0_def out1_def out2_def out3_def out4_def out5_def out6_def
        out7_def out8_def out9_def out10_def)
  ultimately show ?thesis
    using len(1) by (auto simp: P_def packed_below_def packed_def)
qed

end
