(* ===== verification/Donna_Contract.thy ===== *)
theory Donna_Contract
  imports Donna_Pack
begin

text \<open>
  \<open>fcontract\<close> of curve25519-donna.c: from limbs below \<open>2 ^ 26\<close> in absolute value it computes the
  canonical representative modulo \<open>2 ^ 255 - 19\<close> and writes it as 32 little-endian bytes.
\<close>

section \<open>The borrow and carry passes\<close>

lemma tracks_weaken:
  assumes "tracks bs v ws" "length cs = length bs"
    "\<forall>i < length bs. fst (cs ! i) \<le> fst (bs ! i) \<and> snd (bs ! i) \<le> snd (cs ! i)"
  shows "tracks cs v ws"
  using assms by (fastforce simp: tracks_def within_def)

lemma tracks_split:
  assumes "tracks ((l, h) # bs) v ws"
  shows "tracks ((l, m - 1) # bs) v ws \<or> tracks ((m, h) # bs) v ws"
  using assms by (cases ws) (auto simp: tracks_def)

definition pass_steps :: "(nat \<Rightarrow> carry_kind) \<Rightarrow> carry_step list" where
  "pass_steps c = map (\<lambda>i. (c (if i mod 2 = 1 then 25 else 26), i, Suc i, 1)) [0..<9] @ [(c 25, 9, 0, 19)]"

lemma fold_pass:
  assumes "length ws = 10" "\<And>i ws. length ws = 10 \<Longrightarrow> i < 9 \<Longrightarrow> f i ws = step_words (s i) ws"
  shows "n \<le> 9 \<Longrightarrow> fold f [0..<n] ws = fold step_words (map s [0..<n]) ws \<and> length (fold f [0..<n] ws) = 10"
  by (induction n) (use assms in auto)

lemma length_fold_step [simp]: "length (fold step_words ss ws) = length ws"
  by (induction ss arbitrary: ws) (simp_all del: step_words.simps)

lemma borrow_pass_steps:
  assumes "length ws = 10"
  shows "contract_borrow_pass ws = fold step_words (pass_steps Borrow) ws"
proof -
  let ?f = "\<lambda>i ws. if i mod 2 = 1 then contract_borrow 25 i (Suc i) 1 ws else contract_borrow 26 i (Suc i) 1 ws"
  have "?f i ws = step_words (Borrow (if i mod 2 = 1 then 25 else 26), i, Suc i, 1) ws"
    if "length ws = 10" "i < 9" for i ws
    using that contract_borrow_step [of i ws "Suc i" _ 1] by (simp del: step_words.simps)
  from fold_pass [of ws ?f, OF assms this order_refl] show ?thesis
    using contract_borrow_step [of 9 "fold ?f [0..<9] ws" 0 25 19]
    by (simp add: contract_borrow_pass_def pass_steps_def assms del: step_words.simps upt_rec_numeral length_greater_0_conv)
qed

lemma carry_pass_steps:
  assumes "length ws = 10"
  shows "contract_carry_pass ws = fold step_words (pass_steps Floor) ws"
proof -
  let ?f = "\<lambda>i ws. if i mod 2 = 1 then contract_carry 25 0x1ffffff i (Suc i) 1 ws
    else contract_carry 26 0x3ffffff i (Suc i) 1 ws"
  have m: "(0x3ffffff :: s32) = mask 26" "(0x1ffffff :: s32) = mask 25"
    by (simp_all add: mask_eq_exp_minus_1)
  have "?f i ws = step_words (Floor (if i mod 2 = 1 then 25 else 26), i, Suc i, 1) ws"
    if "length ws = 10" "i < 9" for i ws
    using that contract_carry_step [of i ws "Suc i" _ _ 1] unfolding m by (simp del: step_words.simps)
  from fold_pass [of ws ?f, OF assms this order_refl] show ?thesis
    using contract_carry_step [of 9 "fold ?f [0..<9] ws" 0 25 "0x1ffffff" 19] m(2)
    by (simp add: contract_carry_pass_def pass_steps_def assms del: step_words.simps upt_rec_numeral length_greater_0_conv)
qed

lemma length_passes [simp]:
  "length ws = 10 \<Longrightarrow> length (contract_borrow_pass ws) = 10"
  "length ws = 10 \<Longrightarrow> length (contract_carry_pass ws) = 10"
  "length (contract_borrow w i j k ws) = length ws"
  by (simp_all add: borrow_pass_steps carry_pass_steps contract_borrow_def Let_def)

text \<open>Bounds of \<open>input[0]\<close> and of the other limbs, and of limbs within their widths.\<close>

definition limb_bounds :: "int \<Rightarrow> int \<Rightarrow> bounds" where
  "limb_bounds l h = (l, h) # replicate 9 (0, 2 ^ 26 - 1)"

definition width_bounds :: "int \<Rightarrow> int \<Rightarrow> bounds" where
  "width_bounds l h = (l, h) # map (\<lambda>i. (0, if i mod 2 = 1 then 2 ^ 25 - 1 else 2 ^ 26 - 1)) [1..<10]"

lemma borrow_bounds_1:
  "run_steps 32 (pass_steps Borrow) (replicate 10 (- (2 ^ 26 - 1), 2 ^ 26 - 1)) =
     Some (limb_bounds (- 57) (2 ^ 26 - 1))"
  by code_simp

text \<open>The comment of the code has -19 for the bound -57; -56 is reached.\<close>

lemma borrow_pass_minus_56: "sint (contract_borrow_pass (replicate 10 (- 0x3ffffff)) ! 0) = - 56"
  by code_simp

lemma borrow_bounds_2:
  "run_steps 32 (pass_steps Borrow) (limb_bounds 0 (2 ^ 26 - 1)) = Some (limb_bounds 0 (2 ^ 26 - 1))"
  "run_steps 32 (pass_steps Borrow) (limb_bounds (- 57) (- 1)) =
     Some ((2 ^ 26 - 76, 2 ^ 26 - 1) # (0, 2 ^ 26 - 2) # replicate 8 (0, 2 ^ 26 - 1))"
  by code_simp+

lemma borrow_bounds_3:
  "run_steps 32 [(Borrow 26, 0, 1, 1)] (limb_bounds 0 (2 ^ 26 - 1)) = Some (limb_bounds 0 (2 ^ 26 - 1))"
  by code_simp

lemma carry_bounds_1:
  "run_steps 32 (pass_steps Floor) (limb_bounds 0 (2 ^ 26 - 1)) = Some (width_bounds 0 (2 ^ 26 + 37))"
  by code_simp

lemma carry_bounds_2:
  "run_steps 32 (pass_steps Floor) (width_bounds 0 (2 ^ 26 - 1)) = Some (width_bounds 0 (2 ^ 26 - 1))"
  "run_steps 32 (pass_steps Floor) (width_bounds (2 ^ 26) (2 ^ 26 + 37)) = Some (width_bounds 0 56)"
  by code_simp+

lemma tracks_run_32: "tracks bs v (ws :: s32 list) \<Longrightarrow> run_steps 32 ss bs = Some cs \<Longrightarrow> tracks cs v (fold step_words ss ws)"
  using tracks_run [of bs v ws ss cs] by simp

text \<open>After two borrow passes every limb is non-negative; after two carry passes it is within its width.\<close>

lemma borrow_passes:
  assumes "tracks (replicate 10 (- (2 ^ 26 - 1), 2 ^ 26 - 1)) v ws" "length ws = 10"
  shows "tracks (limb_bounds 0 (2 ^ 26 - 1)) v (contract_borrow_pass (contract_borrow_pass ws))"
proof -
  let ?ws = "contract_borrow_pass ws"
  have "tracks (limb_bounds (- 57) (2 ^ 26 - 1)) v ?ws"
    unfolding borrow_pass_steps [OF assms(2)] by (rule tracks_run_32 [OF assms(1) borrow_bounds_1])
  then consider "tracks (limb_bounds (- 57) (- 1)) v ?ws" | "tracks (limb_bounds 0 (2 ^ 26 - 1)) v ?ws"
    using tracks_split [where m = 0] unfolding limb_bounds_def by fastforce
  then show ?thesis
  proof cases
    case 1
    then have "tracks ((2 ^ 26 - 76, 2 ^ 26 - 1) # (0, 2 ^ 26 - 2) # replicate 8 (0, 2 ^ 26 - 1)) v (contract_borrow_pass ?ws)"
      using tracks_run_32 [OF 1 borrow_bounds_2(2)] assms(2) by (simp add: borrow_pass_steps [of ?ws])
    then show ?thesis
      by (rule tracks_weaken) (simp_all add: limb_bounds_def nth_Cons split: nat.splits)
  next
    case 2
    then show ?thesis
      using tracks_run_32 [OF 2 borrow_bounds_2(1)] assms(2) by (simp add: borrow_pass_steps [of ?ws])
  qed
qed

lemma carry_passes:
  assumes "tracks (limb_bounds 0 (2 ^ 26 - 1)) v ws" "length ws = 10"
  shows "tracks (width_bounds 0 (2 ^ 26 - 1)) v (contract_carry_pass (contract_carry_pass ws))"
proof -
  let ?ws = "contract_carry_pass ws"
  have "tracks (width_bounds 0 (2 ^ 26 + 37)) v ?ws"
    unfolding carry_pass_steps [OF assms(2)] by (rule tracks_run_32 [OF assms(1) carry_bounds_1])
  then consider "tracks (width_bounds 0 (2 ^ 26 - 1)) v ?ws" | "tracks (width_bounds (2 ^ 26) (2 ^ 26 + 37)) v ?ws"
    using tracks_split [where m = "2 ^ 26"] unfolding width_bounds_def by blast
  then show ?thesis
  proof cases
    case 1
    then show ?thesis
      using tracks_run_32 [OF 1 carry_bounds_2(1)] assms(2) by (simp add: carry_pass_steps [of ?ws])
  next
    case 2
    then have "tracks (width_bounds 0 56) v (contract_carry_pass ?ws)"
      using tracks_run_32 [OF 2 carry_bounds_2(2)] assms(2) by (simp add: carry_pass_steps [of ?ws])
    then show ?thesis
      by (rule tracks_weaken) (simp_all add: width_bounds_def nth_Cons split: nat.splits)
  qed
qed

section \<open>The final subtraction\<close>

lemma bit_and_push:
  "a' = a AND push_bit k a \<Longrightarrow> k \<le> n \<Longrightarrow> n < 32 \<Longrightarrow> bit (a' :: s32) n \<longleftrightarrow> bit a n \<and> bit a (n - k)"
  by (auto simp: bit_and_iff bit_push_bit_iff)

lemma upt_32:
  "[0..<32] = [0, 1, 2, 3, 4, 5, 6, 7, 8, 9, 10, 11, 12, 13, 14, 15, 16, 17, 18, 19, 20, 21, 22, 23, 24, 25, 26,
     27, 28, 29, 30, 31]"
  by code_simp

lemma all_bits_iff: "(a :: s32) = - 1 \<longleftrightarrow> list_all (bit a) [0..<32]"
  by (auto simp: list_all_iff intro!: bit_word_eqI)

lemma s32_eq_mask: "s32_eq a b = (if a = b then - 1 else 0)"
proof -
  define a0 where "a0 = NOT (a XOR b)"
  define a1 where "a1 = a0 AND push_bit 16 a0"
  define a2 where "a2 = a1 AND push_bit 8 a1"
  define a3 where "a3 = a2 AND push_bit 4 a2"
  define a4 where "a4 = a3 AND push_bit 2 a3"
  define a5 where "a5 = a4 AND push_bit 1 a4"
  note bits = bit_and_push [OF a1_def] bit_and_push [OF a2_def] bit_and_push [OF a3_def]
    bit_and_push [OF a4_def] bit_and_push [OF a5_def]
  have "s32_eq a b = signed_drop_bit 31 a5"
    unfolding s32_eq_def Let_def a5_def a4_def a3_def a2_def a1_def a0_def ..
  moreover have "sint a5 < 0 \<longleftrightarrow> bit a5 31"
    using bit_last_iff [of a5] by simp
  moreover have "bit a5 31 \<longleftrightarrow> list_all (bit a0) [0..<32]"
    by (auto simp: bits upt_32)
  moreover have "a0 = - 1 \<longleftrightarrow> a = b"
    unfolding a0_def by (metis bit.compl_zero bit.double_compl xor_self_eq xor.right_neutral xor.left_commute)
  ultimately show ?thesis
    by (simp add: sign_mask flip: all_bits_iff del: upt_rec_numeral)
qed

lemma s32_gte_mask:
  assumes "0 \<le> sint a" "0 \<le> sint b"
  shows "s32_gte a b = (if sint b \<le> sint a then - 1 else 0)"
proof -
  have "sint (a - b) = sint a - sint b"
    using assms sint_lt [of a] sint_lt [of b] by (intro sint_eqI) auto
  then show ?thesis
    unfolding s32_gte_def Let_def by (subst sign_mask) simp_all
qed

definition max_int :: "nat \<Rightarrow> int" where
  "max_int i = (if i mod 2 = 1 then 0x1ffffff else 0x3ffffff)"

lemma within_width_bounds:
  "within (width_bounds 0 (2 ^ 26 - 1)) xs \<longleftrightarrow> length xs = 10 \<and> (\<forall>i < 10. 0 \<le> xs ! i \<and> xs ! i \<le> max_int i)"
  by (auto simp: within_def width_bounds_def max_int_def nth_Cons less_Suc_eq numeral_eq_Suc split: nat.splits)

text \<open>The condition under which the code subtracts \<open>2 ^ 255 - 19\<close>.\<close>

definition at_least_p :: "int list \<Rightarrow> bool" where
  "at_least_p xs \<longleftrightarrow> 0x3ffffed \<le> xs ! 0 \<and> (\<forall>i \<in> set [1..<10]. xs ! i = max_int i)"

lemma fold_mask: "fold (\<lambda>i m. m AND (if P i then - 1 else 0)) xs m = (if \<forall>i \<in> set xs. P i then m else (0 :: s32))"
  by (induction xs arbitrary: m) auto

lemma fold_subtract_nth:
  "distinct is \<Longrightarrow> \<forall>i \<in> set is. i < length ws \<Longrightarrow> n < length ws \<Longrightarrow>
    fold (\<lambda>i ws. ws[i := ws ! i - g i]) is ws ! n = ws ! n - (if n \<in> set is then g n else (0 :: s32))"
proof (induction "is" arbitrary: ws)
  case (Cons i "is")
  then show ?case
    by (cases "n = i") simp_all
qed simp

lemma length_fold_update [simp]: "length (fold (\<lambda>i ws. ws[i := h i ws]) is ws) = length ws"
  by (induction "is" arbitrary: ws) auto

lemma sint_limb_max: "sint (limb_max i) = max_int i"
  by (simp add: limb_max_def max_int_def)

lemma contract_subtract_word:
  assumes "length ws = 10" "0 \<le> sint (ws ! 0)" "n < 10"
  shows "contract_subtract ws ! n =
    ws ! n - (if at_least_p (map sint ws) then if n = 0 then 0x3ffffed else limb_max n else 0)"
proof -
  have eq: "ws ! i = limb_max i \<longleftrightarrow> sint (ws ! i) = max_int i" for i
    by (metis sint_limb_max signed_word_eqI)
  define M where "M = (if at_least_p (map sint ws) then - 1 else (0 :: s32))"
  have M: "fold (\<lambda>i m. m AND s32_eq (ws ! i) (limb_max i)) [1..<10] (s32_gte (ws ! 0) 0x3ffffed) = M"
    using assms unfolding s32_eq_mask fold_mask
    by (simp add: s32_gte_mask M_def at_least_p_def eq del: upt_rec_numeral)
  have "contract_subtract ws ! n = (if n = 0 then ws ! 0 - (M AND 0x3ffffed) else ws ! n - (M AND limb_max n))"
    using assms unfolding contract_subtract_def Let_def M
    by (subst fold_subtract_nth) auto
  then show ?thesis
    by (simp add: M_def)
qed

lemma contract_subtract_nth:
  assumes "length ws = 10" "within (width_bounds 0 (2 ^ 26 - 1)) (map sint ws)" "n < 10"
  shows "sint (contract_subtract ws ! n) =
    sint (ws ! n) - (if at_least_p (map sint ws) then if n = 0 then 0x3ffffed else max_int n else 0)"
proof -
  have b: "0 \<le> sint (ws ! i)" "sint (ws ! i) \<le> max_int i" if "i < 10" for i
    using assms(1) assms(2) [unfolded within_width_bounds] that by auto
  define d where "d = (if at_least_p (map sint ws) then if n = 0 then 0x3ffffed else max_int n else 0)"
  have d: "0 \<le> d" "d \<le> 0x3ffffff" "max_int n \<le> 0x3ffffff"
    by (simp_all add: d_def max_int_def)
  have "contract_subtract ws ! n = of_int (sint (ws ! n) - d)"
    using b [of 0] assms by (simp add: d_def contract_subtract_word flip: sint_limb_max)
  moreover have "- (2 ^ 31) \<le> sint (ws ! n) - d" "sint (ws ! n) - d < 2 ^ 31"
    using b [OF assms(3)] d by simp_all
  ultimately show ?thesis
    unfolding d_def [symmetric] by (intro sint_eqI) simp_all
qed

lemma upt_9: "[1..<10] = [1, 2, 3, 4, 5, 6, 7, 8, 9]"
  by code_simp

lemma at_least_p_iff:
  assumes "within (width_bounds 0 (2 ^ 26 - 1)) xs"
  shows "at_least_p xs \<longleftrightarrow> p25519 \<le> eval_from 0 xs" "0 \<le> eval_from 0 xs" "eval_from 0 xs < 2 ^ 255"
proof -
  have len: "length xs = 10" and b: "\<And>i. i < 10 \<Longrightarrow> 0 \<le> xs ! i" "\<And>i. i < 10 \<Longrightarrow> xs ! i \<le> max_int i"
    using assms by (auto simp: within_width_bounds simp del: power_numeral)
  have xs: "xs = terms10 (\<lambda>i. xs ! i)"
    using len by (intro nth_equalityI) (simp_all add: nth_terms10 terms10_def [THEN arg_cong [where f = length]])
  have m: "max_int 0 = 2 ^ 26 - 1" "max_int 1 = 2 ^ 25 - 1" "max_int 2 = 2 ^ 26 - 1" "max_int 3 = 2 ^ 25 - 1"
    "max_int 4 = 2 ^ 26 - 1" "max_int 5 = 2 ^ 25 - 1" "max_int 6 = 2 ^ 26 - 1" "max_int 7 = 2 ^ 25 - 1"
    "max_int 8 = 2 ^ 26 - 1" "max_int 9 = 2 ^ 25 - 1"
    by (simp_all add: max_int_def)
  note bs = b(1) [of 0] b(1) [of 1] b(1) [of 2] b(1) [of 3] b(1) [of 4] b(1) [of 5] b(1) [of 6] b(1) [of 7]
    b(1) [of 8] b(1) [of 9] b(2) [of 0] b(2) [of 1] b(2) [of 2] b(2) [of 3] b(2) [of 4] b(2) [of 5] b(2) [of 6]
    b(2) [of 7] b(2) [of 8] b(2) [of 9]
  have e: "eval_from 0 xs = xs ! 0 + 2 ^ 26 * xs ! 1 + 2 ^ 51 * xs ! 2 + 2 ^ 77 * xs ! 3 + 2 ^ 102 * xs ! 4 +
      2 ^ 128 * xs ! 5 + 2 ^ 153 * xs ! 6 + 2 ^ 179 * xs ! 7 + 2 ^ 204 * xs ! 8 + 2 ^ 230 * xs ! 9"
    by (subst xs) (unfold terms10_def eval_10, rule refl)
  show "0 \<le> eval_from 0 xs" "eval_from 0 xs < 2 ^ 255"
    using bs unfolding e m by simp_all
  show "at_least_p xs \<longleftrightarrow> p25519 \<le> eval_from 0 xs"
  proof
    assume "at_least_p xs"
    then show "p25519 \<le> eval_from 0 xs"
      unfolding e p25519_def at_least_p_def upt_9 by (simp add: m [simplified])
  next
    assume "p25519 \<le> eval_from 0 xs"
    then show "at_least_p xs"
      using bs unfolding e p25519_def at_least_p_def upt_9 m by (auto simp: m [simplified])
  qed
qed

lemma contract_subtract_value:
  assumes "length ws = 10" "within (width_bounds 0 (2 ^ 26 - 1)) (map sint ws)"
  shows "length (contract_subtract ws) = 10"
    and "i < 10 \<Longrightarrow> 0 \<le> sint (contract_subtract ws ! i) \<and> sint (contract_subtract ws ! i) < 2 ^ 26"
    and "odd i \<Longrightarrow> i < 10 \<Longrightarrow> sint (contract_subtract ws ! i) < 2 ^ 25"
    and "eval_from 0 (map sint (contract_subtract ws)) = eval_from 0 (map sint ws) mod p25519"
proof -
  let ?c = "at_least_p (map sint ws)"
  show len: "length (contract_subtract ws) = 10"
    using assms(1) by (simp add: contract_subtract_def Let_def)
  have b: "0 \<le> sint (ws ! j)" "sint (ws ! j) \<le> max_int j" if "j < 10" for j
    using assms(1) assms(2) [unfolded within_width_bounds] that by auto
  have "0x3ffffed \<le> sint (ws ! 0)" "\<And>j. 1 \<le> j \<Longrightarrow> j < 10 \<Longrightarrow> sint (ws ! j) = max_int j" if ?c
    using that assms(1) by (auto simp: at_least_p_def)
  then have n: "0 \<le> sint (contract_subtract ws ! j)" "sint (contract_subtract ws ! j) \<le> max_int j" if "j < 10" for j
    using b [OF that] that by (auto simp: contract_subtract_nth [OF assms that] max_int_def)
  show "0 \<le> sint (contract_subtract ws ! i) \<and> sint (contract_subtract ws ! i) < 2 ^ 26" if "i < 10"
    using n [OF that] by (auto simp: max_int_def split: if_splits)
  show "sint (contract_subtract ws ! i) < 2 ^ 25" if "odd i" "i < 10"
    using n [OF that(2)] that(1) by (simp add: max_int_def odd_iff_mod_2_eq_one)
  let ?d = "\<lambda>i. if ?c then if i = 0 then 0x3ffffed else max_int i else 0"
  have "map sint (contract_subtract ws) = terms10 (\<lambda>i. sint (contract_subtract ws ! i))"
    using take_terms10 [of "contract_subtract ws"] len by simp
  also have "\<dots> = terms10 (\<lambda>i. 1 * sint (ws ! i) + (- 1) * ?d i)"
    by (rule terms10_cong) (simp add: contract_subtract_nth [OF assms])
  finally have diff: "map sint (contract_subtract ws) = \<dots>" .
  have ws: "map sint ws = terms10 (\<lambda>i. sint (ws ! i))"
    using take_terms10 [of ws] assms(1) by simp
  have d: "eval_from 0 (terms10 ?d) = (if ?c then p25519 else 0)"
    by (simp add: terms10_def max_int_def p25519_def expo_def)
  have e: "eval_from 0 (map sint (contract_subtract ws)) = eval_from 0 (map sint ws) - (if ?c then p25519 else 0)"
    unfolding diff eval_linear d by (simp flip: ws)
  note at_least_p_iff [OF assms(2)]
  then show "eval_from 0 (map sint (contract_subtract ws)) = eval_from 0 (map sint ws) mod p25519"
    unfolding e by (auto simp: p25519_def mod_pos_pos_trivial intro!: int_mod_pos_eq [symmetric])
qed

section \<open>fcontract\<close>

lemma tracks_s32:
  assumes "fe (2 ^ 26) v ws"
  shows "tracks (replicate 10 (- (2 ^ 26 - 1), 2 ^ 26 - 1)) v (map (\<lambda>x. ucast x :: s32) (take 10 ws))"
proof -
  have len: "10 \<le> length ws" and b: "\<bar>sint (ws ! i)\<bar> < 2 ^ 26" if "i < 10" for i
    using assms that by (auto simp: fe_def)
  have "sint (ucast (ws ! i) :: s32) = sint (ws ! i)" if "i < 10" for i
    using b [OF that] by (intro sint_ucast_s32) (auto simp: abs_less_iff)
  then have m: "map sint (map (\<lambda>x. ucast x :: s32) (take 10 ws)) = map sint (take 10 ws)"
    by (intro nth_equalityI) auto
  have "- (2 ^ 26 - 1) \<le> x \<and> x \<le> 2 ^ 26 - 1" if x: "x \<in> set (map sint (take 10 ws))" for x
  proof -
    obtain i where "i < 10" "x = sint (ws ! i)"
      using x by (auto simp: in_set_conv_nth)
    then show ?thesis
      using b [of i] by auto
  qed
  then show ?thesis
    using assms m by (simp add: tracks_def within_replicate fe_def del: map_map)
qed

lemma fcontract_value:
  assumes "fe (2 ^ 26) v ws" "length out = 32"
  shows "length (fcontract out ws) = 32 \<and> le_value (fcontract out ws) = v mod p25519"
proof -
  define ws0 where "ws0 = map (\<lambda>x. ucast x :: s32) (take 10 ws)"
  define ws1 where "ws1 = contract_borrow_pass (contract_borrow_pass ws0)"
  define ws2 where "ws2 = contract_borrow 26 0 1 1 ws1"
  define ws3 where "ws3 = contract_carry_pass (contract_carry_pass ws2)"
  have len: "length ws0 = 10" "length ws1 = 10" "length ws2 = 10" "length ws3 = 10"
    using assms(1) by (simp_all add: fe_def ws0_def ws1_def ws2_def ws3_def)
  have "tracks (limb_bounds 0 (2 ^ 26 - 1)) v ws1"
    unfolding ws1_def using tracks_s32 [OF assms(1)] len(1) by (intro borrow_passes) (simp_all only: ws0_def)
  then have "tracks (limb_bounds 0 (2 ^ 26 - 1)) v ws2"
    using tracks_run_32 [OF _ borrow_bounds_3, of v ws1] contract_borrow_step [of 0 ws1 1 26 1] len(2)
    by (simp add: ws2_def del: step_words.simps)
  then have t: "tracks (width_bounds 0 (2 ^ 26 - 1)) v ws3"
    unfolding ws3_def using len(3) by (rule carry_passes)
  have "length (width_bounds 0 (2 ^ 26 - 1)) = 10"
    by (simp add: width_bounds_def)
  then have w: "within (width_bounds 0 (2 ^ 26 - 1)) (map sint ws3)" "eval_from 0 (map sint ws3) mod p25519 = v mod p25519"
    using t len(4) by (simp_all add: tracks_def)
  have "fcontract out ws = contract_pack (contract_subtract ws3) out"
    by (simp add: fcontract_def Let_def ws0_def ws1_def ws2_def ws3_def)
  then show ?thesis
    using contract_subtract_value [OF len(4) w(1)] w(2) assms(2) contract_pack_value [of "contract_subtract ws3" out]
    by simp
qed

section \<open>curve25519\_donna\<close>

primrec le_bytes :: "nat \<Rightarrow> int \<Rightarrow> bytes" where
  "le_bytes 0 v = []"
| "le_bytes (Suc n) v = of_int v # le_bytes n (v div 256)"

lemma le_bytes_value: "le_bytes (length bs) (le_value bs) = bs"
proof (induction bs)
  case (Cons b bs)
  have "(uint b + 256 * le_value bs) div 256 = le_value bs"
    using uint_bounded [of b] by simp
  moreover have "(256 :: byte) = 0"
    by (rule word_uint_eqI) simp
  then have "256 * w = 0" for w :: byte
    by (metis mult_zero_left)
  ultimately show ?case
    using Cons by simp
qed simp

lemma curve25519_donna_value:
  assumes "length mypublic = 32" "length secret = 32" "length basepoint = 32"
  shows "curve25519_donna_c mypublic secret basepoint =
    (0, le_bytes 32 (x25519 (le_value secret) (le_value basepoint mod 2 ^ 255)))"
proof -
  let ?u = "le_value basepoint mod 2 ^ 255"
  let ?P = "fst (ladder (le_value secret) ?u 256 ((1, 0), (?u, 1)))"
  let ?c = "cmult secret (fexpand basepoint)"
  have c: "fe (2 ^ 26) (fst ?P) (fst ?c)" "fe (2 ^ 26) (snd ?P) (snd ?c)"
    using cmult_fe [OF fexpand_fe [OF assms(3)] assms(2)] by (simp_all add: Let_def)
  have "fe (2 ^ 26) (fst ?P * snd ?P ^ nat (p25519 - 2)) (fmul (fst ?c) (crecip (snd ?c)))"
    by (intro fe_fmul fe_27 c fe_crecip)
  from fcontract_value [OF this assms(1)] show ?thesis
    using le_bytes_value [of "fcontract mypublic (fmul (fst ?c) (crecip (snd ?c)))"] assms(2)
    by (simp add: curve25519_donna_c_def x25519_def Let_def split_beta)
qed

end
