(* ===== verification/Curve_Properties.thy ===== *)
theory Curve_Properties
  imports Donna_Contract Sample_Provider
begin

text \<open>
  Properties of the scalar multiplication of curve25519-donna.c, alone and behind the key functions of
  curve.c.
\<close>

section \<open>Scalar multiplication\<close>

text \<open>C4: for every scalar, point and output buffer of 32 bytes, \<open>curve25519_donna\<close> returns 0 and writes the
  little-endian bytes of the x-coordinate that the Montgomery ladder of RFC 7748 gives over the integers modulo
  \<open>2 ^ 255 - 19\<close>, run over the 256 bits of the scalar, with the highest bit of the point ignored and the result
  fully reduced; the former contents of the buffer do not matter.\<close>

theorem donna_is_x25519:
  assumes "length mypublic = 32" and "length secret = 32" and "length point = 32"
  shows "curve25519_donna_c mypublic secret point =
    (0, le_bytes 32 (x25519 (le_value secret) (le_value point mod 2 ^ 255)))"
  using assms by (rule curve25519_donna_value)

theorem donna_is_x25519_witness:
  "curve25519_donna_c (replicate 32 7) (8 # replicate 30 0 @ [64]) (9 # replicate 31 0) =
    (0, le_bytes 32 (x25519 (8 + 2 ^ 254) 9))"
  using donna_is_x25519 [of "replicate 32 7" "8 # replicate 30 0 @ [64]" "9 # replicate 31 0"]
  by (simp add: le_value_append le_value_replicate_0)

section \<open>Field arithmetic\<close>

text \<open>C14: for elements whose limbs are below \<open>2 ^ 27\<close> in absolute value, products and squares are correct modulo
  \<open>2 ^ 255 - 19\<close> with limbs below \<open>2 ^ 26\<close>; sums and differences of reduced elements are correct with limbs below \<open>2 ^ 27\<close>; the inverse of a reduced element is
  its power to \<open>2 ^ 255 - 21\<close>; and a reduced element is written as the 32 bytes of its value below
  \<open>2 ^ 255 - 19\<close>.\<close>

theorem field_arithmetic_in_bounds:
  assumes "fe (2 ^ 27) a x" and "fe (2 ^ 27) b y" and "fe (2 ^ 26) c u" and "fe (2 ^ 26) d v" and "length out = 32"
  shows "fe (2 ^ 26) (a * b) (fmul x y) \<and> fe (2 ^ 26) (a * a) (fsquare x) \<and>
    fe (2 ^ 27) (c + d) (fsum u v) \<and> fe (2 ^ 27) (d - c) (fdifference u v) \<and>
    fe (2 ^ 26) (c ^ nat (p25519 - 2)) (crecip u) \<and> fcontract out u = le_bytes 32 (c mod p25519)"
  using assms fcontract_value [of c u out] le_bytes_value [of "fcontract out u"]
  by (simp add: fe_fmul fe_fsquare fe_sum_26 fe_difference_26 fe_crecip del: power_numeral)

theorem field_arithmetic_in_bounds_witness:
  "fcontract (replicate 32 0) (replicate 10 (- 1)) = le_bytes 32 (eval_from 0 (replicate 10 (- 1)) mod p25519) \<and>
    fe (2 ^ 26) (eval_from 0 (replicate 10 (- 1)) * eval_from 0 (replicate 10 (- 1))) (fsquare (replicate 10 (- 1)))"
proof -
  have "fe B (eval_from 0 (replicate 10 (- 1))) (replicate 10 (- 1))" if "1 < B" for B
    using that by (simp add: fe_def)
  then have "fe (2 ^ 27) (eval_from 0 (replicate 10 (- 1))) (replicate 10 (- 1))"
    "fe (2 ^ 26) (eval_from 0 (replicate 10 (- 1))) (replicate 10 (- 1))"
    by simp_all
  from field_arithmetic_in_bounds [OF this(1) this(1) this(2) this(2), of "replicate 32 0"] show ?thesis
    by (simp only: length_replicate)
qed

section \<open>Keys\<close>

text \<open>The context's scalar multiplication is that of curve25519-donna.c, whatever its output buffer held.\<close>

definition donna_linked :: "'c signal_context \<Rightarrow> bool" where
  "donna_linked ctx =
     (\<forall>k p. \<exists>buf. length buf = 32 \<and> curve25519_donna (curve25519 ctx) k p = curve25519_donna_c buf k p)"

abbreviation x25519_bytes :: "bytes \<Rightarrow> bytes \<Rightarrow> bytes" where
  "x25519_bytes k p \<equiv> le_bytes 32 (x25519 (le_value k) (le_value p mod 2 ^ 255))"

lemma length_le_bytes [simp]: "length (le_bytes n v) = n"
  by (induction n arbitrary: v) auto

lemma donna_linked_computes:
  assumes "donna_linked ctx"
  shows "donna_computes ctx x25519_bytes"
  unfolding donna_computes_def
proof (intro allI impI conjI)
  fix k p
  assume "wf_key k" "wf_key p"
  then show "curve25519_donna (curve25519 ctx) k p = (0, x25519_bytes k p)"
    using assms curve25519_donna_value [of _ k p] unfolding donna_linked_def by (metis length_DJB)
qed (simp add: wf_key_def DJB_KEY_LEN_def)

lemma le_value_basepoint: "le_value basepoint = 9"
  by (simp add: basepoint_def le_value_replicate_0)

lemma clamped_value:
  assumes "clamped k"
  shows "8 dvd le_value k \<and> 2 ^ 254 \<le> le_value k \<and> le_value k < 2 ^ 255"
proof (intro conjI)
  have len: "length k = 32" and low: "k ! 0 AND 7 = 0" and high: "k ! 31 AND 192 = 64"
    using assms by (simp_all add: clamped_def)
  have "uint (k ! 0) AND 7 = 0"
    using arg_cong [OF low, of uint] by (simp add: uint_and)
  then have "8 dvd uint (k ! 0)"
    using take_bit_eq_mask [of 3 "uint (k ! 0)"] by (simp add: take_bit_eq_mod mask_eq_exp_minus_1 mod_eq_0_iff_dvd)
  then show "8 dvd le_value k"
    using len by (cases k) auto
  have "k = take 31 k @ [k ! 31]"
    using len take_Suc_conv_app_nth [of 31 k] by simp
  then have v: "le_value k = le_value (take 31 k) + 256 ^ 31 * uint (k ! 31)"
    using len le_value_append [of "take 31 k" "[k ! 31]"] by simp
  have "uint (k ! 31) AND 192 = 64"
    using arg_cong [OF high, of uint] by (simp add: uint_and)
  then have "take_bit 2 (drop_bit 6 (uint (k ! 31))) = 1"
    using drop_bit_and [of 6 "uint (k ! 31)" 192] by (simp add: take_bit_eq_mask mask_eq_exp_minus_1)
  moreover have "uint (k ! 31) div 64 mod 4 = uint (k ! 31) div 64"
    using uint_bounded [of "k ! 31"] by (intro mod_pos_pos_trivial) (auto simp: pos_imp_zdiv_nonneg_iff)
  ultimately have "uint (k ! 31) div 64 = 1"
    by (simp add: take_bit_eq_mod drop_bit_eq_div)
  then have "64 \<le> uint (k ! 31) \<and> uint (k ! 31) < 128"
    by linarith
  then show "2 ^ 254 \<le> le_value k" "le_value k < 2 ^ 255"
    using v le_value_nonneg [of "take 31 k"] le_value_bound [of "take 31 k"] len by simp_all
qed

text \<open>C15: with curve25519-donna.c linked in, a generated private key is a clamped scalar, a multiple of 8 between
  \<open>2 ^ 254\<close> and \<open>2 ^ 255\<close>; its public key is the result of the ladder on the base point 9; and the agreement of any
  two keys is the result of the ladder on the other party's public key.\<close>

theorem agreement_is_x25519:
  fixes ctx :: "'c signal_context"
  assumes "donna_linked ctx" and "random_laws ctx" and "wf_key k" and "wf_key p"
  shows "yields (curve_calculate_agreement ctx (Some p) (Some k) :: ('c, 's, _) M)
      (le_bytes 32 (x25519 (le_value k) (le_value p mod 2 ^ 255))) \<and>
    ensures (curve_generate_key_pair ctx :: ('c, 's, _) M)
      (\<lambda>kp. 8 dvd le_value (private_key kp) \<and> 2 ^ 254 \<le> le_value (private_key kp) \<and>
         le_value (private_key kp) < 2 ^ 255 \<and>
         public_key kp = le_bytes 32 (x25519 (le_value (private_key kp)) 9))"
proof
  note computes = donna_linked_computes [OF assms(1)]
  show "yields (curve_calculate_agreement ctx (Some p) (Some k) :: ('c, 's, _) M) (x25519_bytes k p)"
    by (rule donna_calculate_agreement [OF computes assms(3,4)])
  show "ensures (curve_generate_key_pair ctx :: ('c, 's, _) M)
      (\<lambda>kp. 8 dvd le_value (private_key kp) \<and> 2 ^ 254 \<le> le_value (private_key kp) \<and>
         le_value (private_key kp) < 2 ^ 255 \<and>
         public_key kp = le_bytes 32 (x25519 (le_value (private_key kp)) 9))"
    by (rule ensures_mono [OF donna_generate_key_pair [OF computes assms(2)]])
       (auto simp: key_pair_of_def le_value_basepoint dest: clamped_value)
qed

definition donna_context :: "sample_memory signal_context" where
  "donna_context =
     sample_context\<lparr>curve25519 := sample_curve\<lparr>curve25519_donna := curve25519_donna_c (replicate 32 0)\<rparr>\<rparr>"

theorem agreement_is_x25519_witness:
  "yields (curve_calculate_agreement donna_context (Some (9 # replicate 31 0)) (Some (8 # replicate 30 0 @ [64]))
     :: (sample_memory, unit, _) M) (le_bytes 32 (x25519 (8 + 2 ^ 254) 9))"
proof -
  have "donna_linked donna_context"
    unfolding donna_linked_def donna_context_def by (auto intro!: exI [of _ "replicate 32 0"])
  moreover have "random_laws donna_context"
    using sample_random_laws by (simp add: random_laws_def donna_context_def)
  ultimately show ?thesis
    using agreement_is_x25519 [where 's = unit, of donna_context "8 # replicate 30 0 @ [64]" "9 # replicate 31 0"]
    by (simp add: wf_key_def DJB_KEY_LEN_def le_value_append le_value_replicate_0)
qed

end
