(* ===== verification/Spec2Isabelle.thy ===== *)
theory Spec2Isabelle
  imports Base_Properties Codec_Properties Session_Properties Group_Properties Identity_Properties Curve_Properties Interfaces
begin

text \<open>
  A model and correctness proofs of the Signal Protocol library in C that the repository carries, under
  src/libsignal-protocol-c/src, and of the in-memory stores of its tests (tests/test\_common.c).

  \<^bold>\<open>The program.\<close>  Two parties who have never met agree on keys from a published bundle of pre keys
  (session\_builder.c, ratchet.c), and then exchange messages whose keys come from a double ratchet
  (session\_cipher.c over session\_state.c and session\_record.c).  In a group every sender has a chain of keys of its
  own (sender\_key.c, sender\_key\_state.c, sender\_key\_record.c), which it hands out to the members
  (group\_session\_builder.c, group\_cipher.c).  Users compare fingerprints of their identity keys (fingerprint.c), and
  the devices of one user compare a code (device\_consistency.c).  Messages and stored objects are protocol buffers
  (protobuf-c, the generated .pb-c.c files, protocol.c).  Keys are made by key\_helper.c and curve.c over the
  scalar multiplication of curve25519/curve25519-donna.c, derived by hkdf.c and
  collected in the byte pool of vpool.c.  Everything that is kept goes through callbacks into stores, and all
  cryptography through callbacks of a provider.

  \<^bold>\<open>How code is modelled.\<close>  A function of the library is a function on a \<open>world\<close> (theory \<open>Prelude\<close>), which
  holds the outcomes of the allocations to come, the memory of the crypto provider and the data of the stores.
  The result is \<open>Ok\<close> with the out parameters, \<open>Err\<close> with the negative status, or \<open>Fault\<close> for what C leaves
  undefined: a null pointer that is read, an assertion that fails, a read or write outside of memory, the use of an
  object after it was freed, a loop that does not end.  \<open>guardE\<close>, \<open>derefE\<close>, \<open>assertE\<close> and \<open>finallyE\<close> are the checks, the
  reads of a pointer, the assertions and the code after the label \<open>complete\<close>.  An object that is passed by pointer and
  changed is returned in its new form.  Machine integers keep their width (\<open>32 word\<close> for counters and
  identifiers, \<open>8 word\<close> for bytes and for the loop counter of HKDF, sizes as naturals with the wrap-around of \<open>size_t\<close>
  written out where it can matter).  Lists of utlist.h are lists, arrays of utarray.h keep both their believed and
  their real capacity, uthash tables are association lists.

  \<^bold>\<open>Parameters and hypotheses.\<close>  The routines of curve25519 are a record of functions in the context, the crypto
  provider and the stores are records of callbacks.  What is documented of them are the hypotheses of the
  properties: \<open>hmac_laws\<close>, \<open>sha512_laws\<close> (the final call also prepares the context for reuse), \<open>cipher_laws\<close>,
  \<open>curve_laws\<close> (Diffie-Hellman commutes), \<open>signature_laws\<close> (what is signed verifies), \<open>vrf_laws\<close> (the output depends on
  key and message only), \<open>random_laws\<close> (the callback succeeds).  Theory \<open>Sample_Provider\<close> has a provider and a curve for
  which they hold; the witnesses of the properties are taken there.  For the stores, the locales \<open>protocol_store\<close> and
  \<open>sender_key_store\<close> state what the library relies on, and the stores of the tests are shown to provide it.

  \<^bold>\<open>Theories.\<close>

  \<^item> \<open>Prelude\<close>: results, sequencing, weakest preconditions; \<open>yields m x\<close> (without allocation failures \<open>m\<close> returns
    \<open>x\<close> and leaves the stores alone), \<open>ensures\<close>, \<open>fails\<close>; linked lists; windows of stored keys.
  \<^item> \<open>Interfaces\<close>: the locales \<open>object_codec\<close> (what is serialised is read back) and \<open>message_key_store\<close> (a bounded list
    of message keys).  They are interpreted for session states and records, pre keys, identity key pairs, the four
    kinds of message, sender key states and records, scannable fingerprints, and for the message keys of
    a session and of a group sender.
  \<^item> \<open>Signal_Base\<close> (signal\_protocol.c, signal\_utarray.h), \<open>Hkdf\<close>, \<open>Curve\<close>, \<open>Vpool\<close>, \<open>Ratchet\<close> (ratchet.c, chain and
    root keys): the lower layers.  \<open>Base_Properties\<close>: HKDF is RFC 5869, the pool is a list, keys agree, signatures
    verify, comparisons decide equality.
  \<^item> \<open>Protobuf\<close>, \<open>Protobuf_Laws\<close>, \<open>Proto_Schemas\<close>: the runtime, its round trip for every well-formed description,
    the descriptions of the library.  \<open>Session_State\<close>, \<open>Session_State_Laws\<close>, \<open>Session_Record\<close>, \<open>Pre_Keys\<close>, \<open>Messages\<close>,
    \<open>Messages_Laws\<close>: the stored objects and the messages.  \<open>Codec_Properties\<close>: every object is read back as it was
    written, unpacking stays within its input, message codes are checked exactly, lists stay within their bounds.
  \<^item> \<open>Ratcheting_Session\<close> (key agreement), \<open>Stores\<close>, \<open>Store_Laws\<close> (callbacks, the locale \<open>protocol_store\<close>),
    \<open>Session_Builder\<close>, \<open>Session_Cipher\<close>, \<open>Session_Cipher_Laws\<close>, \<open>Delivery\<close>, \<open>Double_Ratchet\<close>, \<open>Session_Exchange\<close>,
    \<open>Test_Stores\<close>: sessions.  The conversation of two parties is an inductive step relation with the invariant that
    both know the keys of the messages under way.  \<open>Session_Properties\<close>: the first message is read, every next
    message is read, messages are read in any order and only once, and forged messages, untrusted identities and bad
    bundles are refused with the stores unchanged.
  \<^item> \<open>Key_Helper\<close> (key\_helper.c), \<open>Sender_Keys\<close>, \<open>Sender_Keys_Laws\<close>, \<open>Sender_Messages\<close>, \<open>Group\<close>, \<open>Group_Laws\<close>: groups.
    The abstract state of a member is the position of the chain and the set of iterations that it has read
    (\<open>group_read\<close>); the operations of the cipher refine it.  \<open>Group_Properties\<close>: the messages of a sender reach a
    member in any order and are then refused as duplicates; messages without a valid signature are refused; only the owner
    encrypts; records are copied as they are; what goes wrong when a key is processed twice or memory is short.
  \<^item> \<open>Digest\<close> (runs of a SHA-512 context, decimal text), \<open>Fingerprint\<close>, \<open>Fingerprint_Laws\<close>, \<open>Device_Consistency\<close>,
    \<open>Device_Consistency_Laws\<close>.  \<open>Identity_Properties\<close>: both sides see the same digits and the comparison tells
    keys apart; the devices show the same code whatever the order of keys and messages; identifiers of pre keys.

  \<^item> \<open>Donna\<close> (curve25519-donna.c): field elements as ten signed 64-bit limbs, the ladder and the inversion, function
    by function.  \<open>Donna_Intervals\<close>: the value of a limb array modulo \<open>2 ^ 255 - 19\<close>, and an interval analysis in which
    every carry and borrow of the code is one step that keeps the value and moves the bounds; it is sound for words of
    any width and is evaluated on the carry chains of the code.  \<open>Donna_Field\<close>: products, reductions, the power
    \<open>2 ^ 255 - 21\<close>.  \<open>Donna_Ladder\<close>: the ladder of RFC 7748 over the integers (\<open>x25519\<close>), which \<open>fmonty\<close>, the conditional
    swap and the two loops of \<open>cmult\<close> refine, and the reading of a point.  \<open>Donna_Pack\<close>, \<open>Donna_Contract\<close>: the canonical bytes
    and \<open>curve25519_donna\<close> as a whole.  \<open>Curve_Properties\<close>: it computes \<open>x25519\<close> for all inputs of 32 bytes, and with
    it linked in, curve.c generates clamped keys and their public keys and agreements are those of \<open>x25519\<close>.
    The ladder runs over 256 bits where RFC 7748 has 255, as the code does; that its results commute, which
    \<open>curve_laws\<close> asks for, is the group law of the curve and is not proved.

  \<^bold>\<open>Bounds.\<close>  The loops over skipped messages take a fuel of 2001, one more than the 2000 passes that the check before
  them allows, and it is proved that it is not used up.  The loop of HKDF takes a fuel of 256, after which its 8-bit
  counter has had every value, so that a loop that is still running never ends.  The proofs about the wire
  format take messages below 2 to the 26 bytes, which keeps all sizes within 32 bits; well-formed objects are far below.

  \<^bold>\<open>Not modelled.\<close>  The Edwards arithmetic of curve25519/ed25519 and the XEdDSA and VRF signatures built on it
  (parameters), and the group law of the curve.  Locking and logging, which do not change
  the modelled state, and the clearing of memory that is freed.  Destructors, except where they use memory wrongly.
  The parts of protobuf-c that no description of the library uses (required fields, oneofs, packed arrays, services).
  The crypto provider of the tests, which calls OpenSSL or CommonCrypto, and the test programs.  The other directories of
  the repository are patches and build scripts against programs that are not in it, or vendored copies of other
  programs (asio, websocketpp, lighttpd, openssh, ppp, stunnel, freeradius, urllib3 and more), which neither call this
  library nor are called by it; patches have no code that stands on its own, and each of the vendored programs would
  be a development of its own.
\<close>

end
